(* ===== verification/Prelude.thy ===== *)
theory Prelude
  imports Main "HOL-Library.Sublist"
begin

text \<open>
  Shared vocabulary of the development: errors as values (\<open>'e + 'a\<close>, \<open>Inl\<close> is the
  Go error), loops that stop at the first error, computations that thread a state and
  may fail, and the list facts that several components use. The collections
  \<open>result_simps\<close> and \<open>act_simps\<close> carry the equations that run such computations,
  \<open>go_eval\<close> the ones that evaluate the Go library functions on literals.
\<close>

named_theorems result_simps "equations of the error combinators"
named_theorems act_simps "equations of the state-and-error combinators"
named_theorems go_eval "definitions to unfold when a Go library call is evaluated on literals"

section \<open>Errors as values\<close>

definition bind_result :: "'e + 'a \<Rightarrow> ('a \<Rightarrow> 'e + 'b) \<Rightarrow> 'e + 'b" where
  "bind_result m f = (case m of Inl e \<Rightarrow> Inl e | Inr x \<Rightarrow> f x)"

definition wrap_err :: "('e \<Rightarrow> 'f) \<Rightarrow> 'e + 'a \<Rightarrow> 'f + 'a" where
  "wrap_err w m = (case m of Inl e \<Rightarrow> Inl (w e) | Inr x \<Rightarrow> Inr x)"

definition is_ok :: "'e + 'a \<Rightarrow> bool" where
  "is_ok m = (case m of Inl _ \<Rightarrow> False | Inr _ \<Rightarrow> True)"

lemma bind_result_simps [simp, result_simps]:
  "bind_result (Inl e) f = Inl e"
  "bind_result (Inr x) f = f x"
  by (simp_all add: bind_result_def)

lemma wrap_err_simps [simp, result_simps]:
  "wrap_err w (Inl e) = Inl (w e)"
  "wrap_err w (Inr x) = Inr x"
  by (simp_all add: wrap_err_def)

lemma is_ok_simps [simp, result_simps]: "\<not> is_ok (Inl e)" "is_ok (Inr x)"
  by (simp_all add: is_ok_def)

lemma is_ok_iff: "is_ok m \<longleftrightarrow> (\<exists>x. m = Inr x)"
  by (cases m) auto

lemma bind_result_Inr_iff [result_simps]:
  "bind_result m f = Inr y \<longleftrightarrow> (\<exists>x. m = Inr x \<and> f x = Inr y)"
  by (cases m) auto

lemma bind_result_Inl_iff [result_simps]:
  "bind_result m f = Inl e \<longleftrightarrow> m = Inl e \<or> (\<exists>x. m = Inr x \<and> f x = Inl e)"
  by (cases m) auto

lemma wrap_err_Inr_iff [simp, result_simps]: "wrap_err w m = Inr x \<longleftrightarrow> m = Inr x"
  by (cases m) auto

lemma wrap_err_Inl_iff [result_simps]: "wrap_err w m = Inl e \<longleftrightarrow> (\<exists>d. m = Inl d \<and> e = w d)"
  by (cases m) auto

section \<open>Loops that stop at the first error\<close>

text \<open>\<open>traverse\<close> is a loop that builds a new slice and drops it on error.\<close>

primrec traverse :: "('a \<Rightarrow> 'e + 'b) \<Rightarrow> 'a list \<Rightarrow> 'e + 'b list" where
  "traverse f [] = Inr []"
| "traverse f (x # xs) =
     bind_result (f x) (\<lambda>y. bind_result (traverse f xs) (\<lambda>ys. Inr (y # ys)))"

text \<open>
  \<open>each_until\<close> is a loop that updates the elements of a slice in place: on error the
  elements before the failing one stay updated and the rest stay as they were.
\<close>

fun each_until :: "('a \<Rightarrow> 'e + 'a) \<Rightarrow> 'a list \<Rightarrow> 'e option \<times> 'a list" where
  "each_until f [] = (None, [])"
| "each_until f (x # xs) =
     (case f x of
        Inl e \<Rightarrow> (Some e, x # xs)
      | Inr y \<Rightarrow> (case each_until f xs of (r, ys) \<Rightarrow> (r, y # ys)))"

lemma traverse_Inr_iff:
  "traverse f xs = Inr ys \<longleftrightarrow> list_all2 (\<lambda>x y. f x = Inr y) xs ys"
proof (induction xs arbitrary: ys)
  case Nil
  then show ?case by (cases ys) auto
next
  case (Cons x xs)
  then show ?case by (cases ys) (auto simp: result_simps)
qed

lemma traverse_length: "traverse f xs = Inr ys \<Longrightarrow> length ys = length xs"
  by (auto simp: traverse_Inr_iff dest: list_all2_lengthD)

lemma traverse_is_ok: "is_ok (traverse f xs) \<longleftrightarrow> (\<forall>x \<in> set xs. is_ok (f x))"
  by (induction xs) (auto simp: is_ok_iff result_simps)

lemma traverse_Inl:
  "traverse f xs = Inl e \<Longrightarrow> \<exists>x \<in> set xs. f x = Inl e"
  by (induction xs) (auto simp: result_simps)

lemma traverse_cong [fundef_cong]:
  "xs = ys \<Longrightarrow> (\<And>x. x \<in> set ys \<Longrightarrow> f x = g x) \<Longrightarrow> traverse f xs = traverse g ys"
  by (induction ys arbitrary: xs) auto

lemma traverse_fixpoint:
  assumes "\<And>x. x \<in> set xs \<Longrightarrow> f x = Inr x"
  shows "traverse f xs = Inr xs"
  using assms by (induction xs) auto

lemma traverse_idem:
  assumes "traverse f xs = Inr ys" and "\<And>x y. x \<in> set xs \<Longrightarrow> f x = Inr y \<Longrightarrow> f y = Inr y"
  shows "traverse f ys = Inr ys"
  using assms
proof (induction xs arbitrary: ys)
  case Nil
  then show ?case by simp
next
  case (Cons x xs)
  from Cons.prems(1) obtain y zs
    where ys: "ys = y # zs" and y: "f x = Inr y" and zs: "traverse f xs = Inr zs"
    by (auto simp: bind_result_Inr_iff)
  have "traverse f zs = Inr zs"
    by (rule Cons.IH [OF zs]) (use Cons.prems(2) in auto)
  moreover from Cons.prems(2) [of x y] y have "f y = Inr y" by simp
  ultimately show ?case by (simp add: ys)
qed

lemma each_until_ok_iff:
  "each_until f xs = (None, ys) \<longleftrightarrow> traverse f xs = Inr ys"
proof (induction xs arbitrary: ys)
  case Nil
  then show ?case by auto
next
  case (Cons x xs)
  show ?case
  proof (cases "f x")
    case (Inl e)
    then show ?thesis by simp
  next
    case (Inr y)
    obtain r zs where run: "each_until f xs = (r, zs)" by fastforce
    have "traverse f xs = Inr us \<longleftrightarrow> r = None \<and> zs = us" for us
      using Cons.IH [of us] run by simp
    with Inr run show ?thesis by (cases "traverse f xs") (auto split: prod.splits)
  qed
qed

lemma each_until_length: "length (snd (each_until f xs)) = length xs"
  by (induction xs) (auto split: sum.splits prod.splits)

lemma each_until_error:
  assumes "each_until f xs = (Some e, ys)"
  shows "\<exists>us x vs us'. xs = us @ x # vs \<and> traverse f us = Inr us' \<and> f x = Inl e \<and> ys = us' @ x # vs"
  using assms
proof (induction xs arbitrary: ys)
  case Nil
  then show ?case by simp
next
  case (Cons x xs)
  show ?case
  proof (cases "f x")
    case (Inl d)
    with Cons.prems show ?thesis by (intro exI [of _ "[]"]) auto
  next
    case (Inr y)
    with Cons.prems obtain zs where "each_until f xs = (Some e, zs)" and ys: "ys = y # zs"
      by (auto split: prod.splits)
    from Cons.IH [OF this(1)] obtain us x' vs us' where
      "xs = us @ x' # vs" "traverse f us = Inr us'" "f x' = Inl e" "zs = us' @ x' # vs"
      by blast
    with Inr ys show ?thesis
      by (intro exI [of _ "x # us"] exI [of _ x'] exI [of _ vs] exI [of _ "y # us'"]) simp
  qed
qed

text \<open>
  \<open>for_each\<close> is the loop over a slice of objects that the body updates in place, the failing
  object included.
\<close>

fun for_each :: "('a \<Rightarrow> 'e option \<times> 'a) \<Rightarrow> 'a list \<Rightarrow> 'e option \<times> 'a list" where
  "for_each f [] = (None, [])"
| "for_each f (x # xs) =
     (case f x of
        (Some e, y) \<Rightarrow> (Some e, y # xs)
      | (None, y) \<Rightarrow> (case for_each f xs of (r, ys) \<Rightarrow> (r, y # ys)))"

lemma for_each_ok_iff:
  "for_each f xs = (None, ys) \<longleftrightarrow> list_all2 (\<lambda>x y. f x = (None, y)) xs ys"
proof (induction xs arbitrary: ys)
  case Nil
  then show ?case by auto
next
  case (Cons x xs)
  obtain e y where step: "f x = (e, y)" by fastforce
  obtain r zs where rest: "for_each f xs = (r, zs)" by fastforce
  show ?case
  proof (cases e)
    case None
    have "list_all2 (\<lambda>x y. f x = (None, y)) xs us \<longleftrightarrow> r = None \<and> us = zs" for us
      using Cons.IH [of us] rest by auto
    with None step rest show ?thesis by (cases ys) auto
  next
    case (Some d)
    with step show ?thesis by (cases ys) auto
  qed
qed

lemma for_each_is_ok: "fst (for_each f xs) = None \<longleftrightarrow> (\<forall>x \<in> set xs. fst (f x) = None)"
  by (induction xs) (auto split: prod.splits option.splits)

lemma for_each_cong [fundef_cong]:
  "xs = ys \<Longrightarrow> (\<And>x. x \<in> set ys \<Longrightarrow> f x = g x) \<Longrightarrow> for_each f xs = for_each g ys"
  by (induction ys arbitrary: xs) (auto split: prod.splits option.splits)

lemma for_each_length: "length (snd (for_each f xs)) = length xs"
  by (induction xs) (auto split: prod.splits option.splits)

text \<open>
  The contract of an update that converges: when it succeeds its result is settled, and a
  settled object is left as it is. A loop of such updates converges as well, so running it
  again succeeds and changes nothing.
\<close>

locale converging =
  fixes step :: "'a \<Rightarrow> 'e option \<times> 'a" and settled :: "'a \<Rightarrow> bool"
  assumes step_settles: "step x = (None, y) \<Longrightarrow> settled y"
    and settled_stable: "settled x \<Longrightarrow> step x = (None, x)"
begin

lemma step_again: "step x = (None, y) \<Longrightarrow> step y = (None, y)"
  by (rule settled_stable) (rule step_settles)

lemma loop_settles: "for_each step xs = (None, ys) \<Longrightarrow> list_all settled ys"
  unfolding for_each_ok_iff by (induction rule: list_all2_induct) (auto dest: step_settles)

lemma loop_stable: "list_all settled ys \<Longrightarrow> for_each step ys = (None, ys)"
  by (induction ys) (auto simp: settled_stable)

lemma loop_again: "for_each step xs = (None, ys) \<Longrightarrow> for_each step ys = (None, ys)"
  by (rule loop_stable) (rule loop_settles)

end

section \<open>Computations that thread a state and may fail\<close>

type_synonym ('w, 'e, 'a) action = "'w \<Rightarrow> ('e + 'a) \<times> 'w"

definition act_return :: "'a \<Rightarrow> ('w, 'e, 'a) action" where
  "act_return x w = (Inr x, w)"

definition act_throw :: "'e \<Rightarrow> ('w, 'e, 'a) action" where
  "act_throw e w = (Inl e, w)"

definition act_bind ::
  "('w, 'e, 'a) action \<Rightarrow> ('a \<Rightarrow> ('w, 'e, 'b) action) \<Rightarrow> ('w, 'e, 'b) action" where
  "act_bind m f w = (case m w of (r, w') \<Rightarrow> (case r of Inl e \<Rightarrow> (Inl e, w') | Inr x \<Rightarrow> f x w'))"

definition act_wrap :: "('e \<Rightarrow> 'f) \<Rightarrow> ('w, 'e, 'a) action \<Rightarrow> ('w, 'f, 'a) action" where
  "act_wrap c m w = (case m w of (r, w') \<Rightarrow> (wrap_err c r, w'))"

definition act_lift :: "'e + 'a \<Rightarrow> ('w, 'e, 'a) action" where
  "act_lift r w = (r, w)"

primrec act_iter :: "('a \<Rightarrow> ('w, 'e, unit) action) \<Rightarrow> 'a list \<Rightarrow> ('w, 'e, unit) action" where
  "act_iter f [] = act_return ()"
| "act_iter f (x # xs) = act_bind (f x) (\<lambda>_. act_iter f xs)"

lemma act_return_app [simp, act_simps]: "act_return x w = (Inr x, w)"
  by (simp add: act_return_def)

lemma act_throw_app [simp, act_simps]: "act_throw e w = (Inl e, w)"
  by (simp add: act_throw_def)

lemma act_lift_app [simp, act_simps]: "act_lift r w = (r, w)"
  by (simp add: act_lift_def)

lemma act_bind_Inr_iff [act_simps]:
  "act_bind m f w = (Inr y, w') \<longleftrightarrow> (\<exists>x v. m w = (Inr x, v) \<and> f x v = (Inr y, w'))"
  by (auto simp: act_bind_def split: prod.splits sum.splits)

lemma act_bind_Inl_iff [act_simps]:
  "act_bind m f w = (Inl e, w') \<longleftrightarrow>
     m w = (Inl e, w') \<or> (\<exists>x v. m w = (Inr x, v) \<and> f x v = (Inl e, w'))"
  by (auto simp: act_bind_def split: prod.splits sum.splits)

lemma act_bind_run:
  "m w = (Inr x, v) \<Longrightarrow> act_bind m f w = f x v"
  "m w = (Inl e, v) \<Longrightarrow> act_bind m f w = (Inl e, v)"
  by (simp_all add: act_bind_def)

lemma act_wrap_Inr_iff [act_simps]: "act_wrap c m w = (Inr x, w') \<longleftrightarrow> m w = (Inr x, w')"
  by (auto simp: act_wrap_def split: prod.splits)

lemma act_wrap_run:
  "m w = (Inr x, v) \<Longrightarrow> act_wrap c m w = (Inr x, v)"
  "m w = (Inl e, v) \<Longrightarrow> act_wrap c m w = (Inl (c e), v)"
  by (simp_all add: act_wrap_def)

text \<open>A state predicate kept by every element's action is kept by the loop, error or not.\<close>

lemma act_iter_invariant:
  assumes "P w" and "\<And>x v. x \<in> set xs \<Longrightarrow> P v \<Longrightarrow> P (snd (f x v))"
  shows "P (snd (act_iter f xs w))"
  using assms
proof (induction xs arbitrary: w)
  case Nil
  then show ?case by simp
next
  case (Cons x xs)
  obtain r v where run: "f x w = (r, v)" by fastforce
  with Cons.prems have "P v" by (metis list.set_intros(1) snd_conv)
  with Cons.IH [of v] Cons.prems(2) have "P (snd (act_iter f xs v))" by simp
  with run \<open>P v\<close> show ?case by (cases r) (simp_all add: act_bind_def)
qed

section \<open>Slices keyed by a function: first-seen order\<close>

text \<open>
  \<open>first_by k xs\<close> keeps the first element of every key, in order. It is what a Go loop
  over a \<open>seen\<close> map computes.
\<close>

fun first_by_aux :: "('a \<Rightarrow> 'k) \<Rightarrow> 'k list \<Rightarrow> 'a list \<Rightarrow> 'a list" where
  "first_by_aux k seen [] = []"
| "first_by_aux k seen (x # xs) =
     (if k x \<in> set seen then first_by_aux k seen xs
      else x # first_by_aux k (k x # seen) xs)"

definition first_by :: "('a \<Rightarrow> 'k) \<Rightarrow> 'a list \<Rightarrow> 'a list" where
  "first_by k xs = first_by_aux k [] xs"

lemma first_by_aux_keys:
  "distinct (map k (first_by_aux k seen xs)) \<and>
   k ` set (first_by_aux k seen xs) = k ` set xs - set seen"
  by (induction xs arbitrary: seen) auto

lemma first_by_aux_subseq: "subseq (first_by_aux k seen xs) xs"
  by (induction xs arbitrary: seen) auto

lemma first_by_distinct: "distinct (map k (first_by k xs))"
  and first_by_keys: "k ` set (first_by k xs) = k ` set xs"
  and first_by_subseq: "subseq (first_by k xs) xs"
  using first_by_aux_keys [of k "[]" xs] first_by_aux_subseq [of k "[]" xs]
  by (simp_all add: first_by_def)

lemma first_by_aux_id:
  "distinct (map k xs) \<Longrightarrow> k ` set xs \<inter> set seen = {} \<Longrightarrow> first_by_aux k seen xs = xs"
  by (induction xs arbitrary: seen) auto

lemma first_by_id: "distinct (map k xs) \<Longrightarrow> first_by k xs = xs"
  by (simp add: first_by_def first_by_aux_id)

lemma first_by_idem: "first_by k (first_by k xs) = first_by k xs"
  by (simp add: first_by_id first_by_distinct)

section \<open>Lists\<close>

lemma map_of_list_unique:
  "distinct (map fst ps) \<Longrightarrow> (k, v) \<in> set ps \<Longrightarrow> map_of ps k = Some v"
  by (simp add: map_of_is_SomeI)

lemma takeWhile_neq_append:
  "c \<notin> set xs \<Longrightarrow> takeWhile (\<lambda>x. x \<noteq> c) (xs @ c # ys) = xs"
  by (induction xs) auto

lemma dropWhile_neq_append:
  "c \<notin> set xs \<Longrightarrow> dropWhile (\<lambda>x. x \<noteq> c) (xs @ c # ys) = c # ys"
  by (induction xs) auto

lemma takeWhile_neq_id: "c \<notin> set xs \<Longrightarrow> takeWhile (\<lambda>x. x \<noteq> c) xs = xs"
  by (induction xs) auto

lemma dropWhile_neq_Nil: "c \<notin> set xs \<Longrightarrow> dropWhile (\<lambda>x. x \<noteq> c) xs = []"
  by (induction xs) auto

end
