(* ===== verification/GoStrings.thy ===== *)
theory GoStrings
  imports Prelude
begin

text \<open>
  The functions of Go's packages \<open>strings\<close> and \<open>strconv\<close> that the program calls. A Go
  string is a sequence of bytes, so it is a HOL \<open>string\<close> (a list of 8-bit characters);
  every function below is the library's, on all byte strings. \<open>strings.TrimSpace\<close> and
  \<open>strings.EqualFold\<close> look at Unicode code points: the byte sequences that matter are
  listed.
\<close>

section \<open>Bytes\<close>

definition byte_val :: "char \<Rightarrow> nat" where
  "byte_val c = of_char c"

definition is_digit :: "char \<Rightarrow> bool" where
  "is_digit c \<longleftrightarrow> 48 \<le> byte_val c \<and> byte_val c \<le> 57"

definition digit_val :: "char \<Rightarrow> nat" where
  "digit_val c = byte_val c - 48"

definition digit_char :: "nat \<Rightarrow> char" where
  "digit_char n = ''0123456789'' ! n"

section \<open>Prefixes, suffixes, cutting\<close>

definition HasPrefix :: "string \<Rightarrow> string \<Rightarrow> bool" where
  "HasPrefix s p \<longleftrightarrow> prefix p s"

definition HasSuffix :: "string \<Rightarrow> string \<Rightarrow> bool" where
  "HasSuffix s q \<longleftrightarrow> prefix (rev q) (rev s)"

definition TrimPrefix :: "string \<Rightarrow> string \<Rightarrow> string" where
  "TrimPrefix s p = (if HasPrefix s p then drop (length p) s else s)"

definition CutSuffix :: "string \<Rightarrow> string \<Rightarrow> string option" where
  "CutSuffix s q = (if HasSuffix s q then Some (take (length s - length q) s) else None)"

definition TrimSuffix :: "string \<Rightarrow> string \<Rightarrow> string" where
  "TrimSuffix s q = (case CutSuffix s q of Some r \<Rightarrow> r | None \<Rightarrow> s)"

text \<open>\<open>strings.Cut\<close> at a one-byte separator: the parts around its first occurrence.\<close>

definition Cut :: "string \<Rightarrow> char \<Rightarrow> string \<times> string \<times> bool" where
  "Cut s c =
     (if c \<in> set s then (takeWhile (\<lambda>x. x \<noteq> c) s, tl (dropWhile (\<lambda>x. x \<noteq> c) s), True)
      else (s, [], False))"

text \<open>The parts around the last occurrence (\<open>s[:i]\<close> and \<open>s[i+1:]\<close> for \<open>i = LastIndex(s, c)\<close>).\<close>

definition cut_last :: "string \<Rightarrow> char \<Rightarrow> (string \<times> string) option" where
  "cut_last s c =
     (if c \<in> set s
      then Some (rev (tl (dropWhile (\<lambda>x. x \<noteq> c) (rev s))), rev (takeWhile (\<lambda>x. x \<noteq> c) (rev s)))
      else None)"

definition ContainsAny :: "string \<Rightarrow> string \<Rightarrow> bool" where
  "ContainsAny s chars \<longleftrightarrow> (\<exists>c \<in> set s. c \<in> set chars)"

fun Split :: "string \<Rightarrow> char \<Rightarrow> string list" where
  "Split [] c = [[]]"
| "Split (x # xs) c =
     (if x = c then [] # Split xs c
      else (case Split xs c of [] \<Rightarrow> [[x]] | w # ws \<Rightarrow> (x # w) # ws))"

fun Join :: "string list \<Rightarrow> string \<Rightarrow> string" where
  "Join [] sep = []"
| "Join [w] sep = w"
| "Join (w # v # vs) sep = w @ sep @ Join (v # vs) sep"

section \<open>Trimming white space\<close>

text \<open>The UTF-8 encodings of the code points that \<open>unicode.IsSpace\<close> accepts.\<close>

definition space_runes :: "string list" where
  "space_runes =
    [[CHR 0x20], [CHR 0x09], [CHR 0x0A], [CHR 0x0B], [CHR 0x0C], [CHR 0x0D],
     [CHR 0xC2, CHR 0x85], [CHR 0xC2, CHR 0xA0], [CHR 0xE1, CHR 0x9A, CHR 0x80],
     [CHR 0xE2, CHR 0x80, CHR 0x80], [CHR 0xE2, CHR 0x80, CHR 0x81],
     [CHR 0xE2, CHR 0x80, CHR 0x82], [CHR 0xE2, CHR 0x80, CHR 0x83],
     [CHR 0xE2, CHR 0x80, CHR 0x84], [CHR 0xE2, CHR 0x80, CHR 0x85],
     [CHR 0xE2, CHR 0x80, CHR 0x86], [CHR 0xE2, CHR 0x80, CHR 0x87],
     [CHR 0xE2, CHR 0x80, CHR 0x88], [CHR 0xE2, CHR 0x80, CHR 0x89],
     [CHR 0xE2, CHR 0x80, CHR 0x8A], [CHR 0xE2, CHR 0x80, CHR 0xA8],
     [CHR 0xE2, CHR 0x80, CHR 0xA9], [CHR 0xE2, CHR 0x80, CHR 0xAF],
     [CHR 0xE2, CHR 0x81, CHR 0x9F], [CHR 0xE3, CHR 0x80, CHR 0x80]]"

definition leading_rune :: "string list \<Rightarrow> string \<Rightarrow> string option" where
  "leading_rune rs s = find (\<lambda>r. r \<noteq> [] \<and> prefix r s) rs"

lemma leading_rune_Some:
  "leading_rune rs s = Some r \<Longrightarrow> r \<in> set rs \<and> r \<noteq> [] \<and> prefix r s"
  by (auto simp: leading_rune_def find_Some_iff)

function strip :: "string list \<Rightarrow> string \<Rightarrow> string" where
  "strip rs s =
     (case leading_rune rs s of None \<Rightarrow> s | Some r \<Rightarrow> strip rs (drop (length r) s))"
  by pat_completeness auto
termination
proof (relation "measure (\<lambda>(rs, s). length s)", simp)
  fix rs :: "string list" and s r :: string
  assume "leading_rune rs s = Some r"
  then have "r \<noteq> []" and "prefix r s" by (auto dest: leading_rune_Some)
  then have "0 < length r" and "length r \<le> length s" by (auto dest: prefix_length_le)
  then show "((rs, drop (length r) s), (rs, s)) \<in> measure (\<lambda>(rs, s). length s)"
    by (simp del: length_greater_0_conv)
qed

declare strip.simps [simp del]

definition TrimSpace :: "string \<Rightarrow> string" where
  "TrimSpace s = rev (strip (map rev space_runes) (rev (strip space_runes s)))"

section \<open>Decimal numbers\<close>

fun decimal :: "nat \<Rightarrow> string" where
  "decimal n = (if n < 10 then [digit_char n] else decimal (n div 10) @ [digit_char (n mod 10)])"

declare decimal.simps [simp del]

definition Itoa :: "int \<Rightarrow> string" where
  "Itoa i = (if i < 0 then ''-'' @ decimal (nat (- i)) else decimal (nat i))"

definition digits_val :: "string \<Rightarrow> nat" where
  "digits_val s = foldl (\<lambda>a c. a * 10 + digit_val c) 0 s"

definition parse_digits :: "string \<Rightarrow> nat option" where
  "parse_digits s = (if s \<noteq> [] \<and> list_all is_digit s then Some (digits_val s) else None)"

text \<open>
  \<open>strconv.Atoi\<close> on a 64-bit platform: an optional sign, at least one decimal digit,
  nothing else, and the value must fit an \<open>int64\<close>. \<open>None\<close> is a non-nil error.
\<close>

definition sign_split :: "string \<Rightarrow> bool \<times> string" where
  "sign_split s =
     (case s of
        [] \<Rightarrow> (False, [])
      | c # cs \<Rightarrow> if c = CHR ''-'' then (True, cs) else if c = CHR ''+'' then (False, cs) else (False, s))"

definition Atoi :: "string \<Rightarrow> int option" where
  "Atoi s =
     (case sign_split s of (neg, body) \<Rightarrow>
       (case parse_digits body of
          None \<Rightarrow> None
        | Some n \<Rightarrow>
            (let v = (if neg then - int n else int n)
             in if - (2 ^ 63) \<le> v \<and> v < 2 ^ 63 then Some v else None)))"

section \<open>Case folding against an ASCII string\<close>

text \<open>
  \<open>strings.EqualFold(s, t)\<close> for an ASCII \<open>t\<close>: every byte of \<open>t\<close> is matched by itself or
  by its other-case letter (bit 5 flipped), and the letters s and k also by the two code points beyond
  ASCII that fold onto them (U+017F, U+212A).
\<close>

definition other_case :: "char \<Rightarrow> char" where
  "other_case c =
     (let n = byte_val c
      in if 65 \<le> n \<and> n \<le> 90 \<or> 97 \<le> n \<and> n \<le> 122
         then (case c of Char b0 b1 b2 b3 b4 b5 b6 b7 \<Rightarrow> Char b0 b1 b2 b3 b4 (\<not> b5) b6 b7)
         else c)"

definition fold_forms :: "char \<Rightarrow> string list" where
  "fold_forms c =
     [[c], [other_case c]]
     @ (if c = CHR ''s'' \<or> c = CHR ''S'' then [[CHR 0xC5, CHR 0xBF]] else [])
     @ (if c = CHR ''k'' \<or> c = CHR ''K'' then [[CHR 0xE2, CHR 0x84, CHR 0xAA]] else [])"

fun EqualFold :: "string \<Rightarrow> string \<Rightarrow> bool" where
  "EqualFold s [] \<longleftrightarrow> s = []"
| "EqualFold s (c # t) \<longleftrightarrow>
     (case leading_rune (fold_forms c) s of
        None \<Rightarrow> False
      | Some r \<Rightarrow> EqualFold (drop (length r) s) t)"

lemmas go_string_defs [go_eval] =
  HasPrefix_def HasSuffix_def TrimPrefix_def CutSuffix_def TrimSuffix_def Cut_def
  cut_last_def ContainsAny_def byte_val_def is_digit_def digit_val_def digit_char_def
  parse_digits_def digits_val_def sign_split_def Atoi_def

section \<open>Facts about cutting\<close>

lemma HasPrefix_iff: "HasPrefix s p \<longleftrightarrow> (\<exists>r. s = p @ r)"
  by (auto simp: HasPrefix_def prefix_def)

lemma HasSuffix_iff: "HasSuffix s q \<longleftrightarrow> (\<exists>r. s = r @ q)"
proof -
  have "HasSuffix s q \<longleftrightarrow> suffix q s" by (simp add: HasSuffix_def suffix_to_prefix)
  then show ?thesis by (auto simp: suffix_def)
qed

lemma HasPrefix_append [simp]: "HasPrefix (p @ r) p"
  by (auto simp: HasPrefix_iff)

lemma HasSuffix_append [simp]: "HasSuffix (r @ q) q"
  by (auto simp: HasSuffix_iff)

lemma TrimPrefix_append [simp]: "TrimPrefix (p @ r) p = r"
  by (simp add: TrimPrefix_def)

lemma CutSuffix_append [simp]: "CutSuffix (r @ q) q = Some r"
  by (simp add: CutSuffix_def)

lemma TrimSuffix_append [simp]: "TrimSuffix (r @ q) q = r"
  by (simp add: TrimSuffix_def)

lemma CutSuffix_Some_iff: "CutSuffix s q = Some r \<longleftrightarrow> s = r @ q"
  by (auto simp: CutSuffix_def HasSuffix_iff)

lemma CutSuffix_None_iff: "CutSuffix s q = None \<longleftrightarrow> (\<nexists>r. s = r @ q)"
  by (auto simp: CutSuffix_def HasSuffix_iff)

lemma Cut_append [simp]: "c \<notin> set a \<Longrightarrow> Cut (a @ c # b) c = (a, b, True)"
  by (simp add: Cut_def takeWhile_neq_append dropWhile_neq_append)

lemma Cut_absent [simp]: "c \<notin> set s \<Longrightarrow> Cut s c = (s, [], False)"
  by (simp add: Cut_def)

lemma split_first_occurrence:
  "c \<in> set s \<Longrightarrow> \<exists>a b. s = a @ c # b \<and> c \<notin> set a"
  by (meson split_list_first)

lemma Cut_True: "Cut s c = (a, b, True) \<longleftrightarrow> s = a @ c # b \<and> c \<notin> set a"
proof
  assume cut: "Cut s c = (a, b, True)"
  then have "c \<in> set s" by (auto simp: Cut_def split: if_splits)
  then obtain a' b' where "s = a' @ c # b'" "c \<notin> set a'" using split_first_occurrence by metis
  with cut show "s = a @ c # b \<and> c \<notin> set a" by simp
qed simp

lemma Cut_False: "Cut s c = (a, b, False) \<longleftrightarrow> a = s \<and> b = [] \<and> c \<notin> set s"
  by (auto simp: Cut_def)

lemma cut_last_append [simp]: "c \<notin> set b \<Longrightarrow> cut_last (a @ c # b) c = Some (a, b)"
  by (simp add: cut_last_def takeWhile_neq_append dropWhile_neq_append)

lemma cut_last_None_iff: "cut_last s c = None \<longleftrightarrow> c \<notin> set s"
  by (simp add: cut_last_def)

lemma cut_last_Some_iff: "cut_last s c = Some (a, b) \<longleftrightarrow> s = a @ c # b \<and> c \<notin> set b"
proof
  assume cut: "cut_last s c = Some (a, b)"
  then have "c \<in> set s" by (auto simp: cut_last_def split: if_splits)
  then obtain a' b' where "s = a' @ c # b'" "c \<notin> set b'" by (meson split_list_last)
  with cut show "s = a @ c # b \<and> c \<notin> set b" by simp
qed simp

lemma cut_last_length: "cut_last s c = Some (a, b) \<Longrightarrow> length a + length b < length s"
  by (auto simp: cut_last_Some_iff)

section \<open>Facts about trimming\<close>

lemma strip_no_leading: "leading_rune rs (strip rs s) = None"
proof (induction rs s rule: strip.induct)
  case (1 rs s)
  then show ?case by (subst strip.simps) (auto split: option.splits)
qed

lemma strip_suffix: "suffix (strip rs s) s"
proof (induction rs s rule: strip.induct)
  case (1 rs s)
  show ?case
  proof (cases "leading_rune rs s")
    case None
    then show ?thesis by (subst strip.simps) simp
  next
    case (Some r)
    with 1 have "suffix (strip rs (drop (length r) s)) (drop (length r) s)" by blast
    then have "suffix (strip rs (drop (length r) s)) s"
      using suffix_drop suffix_order.trans by blast
    with Some show ?thesis by (subst strip.simps) simp
  qed
qed

lemma strip_id: "leading_rune rs s = None \<Longrightarrow> strip rs s = s"
  by (subst strip.simps) simp

lemma leading_rune_None_iff: "leading_rune rs s = None \<longleftrightarrow> (\<forall>r \<in> set rs. r \<noteq> [] \<longrightarrow> \<not> prefix r s)"
  by (auto simp: leading_rune_def find_None_iff)

lemma leading_rune_prefix_None:
  "leading_rune rs s = None \<Longrightarrow> prefix p s \<Longrightarrow> leading_rune rs p = None"
  by (auto simp: leading_rune_None_iff intro: prefix_order.trans)

text \<open>A string with no white space at either end is its own trimmed form.\<close>

definition trimmed :: "string \<Rightarrow> bool" where
  "trimmed s \<longleftrightarrow> leading_rune space_runes s = None \<and> leading_rune (map rev space_runes) (rev s) = None"

lemma TrimSpace_id: "trimmed s \<Longrightarrow> TrimSpace s = s"
  by (simp add: trimmed_def TrimSpace_def strip_id)

lemma trimmed_TrimSpace: "trimmed (TrimSpace s)"
proof -
  define t where "t = strip space_runes s"
  define u where "u = strip (map rev space_runes) (rev t)"
  have "leading_rune space_runes t = None" by (simp add: t_def strip_no_leading)
  moreover have "prefix (rev u) t"
    using strip_suffix [of "map rev space_runes" "rev t"] by (simp add: u_def suffix_to_prefix)
  ultimately have "leading_rune space_runes (rev u) = None" by (rule leading_rune_prefix_None)
  moreover have "leading_rune (map rev space_runes) u = None" by (simp add: u_def strip_no_leading)
  ultimately show ?thesis by (simp add: trimmed_def TrimSpace_def t_def u_def)
qed

lemma TrimSpace_idem: "TrimSpace (TrimSpace s) = TrimSpace s"
  by (simp add: TrimSpace_id trimmed_TrimSpace)

lemma strip_keeps:
  "c \<in> set s \<Longrightarrow> \<forall>r \<in> set rs. c \<notin> set r \<Longrightarrow> c \<in> set (strip rs s)"
proof (induction rs s rule: strip.induct)
  case (1 rs s)
  show ?case
  proof (cases "leading_rune rs s")
    case None
    with "1.prems" show ?thesis by (simp add: strip_id)
  next
    case (Some r)
    then have "r \<in> set rs" and "s = r @ drop (length r) s"
      by (auto dest!: leading_rune_Some simp: prefix_def)
    with "1.prems" have "c \<in> set (drop (length r) s)"
      by (metis Un_iff set_append)
    with Some "1.IH" "1.prems" have "c \<in> set (strip rs (drop (length r) s))" by blast
    with Some show ?thesis by (subst strip.simps) simp
  qed
qed

lemma TrimSpace_keeps:
  "c \<in> set s \<Longrightarrow> \<forall>r \<in> set space_runes. c \<notin> set r \<Longrightarrow> c \<in> set (TrimSpace s)"
  by (simp add: TrimSpace_def strip_keeps)

lemma TrimSpace_nonempty:
  "c \<in> set s \<Longrightarrow> \<forall>r \<in> set space_runes. c \<notin> set r \<Longrightarrow> TrimSpace s \<noteq> []"
  using TrimSpace_keeps [of c s] by auto

section \<open>Facts about numbers\<close>

lemma digit_char_props:
  "n < 10 \<Longrightarrow> is_digit (digit_char n) \<and> digit_val (digit_char n) = n"
proof -
  assume "n < 10"
  then have "n \<in> {0, 1, 2, 3, 4, 5, 6, 7, 8, 9}" by auto
  then show ?thesis
    by (auto simp: is_digit_def digit_val_def byte_val_def digit_char_def)
qed

lemma digits_val_snoc: "digits_val (s @ [c]) = digits_val s * 10 + digit_val c"
  by (simp add: digits_val_def)

lemma decimal_props: "decimal n \<noteq> [] \<and> list_all is_digit (decimal n) \<and> digits_val (decimal n) = n"
proof (induction n rule: decimal.induct)
  case (1 n)
  show ?case
  proof (cases "n < 10")
    case True
    then show ?thesis
      by (subst (1 2 3) decimal.simps) (simp add: digit_char_props digits_val_def)
  next
    case False
    with 1 have IH: "decimal (n div 10) \<noteq> []" "list_all is_digit (decimal (n div 10))"
      "digits_val (decimal (n div 10)) = n div 10" by auto
    have "n mod 10 < 10" by simp
    with False IH show ?thesis
      by (subst (1 2 3) decimal.simps) (simp add: digits_val_snoc digit_char_props del: mod_less_divisor)
  qed
qed

lemma parse_digits_decimal: "parse_digits (decimal n) = Some n"
  using decimal_props [of n] by (simp add: parse_digits_def)

lemma decimal_hd_digit: "is_digit (hd (decimal n))"
  using decimal_props [of n] by (cases "decimal n") auto

lemma digit_not_sign: "is_digit c \<Longrightarrow> c \<noteq> CHR ''-'' \<and> c \<noteq> CHR ''+''"
  by (auto simp: is_digit_def byte_val_def)

lemma sign_split_digits: "list_all is_digit s \<Longrightarrow> sign_split s = (False, s)"
  by (cases s) (auto simp: sign_split_def dest: digit_not_sign)

lemma sign_split_decimal: "sign_split (decimal n) = (False, decimal n)"
  using decimal_props [of n] by (simp add: sign_split_digits)

lemma sign_split_minus: "sign_split (CHR ''-'' # s) = (True, s)"
  by (simp add: sign_split_def)

lemma Atoi_Itoa: "- (2 ^ 63) \<le> i \<Longrightarrow> i < 2 ^ 63 \<Longrightarrow> Atoi (Itoa i) = Some i"
  by (simp add: Atoi_def Itoa_def parse_digits_decimal sign_split_decimal sign_split_minus)

lemma Atoi_range: "Atoi s = Some v \<Longrightarrow> - (2 ^ 63) \<le> v \<and> v < 2 ^ 63"
  by (auto simp: Atoi_def Let_def split: prod.splits option.splits if_splits)

lemma Itoa_digits: "0 \<le> i \<Longrightarrow> list_all is_digit (Itoa i)"
  using decimal_props by (simp add: Itoa_def)

lemma Itoa_inj_nonneg: "0 \<le> i \<Longrightarrow> 0 \<le> j \<Longrightarrow> Itoa i = Itoa j \<Longrightarrow> i = j"
  by (metis Itoa_def decimal_props int_nat_eq not_less)

lemma decimal_small: "n < 10 \<Longrightarrow> decimal n = [digit_char n]"
  by (subst decimal.simps) simp

lemma decimal_large: "10 \<le> n \<Longrightarrow> decimal n = decimal (n div 10) @ [digit_char (n mod 10)]"
  by (subst decimal.simps) simp

lemmas Itoa_eval [go_eval] = Itoa_def decimal_small decimal_large

section \<open>Facts about joining and splitting\<close>

lemma Split_nonempty [simp]: "Split s c \<noteq> []"
  by (induction s) (auto split: list.splits)

lemma Split_absent: "c \<notin> set s \<Longrightarrow> Split s c = [s]"
  by (induction s) auto

lemma Split_append: "c \<notin> set a \<Longrightarrow> Split (a @ c # b) c = a # Split b c"
  by (induction a) auto

lemma Split_parts: "w \<in> set (Split s c) \<Longrightarrow> c \<notin> set w"
  by (induction s arbitrary: w) (auto split: if_splits list.splits)

lemma Join_Split: "Join (Split s c) [c] = s"
proof (induction s)
  case Nil
  then show ?case by simp
next
  case (Cons x xs)
  obtain w ws where "Split xs c = w # ws" by (metis Split_nonempty neq_Nil_conv)
  with Cons show ?case by (cases ws) auto
qed

lemma Join_Cons: "ws \<noteq> [] \<Longrightarrow> Join (w # ws) sep = w @ sep @ Join ws sep"
  by (cases ws) auto

lemma Join_snoc: "ws \<noteq> [] \<Longrightarrow> Join (ws @ [w]) sep = Join ws sep @ sep @ w"
proof (induction ws)
  case Nil
  then show ?case by simp
next
  case (Cons v vs)
  then show ?case by (cases vs) auto
qed

lemma Split_Join:
  "ws \<noteq> [] \<Longrightarrow> (\<And>w. w \<in> set ws \<Longrightarrow> c \<notin> set w) \<Longrightarrow> Split (Join ws [c]) c = ws"
proof (induction ws)
  case Nil
  then show ?case by simp
next
  case (Cons w ws)
  then show ?case by (cases ws) (auto simp: Split_absent Split_append)
qed

end
