(* ===== verification/Components.thy ===== *)
theory Components
  imports GoStrings
begin

text \<open>
  \<open>internal/config/components.go\<close>: the component identifiers, the component specs and the
  table of all components in boot order. The locale \<open>component_table\<close> is the contract the
  other parts rely on (identifiers and provider namespaces name at most one spec); its
  interpretation at the end discharges it for the table.
\<close>

type_synonym ComponentID = string

definition ComponentPKI :: ComponentID where "ComponentPKI = ''pki''"
definition ComponentEtcd :: ComponentID where "ComponentEtcd = ''etcd''"
definition ComponentAPIServer :: ComponentID where "ComponentAPIServer = ''apiserver''"
definition ComponentSetup :: ComponentID where "ComponentSetup = ''setup''"
definition ComponentCore :: ComponentID where "ComponentCore = ''core''"
definition ComponentCABPK :: ComponentID where "ComponentCABPK = ''cabpk''"
definition ComponentKCP :: ComponentID where "ComponentKCP = ''kcp''"
definition ComponentCAPD :: ComponentID where "ComponentCAPD = ''capd''"
definition ComponentHypervisor :: ComponentID where "ComponentHypervisor = ''hypervisor''"

definition webhookPortCore :: int where "webhookPortCore = 9443"
definition webhookPortCABPK :: int where "webhookPortCABPK = 9444"
definition webhookPortKCP :: int where "webhookPortKCP = 9445"
definition webhookPortCAPD :: int where "webhookPortCAPD = 9446"
definition webhookPortHypervisor :: int where "webhookPortHypervisor = 9443"
definition healthPortCore :: int where "healthPortCore = 9451"
definition diagnosticsPortCore :: int where "diagnosticsPortCore = 8451"
definition healthPortCABPK :: int where "healthPortCABPK = 9452"
definition diagnosticsPortCABPK :: int where "diagnosticsPortCABPK = 8452"
definition healthPortKCP :: int where "healthPortKCP = 9453"
definition diagnosticsPortKCP :: int where "diagnosticsPortKCP = 8453"
definition healthPortCAPD :: int where "healthPortCAPD = 9454"
definition diagnosticsPortCAPD :: int where "diagnosticsPortCAPD = 8454"

definition kubeconfigsDir :: string where "kubeconfigsDir = ''kubeconfigs''"

lemmas component_ids [go_eval] =
  ComponentPKI_def ComponentEtcd_def ComponentAPIServer_def ComponentSetup_def
  ComponentCore_def ComponentCABPK_def ComponentKCP_def ComponentCAPD_def
  ComponentHypervisor_def

lemmas component_ports [go_eval] =
  webhookPortCore_def webhookPortCABPK_def webhookPortKCP_def webhookPortCAPD_def
  webhookPortHypervisor_def healthPortCore_def diagnosticsPortCore_def
  healthPortCABPK_def diagnosticsPortCABPK_def healthPortKCP_def diagnosticsPortKCP_def
  healthPortCAPD_def diagnosticsPortCAPD_def

text \<open>\<open>ComponentSpec\<close>; \<open>ImageRef\<close> is its field \<open>Image\<close>. A zero port or an empty string is a
  field the literal leaves out.\<close>

record component_spec =
  ID :: ComponentID
  ImageRef :: string
  WebhookPort :: int
  HealthPort :: int
  DiagnosticsPort :: int
  ProviderNamespace :: string
  NamePrefix :: string
  ManagerCN :: string
  Kubeconfig :: string
  External :: bool

definition plain_component :: "ComponentID \<Rightarrow> string \<Rightarrow> component_spec" where
  "plain_component i img =
     \<lparr>ID = i, ImageRef = img, WebhookPort = 0, HealthPort = 0, DiagnosticsPort = 0,
      ProviderNamespace = [], NamePrefix = [], ManagerCN = [], Kubeconfig = [], External = False\<rparr>"

definition Components :: "component_spec list" where
  "Components =
     [plain_component ComponentPKI ''localhost/capishim-setup:v0.1.0'',
      plain_component ComponentEtcd ''registry.k8s.io/etcd:3.5.17-0'',
      plain_component ComponentAPIServer ''registry.k8s.io/kube-apiserver:v1.36.1'',
      plain_component ComponentSetup ''localhost/capishim-setup:v0.1.0'',
      \<lparr>ID = ComponentCore, ImageRef = ''localhost/capishim-core:v0.1.0'',
       WebhookPort = webhookPortCore, HealthPort = healthPortCore,
       DiagnosticsPort = diagnosticsPortCore, ProviderNamespace = ''capi-system'',
       NamePrefix = ''capi-'', ManagerCN = ''capishim:core-manager'',
       Kubeconfig = kubeconfigsDir @ ''/core.kubeconfig'', External = False\<rparr>,
      \<lparr>ID = ComponentCABPK, ImageRef = ''localhost/capishim-cabpk:v0.1.0'',
       WebhookPort = webhookPortCABPK, HealthPort = healthPortCABPK,
       DiagnosticsPort = diagnosticsPortCABPK,
       ProviderNamespace = ''capi-kubeadm-bootstrap-system'',
       NamePrefix = ''capi-kubeadm-bootstrap-'', ManagerCN = ''capishim:cabpk-manager'',
       Kubeconfig = kubeconfigsDir @ ''/cabpk.kubeconfig'', External = False\<rparr>,
      \<lparr>ID = ComponentKCP, ImageRef = ''localhost/capishim-kcp:v0.1.0'',
       WebhookPort = webhookPortKCP, HealthPort = healthPortKCP,
       DiagnosticsPort = diagnosticsPortKCP,
       ProviderNamespace = ''capi-kubeadm-control-plane-system'',
       NamePrefix = ''capi-kubeadm-control-plane-'', ManagerCN = ''capishim:kcp-manager'',
       Kubeconfig = kubeconfigsDir @ ''/kcp.kubeconfig'', External = False\<rparr>,
      \<lparr>ID = ComponentCAPD, ImageRef = ''localhost/capishim-capd:v0.1.0'',
       WebhookPort = webhookPortCAPD, HealthPort = healthPortCAPD,
       DiagnosticsPort = diagnosticsPortCAPD, ProviderNamespace = ''capd-system'',
       NamePrefix = ''capd-'', ManagerCN = ''capishim:capd-manager'',
       Kubeconfig = kubeconfigsDir @ ''/capd.kubeconfig'', External = False\<rparr>,
      \<lparr>ID = ComponentHypervisor, ImageRef = [],
       WebhookPort = webhookPortHypervisor, HealthPort = 0, DiagnosticsPort = 0,
       ProviderNamespace = ''hypervisor-system'', NamePrefix = [],
       ManagerCN = ''capishim:hypervisor-manager'',
       Kubeconfig = kubeconfigsDir @ ''/hypervisor.kubeconfig'', External = True\<rparr>]"

definition Component :: "ComponentID \<Rightarrow> component_spec option" where
  "Component i = find (\<lambda>spec. ID spec = i) Components"

text \<open>
  A map keyed by provider namespace, built by the loops over \<open>Components()\<close> in the setup
  command: specs that pass the guard write their value, later ones overwrite earlier ones.
\<close>

definition namespace_map ::
  "(component_spec \<Rightarrow> bool) \<Rightarrow> (component_spec \<Rightarrow> 'v) \<Rightarrow> component_spec list \<Rightarrow> (string \<rightharpoonup> 'v) \<Rightarrow> (string \<rightharpoonup> 'v)"
  where
  "namespace_map guard val specs start =
     foldl (\<lambda>m spec. if guard spec then m(ProviderNamespace spec \<mapsto> val spec) else m) start specs"

section \<open>The contract of a component table\<close>

definition is_manager :: "component_spec \<Rightarrow> bool" where
  "is_manager spec \<longleftrightarrow> ManagerCN spec \<noteq> []"

locale component_table =
  fixes table :: "component_spec list"
  assumes ids_distinct: "distinct (map ID table)"
    and namespaces_distinct:
      "distinct (map ProviderNamespace (filter (\<lambda>s. ProviderNamespace s \<noteq> []) table))"
    and manager_complete:
      "spec \<in> set table \<Longrightarrow> is_manager spec \<Longrightarrow>
         ProviderNamespace spec \<noteq> [] \<and> Kubeconfig spec \<noteq> [] \<and> WebhookPort spec \<noteq> 0"
    and only_managers:
      "spec \<in> set table \<Longrightarrow> ProviderNamespace spec \<noteq> [] \<or> Kubeconfig spec \<noteq> [] \<or> External spec \<Longrightarrow>
         is_manager spec"
begin

lemma find_by_id:
  "find (\<lambda>s. ID s = i) table = Some spec \<longleftrightarrow> spec \<in> set table \<and> ID spec = i"
proof
  assume "find (\<lambda>s. ID s = i) table = Some spec"
  then show "spec \<in> set table \<and> ID spec = i" by (auto simp: find_Some_iff)
next
  assume spec: "spec \<in> set table \<and> ID spec = i"
  then obtain s where found: "find (\<lambda>s. ID s = i) table = Some s"
    by (cases "find (\<lambda>s. ID s = i) table") (auto simp: find_None_iff)
  then have "s \<in> set table" "ID s = i" by (auto simp: find_Some_iff)
  with spec ids_distinct have "s = spec" by (auto simp: distinct_map inj_on_def)
  with found show "find (\<lambda>s. ID s = i) table = Some spec" by simp
qed

lemma namespace_unique:
  "s \<in> set table \<Longrightarrow> t \<in> set table \<Longrightarrow> ProviderNamespace s = ProviderNamespace t \<Longrightarrow>
   ProviderNamespace s \<noteq> [] \<Longrightarrow> s = t"
  using namespaces_distinct by (auto simp: distinct_map inj_on_def)

lemma namespace_map_lookup:
  assumes sub: "set specs \<subseteq> set table"
    and guard: "\<And>s. s \<in> set specs \<Longrightarrow> guard s \<Longrightarrow> ProviderNamespace s \<noteq> []"
  shows "namespace_map guard val specs start ns =
     (case find (\<lambda>s. guard s \<and> ProviderNamespace s = ns) specs of
        Some s \<Rightarrow> Some (val s) | None \<Rightarrow> start ns)"
  using assms
proof (induction specs rule: rev_induct)
  case Nil
  then show ?case by (simp add: namespace_map_def)
next
  case (snoc x xs)
  let ?p = "\<lambda>s. guard s \<and> ProviderNamespace s = ns"
  have step: "namespace_map guard val (xs @ [x]) start ns =
      (if ?p x then Some (val x) else namespace_map guard val xs start ns)"
    by (simp add: namespace_map_def)
  have IH: "namespace_map guard val xs start ns =
      (case find ?p xs of Some s \<Rightarrow> Some (val s) | None \<Rightarrow> start ns)"
    using snoc by simp
  have find_snoc: "find ?p (xs @ [x]) =
      (case find ?p xs of Some s \<Rightarrow> Some s | None \<Rightarrow> if ?p x then Some x else None)"
    by (induction xs) auto
  show ?case
  proof (cases "find ?p xs")
    case None
    with step IH find_snoc show ?thesis by simp
  next
    case (Some s)
    then have s: "s \<in> set xs" "guard s" "ProviderNamespace s = ns" by (auto simp: find_Some_iff)
    have "s = x" if "?p x"
      using namespace_unique [of s x] s that snoc.prems by auto
    with Some step IH find_snoc show ?thesis by auto
  qed
qed

end

lemma Components_managers:
  "filter is_manager Components = [Components ! 4, Components ! 5, Components ! 6, Components ! 7, Components ! 8]"
  by (simp add: Components_def plain_component_def is_manager_def)

interpretation table: component_table Components
  by unfold_locales
    (auto simp: Components_def plain_component_def is_manager_def kubeconfigsDir_def go_eval)

lemma Component_Some_iff: "Component i = Some spec \<longleftrightarrow> spec \<in> set Components \<and> ID spec = i"
  by (simp add: Component_def table.find_by_id)

lemma Component_ids [simp]:
  "Component ComponentCore = Some (Components ! 4)"
  "Component ComponentCABPK = Some (Components ! 5)"
  "Component ComponentKCP = Some (Components ! 6)"
  "Component ComponentCAPD = Some (Components ! 7)"
  "Component ComponentHypervisor = Some (Components ! 8)"
  by (simp_all add: Component_def Components_def plain_component_def component_ids)

lemma Components_ids:
  "map ID Components =
     [ComponentPKI, ComponentEtcd, ComponentAPIServer, ComponentSetup, ComponentCore,
      ComponentCABPK, ComponentKCP, ComponentCAPD, ComponentHypervisor]"
  by (simp add: Components_def plain_component_def)

text \<open>The containers of the pod share one network namespace: every listener port they
  open, the etcd and apiserver ones aside, belongs to one component and one purpose.\<close>

definition listener_ports :: "component_spec \<Rightarrow> int list" where
  "listener_ports spec = filter (\<lambda>p. p \<noteq> 0) [WebhookPort spec, HealthPort spec, DiagnosticsPort spec]"

text \<open>
  No two listeners inside the pod collide: the webhook, health and diagnostics ports of
  all components that run in the pod are pairwise different, and none of them is the
  apiserver port or one of the two etcd ports.
\<close>

theorem pod_ports_distinct:
  "distinct (concat (map listener_ports (filter (\<lambda>s. \<not> External s) Components))
     @ [6443, 2379, 2380])"
  by (simp add: listener_ports_def Components_def plain_component_def component_ports)

end
