(* ===== verification/GoPath.thy ===== *)
theory GoPath
  imports GoStrings
begin

text \<open>
  Go's \<open>path/filepath\<close> on Unix: \<open>Clean\<close>, \<open>Join\<close> and \<open>Dir\<close>. The library's lexical
  algorithm is one pass over the elements with an output stack: an empty element or a dot
  is dropped, a dot-dot removes the element on top of the stack when there is one that is
  not itself a dot-dot.
\<close>

abbreviation slash :: char where
  "slash \<equiv> CHR ''/''"

fun norm_elems :: "bool \<Rightarrow> string list \<Rightarrow> string list \<Rightarrow> string list" where
  "norm_elems rooted st [] = rev st"
| "norm_elems rooted st (e # es) =
     (if e = [] \<or> e = ''.'' then norm_elems rooted st es
      else if e = ''..'' then
        (case st of
           t # ts \<Rightarrow> if t \<noteq> ''..'' then norm_elems rooted ts es else norm_elems rooted (''..'' # st) es
         | [] \<Rightarrow> if rooted then norm_elems rooted [] es else norm_elems rooted [''..''] es)
      else norm_elems rooted (e # st) es)"

definition is_rooted :: "string \<Rightarrow> bool" where
  "is_rooted p \<longleftrightarrow> (case p of [] \<Rightarrow> False | c # _ \<Rightarrow> c = slash)"

definition path_elems :: "string \<Rightarrow> string list" where
  "path_elems p = norm_elems (is_rooted p) [] (Split p slash)"

definition Clean :: "string \<Rightarrow> string" where
  "Clean p =
     (let s = (if is_rooted p then ''/'' else []) @ Join (path_elems p) ''/''
      in if s = [] then ''.'' else s)"

definition PathJoin :: "string list \<Rightarrow> string" where
  "PathJoin elems =
     (case dropWhile (\<lambda>e. e = []) elems of [] \<Rightarrow> [] | e # es \<Rightarrow> Clean (Join (e # es) ''/''))"

definition Dir :: "string \<Rightarrow> string" where
  "Dir p = (case cut_last p slash of None \<Rightarrow> ''.'' | Some (a, b) \<Rightarrow> Clean (a @ ''/''))"

lemmas go_path_defs [go_eval] = is_rooted_def path_elems_def Clean_def PathJoin_def Dir_def

section \<open>Elements that stay as they are\<close>

definition plain_elem :: "string \<Rightarrow> bool" where
  "plain_elem e \<longleftrightarrow> e \<noteq> [] \<and> e \<noteq> ''.'' \<and> e \<noteq> ''..'' \<and> slash \<notin> set e"

definition plain_rel :: "string \<Rightarrow> bool" where
  "plain_rel f \<longleftrightarrow> list_all plain_elem (Split f slash)"

lemma plain_elem_rel: "plain_elem e \<Longrightarrow> plain_rel e"
  by (simp add: plain_rel_def plain_elem_def Split_absent)

lemma plain_rel_not_Nil: "plain_rel f \<Longrightarrow> f \<noteq> []"
  by (auto simp: plain_rel_def plain_elem_def)

lemma plain_rel_hd: "plain_rel (c # f) \<Longrightarrow> c \<noteq> slash"
  by (auto simp: plain_rel_def plain_elem_def split: if_splits)

lemma plain_rel_not_rooted: "plain_rel f \<Longrightarrow> \<not> is_rooted f"
  by (cases f) (auto simp: is_rooted_def dest: plain_rel_hd)

lemma Split_append_sep: "Split (a @ c # b) c = Split a c @ Split b c"
  by (induction a) (auto split: list.splits)

lemma norm_elems_append:
  "norm_elems r st (xs @ ys) = norm_elems r (rev (norm_elems r st xs)) ys"
  by (induction r st xs rule: norm_elems.induct) (auto split: list.splits)

lemma norm_elems_plain: "list_all plain_elem es \<Longrightarrow> norm_elems r st es = rev st @ es"
  by (induction es arbitrary: st) (auto simp: plain_elem_def)

section \<open>Normal forms\<close>

definition normal_elems :: "bool \<Rightarrow> string list \<Rightarrow> bool" where
  "normal_elems r es \<longleftrightarrow>
     (\<exists>k ps. es = replicate k ''..'' @ ps \<and> list_all plain_elem ps \<and> (r \<longrightarrow> k = 0))"

lemma normal_elems_Nil [simp]: "normal_elems r []"
  by (auto simp: normal_elems_def)

lemma normal_snoc_plain: "normal_elems r es \<Longrightarrow> plain_elem e \<Longrightarrow> normal_elems r (es @ [e])"
  by (fastforce simp: normal_elems_def)

lemma normal_snoc_dots:
  assumes "normal_elems r (es @ [''..''])" and "\<not> r"
  shows "normal_elems r (es @ [''..'', ''..''])"
proof -
  from assms(1) obtain k ps where eq: "es @ [''..''] = replicate k ''..'' @ ps"
    and ps: "list_all plain_elem ps" by (auto simp: normal_elems_def)
  have "ps = []"
  proof (rule ccontr)
    assume "ps \<noteq> []"
    then obtain qs q where "ps = qs @ [q]" by (metis rev_exhaust)
    with eq ps show False by (auto simp: plain_elem_def)
  qed
  with eq have "es @ [''..'', ''..''] = replicate (Suc k) ''..'' @ []"
    by (metis append.assoc append_Cons append_Nil append_Nil2 replicate_app_Cons_same replicate_Suc)
  with assms(2) show ?thesis by (auto simp: normal_elems_def intro!: exI [of _ "Suc k"] exI [of _ "[]"])
qed

lemma normal_butlast: "normal_elems r (es @ [e]) \<Longrightarrow> normal_elems r es"
proof -
  assume "normal_elems r (es @ [e])"
  then obtain k ps where eq: "es @ [e] = replicate k ''..'' @ ps"
    and ps: "list_all plain_elem ps" and r: "r \<longrightarrow> k = 0" by (auto simp: normal_elems_def)
  show "normal_elems r es"
  proof (cases ps rule: rev_cases)
    case Nil
    with eq have "es @ [e] = replicate k ''..''" by simp
    moreover from this obtain m where "k = Suc m" by (cases k) auto
    ultimately have "es @ [e] = replicate m ''..'' @ [''..'']"
      by (simp add: replicate_append_same)
    with \<open>k = Suc m\<close> have "es = replicate (k - 1) ''..''" by simp
    with r show ?thesis by (auto simp: normal_elems_def intro!: exI [of _ "k - 1"] exI [of _ "[]"])
  next
    case (snoc qs q)
    with eq ps r show ?thesis by (auto simp: normal_elems_def)
  qed
qed

lemma rooted_no_dots: "normal_elems True es \<Longrightarrow> ''..'' \<notin> set es"
  by (auto simp: normal_elems_def list_all_iff plain_elem_def)

lemma norm_elems_normal:
  assumes "normal_elems r (rev st)" and "list_all (\<lambda>e. slash \<notin> set e) es"
  shows "normal_elems r (norm_elems r st es)"
  using assms
proof (induction r st es rule: norm_elems.induct)
  case (1 r st)
  then show ?case by simp
next
  case (2 r st e es)
  consider "e = [] \<or> e = ''.''" | "e = ''..''" | "plain_elem e"
    using "2.prems" by (auto simp: plain_elem_def)
  then show ?case
  proof cases
    case 1
    with 2 show ?thesis by auto
  next
    case 2
    note dots = this
    show ?thesis
    proof (cases st)
      case Nil
      have "normal_elems False [''..'']"
        by (auto simp: normal_elems_def intro!: exI [of _ 1] exI [of _ "[]"])
      with Nil dots "2.IH" "2.prems" show ?thesis by (cases r) auto
    next
      case (Cons t ts)
      show ?thesis
      proof (cases "t = ''..''")
        case True
        with Cons "2.prems" have "\<not> r" using rooted_no_dots [of "rev st"] by (cases r) auto
        with True Cons dots "2.IH" "2.prems" show ?thesis
          using normal_snoc_dots [of r "rev ts"] by simp
      next
        case False
        with Cons dots "2.IH" "2.prems" show ?thesis
          using normal_butlast [of r "rev ts" t] by simp
      qed
    qed
  next
    case 3
    with "2.IH" "2.prems" show ?thesis
      using normal_snoc_plain [of r "rev st" e] by (auto simp: plain_elem_def)
  qed
qed

lemma normal_path_elems: "normal_elems (is_rooted p) (path_elems p)"
  unfolding path_elems_def
  by (rule norm_elems_normal) (auto simp: list_all_iff dest: Split_parts)

lemma norm_elems_dots: "\<not> r \<Longrightarrow> norm_elems r (replicate j ''..'') (replicate k ''..'' @ ps) =
    norm_elems r (replicate (j + k) ''..'') ps"
proof (induction k arbitrary: j)
  case 0
  then show ?case by simp
next
  case (Suc k)
  from Suc.IH [of "Suc j"] Suc.prems show ?case by (cases j) auto
qed

lemma norm_elems_fixed:
  assumes "normal_elems r es"
  shows "norm_elems r [] es = es"
proof -
  from assms obtain k ps where es: "es = replicate k ''..'' @ ps" and ps: "list_all plain_elem ps"
    and r: "r \<longrightarrow> k = 0" by (auto simp: normal_elems_def)
  show ?thesis
  proof (cases r)
    case True
    with es ps r show ?thesis by (simp add: norm_elems_plain)
  next
    case False
    with norm_elems_dots [of r 0 k ps] es ps show ?thesis by (simp add: norm_elems_plain)
  qed
qed

section \<open>Joining a directory with plain names\<close>

text \<open>
  \<open>dir_prefix d\<close> is what a path below the directory \<open>d\<close> starts with: joining any plain
  relative name onto \<open>d\<close> appends the name to it, so two artifacts of one directory have
  different paths when their names differ.
\<close>

definition dir_prefix :: "string \<Rightarrow> string" where
  "dir_prefix d =
     (if is_rooted d then ''/'' else []) @ concat (map (\<lambda>e. e @ ''/'') (path_elems d))"

lemma Join_append:
  "fs \<noteq> [] \<Longrightarrow> Join (es @ fs) sep = concat (map (\<lambda>e. e @ sep) es) @ Join fs sep"
proof (induction es)
  case Nil
  then show ?case by simp
next
  case (Cons e es)
  then show ?case by (cases "es @ fs") auto
qed

lemma is_rooted_append [simp]: "d \<noteq> [] \<Longrightarrow> is_rooted (d @ x) = is_rooted d"
  by (cases d) (auto simp: is_rooted_def)

lemma path_elems_Nil [simp]: "path_elems [] = []"
  by (simp add: path_elems_def)

lemma dir_prefix_Nil [simp]: "dir_prefix [] = []"
  by (simp add: dir_prefix_def is_rooted_def)

lemma path_elems_plain: "plain_rel f \<Longrightarrow> path_elems f = Split f slash"
  by (simp add: path_elems_def plain_rel_def norm_elems_plain)

lemma path_elems_slash_plain:
  "d \<noteq> [] \<Longrightarrow> plain_rel f \<Longrightarrow> path_elems (d @ slash # f) = path_elems d @ Split f slash"
  by (simp add: path_elems_def Split_append_sep norm_elems_append plain_rel_def norm_elems_plain)

lemma Clean_slash_plain:
  "d \<noteq> [] \<Longrightarrow> plain_rel f \<Longrightarrow> Clean (d @ slash # f) = dir_prefix d @ f"
  by (simp add: Clean_def path_elems_slash_plain dir_prefix_def Join_append Join_Split
      plain_rel_not_Nil Let_def)

lemma Clean_plain: "plain_rel f \<Longrightarrow> Clean f = f"
  by (simp add: Clean_def path_elems_plain plain_rel_not_rooted Join_Split plain_rel_not_Nil)

lemma PathJoin_plain: "plain_rel f \<Longrightarrow> PathJoin [d, f] = dir_prefix d @ f"
  by (cases "d = []") (simp_all add: PathJoin_def plain_rel_not_Nil Clean_plain Clean_slash_plain)

lemma plain_rel_append:
  "plain_rel f \<Longrightarrow> plain_rel g \<Longrightarrow> plain_rel (f @ slash # g)"
  by (simp add: plain_rel_def Split_append_sep)

lemma PathJoin_plain2:
  "plain_rel f \<Longrightarrow> plain_rel g \<Longrightarrow> PathJoin [d, f, g] = dir_prefix d @ f @ slash # g"
  using PathJoin_plain [OF plain_rel_append, of f g d]
  by (cases "d = []") (simp_all add: PathJoin_def plain_rel_not_Nil)

lemma PathJoin_nonempty: "plain_rel f \<Longrightarrow> PathJoin [d, f] \<noteq> []"
  by (simp add: PathJoin_plain plain_rel_not_Nil)

section \<open>The directory of a joined path\<close>

lemma path_elems_shape:
  obtains k ps where "path_elems p = replicate k ''..'' @ ps" and "list_all plain_elem ps"
  using normal_path_elems [of p] unfolding normal_elems_def by blast

lemma path_elems_elem: "e \<in> set (path_elems p) \<Longrightarrow> e \<noteq> [] \<and> slash \<notin> set e"
proof -
  assume e: "e \<in> set (path_elems p)"
  obtain k ps where eq: "path_elems p = replicate k ''..'' @ ps" and ps: "list_all plain_elem ps"
    by (rule path_elems_shape)
  from e have "e = ''..'' \<or> e \<in> set ps" unfolding eq by (auto split: if_splits)
  then show ?thesis
  proof
    assume "e \<in> set ps"
    with ps have "plain_elem e" by (simp add: list_all_iff)
    then show ?thesis by (simp add: plain_elem_def)
  qed simp
qed

lemma concat_Join: "es \<noteq> [] \<Longrightarrow> concat (map (\<lambda>e. e @ sep) es) = Join es sep @ sep"
proof (induction es)
  case Nil
  then show ?case by simp
next
  case (Cons e es)
  then show ?case by (cases es) auto
qed

lemma dir_prefix_Clean: "path_elems p \<noteq> [] \<Longrightarrow> dir_prefix p = Clean p @ [slash]"
proof -
  assume ne: "path_elems p \<noteq> []"
  then have "Join (path_elems p) ''/'' \<noteq> []"
    using path_elems_elem [of "hd (path_elems p)" p] by (cases "path_elems p" rule: list.exhaust)
      (auto simp: Join_Cons, metis Join.simps(2) Join_Cons append_is_Nil_conv)
  with ne show ?thesis by (simp add: dir_prefix_def Clean_def concat_Join)
qed

lemma Split_concat:
  "(\<And>e. e \<in> set es \<Longrightarrow> c \<notin> set e) \<Longrightarrow> Split (concat (map (\<lambda>e. e @ [c]) es)) c = es @ [[]]"
  by (induction es) (auto simp: Split_append)

lemma is_rooted_dir_prefix [simp]: "is_rooted (dir_prefix d) = is_rooted d"
proof (cases "path_elems d")
  case Nil
  then show ?thesis by (simp add: dir_prefix_def is_rooted_def)
next
  case (Cons e es)
  then have "e \<noteq> []" "slash \<notin> set e"
    using path_elems_elem [of e d] by auto
  with Cons show ?thesis by (cases e) (auto simp: dir_prefix_def is_rooted_def)
qed

lemma path_elems_dir_prefix [simp]: "path_elems (dir_prefix d) = path_elems d"
proof -
  have "Split (concat (map (\<lambda>e. e @ [slash]) (path_elems d))) slash = path_elems d @ [[]]"
    by (rule Split_concat) (use path_elems_elem in blast)
  moreover have "norm_elems (is_rooted d) [] (path_elems d) = path_elems d"
    by (rule norm_elems_fixed) (rule normal_path_elems)
  ultimately have "norm_elems (is_rooted d) [] (Split (dir_prefix d) slash) = path_elems d"
    by (cases "is_rooted d") (simp_all add: dir_prefix_def norm_elems_append)
  then show ?thesis by (simp add: path_elems_def [of "dir_prefix d"])
qed

lemma Clean_dir_prefix: "Clean (dir_prefix d) = Clean d"
  by (simp add: Clean_def)

lemma dir_prefix_idem [simp]: "dir_prefix (dir_prefix d) = dir_prefix d"
  by (simp add: dir_prefix_def [of "dir_prefix d"]) (simp add: dir_prefix_def)

lemma dir_prefix_last: "dir_prefix d \<noteq> [] \<Longrightarrow> \<exists>a. dir_prefix d = a @ [slash]"
  by (cases "path_elems d" rule: rev_cases) (auto simp: dir_prefix_def split: if_splits)

lemma Dir_plain:
  assumes "plain_elem e"
  shows "Dir (dir_prefix d @ e) = Clean d"
proof (cases "dir_prefix d = []")
  case True
  then have "Clean d = ''.''"
    using Clean_dir_prefix [of d] by (simp add: Clean_def is_rooted_def)
  with True assms show ?thesis by (simp add: Dir_def cut_last_def plain_elem_def)
next
  case False
  then obtain a where a: "dir_prefix d = a @ [slash]" using dir_prefix_last by blast
  have "cut_last (a @ slash # e) slash = Some (a, e)"
    using assms by (intro cut_last_append) (simp add: plain_elem_def)
  with a Clean_dir_prefix [of d] show ?thesis by (simp add: Dir_def)
qed

lemma dir_prefix_plain: "plain_rel f \<Longrightarrow> dir_prefix (dir_prefix d @ f) = dir_prefix d @ f @ [slash]"
proof -
  assume f: "plain_rel f"
  have 1: "is_rooted (dir_prefix d @ f) = is_rooted d"
    using f by (cases "dir_prefix d = []")
      (simp_all add: plain_rel_not_rooted, metis is_rooted_dir_prefix is_rooted_def list.simps(4))
  have "path_elems (dir_prefix d @ f) = path_elems d @ Split f slash"
  proof (cases "dir_prefix d = []")
    case True
    then have "path_elems d = []" using path_elems_dir_prefix [of d] by simp
    with True f show ?thesis by (simp add: path_elems_plain)
  next
    case False
    then obtain a where a: "dir_prefix d = a @ [slash]" using dir_prefix_last by blast
    have "Split (dir_prefix d @ f) slash = Split a slash @ Split f slash"
      using a Split_append_sep [of a slash f] by simp
    moreover have "Split (dir_prefix d) slash = Split a slash @ [[]]"
      using a Split_append_sep [of a slash "[]"] by simp
    then have "norm_elems (is_rooted d) [] (Split a slash) = path_elems d"
      using path_elems_dir_prefix [of d] by (simp add: path_elems_def norm_elems_append)
    ultimately show ?thesis
      using f 1 by (simp add: path_elems_def norm_elems_append plain_rel_def norm_elems_plain)
  qed
  moreover have "concat (map (\<lambda>e. e @ [slash]) (Split f slash)) = f @ [slash]"
    using concat_Join [of "Split f slash" "[slash]"] by (simp add: Join_Split)
  ultimately show ?thesis
    by (simp add: dir_prefix_def [of "dir_prefix d @ f"] 1) (simp add: dir_prefix_def)
qed

lemma Clean_prefix_plain: "plain_rel f \<Longrightarrow> Clean (dir_prefix d @ f) = dir_prefix d @ f"
proof -
  assume f: "plain_rel f"
  have "dir_prefix (dir_prefix d @ f) = dir_prefix d @ f @ [slash]"
    using f by (rule dir_prefix_plain)
  moreover have "path_elems (dir_prefix d @ f) \<noteq> []"
  proof
    assume "path_elems (dir_prefix d @ f) = []"
    then have "dir_prefix (dir_prefix d @ f) = [slash] \<or> dir_prefix (dir_prefix d @ f) = []"
      by (simp add: dir_prefix_def [of "dir_prefix d @ f"])
    with calculation plain_rel_not_Nil [OF f] show False by auto
  qed
  ultimately show ?thesis
    using dir_prefix_Clean [of "dir_prefix d @ f"] by simp
qed

lemma Dir_plain2:
  "plain_rel f \<Longrightarrow> plain_elem e \<Longrightarrow> Dir (dir_prefix d @ f @ slash # e) = dir_prefix d @ f"
  using Dir_plain [of e "dir_prefix d @ f"]
  by (simp add: dir_prefix_plain Clean_prefix_plain)

end
