(* ===== verification/GoNet.thy ===== *)
theory GoNet
  imports GoStrings
begin

text \<open>
  Go's \<open>net.SplitHostPort\<close>, \<open>netip.ParseAddr\<close> and \<open>net.ParseIP\<close>: the parsers the
  program applies to bind addresses and host overrides. An IP address is its 16 bytes
  (an IPv4 address in its IPv4-mapped form), as \<open>net.IP\<close> holds it after \<open>ParseIP\<close>, so
  \<open>IP.Equal\<close> is equality.
\<close>

abbreviation colon :: char where
  "colon \<equiv> CHR '':''"

section \<open>Host and port\<close>

datatype addr_error =
  MissingPort | TooManyColons | MissingBracket | UnexpectedOpen | UnexpectedClose

text \<open>
  \<open>length pre\<close> is the library's index \<open>i\<close> of the last colon, \<open>length inner + 2\<close> the index
  just behind the first closing bracket.
\<close>

definition SplitHostPort :: "string \<Rightarrow> addr_error + string \<times> string" where
  "SplitHostPort hp =
     (case cut_last hp colon of
        None \<Rightarrow> Inl MissingPort
      | Some (pre, port) \<Rightarrow>
          if hp \<noteq> [] \<and> hd hp = CHR ''['' then
            (if CHR '']'' \<notin> set hp then Inl MissingBracket
             else
               (let inner = takeWhile (\<lambda>c. c \<noteq> CHR '']'') (tl hp);
                    after = drop (length inner + 2) hp
                in if after = [] then Inl MissingPort
                   else if length inner + 2 \<noteq> length pre then
                     (if hd after = colon then Inl TooManyColons else Inl MissingPort)
                   else if CHR ''['' \<in> set (tl hp) then Inl UnexpectedOpen
                   else if CHR '']'' \<in> set after then Inl UnexpectedClose
                   else Inr (inner, port)))
          else
            (if colon \<in> set pre then Inl TooManyColons
             else if CHR ''['' \<in> set hp then Inl UnexpectedOpen
             else if CHR '']'' \<in> set hp then Inl UnexpectedClose
             else Inr (pre, port)))"

text \<open>What a successful split means: the two address forms, and nothing else.\<close>

lemma SplitHostPort_Inr:
  assumes "SplitHostPort hp = Inr (h, p)"
  shows "colon \<notin> set p"
    and "hp = h @ colon # p \<and> colon \<notin> set h \<or> hp = CHR ''['' # h @ CHR '']'' # colon # p"
proof -
  from assms obtain pre where cl: "cut_last hp colon = Some (pre, p)"
    by (auto simp: SplitHostPort_def Let_def split: option.splits prod.splits if_splits)
  then have hp: "hp = pre @ colon # p" and p: "colon \<notin> set p" by (auto simp: cut_last_Some_iff)
  show "colon \<notin> set p" by (rule p)
  show "hp = h @ colon # p \<and> colon \<notin> set h \<or> hp = CHR ''['' # h @ CHR '']'' # colon # p"
  proof (cases "hp \<noteq> [] \<and> hd hp = CHR ''[''")
    case True
    then obtain t where t: "hp = CHR ''['' # t" by (cases hp) auto
    define inner where "inner = takeWhile (\<lambda>c. c \<noteq> CHR '']'') t"
    from assms cl True t have close: "CHR '']'' \<in> set t" and h: "h = inner"
      and len: "length inner + 2 = length pre"
      by (auto simp: SplitHostPort_def Let_def inner_def split: if_splits)
    from close obtain u where u: "t = inner @ CHR '']'' # u"
      using split_first_occurrence [of "CHR '']''" t] by (auto simp: inner_def takeWhile_neq_append)
    with t hp have "pre @ colon # p = (CHR ''['' # inner @ [CHR '']'']) @ u" by simp
    then have "pre = CHR ''['' # inner @ [CHR '']'']"
      using len append_eq_append_conv [of pre "CHR ''['' # inner @ [CHR '']'']" "colon # p" u] by simp
    with h hp show ?thesis by simp
  next
    case False
    with assms cl hp show ?thesis
      by (auto simp: SplitHostPort_def split: if_splits)
  qed
qed

lemma SplitHostPort_plain:
  assumes "colon \<notin> set h" and "colon \<notin> set p"
    and "CHR ''['' \<notin> set (h @ p)" and "CHR '']'' \<notin> set (h @ p)"
  shows "SplitHostPort (h @ colon # p) = Inr (h, p)"
proof -
  have "hd (h @ colon # p) \<noteq> CHR ''[''" using assms(3) by (cases h) auto
  with assms show ?thesis by (simp add: SplitHostPort_def)
qed

lemma SplitHostPort_bracketed:
  assumes "CHR ''['' \<notin> set (h @ p)" and "CHR '']'' \<notin> set (h @ p)" and "colon \<notin> set p"
  shows "SplitHostPort (CHR ''['' # h @ CHR '']'' # colon # p) = Inr (h, p)"
proof -
  have "cut_last ((CHR ''['' # h @ [CHR '']'']) @ colon # p) colon = Some (CHR ''['' # h @ [CHR '']''], p)"
    using assms by (intro cut_last_append)
  moreover have "takeWhile (\<lambda>c. c \<noteq> CHR '']'') (h @ CHR '']'' # colon # p) = h"
    using assms by (intro takeWhile_neq_append) auto
  ultimately show ?thesis
    using assms by (auto simp: SplitHostPort_def Let_def)
qed

section \<open>IP addresses\<close>

type_synonym ip_bytes = "nat list"

definition is_hex :: "char \<Rightarrow> bool" where
  "is_hex c \<longleftrightarrow>
     (let n = byte_val c
      in 48 \<le> n \<and> n \<le> 57 \<or> 97 \<le> n \<and> n \<le> 102 \<or> 65 \<le> n \<and> n \<le> 70)"

definition hex_val :: "char \<Rightarrow> nat" where
  "hex_val c =
     (let n = byte_val c
      in if n \<le> 57 then n - 48 else if n \<le> 70 then n - 55 else n - 87)"

definition ipv4_octet :: "string \<Rightarrow> nat option" where
  "ipv4_octet w =
     (if w \<noteq> [] \<and> list_all is_digit w \<and> (length w = 1 \<or> hd w \<noteq> CHR ''0'') \<and> digits_val w \<le> 255
      then Some (digits_val w) else None)"

definition parse_ipv4 :: "string \<Rightarrow> nat list option" where
  "parse_ipv4 s =
     (let ws = Split s (CHR ''.'')
      in if length ws = 4 then those (map ipv4_octet ws) else None)"

text \<open>
  The loop of \<open>netip.parseIPv6\<close>: the bytes written so far, the position of the ellipsis
  and the unread text. Each round writes two bytes, so eight rounds fill the address.
\<close>

fun ipv6_loop :: "nat \<Rightarrow> nat list \<Rightarrow> nat option \<Rightarrow> string \<Rightarrow> (nat list \<times> nat option \<times> string) option" where
  "ipv6_loop 0 ip el s = Some (ip, el, s)"
| "ipv6_loop (Suc n) ip el s =
     (let hex = takeWhile is_hex s; rest = dropWhile is_hex s
      in if hex = [] \<or> 4 < length hex then None
         else if rest \<noteq> [] \<and> hd rest = CHR ''.'' then
           (if el = None \<and> length ip \<noteq> 12 then None
            else if 16 < length ip + 4 then None
            else (case parse_ipv4 s of None \<Rightarrow> None | Some q \<Rightarrow> Some (ip @ q, el, [])))
         else
           (let v = foldl (\<lambda>a c. a * 16 + hex_val c) 0 hex;
                ip' = ip @ [v div 256, v mod 256]
            in case rest of
                 [] \<Rightarrow> Some (ip', el, [])
               | [c] \<Rightarrow> None
               | c # d # rest' \<Rightarrow>
                   if c \<noteq> colon then None
                   else if d = colon then
                     (if el \<noteq> None then None
                      else if rest' = [] then Some (ip', Some (length ip'), [])
                      else ipv6_loop n ip' (Some (length ip')) rest')
                   else ipv6_loop n ip' el (d # rest')))"

definition ipv6_finish :: "nat list \<times> nat option \<times> string \<Rightarrow> nat list option" where
  "ipv6_finish r =
     (case r of (ip, el, s) \<Rightarrow>
        if s \<noteq> [] then None
        else if length ip < 16 then
          (case el of
             None \<Rightarrow> None
           | Some e \<Rightarrow> Some (take e ip @ replicate (16 - length ip) 0 @ drop e ip))
        else if el \<noteq> None then None else Some ip)"

definition parse_ipv6 :: "string \<Rightarrow> nat list option" where
  "parse_ipv6 s =
     (if prefix ''::'' s then
        (if length s = 2 then Some (replicate 16 0)
         else Option.bind (ipv6_loop 8 [] (Some 0) (drop 2 s)) ipv6_finish)
      else Option.bind (ipv6_loop 8 [] None s) ipv6_finish)"

definition v4_mapped :: "nat list \<Rightarrow> ip_bytes" where
  "v4_mapped q = replicate 10 0 @ [255, 255] @ q"

text \<open>\<open>netip.ParseAddr\<close>: whether the address is IPv4, its bytes, its zone.\<close>

definition ParseAddr :: "string \<Rightarrow> (bool \<times> ip_bytes \<times> string) option" where
  "ParseAddr s =
     (case filter (\<lambda>c. c = CHR ''.'' \<or> c = colon \<or> c = CHR ''%'') s of
        [] \<Rightarrow> None
      | c # _ \<Rightarrow>
          if c = CHR ''.'' then map_option (\<lambda>q. (True, v4_mapped q, [])) (parse_ipv4 s)
          else if c = colon then
            (case Cut s (CHR ''%'') of (addr, zone, found) \<Rightarrow>
               if found \<and> zone = [] then None
               else map_option (\<lambda>b. (False, b, zone)) (parse_ipv6 addr))
          else None)"

definition ParseIP :: "string \<Rightarrow> ip_bytes option" where
  "ParseIP s =
     (case ParseAddr s of
        None \<Rightarrow> None
      | Some (is4, b, zone) \<Rightarrow> if zone = [] then Some b else None)"

definition loopback_ip :: ip_bytes where
  "loopback_ip = v4_mapped [127, 0, 0, 1]"

definition IsUnspecified :: "ip_bytes \<Rightarrow> bool" where
  "IsUnspecified ip \<longleftrightarrow> ip = v4_mapped [0, 0, 0, 0] \<or> ip = replicate 16 0"

lemmas go_ip_defs [go_eval] =
  is_hex_def hex_val_def ipv4_octet_def parse_ipv4_def ipv6_finish_def parse_ipv6_def
  ParseAddr_def ParseIP_def v4_mapped_def

lemma ParseIP_loopback: "ParseIP ''127.0.0.1'' = Some loopback_ip"
  by (simp add: go_eval loopback_ip_def)

lemma ParseIP_any4: "ParseIP ''0.0.0.0'' = Some (v4_mapped [0, 0, 0, 0])"
  by (simp add: go_eval)

lemma ParseIP_any6: "ParseIP ''::'' = Some (replicate 16 0)"
  by (simp add: go_eval)

lemma ParseIP_localhost: "ParseIP ''localhost'' = None"
  by (simp add: go_eval)

text \<open>An address always has sixteen bytes, and its text always a dot or a colon.\<close>

lemma those_length: "those xs = Some ys \<Longrightarrow> length ys = length xs"
  by (induction xs arbitrary: ys) (auto split: option.splits)

lemma parse_ipv4_length: "parse_ipv4 s = Some q \<Longrightarrow> length q = 4"
  by (auto simp: parse_ipv4_def Let_def split: if_splits dest: those_length)

lemma ipv6_loop_step:
  assumes "ipv6_loop (Suc n) ip el s = Some r"
  shows "\<exists>p el' t. length p = 2 \<and> (el' = el \<or> el' = Some (length ip + 2)) \<and>
     (r = (ip @ p, el', []) \<or> ipv6_loop n (ip @ p) el' t = Some r) \<or>
     (\<exists>q. length q = 4 \<and> length ip + 4 \<le> 16 \<and> r = (ip @ q, el, []))"
proof -
  define hex where "hex = takeWhile is_hex s"
  define rest where "rest = dropWhile is_hex s"
  define v where "v = foldl (\<lambda>a c. a * 16 + hex_val c) 0 hex"
  define p where "p = [v div 256, v mod 256]"
  have p2: "length p = 2" by (simp add: p_def)
  show ?thesis
  proof (cases "rest \<noteq> [] \<and> hd rest = CHR ''.''")
    case True
    with assms obtain q where "parse_ipv4 s = Some q" "r = (ip @ q, el, [])" "length ip + 4 \<le> 16"
      by (auto simp: Let_def rest_def split: if_splits option.splits)
    then show ?thesis using parse_ipv4_length by blast
  next
    case False
    with assms have eq: "(case rest of [] \<Rightarrow> Some (ip @ p, el, []) | [c] \<Rightarrow> None
         | c # d # rest' \<Rightarrow>
             if c \<noteq> colon then None
             else if d = colon then
               (if el \<noteq> None then None
                else if rest' = [] then Some (ip @ p, Some (length (ip @ p)), [])
                else ipv6_loop n (ip @ p) (Some (length (ip @ p))) rest')
             else ipv6_loop n (ip @ p) el (d # rest')) = Some r"
      unfolding rest_def p_def v_def hex_def by (simp add: Let_def split: if_splits)
    show ?thesis
    proof (cases rest)
      case Nil
      with eq p2 show ?thesis by auto
    next
      case (Cons c cs)
      with eq p2 show ?thesis by (cases cs) (auto split: if_splits)
    qed
  qed
qed

lemma ipv6_loop_length:
  "ipv6_loop n ip el s = Some r \<Longrightarrow> length ip + 2 * n = 16 \<Longrightarrow>
   (\<forall>e. el = Some e \<longrightarrow> e \<le> length ip) \<Longrightarrow>
   length (fst r) \<le> 16 \<and> (\<forall>e. fst (snd r) = Some e \<longrightarrow> e \<le> length (fst r))"
proof (induction n arbitrary: ip el s)
  case 0
  then show ?case by auto
next
  case (Suc n)
  from ipv6_loop_step [OF Suc.prems(1)] consider
      p el' t where "length p = 2" "el' = el \<or> el' = Some (length ip + 2)"
        "ipv6_loop n (ip @ p) el' t = Some r"
    | p el' where "length p = 2" "el' = el \<or> el' = Some (length ip + 2)" "r = (ip @ p, el', [])"
    | q where "length q = 4" "length ip + 4 \<le> 16" "r = (ip @ q, el, [])"
    by blast
  then show ?case
  proof cases
    case 1
    with Suc.prems show ?thesis by (intro Suc.IH [OF 1(3)]) auto
  next
    case 2
    with Suc.prems show ?thesis by auto
  next
    case 3
    with Suc.prems show ?thesis by auto
  qed
qed

lemma ipv6_finish_length:
  "ipv6_finish r = Some b \<Longrightarrow> length (fst r) \<le> 16 \<Longrightarrow>
   (\<forall>e. fst (snd r) = Some e \<longrightarrow> e \<le> length (fst r)) \<Longrightarrow> length b = 16"
  by (auto simp: ipv6_finish_def split: prod.splits if_splits option.splits)

lemma parse_ipv6_length: "parse_ipv6 s = Some b \<Longrightarrow> length b = 16"
proof -
  assume parse: "parse_ipv6 s = Some b"
  have "length c = 16"
    if "ipv6_loop 8 [] el t = Some r" "ipv6_finish r = Some c" "el = None \<or> el = Some 0" for el t r c
    using ipv6_loop_length [OF that(1)] ipv6_finish_length [OF that(2)] that(3) by auto
  with parse show ?thesis
    by (auto simp: parse_ipv6_def bind_eq_Some_conv split: if_splits)
qed

lemma ParseIP_length: "ParseIP s = Some b \<Longrightarrow> length b = 16"
  by (auto simp: ParseIP_def ParseAddr_def v4_mapped_def dest: parse_ipv4_length parse_ipv6_length
      split: option.splits if_splits list.splits prod.splits)

end
