(* ===== verification/Config.thy ===== *)
theory Config
  imports Components GoPath GoNet
begin

text \<open>
  \<open>internal/config/config.go\<close>: \<open>Load\<close> and its helpers. The environment is a map from names
  to values; each \<open>fmt.Errorf\<close> or \<open>errors.New\<close> of the file is a constructor of
  \<open>bind_error\<close> or \<open>config_error\<close>.
\<close>

section \<open>The data\<close>

definition EnvStateDir :: string where "EnvStateDir = ''CAPISHIM_STATE_DIR''"
definition EnvBindAddress :: string where "EnvBindAddress = ''CAPISHIM_BIND_ADDRESS''"
definition EnvHypervisorWebhookHost :: string where
  "EnvHypervisorWebhookHost = ''CAPISHIM_HYPERVISOR_WEBHOOK_HOST''"
definition defaultBindAddress :: string where "defaultBindAddress = ''127.0.0.1:6443''"
definition defaultHypervisorWebhookHost :: string where
  "defaultHypervisorWebhookHost = ''host.containers.internal''"
definition stateDirSuffix :: string where "stateDirSuffix = ''.local/share/capishim''"
definition minPort :: int where "minPort = 1"
definition maxPort :: int where "maxPort = 65535"

record config =
  StateDir :: string
  BindAddress :: string
  HypervisorWebhookHost :: string

type_synonym environment = "string \<rightharpoonup> string"

datatype bind_error =
  SplitFailed addr_error | MissingHost | InvalidHost string | InvalidPort string | PortOutOfRange int

datatype config_error =
  SetButEmpty string | HomeUnavailable | InvalidBind string bind_error | WhitespaceOnly string

text \<open>Go's \<open>env[k]\<close> without the second result: the empty string when the key is absent.\<close>

definition env_get :: "environment \<Rightarrow> string \<Rightarrow> string" where
  "env_get env k = (case env k of None \<Rightarrow> [] | Some v \<Rightarrow> v)"

section \<open>Load\<close>

definition stateDirFromEnv :: "environment \<Rightarrow> config_error + string" where
  "stateDirFromEnv env =
     (case env EnvStateDir of
        Some raw \<Rightarrow>
          (let dir = TrimSpace raw in if dir = [] then Inl (SetButEmpty EnvStateDir) else Inr dir)
      | None \<Rightarrow>
          (let home = TrimSpace (env_get env ''HOME'')
           in if home = [] then Inl HomeUnavailable else Inr (PathJoin [home, stateDirSuffix])))"

definition validateBindAddress :: "string \<Rightarrow> bind_error + unit" where
  "validateBindAddress addr =
     (case SplitHostPort addr of
        Inl e \<Rightarrow> Inl (SplitFailed e)
      | Inr (host, port) \<Rightarrow>
          if host = [] then Inl MissingHost
          else if ContainsAny host [CHR '' '', CHR 0x09] then Inl (InvalidHost host)
          else (case Atoi port of
                  None \<Rightarrow> Inl (InvalidPort port)
                | Some n \<Rightarrow>
                    if n < minPort \<or> n > maxPort then Inl (PortOutOfRange n) else Inr ()))"

definition bindAddressFromEnv :: "environment \<Rightarrow> config_error + string" where
  "bindAddressFromEnv env =
     (case env EnvBindAddress of
        Some raw \<Rightarrow>
          (let trimmed = TrimSpace raw
           in if trimmed = [] then Inl (SetButEmpty EnvBindAddress)
              else (case validateBindAddress trimmed of
                      Inl e \<Rightarrow> Inl (InvalidBind trimmed e)
                    | Inr _ \<Rightarrow> Inr trimmed))
      | None \<Rightarrow> Inr defaultBindAddress)"

definition hypervisorWebhookHostFromEnv :: "environment \<Rightarrow> config_error + string" where
  "hypervisorWebhookHostFromEnv env =
     (case env EnvHypervisorWebhookHost of
        None \<Rightarrow> Inr defaultHypervisorWebhookHost
      | Some raw \<Rightarrow>
          if raw = [] then Inr defaultHypervisorWebhookHost
          else (let host = TrimSpace raw
                in if host = [] then Inl (WhitespaceOnly EnvHypervisorWebhookHost) else Inr host))"

definition Load :: "environment \<Rightarrow> config_error + config" where
  "Load env =
     bind_result (stateDirFromEnv env) (\<lambda>stateDir.
     bind_result (bindAddressFromEnv env) (\<lambda>bind.
     bind_result (hypervisorWebhookHostFromEnv env) (\<lambda>host.
       Inr \<lparr>StateDir = stateDir, BindAddress = bind, HypervisorWebhookHost = host\<rparr>)))"

definition KubeconfigPath :: "config \<Rightarrow> ComponentID \<Rightarrow> string option" where
  "KubeconfigPath c i =
     (case Component i of
        None \<Rightarrow> None
      | Some spec \<Rightarrow>
          if Kubeconfig spec = [] then None else Some (PathJoin [StateDir c, Kubeconfig spec]))"

definition AdminKubeconfigPath :: "config \<Rightarrow> string" where
  "AdminKubeconfigPath c = PathJoin [StateDir c, kubeconfigsDir, ''admin.kubeconfig'']"

lemmas env_names [go_eval] =
  EnvStateDir_def EnvBindAddress_def EnvHypervisorWebhookHost_def defaultBindAddress_def
  defaultHypervisorWebhookHost_def stateDirSuffix_def minPort_def maxPort_def

section \<open>What a loaded configuration satisfies\<close>

text \<open>A bind address the program accepts: host and port can be told apart, the host is not
  empty and has no blank, the port is a number a socket can have.\<close>

definition valid_bind :: "string \<Rightarrow> bool" where
  "valid_bind b \<longleftrightarrow> validateBindAddress b = Inr ()"

definition wf_config :: "config \<Rightarrow> bool" where
  "wf_config c \<longleftrightarrow>
     TrimSpace (StateDir c) \<noteq> [] \<and> valid_bind (BindAddress c) \<and> trimmed (BindAddress c) \<and>
     HypervisorWebhookHost c \<noteq> [] \<and> trimmed (HypervisorWebhookHost c)"

lemma valid_bind_iff:
  "valid_bind b \<longleftrightarrow>
     (\<exists>h p n. SplitHostPort b = Inr (h, p) \<and> h \<noteq> [] \<and> CHR '' '' \<notin> set h \<and> CHR 0x09 \<notin> set h \<and>
        Atoi p = Some n \<and> 1 \<le> n \<and> n \<le> 65535)"
  by (auto simp: valid_bind_def validateBindAddress_def ContainsAny_def minPort_def maxPort_def
      split: sum.splits prod.splits option.splits if_splits)

lemma valid_bind_split:
  assumes "valid_bind b"
  obtains h p n where "SplitHostPort b = Inr (h, p)" "h \<noteq> []" "Atoi p = Some n" "1 \<le> n" "n \<le> 65535"
  using assms by (auto simp: valid_bind_iff)

lemma valid_bind_default: "valid_bind defaultBindAddress"
proof -
  have "SplitHostPort ((''127.0.0.1'') @ colon # ''6443'') = Inr (''127.0.0.1'', ''6443'')"
    by (rule SplitHostPort_plain) auto
  moreover have "Atoi ''6443'' = Some 6443" by (simp add: go_eval)
  ultimately show ?thesis by (auto simp: valid_bind_iff defaultBindAddress_def)
qed

lemma trimmed_default_bind: "trimmed defaultBindAddress"
  by (simp add: trimmed_def defaultBindAddress_def leading_rune_def space_runes_def)

lemma trimmed_default_host: "trimmed defaultHypervisorWebhookHost"
  by (simp add: trimmed_def defaultHypervisorWebhookHost_def leading_rune_def space_runes_def)

lemma plain_state_suffix: "plain_rel stateDirSuffix"
  by (simp add: plain_rel_def plain_elem_def stateDirSuffix_def)

lemma stateDir_not_blank:
  assumes "stateDirFromEnv env = Inr d"
  shows "TrimSpace d \<noteq> []"
proof (cases "env EnvStateDir")
  case None
  with assms have "d = dir_prefix (TrimSpace (env_get env ''HOME'')) @ stateDirSuffix"
    by (auto simp: stateDirFromEnv_def Let_def PathJoin_plain plain_state_suffix split: if_splits)
  then have "CHR ''c'' \<in> set d" by (simp add: stateDirSuffix_def)
  then show ?thesis by (rule TrimSpace_nonempty) (simp add: space_runes_def)
next
  case (Some raw)
  with assms have "d = TrimSpace raw" "d \<noteq> []"
    by (auto simp: stateDirFromEnv_def Let_def split: if_splits)
  then show ?thesis by (simp add: TrimSpace_idem)
qed

lemma bindAddress_valid:
  "bindAddressFromEnv env = Inr b \<Longrightarrow> valid_bind b \<and> trimmed b"
  by (auto simp: bindAddressFromEnv_def Let_def valid_bind_default [unfolded valid_bind_def]
      trimmed_default_bind trimmed_TrimSpace valid_bind_def
      split: option.splits if_splits sum.splits)

lemma default_host_nonempty: "defaultHypervisorWebhookHost \<noteq> []"
  by (simp add: defaultHypervisorWebhookHost_def)

lemma webhookHost_valid:
  "hypervisorWebhookHostFromEnv env = Inr h \<Longrightarrow> h \<noteq> [] \<and> trimmed h"
  by (auto simp: hypervisorWebhookHostFromEnv_def Let_def trimmed_default_host trimmed_TrimSpace
      default_host_nonempty split: option.splits if_splits)

lemma Load_Inr_iff:
  "Load env = Inr c \<longleftrightarrow>
     stateDirFromEnv env = Inr (StateDir c) \<and> bindAddressFromEnv env = Inr (BindAddress c) \<and>
     hypervisorWebhookHostFromEnv env = Inr (HypervisorWebhookHost c)"
  by (cases c) (auto simp: Load_def result_simps)



text \<open>
  \<open>Load\<close> fails exactly in the documented cases: no state directory and no home
  directory, a blank override of the state directory or the bind address, an override of
  the bind address that is not a valid address, a webhook host of white space only.
\<close>

theorem Load_fails_iff:
  "is_ok (Load env) \<longleftrightarrow>
     (case env EnvStateDir of Some raw \<Rightarrow> TrimSpace raw \<noteq> []
      | None \<Rightarrow> TrimSpace (env_get env ''HOME'') \<noteq> []) \<and>
     (case env EnvBindAddress of Some raw \<Rightarrow> TrimSpace raw \<noteq> [] \<and> valid_bind (TrimSpace raw)
      | None \<Rightarrow> True) \<and>
     (case env EnvHypervisorWebhookHost of Some raw \<Rightarrow> raw = [] \<or> TrimSpace raw \<noteq> [] | None \<Rightarrow> True)"
proof -
  have "is_ok (Load env) \<longleftrightarrow> is_ok (stateDirFromEnv env) \<and> is_ok (bindAddressFromEnv env) \<and>
      is_ok (hypervisorWebhookHostFromEnv env)"
    by (auto simp: is_ok_iff Load_def result_simps)
  moreover have "is_ok (stateDirFromEnv env) \<longleftrightarrow>
     (case env EnvStateDir of Some raw \<Rightarrow> TrimSpace raw \<noteq> []
      | None \<Rightarrow> TrimSpace (env_get env ''HOME'') \<noteq> [])"
    by (simp add: stateDirFromEnv_def Let_def split: option.splits)
  moreover have "is_ok (bindAddressFromEnv env) \<longleftrightarrow>
     (case env EnvBindAddress of Some raw \<Rightarrow> TrimSpace raw \<noteq> [] \<and> valid_bind (TrimSpace raw)
      | None \<Rightarrow> True)"
    by (auto simp: bindAddressFromEnv_def Let_def valid_bind_def split: option.splits sum.splits)
  moreover have "is_ok (hypervisorWebhookHostFromEnv env) \<longleftrightarrow>
     (case env EnvHypervisorWebhookHost of Some raw \<Rightarrow> raw = [] \<or> TrimSpace raw \<noteq> [] | None \<Rightarrow> True)"
    by (simp add: hypervisorWebhookHostFromEnv_def Let_def split: option.splits)
  ultimately show ?thesis by simp
qed

theorem Load_fails_iff_witness: "\<not> is_ok (Load (\<lambda>_. None))"
proof -
  have "TrimSpace [] = []" by (rule TrimSpace_id) (simp add: trimmed_def leading_rune_def find_None_iff)
  then show ?thesis using Load_fails_iff [of "\<lambda>_. None"] by (simp add: env_get_def)
qed

section \<open>Kubeconfig paths\<close>

lemma plain_kubeconfig:
  "spec \<in> set Components \<Longrightarrow> Kubeconfig spec \<noteq> [] \<Longrightarrow> plain_rel (Kubeconfig spec)"
  by (auto simp: Components_def plain_component_def kubeconfigsDir_def component_ids
      plain_rel_def plain_elem_def)

lemma kubeconfigs_distinct:
  "distinct (map Kubeconfig (filter is_manager Components) @ [''kubeconfigs/admin.kubeconfig''])"
  by (simp add: Components_managers) (simp add: Components_def plain_component_def kubeconfigsDir_def)

lemma AdminKubeconfigPath_eq:
  "AdminKubeconfigPath c = dir_prefix (StateDir c) @ ''kubeconfigs/admin.kubeconfig''"
proof -
  have "plain_rel kubeconfigsDir" "plain_rel ''admin.kubeconfig''"
    by (simp_all add: plain_rel_def plain_elem_def kubeconfigsDir_def)
  then show ?thesis by (simp add: AdminKubeconfigPath_def PathJoin_plain2 kubeconfigsDir_def)
qed

lemma KubeconfigPath_eq:
  "KubeconfigPath c i = Some p \<longleftrightarrow>
     (\<exists>spec \<in> set Components. ID spec = i \<and> is_manager spec \<and> p = dir_prefix (StateDir c) @ Kubeconfig spec)"
proof
  assume "KubeconfigPath c i = Some p"
  then obtain spec where "Component i = Some spec" and ne: "Kubeconfig spec \<noteq> []"
    and p: "p = PathJoin [StateDir c, Kubeconfig spec]"
    by (auto simp: KubeconfigPath_def split: option.splits if_splits)
  then have "spec \<in> set Components" "ID spec = i" by (simp_all add: Component_Some_iff)
  with ne p show "\<exists>spec \<in> set Components. ID spec = i \<and> is_manager spec \<and>
      p = dir_prefix (StateDir c) @ Kubeconfig spec"
    by (auto simp: PathJoin_plain plain_kubeconfig intro: table.only_managers)
next
  assume "\<exists>spec \<in> set Components. ID spec = i \<and> is_manager spec \<and>
      p = dir_prefix (StateDir c) @ Kubeconfig spec"
  then obtain spec where spec: "spec \<in> set Components" "ID spec = i" "is_manager spec"
    and p: "p = dir_prefix (StateDir c) @ Kubeconfig spec" by blast
  from spec have "Kubeconfig spec \<noteq> []" using table.manager_complete by blast
  moreover from spec have "Component i = Some spec" by (simp add: Component_Some_iff)
  ultimately show "KubeconfigPath c i = Some p"
    using spec p by (simp add: KubeconfigPath_def PathJoin_plain plain_kubeconfig)
qed

lemma KubeconfigPath_unique:
  assumes "KubeconfigPath c i = Some p" and "KubeconfigPath c j = Some q"
  shows "(p = q \<longleftrightarrow> i = j) \<and> p \<noteq> AdminKubeconfigPath c"
proof -
  from assms obtain s t where
    s: "s \<in> set (filter is_manager Components)" "ID s = i" "p = dir_prefix (StateDir c) @ Kubeconfig s" and
    t: "t \<in> set (filter is_manager Components)" "ID t = j" "q = dir_prefix (StateDir c) @ Kubeconfig t"
    by (auto simp: KubeconfigPath_eq)
  have "inj_on Kubeconfig (set (filter is_manager Components))"
    using kubeconfigs_distinct by (simp only: distinct_append distinct_map)
  with s t have "p = q \<longleftrightarrow> s = t" by (auto dest: inj_onD)
  moreover have "s = t \<longleftrightarrow> i = j"
    using s t table.ids_distinct by (auto simp: distinct_map dest: inj_onD)
  moreover have "Kubeconfig s \<noteq> ''kubeconfigs/admin.kubeconfig''"
  proof
    assume "Kubeconfig s = ''kubeconfigs/admin.kubeconfig''"
    with s(1) have "''kubeconfigs/admin.kubeconfig'' \<in> set (map Kubeconfig (filter is_manager Components))"
      by (metis in_set_conv_nth length_map nth_map nth_mem)
    moreover have "a \<notin> set xs" if "distinct (xs @ [a])" for a :: string and xs using that by simp
    ultimately show False using kubeconfigs_distinct by blast
  qed
  ultimately show ?thesis using s(3) by (simp add: AdminKubeconfigPath_eq)
qed

text \<open>
  Kubeconfig paths never collide, whatever the state directory: two components with a
  kubeconfig path get different paths, and none of them is the admin kubeconfig's.
\<close>

theorem kubeconfig_paths_distinct:
  assumes "KubeconfigPath c i = Some p" and "KubeconfigPath c j = Some q"
  shows "(p = q \<longleftrightarrow> i = j) \<and> p \<noteq> AdminKubeconfigPath c"
  using assms by (rule KubeconfigPath_unique)

theorem kubeconfig_paths_distinct_witness:
  "(''/s/kubeconfigs/core.kubeconfig'' = ''/s/kubeconfigs/kcp.kubeconfig'' \<longleftrightarrow> ComponentCore = ComponentKCP) \<and>
   ''/s/kubeconfigs/core.kubeconfig'' \<noteq>
     AdminKubeconfigPath \<lparr>StateDir = ''/s'', BindAddress = [], HypervisorWebhookHost = []\<rparr>"
proof -
  let ?c = "\<lparr>StateDir = ''/s'', BindAddress = [], HypervisorWebhookHost = []\<rparr>"
  have "KubeconfigPath ?c ComponentCore = Some ''/s/kubeconfigs/core.kubeconfig''"
    "KubeconfigPath ?c ComponentKCP = Some ''/s/kubeconfigs/kcp.kubeconfig''"
    by (simp_all add: KubeconfigPath_def) (simp_all add: Components_def kubeconfigsDir_def go_eval)
  from kubeconfig_paths_distinct [OF this] show ?thesis .
qed

end
