(* ===== verification/GoFs.thy ===== *)
theory GoFs
  imports GoPath "HOL-Library.Word"
begin

text \<open>
  The file system as Go's package \<open>os\<close> shows it, and the two other sources of outside input the
  program has: random numbers and the clock. A path is a string that \<open>filepath.Join\<close> or
  \<open>filepath.Dir\<close> has cleaned, so a name stands for one file; there are no links. Every call
  may fail for reasons the model does not look into (permissions, a full disk, a broken
  medium): the oracle \<open>w_faults\<close> decides, call by call, and a failing write may have written
  a part. \<open>w_history\<close> keeps the states the file system went through, for statements about
  what a crash leaves behind.
\<close>

section \<open>The world\<close>

type_synonym file_mode = "9 word"

datatype node = DirNode | FileNode file_mode string

type_synonym files = "string \<rightharpoonup> node"

datatype fault = NoFault | Fail | FailAfter nat

record world =
  w_files :: files
  w_umask :: file_mode
  w_faults :: "nat \<Rightarrow> fault"
  w_calls :: nat
  w_history :: "files list"
  w_entropy :: "nat \<Rightarrow> nat"
  w_drawn :: nat
  w_clock :: "nat \<Rightarrow> int"
  w_looked :: nat
  w_slept :: int
  w_cancel :: "nat \<Rightarrow> string option"
  w_selects :: nat

datatype io_error = ErrNotExist | ErrExist | NotADirectory | IsADirectory | ErrInjected

type_synonym 'a io = "(world, io_error, 'a) action"

definition is_dir :: "files \<Rightarrow> string \<Rightarrow> bool" where
  "is_dir fs p \<longleftrightarrow> p = ''/'' \<or> p = ''.'' \<or> fs p = Some DirNode"

text \<open>One call: what the oracle says about it, and the state with the call counted.\<close>

definition next_fault :: "world \<Rightarrow> fault \<times> world" where
  "next_fault w = (w_faults w (w_calls w), w\<lparr>w_calls := Suc (w_calls w)\<rparr>)"

definition set_files :: "files \<Rightarrow> world \<Rightarrow> world" where
  "set_files fs w = w\<lparr>w_files := fs, w_history := fs # w_history w\<rparr>"

section \<open>Reading\<close>

text \<open>\<open>os.Stat\<close> and \<open>os.ReadFile\<close>; they change nothing but the count of calls.\<close>

definition Stat :: "string \<Rightarrow> node io" where
  "Stat p w =
     (case next_fault w of
        (NoFault, v) \<Rightarrow>
          (case w_files v p of
             Some n \<Rightarrow> (Inr n, v)
           | None \<Rightarrow> if is_dir (w_files v) p then (Inr DirNode, v) else (Inl ErrNotExist, v))
      | (_, v) \<Rightarrow> (Inl ErrInjected, v))"

definition ReadFile :: "string \<Rightarrow> string io" where
  "ReadFile p w =
     (case next_fault w of
        (NoFault, v) \<Rightarrow>
          (case w_files v p of
             Some (FileNode _ data) \<Rightarrow> (Inr data, v)
           | Some DirNode \<Rightarrow> (Inl IsADirectory, v)
           | None \<Rightarrow> if is_dir (w_files v) p then (Inl IsADirectory, v) else (Inl ErrNotExist, v))
      | (_, v) \<Rightarrow> (Inl ErrInjected, v))"

section \<open>Writing\<close>

text \<open>
  \<open>os.WriteFile\<close> opens (creating or truncating) and writes; it sets the mode of a new file
  only, reduced by the umask.
\<close>

definition put_file :: "string \<Rightarrow> file_mode \<Rightarrow> string \<Rightarrow> files \<Rightarrow> files" where
  "put_file p mode data fs =
     (case fs p of
        Some (FileNode old _) \<Rightarrow> fs(p \<mapsto> FileNode old data)
      | _ \<Rightarrow> fs(p \<mapsto> FileNode mode data))"

definition WriteFile :: "string \<Rightarrow> string \<Rightarrow> file_mode \<Rightarrow> unit io" where
  "WriteFile p data mode w =
     (case next_fault w of
        (fault, v) \<Rightarrow>
          if fault = Fail then (Inl ErrInjected, v)
          else if is_dir (w_files v) p then (Inl IsADirectory, v)
          else if w_files v p = None \<and> \<not> is_dir (w_files v) (Dir p) then (Inl ErrNotExist, v)
          else (let put = (\<lambda>d. set_files (put_file p (and mode (not (w_umask v))) d (w_files v)) v)
                in case fault of
                     FailAfter n \<Rightarrow> (Inl ErrInjected, put (take n data))
                   | _ \<Rightarrow> (Inr (), put data)))"

definition Chmod :: "string \<Rightarrow> file_mode \<Rightarrow> unit io" where
  "Chmod p mode w =
     (case next_fault w of
        (NoFault, v) \<Rightarrow>
          (case w_files v p of
             Some (FileNode _ data) \<Rightarrow> (Inr (), set_files ((w_files v)(p \<mapsto> FileNode mode data)) v)
           | _ \<Rightarrow> if is_dir (w_files v) p then (Inr (), v) else (Inl ErrNotExist, v))
      | (_, v) \<Rightarrow> (Inl ErrInjected, v))"

text \<open>\<open>os.MkdirAll\<close>: the path and its parents, outermost first; a failing call may have made some.\<close>

definition path_chain :: "string \<Rightarrow> string list" where
  "path_chain p = filter (\<lambda>q. q \<noteq> []) (map (\<lambda>i. take i p) (filter (\<lambda>i. i = length p \<or> p ! i = slash) [0..<Suc (length p)]))"

definition make_dirs :: "string list \<Rightarrow> files \<Rightarrow> files" where
  "make_dirs ps fs = foldl (\<lambda>fs q. if is_dir fs q then fs else fs(q \<mapsto> DirNode)) fs ps"

definition MkdirAll :: "string \<Rightarrow> unit io" where
  "MkdirAll p w =
     (case next_fault w of
        (fault, v) \<Rightarrow>
          if fault = Fail then (Inl ErrInjected, v)
          else if is_dir (w_files v) p then (Inr (), v)
          else if list_ex (\<lambda>q. case w_files v q of Some (FileNode _ _) \<Rightarrow> True | _ \<Rightarrow> False) (path_chain p)
            then (Inl NotADirectory, v)
          else (case fault of
                  FailAfter n \<Rightarrow> (Inl ErrInjected, set_files (make_dirs (take n (path_chain p)) (w_files v)) v)
                | _ \<Rightarrow> (Inr (), set_files (make_dirs (path_chain p) (w_files v)) v)))"

text \<open>\<open>os.Rename\<close> replaces its target in one step.\<close>

definition Rename :: "string \<Rightarrow> string \<Rightarrow> unit io" where
  "Rename old new w =
     (case next_fault w of
        (NoFault, v) \<Rightarrow>
          (case w_files v old of
             None \<Rightarrow> (Inl ErrNotExist, v)
           | Some n \<Rightarrow>
               if is_dir (w_files v) new then (Inl ErrExist, v)
               else (Inr (), set_files ((w_files v)(old := None, new \<mapsto> n)) v))
      | (_, v) \<Rightarrow> (Inl ErrInjected, v))"

definition Remove :: "string \<Rightarrow> unit io" where
  "Remove p w =
     (case next_fault w of
        (NoFault, v) \<Rightarrow>
          (if w_files v p = None then (Inl ErrNotExist, v)
           else (Inr (), set_files ((w_files v)(p := None)) v))
      | (_, v) \<Rightarrow> (Inl ErrInjected, v))"

section \<open>Random numbers and the clock\<close>

definition draw :: "world \<Rightarrow> nat \<times> world" where
  "draw w = (w_entropy w (w_drawn w), w\<lparr>w_drawn := Suc (w_drawn w)\<rparr>)"

text \<open>
  The clock counts nanoseconds. Its \<open>n\<close>-th reading is \<open>w_clock w n\<close> and the time slept so far: what
  passes between two readings beyond the sleeping is open.
\<close>

definition Now :: "world \<Rightarrow> int \<times> world" where
  "Now w = (w_clock w (w_looked w) + w_slept w, w\<lparr>w_looked := Suc (w_looked w)\<rparr>)"

text \<open>
  \<open>select\<close> on \<open>ctx.Done()\<close> and \<open>time.After(d)\<close>: the oracle \<open>w_cancel\<close> decides which fires; the answer is
  the error of the context, or none when the timer fired, that is, after at least \<open>d\<close>.
\<close>

definition SelectAfter :: "int \<Rightarrow> world \<Rightarrow> string option \<times> world" where
  "SelectAfter d w =
     (let v = w\<lparr>w_selects := Suc (w_selects w)\<rparr>
      in case w_cancel w (w_selects w) of
           Some e \<Rightarrow> (Some e, v)
         | None \<Rightarrow> (None, v\<lparr>w_slept := w_slept w + max 0 d\<rparr>))"

text \<open>
  \<open>os.CreateTemp(dir, ".capishim-*.tmp")\<close>: a random name that is free, tried up to 10000 times;
  the file is empty and has mode 0600 (0x180), reduced by the umask.
\<close>

definition temp_name :: "string \<Rightarrow> nat \<Rightarrow> string" where
  "temp_name dir n = PathJoin [dir, ''.capishim-'' @ Itoa (int n) @ ''.tmp'']"

fun create_temp :: "nat \<Rightarrow> string \<Rightarrow> string io" where
  "create_temp 0 dir w = (Inl ErrExist, w)"
| "create_temp (Suc k) dir w =
     (case draw w of
        (n, u) \<Rightarrow>
          (case next_fault u of
             (NoFault, v) \<Rightarrow>
               (let p = temp_name dir n
                in if w_files v p \<noteq> None then create_temp k dir v
                   else if \<not> is_dir (w_files v) dir then (Inl ErrNotExist, v)
                   else (Inr p, set_files ((w_files v)(p \<mapsto> FileNode (and 0x180 (not (w_umask v))) [])) v))
           | (_, v) \<Rightarrow> (Inl ErrInjected, v)))"

definition CreateTemp :: "string \<Rightarrow> string io" where
  "CreateTemp dir = create_temp 10000 dir"

section \<open>What a computation may change\<close>

text \<open>
  \<open>stays R m\<close>: every run of \<open>m\<close>, failed or not, relates the state before to the state after by
  \<open>R\<close>. Two such relations carry the components' proofs: \<open>same_disk\<close> for the calls that read,
  and \<open>within S\<close> for the ones that write: no file outside \<open>S\<close> is created, changed or removed;
  directories may be added.
\<close>

named_theorems io_frame "what the calls may change"

definition stays :: "('w \<Rightarrow> 'w \<Rightarrow> bool) \<Rightarrow> ('w, 'e, 'a) action \<Rightarrow> bool" where
  "stays R m \<longleftrightarrow> (\<forall>w. R w (snd (m w)))"

definition only_writes :: "string set \<Rightarrow> files \<Rightarrow> files \<Rightarrow> bool" where
  "only_writes S fs gs \<longleftrightarrow> (\<forall>p. p \<notin> S \<longrightarrow> gs p = fs p \<or> fs p = None \<and> gs p = Some DirNode)"

definition same_env :: "world \<Rightarrow> world \<Rightarrow> bool" where
  "same_env w v \<longleftrightarrow> w_faults v = w_faults w \<and> w_umask v = w_umask w \<and> w_entropy v = w_entropy w \<and>
     w_clock v = w_clock w \<and> w_slept v = w_slept w \<and> w_looked w \<le> w_looked v \<and> w_cancel v = w_cancel w"

definition within :: "string set \<Rightarrow> world \<Rightarrow> world \<Rightarrow> bool" where
  "within S w v \<longleftrightarrow> only_writes S (w_files w) (w_files v) \<and> same_env w v"

definition same_disk :: "world \<Rightarrow> world \<Rightarrow> bool" where
  "same_disk w v \<longleftrightarrow> w_files v = w_files w \<and> w_history v = w_history w \<and> same_env w v"

definition calm :: "world \<Rightarrow> bool" where
  "calm w \<longleftrightarrow> (\<forall>n. w_faults w n = NoFault)"

lemma same_env_refl [simp]: "same_env w w"
  by (simp add: same_env_def)

lemma same_disk_refl [simp]: "same_disk w w"
  by (simp add: same_disk_def)

lemma same_disk_trans: "same_disk u v \<Longrightarrow> same_disk v w \<Longrightarrow> same_disk u w"
  by (simp add: same_disk_def same_env_def)

lemma only_writes_refl [simp]: "only_writes S fs fs"
  by (simp add: only_writes_def)

lemma only_writes_trans: "only_writes S fs gs \<Longrightarrow> only_writes S gs hs \<Longrightarrow> only_writes S fs hs"
  unfolding only_writes_def by metis

lemma only_writes_mono: "only_writes S fs gs \<Longrightarrow> S \<subseteq> T \<Longrightarrow> only_writes T fs gs"
  unfolding only_writes_def by blast

lemma only_writes_file:
  "only_writes S fs gs \<Longrightarrow> p \<notin> S \<Longrightarrow> gs p = Some (FileNode m d) \<longleftrightarrow> fs p = Some (FileNode m d)"
  unfolding only_writes_def by force

lemma only_writes_kept: "only_writes S fs gs \<Longrightarrow> p \<notin> S \<Longrightarrow> fs p = Some n \<Longrightarrow> gs p = Some n"
  unfolding only_writes_def by force

lemma within_refl [simp]: "within S w w"
  by (simp add: within_def)

lemma within_trans: "within S u v \<Longrightarrow> within S v w \<Longrightarrow> within S u w"
  unfolding within_def same_env_def by (auto intro: only_writes_trans)

lemma within_mono: "within S u v \<Longrightarrow> S \<subseteq> T \<Longrightarrow> within T u v"
  unfolding within_def by (auto intro: only_writes_mono)

lemma same_disk_within: "same_disk u v \<Longrightarrow> within S u v"
  by (simp add: same_disk_def within_def)

lemma same_env_calm: "same_env w v \<Longrightarrow> calm v = calm w"
  by (simp add: same_env_def calm_def)

lemma within_calm: "within S w v \<Longrightarrow> calm w \<Longrightarrow> calm v"
  by (auto simp: within_def dest: same_env_calm)

lemma same_disk_calm: "same_disk w v \<Longrightarrow> calm w \<Longrightarrow> calm v"
  by (auto simp: same_disk_def dest: same_env_calm)

lemma within_is_dir: "within S w v \<Longrightarrow> p \<notin> S \<Longrightarrow> is_dir (w_files w) p \<Longrightarrow> is_dir (w_files v) p"
  by (auto simp: within_def is_dir_def dest: only_writes_kept)

lemma stays_run: "stays R m \<Longrightarrow> m w = (r, v) \<Longrightarrow> R w v"
  unfolding stays_def by (metis snd_conv)

lemma stays_return [io_frame]:
  "stays same_disk (act_return x)" "stays (within S) (act_return x)"
  "stays same_disk (act_throw e)" "stays (within S) (act_throw e)"
  "stays same_disk (act_lift r)" "stays (within S) (act_lift r)"
  by (simp_all add: stays_def)

lemma stays_bind:
  assumes "\<And>u v w. R u v \<Longrightarrow> R v w \<Longrightarrow> R u w" and "stays R m" and "\<And>x. stays R (f x)"
  shows "stays R (act_bind m f)"
  unfolding stays_def
proof
  fix w
  obtain r v where run: "m w = (r, v)" by fastforce
  with assms(2) have "R w v" by (metis stays_run)
  with assms(1,3) run show "R w (snd (act_bind m f w))"
    by (cases r) (auto simp: act_bind_def stays_def)
qed

lemma stays_bind_disk [io_frame]:
  "stays same_disk m \<Longrightarrow> (\<And>x. stays same_disk (f x)) \<Longrightarrow> stays same_disk (act_bind m f)"
  by (rule stays_bind) (blast intro: same_disk_trans)+

lemma stays_bind_within [io_frame]:
  "stays (within S) m \<Longrightarrow> (\<And>x. stays (within S) (f x)) \<Longrightarrow> stays (within S) (act_bind m f)"
  by (rule stays_bind) (blast intro: within_trans)+

lemma stays_wrap [io_frame]: "stays R m \<Longrightarrow> stays R (act_wrap c m)"
  by (auto simp: stays_def act_wrap_def split: prod.splits) (metis snd_conv)

lemma stays_iter [io_frame]:
  "(\<And>x. x \<in> set xs \<Longrightarrow> stays (within S) (f x)) \<Longrightarrow> stays (within S) (act_iter f xs)"
  by (induction xs) (auto intro: io_frame)

lemma stays_mono: "stays (within S) m \<Longrightarrow> S \<subseteq> T \<Longrightarrow> stays (within T) m"
  unfolding stays_def by (blast intro: within_mono)

lemma stays_reads: "stays same_disk m \<Longrightarrow> stays (within S) m"
  unfolding stays_def by (blast intro: same_disk_within)

section \<open>What each call changes\<close>

lemma next_fault_same: "next_fault w = (f, v) \<Longrightarrow> same_disk w v"
  by (auto simp: next_fault_def same_disk_def same_env_def)

lemma next_fault_calm: "calm w \<Longrightarrow> fst (next_fault w) = NoFault"
  by (simp add: next_fault_def calm_def)

lemma set_files_sel [simp]:
  "w_files (set_files fs w) = fs" "w_history (set_files fs w) = fs # w_history w"
  "same_env w (set_files fs w) \<longleftrightarrow> True"
  by (simp_all add: set_files_def same_env_def)

lemma set_files_within:
  "same_disk w v \<Longrightarrow> only_writes S (w_files v) fs \<Longrightarrow> within S w (set_files fs v)"
  by (simp add: within_def same_disk_def) (simp add: same_env_def set_files_def)

lemma Stat_reads [io_frame]: "stays same_disk (Stat p)"
  by (auto simp: stays_def Stat_def split: prod.split fault.split option.split dest: next_fault_same)

lemma ReadFile_reads [io_frame]: "stays same_disk (ReadFile p)"
  by (auto simp: stays_def ReadFile_def split: prod.split fault.split option.split node.split dest: next_fault_same)

lemma only_writes_update [simp]: "p \<in> S \<Longrightarrow> only_writes S fs (fs(p := n))"
  by (auto simp: only_writes_def)

lemma only_writes_put [simp]: "p \<in> S \<Longrightarrow> only_writes S fs (put_file p m d fs)"
  by (simp add: put_file_def split: option.splits node.splits)

lemma WriteFile_within [io_frame]: "p \<in> S \<Longrightarrow> stays (within S) (WriteFile p d m)"
  by (auto simp: stays_def WriteFile_def Let_def split: prod.split fault.split
      dest: next_fault_same intro!: set_files_within intro: same_disk_within)

lemma Chmod_within [io_frame]: "p \<in> S \<Longrightarrow> stays (within S) (Chmod p m)"
  by (auto simp: stays_def Chmod_def split: prod.split fault.split option.split node.split
      dest: next_fault_same intro!: set_files_within intro: same_disk_within)

lemma make_dirs_step: "make_dirs (q # qs) fs = make_dirs qs (if is_dir fs q then fs else fs(q \<mapsto> DirNode))"
  by (simp add: make_dirs_def)

lemma make_dirs_file:
  "\<forall>q \<in> set qs. \<forall>m d. fs q \<noteq> Some (FileNode m d) \<Longrightarrow> only_writes S fs (make_dirs qs fs)"
proof (induction qs arbitrary: fs)
  case Nil
  then show ?case by (simp add: make_dirs_def)
next
  case (Cons q qs)
  let ?gs = "if is_dir fs q then fs else fs(q \<mapsto> DirNode)"
  have "fs q = None \<or> fs q = Some DirNode"
    using Cons.prems by (cases "fs q") (auto, metis node.exhaust)
  then have "only_writes S fs ?gs" by (auto simp: only_writes_def)
  moreover have "only_writes S ?gs (make_dirs qs ?gs)"
    using Cons.prems by (intro Cons.IH) auto
  ultimately show ?case unfolding make_dirs_step by (rule only_writes_trans)
qed

lemma make_dirs_is_dir: "is_dir (make_dirs qs fs) q \<longleftrightarrow> is_dir fs q \<or> q \<in> set qs"
proof (induction qs arbitrary: fs)
  case Nil
  then show ?case by (simp add: make_dirs_def)
next
  case (Cons r qs)
  have "is_dir (if is_dir fs r then fs else fs(r \<mapsto> DirNode)) q \<longleftrightarrow> is_dir fs q \<or> q = r"
    by (cases "q = r") (auto simp: is_dir_def)
  with Cons show ?case unfolding make_dirs_step by auto
qed

lemma make_dirs_value: "make_dirs qs fs p = fs p \<or> p \<in> set qs \<and> make_dirs qs fs p = Some DirNode"
proof (induction qs arbitrary: fs)
  case Nil
  then show ?case by (simp add: make_dirs_def)
next
  case (Cons q qs)
  show ?case
    using Cons.IH [of "if is_dir fs q then fs else fs(q \<mapsto> DirNode)"]
    unfolding make_dirs_step by (auto split: if_splits)
qed

lemma blocked_iff:
  "list_ex (\<lambda>q. case fs q of Some (FileNode _ _) \<Rightarrow> True | _ \<Rightarrow> False) qs \<longleftrightarrow>
     (\<exists>q \<in> set qs. \<exists>m d. fs q = Some (FileNode m d))"
  unfolding list_ex_iff
proof (intro bex_cong refl)
  fix q
  show "(case fs q of Some (FileNode _ _) \<Rightarrow> True | _ \<Rightarrow> False) \<longleftrightarrow> (\<exists>m d. fs q = Some (FileNode m d))"
    by (cases "fs q") (simp_all split: node.split)
qed

lemma MkdirAll_within [io_frame]: "stays (within S) (MkdirAll p)"
proof -
  have "within S w (snd (MkdirAll p w))" for w
  proof -
    obtain f v where nf: "next_fault w = (f, v)" by fastforce
    then have sd: "same_disk w v" by (rule next_fault_same)
    have ok: "within S w (set_files (make_dirs qs (w_files v)) v)"
      if "set qs \<subseteq> set (path_chain p)"
        and "\<not> (\<exists>q \<in> set (path_chain p). \<exists>m d. w_files v q = Some (FileNode m d))" for qs
      using that by (intro set_files_within [OF sd] make_dirs_file) blast
    have tk: "set (take n (path_chain p)) \<subseteq> set (path_chain p)" for n by (rule set_take_subset)
    from nf sd ok [OF tk] ok [OF subset_refl] show ?thesis
      unfolding MkdirAll_def blocked_iff
      by (auto split: fault.split intro: same_disk_within)
  qed
  then show ?thesis by (simp add: stays_def)
qed

lemma Remove_within [io_frame]: "p \<in> S \<Longrightarrow> stays (within S) (Remove p)"
  by (auto simp: stays_def Remove_def split: prod.split fault.split
      dest: next_fault_same intro!: set_files_within intro: same_disk_within)

lemma Rename_within [io_frame]: "p \<in> S \<Longrightarrow> q \<in> S \<Longrightarrow> stays (within S) (Rename p q)"
proof -
  assume S: "p \<in> S" "q \<in> S"
  then have "only_writes S fs (fs(p := None, q \<mapsto> n))" for fs n
    by (auto simp: only_writes_def)
  then show ?thesis
    by (auto simp: stays_def Rename_def split: prod.split fault.split option.split
        dest: next_fault_same intro!: set_files_within intro: same_disk_within)
qed

section \<open>What a successful call has done, and when it succeeds\<close>

lemma ReadFile_ok: "ReadFile p w = (Inr d, v) \<Longrightarrow> \<exists>m. w_files w p = Some (FileNode m d)"
  by (auto simp: ReadFile_def next_fault_def split: fault.splits option.splits node.splits if_splits)

lemma ReadFile_calm:
  "calm w \<Longrightarrow> w_files w p = Some (FileNode m d) \<Longrightarrow> \<exists>v. ReadFile p w = (Inr d, v) \<and> same_disk w v"
  by (auto simp: ReadFile_def next_fault_def calm_def same_disk_def same_env_def)

lemma Stat_file: "Stat p w = (Inr (FileNode m d), v) \<Longrightarrow> w_files w p = Some (FileNode m d)"
  by (auto simp: Stat_def next_fault_def split: fault.splits option.splits if_splits)

lemma Stat_missing: "Stat p w = (Inl ErrNotExist, v) \<Longrightarrow> w_files w p = None"
  by (auto simp: Stat_def next_fault_def split: fault.splits option.splits if_splits)

lemma Stat_dir: "Stat p w = (Inr DirNode, v) \<Longrightarrow> is_dir (w_files w) p"
  by (auto simp: Stat_def next_fault_def is_dir_def split: fault.splits option.splits if_splits)

lemma Stat_calm:
  "calm w \<Longrightarrow> Stat p w =
     ((case w_files w p of Some n \<Rightarrow> Inr n | None \<Rightarrow> if is_dir (w_files w) p then Inr DirNode else Inl ErrNotExist),
      snd (next_fault w))"
  by (auto simp: Stat_def next_fault_def calm_def split: option.split)

lemma WriteFile_ok:
  "WriteFile p d m w = (Inr (), v) \<Longrightarrow>
     w_files v = put_file p (and m (not (w_umask w))) d (w_files w) \<and> \<not> is_dir (w_files w) p"
  by (auto simp: WriteFile_def next_fault_def Let_def split: fault.splits if_splits)

lemma WriteFile_calm:
  assumes "calm w" and "\<not> is_dir (w_files w) p" and "w_files w p = None \<Longrightarrow> is_dir (w_files w) (Dir p)"
  shows "\<exists>v. WriteFile p d m w = (Inr (), v)"
  using assms by (auto simp: WriteFile_def next_fault_def calm_def Let_def)

lemma Chmod_ok:
  "Chmod p m w = (Inr (), v) \<Longrightarrow> w_files w p = Some (FileNode m' d) \<Longrightarrow>
     w_files v = (w_files w)(p \<mapsto> FileNode m d)"
  by (auto simp: Chmod_def next_fault_def split: fault.splits)

lemma Chmod_calm:
  "calm w \<Longrightarrow> w_files w p = Some (FileNode m' d) \<Longrightarrow> \<exists>v. Chmod p m w = (Inr (), v)"
  by (auto simp: Chmod_def next_fault_def calm_def)

lemma path_chain_self: "p \<noteq> [] \<Longrightarrow> p \<in> set (path_chain p)"
  by (force simp: path_chain_def)

lemma path_chain_prefix: "q \<in> set (path_chain p) \<Longrightarrow> prefix q p \<and> q \<noteq> []"
  by (auto simp: path_chain_def take_is_prefix simp del: upt_Suc)

lemma MkdirAll_ok:
  "MkdirAll p w = (Inr (), v) \<Longrightarrow>
     w_files v = w_files w \<and> is_dir (w_files w) p \<or> w_files v = make_dirs (path_chain p) (w_files w)"
  by (auto simp: MkdirAll_def next_fault_def split: fault.splits if_splits)

lemma MkdirAll_made: "MkdirAll p w = (Inr (), v) \<Longrightarrow> p \<noteq> [] \<Longrightarrow> is_dir (w_files v) p"
  by (drule MkdirAll_ok) (auto simp: make_dirs_is_dir path_chain_self)

lemma MkdirAll_present:
  "calm w \<Longrightarrow> is_dir (w_files w) p \<Longrightarrow> \<exists>v. MkdirAll p w = (Inr (), v) \<and> same_disk w v"
  by (auto simp: MkdirAll_def next_fault_def calm_def same_disk_def same_env_def)

lemma MkdirAll_calm:
  assumes "calm w" and "\<And>q m d. q \<in> set (path_chain p) \<Longrightarrow> w_files w q \<noteq> Some (FileNode m d)"
  shows "\<exists>v. MkdirAll p w = (Inr (), v)"
  using assms by (auto simp: MkdirAll_def next_fault_def calm_def blocked_iff)

lemma MkdirAll_value:
  "MkdirAll p w = (Inr (), v) \<Longrightarrow>
     w_files v q = w_files w q \<or> q \<in> set (path_chain p) \<and> w_files v q = Some DirNode"
  using make_dirs_value by (fastforce dest: MkdirAll_ok)

section \<open>The interface of an operation that ensures an artifact\<close>

text \<open>
  An operation of this kind checks whether its artifact is already good and writes it otherwise.
  What its clients rely on: success leaves a good artifact, only the artifact's own files are
  written, goodness depends on these files alone, and a good artifact is left as it is, without a
  write. For a list of such operations on disjoint files the loop then has the same properties.
  \<open>ok\<close> is the precondition of the contract.
\<close>

locale ensured =
  fixes ok :: "'i \<Rightarrow> bool"
    and paths :: "'i \<Rightarrow> string set"
    and good :: "'i \<Rightarrow> files \<Rightarrow> bool"
    and ensure :: "'i \<Rightarrow> (world, 'e, unit) action"
  assumes ensure_good: "ok i \<Longrightarrow> ensure i w = (Inr (), v) \<Longrightarrow> good i (w_files v)"
    and ensure_frame: "stays (within (paths i)) (ensure i)"
    and good_local: "good i fs \<Longrightarrow> (\<And>p. p \<in> paths i \<Longrightarrow> fs p \<noteq> None \<Longrightarrow> gs p = fs p) \<Longrightarrow> good i gs"
    and ensure_keeps: "ok i \<Longrightarrow> calm w \<Longrightarrow> good i (w_files w) \<Longrightarrow> \<exists>v. ensure i w = (Inr (), v) \<and> same_disk w v"
begin

definition disjoint_paths :: "'i list \<Rightarrow> bool" where
  "disjoint_paths is \<longleftrightarrow> sorted_wrt (\<lambda>i j. paths i \<inter> paths j = {}) is"

lemma loop_frame: "stays (within (\<Union> (paths ` set is))) (act_iter ensure is)"
  by (intro stays_iter stays_mono [OF ensure_frame]) blast

lemma good_within: "good i (w_files w) \<Longrightarrow> within S w v \<Longrightarrow> S \<inter> paths i = {} \<Longrightarrow> good i (w_files v)"
  by (erule good_local) (auto simp: within_def only_writes_def)

lemma loop_good:
  assumes "list_all ok is" and "disjoint_paths is" and "act_iter ensure is w = (Inr (), v)"
  shows "\<forall>i \<in> set is. good i (w_files v)"
  using assms
proof (induction "is" arbitrary: w)
  case Nil
  then show ?case by simp
next
  case (Cons i "is")
  from Cons.prems(3) obtain u where head: "ensure i w = (Inr (), u)" and rest: "act_iter ensure is u = (Inr (), v)"
    by (auto simp: act_bind_Inr_iff)
  from Cons.prems head have "good i (w_files u)" by (intro ensure_good) simp_all
  moreover have "within (\<Union> (paths ` set is)) u v" by (rule stays_run [OF loop_frame rest])
  moreover have "\<Union> (paths ` set is) \<inter> paths i = {}"
    using Cons.prems(2) by (auto simp: disjoint_paths_def)
  ultimately have "good i (w_files v)" by (rule good_within)
  moreover have "\<forall>i \<in> set is. good i (w_files v)"
    using Cons.prems rest by (intro Cons.IH [of u]) (simp_all add: disjoint_paths_def)
  ultimately show ?case by simp
qed

lemma loop_keeps:
  assumes "list_all ok is" and "calm w" and "\<forall>i \<in> set is. good i (w_files w)"
  shows "\<exists>v. act_iter ensure is w = (Inr (), v) \<and> same_disk w v"
  using assms
proof (induction "is" arbitrary: w)
  case Nil
  then show ?case by simp
next
  case (Cons i "is")
  then obtain u where u: "ensure i w = (Inr (), u)" "same_disk w u"
    using ensure_keeps [of i w] by auto
  with Cons.prems have "calm u" "\<forall>i \<in> set is. good i (w_files u)"
    by (auto simp: same_disk_def dest: same_env_calm)
  with Cons.IH [of u] Cons.prems(1) obtain v where "act_iter ensure is u = (Inr (), v)" "same_disk u v"
    by auto
  with u show ?case by (auto simp: act_bind_run intro: same_disk_trans)
qed

lemma loop_each:
  assumes "disjoint_paths is" and "act_iter ensure is w = (Inr (), v)" and "i \<in> set is"
  shows "\<exists>S u u'. ensure i u = (Inr (), u') \<and> within S w u \<and> within S u' v \<and> S \<inter> paths i = {}"
  using assms
proof (induction "is" arbitrary: w)
  case Nil
  then show ?case by simp
next
  case (Cons j "is")
  from Cons.prems(2) obtain x where head: "ensure j w = (Inr (), x)" and rest: "act_iter ensure is x = (Inr (), v)"
    by (auto simp: act_bind_Inr_iff)
  have disj: "paths j \<inter> \<Union> (paths ` set is) = {}" using Cons.prems(1) by (auto simp: disjoint_paths_def)
  show ?case
  proof (cases "i = j")
    case True
    have "within (\<Union> (paths ` set is)) x v" by (rule stays_run [OF loop_frame rest])
    with head True disj show ?thesis
      by (intro exI [of _ "\<Union> (paths ` set is)"] exI [of _ w] exI [of _ x]) auto
  next
    case False
    with Cons.prems have i: "i \<in> set is" "disjoint_paths is" by (simp_all add: disjoint_paths_def)
    then obtain S u u' where run: "ensure i u = (Inr (), u')" "within S x u" "within S u' v" "S \<inter> paths i = {}"
      using Cons.IH [of x] rest by blast
    have "within (paths j) w x" by (rule stays_run [OF ensure_frame head])
    then have "within (S \<union> paths j) w u" using run(2) by (blast intro: within_trans within_mono)
    moreover have "within (S \<union> paths j) u' v" using run(3) by (blast intro: within_mono)
    moreover have "(S \<union> paths j) \<inter> paths i = {}" using run(4) disj i(1) by blast
    ultimately show ?thesis using run(1) by blast
  qed
qed

end

end
