(* ===== verification/Pki.thy ===== *)
theory Pki
  imports GoFs GoNet
begin

text \<open>
  The pod's certificate infrastructure: \<open>src/internal/pki/pki.go\<close>. \<open>Generate\<close> makes sure the
  certificate authority, the fifteen leaf pairs and the service-account pair exist on disk.

  Keys and certificates are symbolic: a private key is the number its generator drew, a
  certificate names the key that signed it. \<open>crypto/x509\<close> is modelled as far as the templates of
  this program can make it fail. What client-go's packages \<open>cert\<close> and \<open>keyutil\<close> do to PEM text is
  not in the repository: it is the parameter \<open>pem\<close>, with the laws in \<open>pem_ok\<close>. Times are seconds,
  the clock shows nanoseconds.
\<close>

section \<open>Constants\<close>

definition caCertName :: string where "caCertName = ''ca.crt''"
definition caKeyName :: string where "caKeyName = ''ca.key''"
definition saCertName :: string where "saCertName = ''sa.pub''"
definition saKeyName :: string where "saKeyName = ''sa.key''"
definition saCertSubject :: string where "saCertSubject = ''service-account-signing-key''"
definition webhookCertName :: string where "webhookCertName = ''tls.crt''"
definition webhookKeyName :: string where "webhookKeyName = ''tls.key''"
definition hypervisorWebhookCertsRel :: string where
  "hypervisorWebhookCertsRel = ''webhook-certs/hypervisor''"
definition pkiDefaultHypervisorWebhookHost :: string where
  "pkiDefaultHypervisorWebhookHost = ''host.containers.internal''"

text \<open>Modes: 0600 is 0x180, 0644 is 0x1A4. Modes of directories are not kept.\<close>

definition keyFileMode :: file_mode where "keyFileMode = 0x180"
definition certFileMode :: file_mode where "certFileMode = 0x1A4"
definition certValidity :: int where "certValidity = 60 * 60 * 24 * 3650"
definition maxSerialBytes :: nat where "maxSerialBytes = 2 ^ 63 - 1 - 1"

lemmas pki_names [go_eval] =
  caCertName_def caKeyName_def saCertName_def saKeyName_def saCertSubject_def webhookCertName_def
  webhookKeyName_def hypervisorWebhookCertsRel_def pkiDefaultHypervisorWebhookHost_def

section \<open>Keys and certificates\<close>

datatype private_key = RSAKey nat | ECKey nat | Ed25519Key nat | ECDHKey nat

datatype public_key = RSAPub nat | ECPub nat | Ed25519Pub nat | DSAPub nat | NoKey

text \<open>\<open>key.(crypto.Signer)\<close> and \<open>Public()\<close>: an ECDH key is parsed but cannot sign.\<close>

fun is_signer :: "private_key \<Rightarrow> bool" where
  "is_signer (ECDHKey _) = False"
| "is_signer _ = True"

fun Public :: "private_key \<Rightarrow> public_key" where
  "Public (RSAKey n) = RSAPub n"
| "Public (ECKey n) = ECPub n"
| "Public (Ed25519Key n) = Ed25519Pub n"
| "Public (ECDHKey n) = NoKey"

text \<open>
  \<open>x509.MarshalPKIXPublicKey\<close> refuses DSA keys and the nil key of a certificate whose key type is
  unknown. The encoding determines the key, so the key stands for it.
\<close>

fun MarshalPKIXPublicKey :: "public_key \<Rightarrow> public_key option" where
  "MarshalPKIXPublicKey (DSAPub _) = None"
| "MarshalPKIXPublicKey NoKey = None"
| "MarshalPKIXPublicKey k = Some k"

definition publicKeysEqual :: "public_key \<Rightarrow> public_key \<Rightarrow> bool" where
  "publicKeysEqual a b =
     (case MarshalPKIXPublicKey a of
        None \<Rightarrow> False
      | Some aBytes \<Rightarrow> (case MarshalPKIXPublicKey b of None \<Rightarrow> False | Some bBytes \<Rightarrow> aBytes = bBytes))"

datatype ext_usage = ExtKeyUsageServerAuth | ExtKeyUsageClientAuth | OtherExtKeyUsage nat

text \<open>The bits of \<open>x509.KeyUsage\<close>.\<close>

definition KeyUsageDigitalSignature :: int where "KeyUsageDigitalSignature = 1"
definition KeyUsageKeyEncipherment :: int where "KeyUsageKeyEncipherment = 4"
definition KeyUsageCertSign :: int where "KeyUsageCertSign = 32"

text \<open>
  \<open>x509.Certificate\<close>, as a template and as a parsed certificate; a subject is its common name and
  its organizations. \<open>SignedBy\<close> is the public key that verifies the signature.
\<close>

record certificate =
  SerialNumber :: int
  Subject :: "string \<times> string list"
  NotBefore :: int
  NotAfter :: int
  KeyUsage :: int
  ExtKeyUsage :: "ext_usage list"
  BasicConstraintsValid :: bool
  IsCA :: bool
  DNSNames :: "string list"
  IPAddresses :: "ip_bytes list"
  Issuer :: "string \<times> string list"
  PublicKey :: public_key
  SignedBy :: public_key

section \<open>The PEM packages of client-go\<close>

text \<open>
  \<open>san_ok\<close> is the parser's check of a DNS name, which differs between releases of the standard
  library; it accepts plain host names.
\<close>

record pem =
  ParseCertsPEM :: "string \<Rightarrow> certificate list option"
  EncodeCertificates :: "certificate \<Rightarrow> string option"
  ParsePrivateKeyPEM :: "string \<Rightarrow> private_key option"
  MarshalPrivateKeyToPEM :: "private_key \<Rightarrow> string option"
  san_ok :: "string \<Rightarrow> bool"

definition pem_ok :: "pem \<Rightarrow> bool" where
  "pem_ok lib \<longleftrightarrow>
     (\<forall>c. SignedBy c \<noteq> NoKey \<longrightarrow>
        (\<exists>s. EncodeCertificates lib c = Some s \<and> ParseCertsPEM lib s = Some [c])) \<and>
     (\<forall>n. \<forall>k \<in> {RSAKey n, ECKey n}.
        \<exists>s. MarshalPrivateKeyToPEM lib k = Some s \<and> ParsePrivateKeyPEM lib s = Some k) \<and>
     (\<forall>s. ParseCertsPEM lib s \<noteq> Some []) \<and>
     san_ok lib ''localhost'' \<and> san_ok lib pkiDefaultHypervisorWebhookHost"

section \<open>Errors\<close>

datatype x509_error = BadSerial | BadConstraints | UnsupportedKey | BadTime | NotIA5 string | KeyMismatch | MalformedSAN string

datatype file_error = ReadError string io_error | ParseError string | NotASigner string

datatype write_error =
  EncodeError string | MkdirError string io_error | WriteError string io_error | ModeError string io_error

datatype ca_error = CAFile file_error | CAKeyMismatch | NotAnAuthority

datatype bind_host_error = InvalidBindAddress addr_error | EmptyBindHost

datatype pki_error =
  ContextDone string
| BindAddressError bind_host_error
| CreateDirectory string io_error
| CheckCACert io_error
| CheckCAKey io_error
| InvalidCA ca_error
| IncompleteCA
| GenerateCA x509_error
| WriteCACert write_error
| WriteCAKey write_error
| SignLeaf string x509_error
| WriteLeafCert string write_error
| WriteLeafKey string write_error
| WriteSAKey write_error
| GenerateSACert x509_error
| WriteSACert write_error

section \<open>Configuration, artifacts and inventory\<close>

record pki_config =
  PkiStateDir :: string
  PkiBindAddress :: string
  PkiHypervisorWebhookHost :: string

record artifact =
  Name :: string
  CertPath :: string
  KeyPath :: string

record inventory =
  CA :: artifact
  EtcdServer :: artifact
  EtcdClient :: artifact
  APIServer :: artifact
  APIServerClient :: artifact
  CoreManager :: artifact
  CABPKManager :: artifact
  KCPManager :: artifact
  CAPDManager :: artifact
  HypervisorManager :: artifact
  CoreWebhook :: artifact
  CABPKWebhook :: artifact
  KCPWebhook :: artifact
  CAPDWebhook :: artifact
  Admin :: artifact
  SAPubPath :: string
  SAKeyPath :: string

definition All :: "inventory \<Rightarrow> artifact list" where
  "All inven =
     [CA inven, EtcdServer inven, EtcdClient inven, APIServer inven, APIServerClient inven, CoreManager inven,
      CABPKManager inven, KCPManager inven, CAPDManager inven, HypervisorManager inven, CoreWebhook inven,
      CABPKWebhook inven, KCPWebhook inven, CAPDWebhook inven, Admin inven]"

record leafSpec =
  leaf_artifact :: artifact
  commonName :: string
  usages :: "ext_usage list"
  dnsNames :: "string list"
  ipAddresses :: "ip_bytes list"

definition inventory_artifact :: "string \<Rightarrow> string \<Rightarrow> string \<Rightarrow> string \<Rightarrow> artifact" where
  "inventory_artifact dir name certFile keyFile =
     \<lparr>Name = name, CertPath = PathJoin [dir, certFile], KeyPath = PathJoin [dir, keyFile]\<rparr>"

definition inventory_webhook :: "string \<Rightarrow> string \<Rightarrow> artifact" where
  "inventory_webhook dir component =
     inventory_artifact dir (component @ ''-webhook'')
       (PathJoin [component @ ''-webhook'', webhookCertName])
       (PathJoin [component @ ''-webhook'', webhookKeyName])"

definition newInventory :: "string \<Rightarrow> inventory" where
  "newInventory dir =
     \<lparr>CA = inventory_artifact dir ''ca'' caCertName caKeyName,
      EtcdServer = inventory_artifact dir ''etcd-server'' ''etcd-server.crt'' ''etcd-server.key'',
      EtcdClient = inventory_artifact dir ''etcd-client'' ''etcd-client.crt'' ''etcd-client.key'',
      APIServer = inventory_artifact dir ''apiserver'' ''apiserver.crt'' ''apiserver.key'',
      APIServerClient = inventory_artifact dir ''apiserver-client'' ''apiserver-client.crt'' ''apiserver-client.key'',
      CoreManager = inventory_artifact dir ''core-manager'' ''core-manager.crt'' ''core-manager.key'',
      CABPKManager = inventory_artifact dir ''cabpk-manager'' ''cabpk-manager.crt'' ''cabpk-manager.key'',
      KCPManager = inventory_artifact dir ''kcp-manager'' ''kcp-manager.crt'' ''kcp-manager.key'',
      CAPDManager = inventory_artifact dir ''capd-manager'' ''capd-manager.crt'' ''capd-manager.key'',
      HypervisorManager = inventory_artifact dir ''hypervisor-manager'' ''hypervisor-manager.crt'' ''hypervisor-manager.key'',
      CoreWebhook = inventory_webhook dir ''core'',
      CABPKWebhook = inventory_webhook dir ''cabpk'',
      KCPWebhook = inventory_webhook dir ''kcp'',
      CAPDWebhook = inventory_webhook dir ''capd'',
      Admin = inventory_artifact dir ''admin'' ''admin.crt'' ''admin.key'',
      SAPubPath = [],
      SAKeyPath = []\<rparr>"

section \<open>Bind host and subject alternative names\<close>

definition bindHost :: "string \<Rightarrow> bind_host_error + string" where
  "bindHost bindAddress =
     (if bindAddress = [] then Inr []
      else (case SplitHostPort bindAddress of
              Inl e \<Rightarrow> Inl (InvalidBindAddress e)
            | Inr (host, _) \<Rightarrow> if host = [] then Inl EmptyBindHost else Inr host))"

definition hypervisorWebhookPaths :: "string \<Rightarrow> string \<times> string" where
  "hypervisorWebhookPaths stateDir =
     (let dir = PathJoin [stateDir, hypervisorWebhookCertsRel]
      in (PathJoin [dir, webhookCertName], PathJoin [dir, webhookKeyName]))"

definition appendUniqueIP :: "ip_bytes list \<Rightarrow> ip_bytes \<Rightarrow> ip_bytes list" where
  "appendUniqueIP ips ip = (if list_ex (\<lambda>have. have = ip) ips then ips else ips @ [ip])"

definition appendUniqueDNS :: "string list \<Rightarrow> string \<Rightarrow> string list" where
  "appendUniqueDNS dns name = (if name \<in> set dns then dns else dns @ [name])"

definition hypervisorWebhookSANs :: "string \<Rightarrow> string list \<times> ip_bytes list" where
  "hypervisorWebhookSANs override =
     (let dnsNames = [''localhost'', pkiDefaultHypervisorWebhookHost];
          ipAddresses = [loopback_ip]
      in if override = [] then (dnsNames, ipAddresses)
         else (case ParseIP override of
                 Some ip \<Rightarrow> (dnsNames, appendUniqueIP ipAddresses ip)
               | None \<Rightarrow> (appendUniqueDNS dnsNames override, ipAddresses)))"

definition apiserverSANs :: "string \<Rightarrow> string list \<times> ip_bytes list" where
  "apiserverSANs host =
     (let dnsNames = [''localhost''];
          ipAddresses = [loopback_ip]
      in if host = [] then (dnsNames, ipAddresses)
         else (case ParseIP host of
                 Some ip \<Rightarrow> if \<not> IsUnspecified ip then (dnsNames, appendUniqueIP ipAddresses ip)
                            else (dnsNames, ipAddresses)
               | None \<Rightarrow> (appendUniqueDNS dnsNames host, ipAddresses)))"

section \<open>Random numbers, certificates\<close>

definition of_state :: "('w \<Rightarrow> 'a \<times> 'w) \<Rightarrow> ('w, 'e, 'a) action" where
  "of_state f w = (case f w of (x, v) \<Rightarrow> (Inr x, v))"

text \<open>
  \<open>rsa.GenerateKey\<close> and \<open>ecdsa.GenerateKey\<close> cannot fail on the system's random source; every draw
  makes a key.
\<close>

definition GenerateRSA :: "(world, 'e, private_key) action" where
  "GenerateRSA = act_bind (of_state draw) (\<lambda>n. act_return (RSAKey n))"

definition GenerateECDSA :: "(world, 'e, private_key) action" where
  "GenerateECDSA = act_bind (of_state draw) (\<lambda>n. act_return (ECKey n))"

definition randomSerial :: "(world, 'e, int) action" where
  "randomSerial =
     act_bind (of_state draw) (\<lambda>n. let serial = int (n mod maxSerialBytes) in act_return (serial + 1))"

text \<open>
  \<open>x509.CreateCertificate\<close>: its checks of the template, the signer and the names, then the
  certificate. A parent without a public key is the template itself, that is, self-signing. Times
  outside the years 0 to 9999 have no encoding.
\<close>

definition encodable_time :: "int \<Rightarrow> bool" where
  "encodable_time t \<longleftrightarrow> - 62167219200 \<le> t \<and> t < 253402300800"

definition is_IA5 :: "string \<Rightarrow> bool" where
  "is_IA5 s \<longleftrightarrow> list_all (\<lambda>c. byte_val c < 128) s"

definition x509_CreateCertificate ::
  "certificate \<Rightarrow> certificate \<Rightarrow> public_key \<Rightarrow> private_key \<Rightarrow> x509_error + certificate" where
  "x509_CreateCertificate tmpl parent publicKey signer =
     (if SerialNumber tmpl < 0 then Inl BadSerial
      else if IsCA tmpl \<and> \<not> BasicConstraintsValid tmpl then Inl BadConstraints
      else if MarshalPKIXPublicKey publicKey = None then Inl UnsupportedKey
      else if \<not> encodable_time (NotBefore tmpl) \<or> \<not> encodable_time (NotAfter tmpl) then Inl BadTime
      else (case filter (\<lambda>name. \<not> is_IA5 name) (DNSNames tmpl) of
              name # _ \<Rightarrow> Inl (NotIA5 name)
            | [] \<Rightarrow>
                if PublicKey parent \<noteq> NoKey \<and> PublicKey parent \<noteq> Public signer then Inl KeyMismatch
                else Inr (tmpl\<lparr>Issuer := Subject parent, PublicKey := publicKey, SignedBy := Public signer\<rparr>)))"

definition x509_ParseCertificate :: "pem \<Rightarrow> certificate \<Rightarrow> x509_error + certificate" where
  "x509_ParseCertificate lib der =
     (case filter (\<lambda>name. \<not> san_ok lib name) (DNSNames der) of
        name # _ \<Rightarrow> Inl (MalformedSAN name)
      | [] \<Rightarrow> Inr der)"

definition createCertificate ::
  "pem \<Rightarrow> certificate \<Rightarrow> certificate \<Rightarrow> public_key \<Rightarrow> private_key \<Rightarrow> x509_error + certificate" where
  "createCertificate lib tmpl parent publicKey signer =
     bind_result (x509_CreateCertificate tmpl parent publicKey signer) (\<lambda>der. x509_ParseCertificate lib der)"

definition seconds :: "int \<Rightarrow> int" where
  "seconds t = t div 1000000000"

definition zero_certificate :: certificate where
  "zero_certificate =
     \<lparr>SerialNumber = 0, Subject = ([], []), NotBefore = 0, NotAfter = 0, KeyUsage = 0, ExtKeyUsage = [],
      BasicConstraintsValid = False, IsCA = False, DNSNames = [], IPAddresses = [],
      Issuer = ([], []), PublicKey = NoKey, SignedBy = NoKey\<rparr>"

definition newCACert :: "pem \<Rightarrow> private_key \<Rightarrow> int \<Rightarrow> (world, x509_error, certificate) action" where
  "newCACert lib key now =
     act_bind randomSerial (\<lambda>serial.
       let tmpl = zero_certificate
             \<lparr>SerialNumber := serial,
              Subject := (''capishim-ca'', []),
              NotBefore := seconds now,
              NotAfter := seconds now + certValidity,
              KeyUsage := or (or KeyUsageKeyEncipherment KeyUsageDigitalSignature) KeyUsageCertSign,
              BasicConstraintsValid := True,
              IsCA := True\<rparr>
       in act_lift (createCertificate lib tmpl tmpl (Public key) key))"

text \<open>\<open>cert.Config\<close> of client-go, the fields this program sets.\<close>

record cert_config =
  CommonName :: string
  Organization :: "string list"
  AltDNSNames :: "string list"
  AltIPs :: "ip_bytes list"
  Usages :: "ext_usage list"

definition newSignedCert ::
  "pem \<Rightarrow> cert_config \<Rightarrow> int \<Rightarrow> private_key \<Rightarrow> certificate \<Rightarrow> private_key \<Rightarrow>
     (world, x509_error, certificate) action" where
  "newSignedCert lib cfg now key caCert caKey =
     act_bind randomSerial (\<lambda>serial.
       let tmpl = zero_certificate
             \<lparr>SerialNumber := serial,
              Subject := (CommonName cfg, Organization cfg),
              NotBefore := seconds now,
              NotAfter := seconds now + certValidity,
              KeyUsage := or KeyUsageKeyEncipherment KeyUsageDigitalSignature,
              ExtKeyUsage := Usages cfg,
              BasicConstraintsValid := True,
              DNSNames := AltDNSNames cfg,
              IPAddresses := AltIPs cfg\<rparr>
       in act_lift (createCertificate lib tmpl caCert (Public key) caKey))"

definition publicKeyCert :: "pem \<Rightarrow> public_key \<Rightarrow> private_key \<Rightarrow> (world, x509_error, certificate) action" where
  "publicKeyCert lib publicKey signingKey =
     act_bind randomSerial (\<lambda>serial.
       act_bind (of_state Now) (\<lambda>now.
         let tmpl = zero_certificate
               \<lparr>SerialNumber := serial,
                Subject := (saCertSubject, []),
                NotBefore := seconds now,
                NotAfter := seconds now + certValidity,
                KeyUsage := or KeyUsageKeyEncipherment KeyUsageDigitalSignature,
                BasicConstraintsValid := True\<rparr>
         in act_lift (createCertificate lib tmpl tmpl publicKey signingKey)))"

section \<open>Files\<close>

definition fileExists :: "string \<Rightarrow> bool io" where
  "fileExists path w =
     (case Stat path w of
        (Inr (FileNode _ _), v) \<Rightarrow> (Inr True, v)
      | (Inr DirNode, v) \<Rightarrow> (Inr False, v)
      | (Inl e, v) \<Rightarrow> if e = ErrNotExist then (Inr False, v) else (Inl e, v))"

definition readSingleCert :: "pem \<Rightarrow> string \<Rightarrow> (world, file_error, certificate) action" where
  "readSingleCert lib path =
     act_bind (act_wrap (ReadError path) (ReadFile path)) (\<lambda>data.
       case ParseCertsPEM lib data of
         None \<Rightarrow> act_throw (ParseError path)
       | Some certs \<Rightarrow> act_return (certs ! 0))"

definition readSigner :: "pem \<Rightarrow> string \<Rightarrow> (world, file_error, private_key) action" where
  "readSigner lib path =
     act_bind (act_wrap (ReadError path) (ReadFile path)) (\<lambda>data.
       case ParsePrivateKeyPEM lib data of
         None \<Rightarrow> act_throw (ParseError path)
       | Some key \<Rightarrow> if is_signer key then act_return key else act_throw (NotASigner path))"

definition writeFile :: "string \<Rightarrow> string \<Rightarrow> file_mode \<Rightarrow> (world, write_error, unit) action" where
  "writeFile path data mode =
     act_bind (act_wrap (MkdirError path) (MkdirAll (Dir path))) (\<lambda>_.
     act_bind (act_wrap (WriteError path) (WriteFile path data mode)) (\<lambda>_.
       act_wrap (ModeError path) (Chmod path mode)))"

definition writeCertFile :: "pem \<Rightarrow> string \<Rightarrow> certificate \<Rightarrow> (world, write_error, unit) action" where
  "writeCertFile lib path c =
     (case EncodeCertificates lib c of
        None \<Rightarrow> act_throw (EncodeError path)
      | Some data \<Rightarrow> writeFile path data certFileMode)"

definition writeKeyFile :: "pem \<Rightarrow> string \<Rightarrow> private_key \<Rightarrow> (world, write_error, unit) action" where
  "writeKeyFile lib path key =
     (case MarshalPrivateKeyToPEM lib key of
        None \<Rightarrow> act_throw (EncodeError path)
      | Some data \<Rightarrow> writeFile path data keyFileMode)"

section \<open>Checks of the pairs on disk\<close>

text \<open>These functions answer yes or no: a read or parse error is a no.\<close>

definition validPair :: "pem \<Rightarrow> string \<Rightarrow> string \<Rightarrow> world \<Rightarrow> bool \<times> world" where
  "validPair lib certPath keyPath w =
     (case readSingleCert lib certPath w of
        (Inl _, u) \<Rightarrow> (False, u)
      | (Inr certs, u) \<Rightarrow>
          (case readSigner lib keyPath u of
             (Inl _, v) \<Rightarrow> (False, v)
           | (Inr key, v) \<Rightarrow> (publicKeysEqual (Public key) (PublicKey certs), v)))"

definition validSAPair :: "pem \<Rightarrow> string \<Rightarrow> string \<Rightarrow> world \<Rightarrow> bool \<times> world" where
  "validSAPair lib certPath keyPath w =
     (case validPair lib certPath keyPath w of
        (False, u) \<Rightarrow> (False, u)
      | (True, u) \<Rightarrow>
          (case ReadFile keyPath u of
             (Inl _, v) \<Rightarrow> (False, v)
           | (Inr keyData, v) \<Rightarrow>
               (case ParsePrivateKeyPEM lib keyData of
                  Some (RSAKey _) \<Rightarrow> (True, v)
                | _ \<Rightarrow> (False, v))))"

definition loadCAPair :: "pem \<Rightarrow> string \<Rightarrow> string \<Rightarrow> (world, ca_error, certificate \<times> private_key) action" where
  "loadCAPair lib certPath keyPath =
     act_bind (act_wrap CAFile (readSingleCert lib certPath)) (\<lambda>caCert.
     act_bind (act_wrap CAFile (readSigner lib keyPath)) (\<lambda>caKey.
       if \<not> publicKeysEqual (Public caKey) (PublicKey caCert) then act_throw CAKeyMismatch
       else if \<not> IsCA caCert \<or> \<not> BasicConstraintsValid caCert \<or> and (KeyUsage caCert) KeyUsageCertSign = 0
         then act_throw NotAnAuthority
       else act_return (caCert, caKey)))"

section \<open>Ensuring the authority, a leaf, the service-account pair\<close>

definition ensureCA :: "pem \<Rightarrow> string \<Rightarrow> int \<Rightarrow> (world, pki_error, certificate \<times> private_key) action" where
  "ensureCA lib dir now =
     (let certPath = PathJoin [dir, caCertName];
          keyPath = PathJoin [dir, caKeyName]
      in act_bind (act_wrap CheckCACert (fileExists certPath)) (\<lambda>certExists.
         act_bind (act_wrap CheckCAKey (fileExists keyPath)) (\<lambda>keyExists.
           if certExists \<and> keyExists then act_wrap InvalidCA (loadCAPair lib certPath keyPath)
           else if certExists \<or> keyExists then act_throw IncompleteCA
           else
             act_bind GenerateRSA (\<lambda>caKey.
             act_bind (act_wrap GenerateCA (newCACert lib caKey now)) (\<lambda>caCert.
             act_bind (act_wrap WriteCACert (writeCertFile lib certPath caCert)) (\<lambda>_.
             act_bind (act_wrap WriteCAKey (writeKeyFile lib keyPath caKey)) (\<lambda>_.
               act_return (caCert, caKey))))))))"

definition ensureLeaf ::
  "pem \<Rightarrow> certificate \<Rightarrow> private_key \<Rightarrow> int \<Rightarrow> leafSpec \<Rightarrow> (world, pki_error, unit) action" where
  "ensureLeaf lib caCert caKey now spec =
     (let art = leaf_artifact spec
      in act_bind (of_state (validPair lib (CertPath art) (KeyPath art))) (\<lambda>valid.
           if valid then act_return ()
           else
             act_bind GenerateECDSA (\<lambda>key.
             let cfg = \<lparr>CommonName = commonName spec, Organization = [], AltDNSNames = dnsNames spec,
                        AltIPs = ipAddresses spec, Usages = usages spec\<rparr>
             in act_bind (act_wrap (SignLeaf (Name art)) (newSignedCert lib cfg now key caCert caKey)) (\<lambda>leaf.
                act_bind (act_wrap (WriteLeafCert (Name art)) (writeCertFile lib (CertPath art) leaf)) (\<lambda>_.
                  act_wrap (WriteLeafKey (Name art)) (writeKeyFile lib (KeyPath art) key))))))"

definition ensureServiceAccountPair :: "pem \<Rightarrow> string \<Rightarrow> string \<Rightarrow> (world, pki_error, unit) action" where
  "ensureServiceAccountPair lib certPath keyPath =
     act_bind (of_state (validSAPair lib certPath keyPath)) (\<lambda>valid.
       if valid then act_return ()
       else
         act_bind GenerateRSA (\<lambda>key.
         act_bind (act_wrap WriteSAKey (writeKeyFile lib keyPath key)) (\<lambda>_.
         act_bind (act_wrap GenerateSACert (publicKeyCert lib (Public key) key)) (\<lambda>pubCert.
           act_wrap WriteSACert (writeCertFile lib certPath pubCert)))))"

section \<open>Generate\<close>

definition leaf_spec ::
  "artifact \<Rightarrow> string \<Rightarrow> ext_usage list \<Rightarrow> string list \<Rightarrow> ip_bytes list \<Rightarrow> leafSpec" where
  "leaf_spec art cn us dns ips =
     \<lparr>leaf_artifact = art, commonName = cn, usages = us, dnsNames = dns, ipAddresses = ips\<rparr>"

definition leaf_specs :: "inventory \<Rightarrow> string \<Rightarrow> pki_config \<Rightarrow> leafSpec list" where
  "leaf_specs inven host cfg =
     (let serverAuth = [ExtKeyUsageServerAuth];
          clientAuth = [ExtKeyUsageClientAuth];
          loopbackDNS = [''localhost''];
          loopbackIPs = [loopback_ip];
          (apiserverDNS, apiserverIPs) = apiserverSANs host;
          (hypervisorWebhookCert, hypervisorWebhookKey) = hypervisorWebhookPaths (PkiStateDir cfg);
          (hypervisorWebhookDNS, hypervisorWebhookIPs) = hypervisorWebhookSANs (PkiHypervisorWebhookHost cfg)
      in [leaf_spec (EtcdServer inven) ''etcd-server'' serverAuth loopbackDNS loopbackIPs,
          leaf_spec (EtcdClient inven) ''etcd-client'' clientAuth [] [],
          leaf_spec (APIServer inven) ''capishim-apiserver'' serverAuth apiserverDNS apiserverIPs,
          leaf_spec (APIServerClient inven) ''capishim:apiserver-client'' clientAuth [] [],
          leaf_spec (CoreManager inven) ''capishim:core-manager'' clientAuth [] [],
          leaf_spec (CABPKManager inven) ''capishim:cabpk-manager'' clientAuth [] [],
          leaf_spec (KCPManager inven) ''capishim:kcp-manager'' clientAuth [] [],
          leaf_spec (CAPDManager inven) ''capishim:capd-manager'' clientAuth [] [],
          leaf_spec (HypervisorManager inven) ''capishim:hypervisor-manager'' clientAuth [] [],
          leaf_spec (CoreWebhook inven) ''capishim:core-webhook'' serverAuth loopbackDNS loopbackIPs,
          leaf_spec (CABPKWebhook inven) ''capishim:cabpk-webhook'' serverAuth loopbackDNS loopbackIPs,
          leaf_spec (KCPWebhook inven) ''capishim:kcp-webhook'' serverAuth loopbackDNS loopbackIPs,
          leaf_spec (CAPDWebhook inven) ''capishim:capd-webhook'' serverAuth loopbackDNS loopbackIPs,
          leaf_spec (Admin inven) ''capishim:admin'' clientAuth [] []]
         @ [leaf_spec
              \<lparr>Name = ''hypervisor-webhook'', CertPath = hypervisorWebhookCert, KeyPath = hypervisorWebhookKey\<rparr>
              ''capishim:hypervisor-webhook'' serverAuth hypervisorWebhookDNS hypervisorWebhookIPs])"

text \<open>The argument \<open>ctx\<close> is what \<open>ctx.Err()\<close> answers.\<close>

definition Generate :: "pem \<Rightarrow> string option \<Rightarrow> pki_config \<Rightarrow> (world, pki_error, inventory) action" where
  "Generate lib ctx cfg =
     (case ctx of
        Some e \<Rightarrow> act_throw (ContextDone e)
      | None \<Rightarrow>
          act_bind (act_lift (wrap_err BindAddressError (bindHost (PkiBindAddress cfg)))) (\<lambda>host.
          let dir = PathJoin [PkiStateDir cfg, ''pki'']
          in act_bind (act_wrap (CreateDirectory dir) (MkdirAll dir)) (\<lambda>_.
             act_bind (of_state Now) (\<lambda>now.
             act_bind (ensureCA lib dir now) (\<lambda>(caCert, caKey).
             let inven = newInventory dir
             in act_bind (act_iter (ensureLeaf lib caCert caKey now) (leaf_specs inven host cfg)) (\<lambda>_.
                let inven' = inven\<lparr>SAPubPath := PathJoin [dir, saCertName], SAKeyPath := PathJoin [dir, saKeyName]\<rparr>
                in act_bind (ensureServiceAccountPair lib (SAPubPath inven') (SAKeyPath inven')) (\<lambda>_.
                     act_return inven')))))))"

section \<open>Subject alternative names\<close>

text \<open>
  The names a serving certificate is issued for. Both lists have no repetitions and always hold
  localhost and the loopback address. For the API server the bind host joins them, as an address
  when it parses as one and as a DNS name otherwise, and the wildcard addresses never do. For the
  external webhook server the default pod-network name and the override join them the same way,
  the wildcard included.
\<close>

theorem SANs_correct:
  "(case apiserverSANs host of (dns, ips) \<Rightarrow>
      distinct dns \<and> distinct ips \<and> list_all (\<lambda>ip. \<not> IsUnspecified ip) ips \<and>
      set dns = insert ''localhost'' (if host \<noteq> [] \<and> ParseIP host = None then {host} else {}) \<and>
      set ips = insert loopback_ip {ip. ParseIP host = Some ip \<and> \<not> IsUnspecified ip}) \<and>
   (case hypervisorWebhookSANs override of (dns, ips) \<Rightarrow>
      distinct dns \<and> distinct ips \<and>
      set dns = {''localhost'', ''host.containers.internal''} \<union>
        (if override \<noteq> [] \<and> ParseIP override = None then {override} else {}) \<and>
      set ips = insert loopback_ip {ip. ParseIP override = Some ip})"
proof -
  have empty: "ParseIP [] = None" by (simp add: ParseIP_def ParseAddr_def)
  have loop: "\<not> IsUnspecified loopback_ip" by code_simp
  have "case apiserverSANs host of (dns, ips) \<Rightarrow>
      distinct dns \<and> distinct ips \<and> list_all (\<lambda>ip. \<not> IsUnspecified ip) ips \<and>
      set dns = insert ''localhost'' (if host \<noteq> [] \<and> ParseIP host = None then {host} else {}) \<and>
      set ips = insert loopback_ip {ip. ParseIP host = Some ip \<and> \<not> IsUnspecified ip}"
    using empty loop
    by (cases "ParseIP host")
      (auto simp: apiserverSANs_def Let_def appendUniqueDNS_def appendUniqueIP_def)
  moreover have "case hypervisorWebhookSANs override of (dns, ips) \<Rightarrow>
      distinct dns \<and> distinct ips \<and>
      set dns = {''localhost'', ''host.containers.internal''} \<union>
        (if override \<noteq> [] \<and> ParseIP override = None then {override} else {}) \<and>
      set ips = insert loopback_ip {ip. ParseIP override = Some ip}"
    using empty
    by (cases "ParseIP override")
      (auto simp: hypervisorWebhookSANs_def Let_def appendUniqueDNS_def appendUniqueIP_def
        pkiDefaultHypervisorWebhookHost_def)
  ultimately show ?thesis by simp
qed

section \<open>The paths of the artifacts\<close>

text \<open>Every path is the state directory's prefix and a fixed relative name.\<close>

definition ca_names :: "string list" where
  "ca_names = [''pki/ca.crt'', ''pki/ca.key'']"

definition leaf_names :: "(string \<times> string) list" where
  "leaf_names =
     map (\<lambda>c. (''pki/'' @ c @ ''.crt'', ''pki/'' @ c @ ''.key''))
       [''etcd-server'', ''etcd-client'', ''apiserver'', ''apiserver-client'', ''core-manager'',
        ''cabpk-manager'', ''kcp-manager'', ''capd-manager'', ''hypervisor-manager'']
     @ map (\<lambda>c. (''pki/'' @ c @ ''-webhook/tls.crt'', ''pki/'' @ c @ ''-webhook/tls.key''))
       [''core'', ''cabpk'', ''kcp'', ''capd'']
     @ [(''pki/admin.crt'', ''pki/admin.key''),
        (''webhook-certs/hypervisor/tls.crt'', ''webhook-certs/hypervisor/tls.key'')]"

definition sa_names :: "string list" where
  "sa_names = [''pki/sa.pub'', ''pki/sa.key'']"

lemma pki_path:
  assumes "plain_rel f"
  shows "PathJoin [PathJoin [sd, ''pki''], f] = dir_prefix sd @ ''pki/'' @ f"
proof -
  have "plain_rel ''pki''" by (simp add: plain_rel_def plain_elem_def)
  then show ?thesis using assms by (simp add: PathJoin_plain dir_prefix_plain)
qed

lemma hypervisor_paths:
  "hypervisorWebhookPaths sd =
     (dir_prefix sd @ ''webhook-certs/hypervisor/tls.crt'', dir_prefix sd @ ''webhook-certs/hypervisor/tls.key'')"
proof -
  have "plain_rel ''webhook-certs/hypervisor''" "plain_rel ''tls.crt''" "plain_rel ''tls.key''"
    by (simp_all add: plain_rel_def plain_elem_def)
  then show ?thesis
    by (simp add: hypervisorWebhookPaths_def pki_names PathJoin_plain dir_prefix_plain)
qed

lemma ca_paths:
  "PathJoin [PathJoin [sd, ''pki''], caCertName] = dir_prefix sd @ ''pki/ca.crt''"
  "PathJoin [PathJoin [sd, ''pki''], caKeyName] = dir_prefix sd @ ''pki/ca.key''"
  by (simp_all add: pki_names pki_path plain_rel_def plain_elem_def)

lemma sa_paths:
  "PathJoin [PathJoin [sd, ''pki''], saCertName] = dir_prefix sd @ ''pki/sa.pub''"
  "PathJoin [PathJoin [sd, ''pki''], saKeyName] = dir_prefix sd @ ''pki/sa.key''"
  by (simp_all add: pki_names pki_path plain_rel_def plain_elem_def)

definition spec_paths :: "leafSpec \<Rightarrow> string \<times> string" where
  "spec_paths spec = (CertPath (leaf_artifact spec), KeyPath (leaf_artifact spec))"

lemma webhook_file_names:
  "PathJoin [c @ ''-webhook'', webhookCertName] = c @ ''-webhook/tls.crt''"
  "PathJoin [c @ ''-webhook'', webhookKeyName] = c @ ''-webhook/tls.key''"
  if "plain_rel (c @ ''-webhook'')" for c
proof -
  have "plain_rel ''tls.crt''" "plain_rel ''tls.key''" by (simp_all add: plain_rel_def plain_elem_def)
  with that show "PathJoin [c @ ''-webhook'', webhookCertName] = c @ ''-webhook/tls.crt''"
    "PathJoin [c @ ''-webhook'', webhookKeyName] = c @ ''-webhook/tls.key''"
    using dir_prefix_plain [of "c @ ''-webhook''" "[]"]
    by (simp_all add: pki_names PathJoin_plain)
qed

lemma leaf_spec_paths:
  "map spec_paths (leaf_specs (newInventory (PathJoin [PkiStateDir cfg, ''pki''])) host cfg) =
     map (map_prod ((@) (dir_prefix (PkiStateDir cfg))) ((@) (dir_prefix (PkiStateDir cfg)))) leaf_names"
proof -
  have pl: "plain_rel (''core'' @ ''-webhook'')" "plain_rel (''cabpk'' @ ''-webhook'')"
    "plain_rel (''kcp'' @ ''-webhook'')" "plain_rel (''capd'' @ ''-webhook'')"
    by (simp_all add: plain_rel_def plain_elem_def)
  note names = webhook_file_names [OF pl(1)] webhook_file_names [OF pl(2)]
    webhook_file_names [OF pl(3)] webhook_file_names [OF pl(4)]
  show ?thesis
    unfolding leaf_specs_def newInventory_def inventory_webhook_def names inventory_artifact_def Let_def
    by (simp add: leaf_spec_def spec_paths_def hypervisor_paths leaf_names_def pki_path plain_rel_def
        plain_elem_def split: prod.split)
qed

definition all_names :: "string list" where
  "all_names = ca_names @ map fst leaf_names @ map snd leaf_names @ sa_names"

lemma names_distinct: "distinct all_names"
  by (simp add: all_names_def ca_names_def leaf_names_def sa_names_def)

text \<open>Directories of artifacts, and no artifact's path is one of them or a directory above.\<close>

definition dir_names :: "string list" where
  "dir_names = [''pki'', ''pki/core-webhook'', ''pki/cabpk-webhook'', ''pki/kcp-webhook'', ''pki/capd-webhook'',
     ''webhook-certs/hypervisor'']"

lemma names_not_above: "list_all (\<lambda>n. list_all (\<lambda>d. \<not> prefix n d) dir_names) all_names"
  by (simp add: all_names_def ca_names_def leaf_names_def sa_names_def dir_names_def)

lemma name_dirs: "list_all (\<lambda>n. \<exists>d \<in> set dir_names. \<exists>e. plain_elem e \<and> n = d @ slash # e) all_names"
  by (simp add: all_names_def ca_names_def leaf_names_def sa_names_def dir_names_def plain_elem_def)

section \<open>What the parts change\<close>

lemma of_state_reads: "(\<And>w. same_disk w (snd (f w))) \<Longrightarrow> stays same_disk (of_state f)"
  by (simp add: stays_def of_state_def split: prod.split) (metis snd_conv)

lemma draw_reads [io_frame]: "stays same_disk (of_state draw)"
  by (rule of_state_reads) (simp add: draw_def same_disk_def same_env_def)

lemma Now_reads [io_frame]: "stays same_disk (of_state Now)"
  by (rule of_state_reads) (simp add: Now_def same_disk_def same_env_def)

lemma Generate_key_reads [io_frame]:
  "stays same_disk GenerateRSA" "stays same_disk GenerateECDSA" "stays same_disk randomSerial"
  unfolding GenerateRSA_def GenerateECDSA_def randomSerial_def Let_def by (intro io_frame)+

lemma new_cert_reads [io_frame]:
  "stays same_disk (newCACert lib key now)"
  "stays same_disk (newSignedCert lib c now key caCert caKey)"
  "stays same_disk (publicKeyCert lib pub key)"
  unfolding newCACert_def newSignedCert_def publicKeyCert_def Let_def by (intro io_frame)+

lemma fileExists_reads [io_frame]: "stays same_disk (fileExists p)"
  using stays_run [OF Stat_reads [of p]]
  by (simp add: stays_def fileExists_def split: prod.split sum.split node.split)

lemma read_pem_reads [io_frame]:
  "stays same_disk (readSingleCert lib p)" "stays same_disk (readSigner lib p)"
  unfolding readSingleCert_def readSigner_def
  by (intro io_frame; simp add: io_frame split: option.split)+

lemma validPair_reads [io_frame]: "stays same_disk (of_state (validPair lib c k))"
proof (rule of_state_reads)
  fix w
  show "same_disk w (snd (validPair lib c k w))"
    by (auto simp: validPair_def split: prod.split sum.split
        dest!: stays_run [OF read_pem_reads(1)] stays_run [OF read_pem_reads(2)] intro: same_disk_trans)
qed

lemma validPair_same: "validPair lib c k w = (b, v) \<Longrightarrow> same_disk w v"
  using stays_run [OF validPair_reads, of lib c k w] by (simp add: of_state_def)

lemma validSAPair_same: "validSAPair lib c k w = (b, v) \<Longrightarrow> same_disk w v"
  using stays_run [OF ReadFile_reads [of k]]
  by (auto simp: validSAPair_def split: prod.splits bool.splits sum.splits option.splits private_key.splits
      dest!: validPair_same intro: same_disk_trans)

lemma validSAPair_reads [io_frame]: "stays same_disk (of_state (validSAPair lib c k))"
  by (rule of_state_reads) (metis prod.collapse validSAPair_same)

lemma loadCAPair_reads [io_frame]: "stays same_disk (loadCAPair lib c k)"
  unfolding loadCAPair_def by (intro io_frame; simp add: io_frame)

lemma writeFile_within [io_frame]: "p \<in> S \<Longrightarrow> stays (within S) (writeFile p d m)"
  unfolding writeFile_def by (intro io_frame)

lemma write_pem_within [io_frame]:
  "p \<in> S \<Longrightarrow> stays (within S) (writeCertFile lib p c)"
  "p \<in> S \<Longrightarrow> stays (within S) (writeKeyFile lib p k)"
  unfolding writeCertFile_def writeKeyFile_def by (simp_all add: io_frame split: option.split)

lemma ensureLeaf_within:
  "stays (within {CertPath (leaf_artifact spec), KeyPath (leaf_artifact spec)}) (ensureLeaf lib caCert caKey now spec)"
  unfolding ensureLeaf_def Let_def
  by (intro io_frame stays_reads [OF validPair_reads])
    (simp, intro conjI impI io_frame stays_reads [OF Generate_key_reads(2)] stays_reads [OF new_cert_reads(2)], simp_all)

lemma ensureSA_within: "stays (within {c, k}) (ensureServiceAccountPair lib c k)"
  unfolding ensureServiceAccountPair_def
  by (intro io_frame stays_reads [OF validSAPair_reads])
    (simp, intro conjI impI io_frame stays_reads [OF Generate_key_reads(1)] stays_reads [OF new_cert_reads(3)], simp_all)

lemma ensureCA_within:
  "stays (within {PathJoin [dir, caCertName], PathJoin [dir, caKeyName]}) (ensureCA lib dir now)"
  unfolding ensureCA_def Let_def
  by (intro io_frame stays_reads [OF fileExists_reads])
    (simp, intro conjI impI io_frame stays_reads [OF loadCAPair_reads]
       stays_reads [OF Generate_key_reads(1)] stays_reads [OF new_cert_reads(1)], simp_all)

section \<open>Pairs on disk\<close>

definition file_data :: "files \<Rightarrow> string \<Rightarrow> string option" where
  "file_data fs p = (case fs p of Some (FileNode _ d) \<Rightarrow> Some d | _ \<Rightarrow> None)"

definition cert_on_disk :: "pem \<Rightarrow> files \<Rightarrow> string \<Rightarrow> certificate option" where
  "cert_on_disk lib fs p =
     (case file_data fs p of
        None \<Rightarrow> None
      | Some d \<Rightarrow> (case ParseCertsPEM lib d of None \<Rightarrow> None | Some cs \<Rightarrow> Some (cs ! 0)))"

definition key_on_disk :: "pem \<Rightarrow> files \<Rightarrow> string \<Rightarrow> private_key option" where
  "key_on_disk lib fs p =
     (case file_data fs p of
        None \<Rightarrow> None
      | Some d \<Rightarrow>
          (case ParsePrivateKeyPEM lib d of None \<Rightarrow> None | Some k \<Rightarrow> if is_signer k then Some k else None))"

definition pair_on_disk :: "pem \<Rightarrow> files \<Rightarrow> string \<Rightarrow> string \<Rightarrow> bool" where
  "pair_on_disk lib fs certPath keyPath =
     (case (cert_on_disk lib fs certPath, key_on_disk lib fs keyPath) of
        (Some c, Some k) \<Rightarrow> publicKeysEqual (Public k) (PublicKey c)
      | _ \<Rightarrow> False)"

definition sa_on_disk :: "pem \<Rightarrow> files \<Rightarrow> string \<Rightarrow> string \<Rightarrow> bool" where
  "sa_on_disk lib fs certPath keyPath \<longleftrightarrow>
     pair_on_disk lib fs certPath keyPath \<and>
     (case key_on_disk lib fs keyPath of Some (RSAKey _) \<Rightarrow> True | _ \<Rightarrow> False)"

definition is_authority :: "certificate \<Rightarrow> private_key \<Rightarrow> bool" where
  "is_authority c k \<longleftrightarrow> publicKeysEqual (Public k) (PublicKey c) \<and> IsCA c \<and> BasicConstraintsValid c \<and>
     and (KeyUsage c) KeyUsageCertSign \<noteq> 0"

definition authority_on_disk :: "pem \<Rightarrow> files \<Rightarrow> string \<Rightarrow> string \<Rightarrow> (certificate \<times> private_key) option" where
  "authority_on_disk lib fs certPath keyPath =
     (case (cert_on_disk lib fs certPath, key_on_disk lib fs keyPath) of
        (Some c, Some k) \<Rightarrow> if is_authority c k then Some (c, k) else None
      | _ \<Rightarrow> None)"

lemma file_data_Some: "file_data fs p = Some d \<longleftrightarrow> (\<exists>m. fs p = Some (FileNode m d))"
  by (auto simp: file_data_def split: option.splits node.splits)

lemma on_disk_cong:
  "gs p = fs p \<Longrightarrow> cert_on_disk lib gs p = cert_on_disk lib fs p \<and> key_on_disk lib gs p = key_on_disk lib fs p"
  by (simp add: cert_on_disk_def key_on_disk_def file_data_def)

lemma on_disk_file:
  "cert_on_disk lib fs p = Some c \<Longrightarrow> fs p \<noteq> None" "key_on_disk lib fs p = Some k \<Longrightarrow> fs p \<noteq> None"
  by (auto simp: cert_on_disk_def key_on_disk_def file_data_def split: option.splits)

lemma readSingleCert_ok: "readSingleCert lib p w = (Inr c, v) \<Longrightarrow> cert_on_disk lib (w_files w) p = Some c"
  by (auto simp: readSingleCert_def act_bind_Inr_iff act_wrap_Inr_iff cert_on_disk_def file_data_def
      dest!: ReadFile_ok split: option.splits)

lemma readSigner_ok:
  "readSigner lib p w = (Inr k, v) \<Longrightarrow> key_on_disk lib (w_files w) p = Some k \<and> is_signer k"
proof -
  assume run: "readSigner lib p w = (Inr k, v)"
  then obtain d u where d: "ReadFile p w = (Inr d, u)"
    and rest: "(case ParsePrivateKeyPEM lib d of None \<Rightarrow> act_throw (ParseError p)
      | Some key \<Rightarrow> if is_signer key then act_return key else act_throw (NotASigner p)) u = (Inr k, v)"
    by (auto simp: readSigner_def act_bind_Inr_iff act_wrap_Inr_iff)
  from rest have "ParsePrivateKeyPEM lib d = Some k" "is_signer k" by (simp_all split: option.splits if_splits)
  with ReadFile_ok [OF d] show ?thesis by (auto simp: key_on_disk_def file_data_def)
qed

lemma readSingleCert_calm:
  assumes "calm w" and "cert_on_disk lib (w_files w) p = Some c"
  shows "\<exists>v. readSingleCert lib p w = (Inr c, v)"
proof -
  from assms(2) obtain d cs where d: "file_data (w_files w) p = Some d" "ParseCertsPEM lib d = Some cs" "c = cs ! 0"
    by (auto simp: cert_on_disk_def split: option.splits)
  then obtain m where "w_files w p = Some (FileNode m d)" by (auto simp: file_data_Some)
  from ReadFile_calm [OF assms(1) this] d show ?thesis
    by (auto simp: readSingleCert_def act_bind_def act_wrap_def)
qed

lemma readSigner_calm:
  assumes "calm w" and "key_on_disk lib (w_files w) p = Some k"
  shows "\<exists>v. readSigner lib p w = (Inr k, v)"
proof -
  from assms(2) obtain d where d: "file_data (w_files w) p = Some d" "ParsePrivateKeyPEM lib d = Some k" "is_signer k"
    by (auto simp: key_on_disk_def split: option.splits if_splits)
  then obtain m where "w_files w p = Some (FileNode m d)" by (auto simp: file_data_Some)
  from ReadFile_calm [OF assms(1) this] d show ?thesis
    by (auto simp: readSigner_def act_bind_def act_wrap_def)
qed

lemma validPair_True: "validPair lib c k w = (True, v) \<Longrightarrow> pair_on_disk lib (w_files w) c k"
proof -
  assume "validPair lib c k w = (True, v)"
  then obtain crt u key where u: "readSingleCert lib c w = (Inr crt, u)" and key: "readSigner lib k u = (Inr key, v)"
    and eq: "publicKeysEqual (Public key) (PublicKey crt)"
    by (auto simp: validPair_def split: prod.splits sum.splits)
  have "same_disk w u" using u by (rule stays_run [OF read_pem_reads(1)])
  with readSigner_ok [OF key] have "key_on_disk lib (w_files w) k = Some key" by (simp add: same_disk_def)
  with readSingleCert_ok [OF u] eq show ?thesis by (simp add: pair_on_disk_def)
qed

lemma validPair_calm:
  assumes "calm w" and "pair_on_disk lib (w_files w) c k"
  shows "\<exists>v. validPair lib c k w = (True, v)"
proof -
  from assms(2) obtain crt key where ck: "cert_on_disk lib (w_files w) c = Some crt"
    "key_on_disk lib (w_files w) k = Some key" "publicKeysEqual (Public key) (PublicKey crt)"
    by (auto simp: pair_on_disk_def split: option.splits)
  obtain u where u: "readSingleCert lib c w = (Inr crt, u)"
    using readSingleCert_calm [OF assms(1) ck(1)] by blast
  then have "same_disk w u" by (rule stays_run [OF read_pem_reads(1)])
  with assms(1) ck(2) have "calm u" "key_on_disk lib (w_files u) k = Some key"
    by (auto simp: same_disk_def dest: same_env_calm)
  then obtain v where "readSigner lib k u = (Inr key, v)" using readSigner_calm by blast
  with u ck(3) show ?thesis by (simp add: validPair_def)
qed

lemma validSAPair_True: "validSAPair lib c k w = (True, v) \<Longrightarrow> sa_on_disk lib (w_files w) c k"
proof -
  assume run: "validSAPair lib c k w = (True, v)"
  then obtain u d n where u: "validPair lib c k w = (True, u)" and d: "ReadFile k u = (Inr d, v)"
    and n: "ParsePrivateKeyPEM lib d = Some (RSAKey n)"
    by (auto simp: validSAPair_def split: prod.splits bool.splits sum.splits option.splits private_key.splits)
  from ReadFile_ok [OF d] validPair_same [OF u] have "file_data (w_files w) k = Some d"
    by (auto simp: file_data_def same_disk_def)
  with n validPair_True [OF u] show ?thesis by (simp add: sa_on_disk_def key_on_disk_def)
qed

lemma validSAPair_calm:
  assumes "calm w" and "sa_on_disk lib (w_files w) c k"
  shows "\<exists>v. validSAPair lib c k w = (True, v)"
proof -
  from assms(2) obtain n where pair: "pair_on_disk lib (w_files w) c k" and "key_on_disk lib (w_files w) k = Some (RSAKey n)"
    by (auto simp: sa_on_disk_def split: option.splits private_key.splits)
  then obtain d m where d: "w_files w k = Some (FileNode m d)" "ParsePrivateKeyPEM lib d = Some (RSAKey n)"
    by (auto simp: key_on_disk_def file_data_Some split: option.splits if_splits)
  obtain u where u: "validPair lib c k w = (True, u)" using validPair_calm [OF assms(1) pair] by blast
  with validPair_same [OF u] d assms(1) have "calm u" "w_files u k = Some (FileNode m d)"
    by (auto simp: same_disk_def dest: same_env_calm)
  from ReadFile_calm [OF this] u d(2) show ?thesis by (auto simp: validSAPair_def)
qed

section \<open>What is written\<close>

lemma writeFile_ok:
  assumes "writeFile p d m w = (Inr (), v)"
  shows "w_files v p = Some (FileNode m d)"
proof -
  from assms obtain u1 u2 where "WriteFile p d m u1 = (Inr (), u2)" and ch: "Chmod p m u2 = (Inr (), v)"
    by (auto simp: writeFile_def act_bind_Inr_iff act_wrap_Inr_iff)
  then have "w_files u2 = put_file p (and m (not (w_umask u1))) d (w_files u1)" "\<not> is_dir (w_files u1) p"
    by (auto dest: WriteFile_ok)
  then obtain m' where "w_files u2 p = Some (FileNode m' d)"
    by (auto simp: put_file_def is_dir_def split: option.splits node.splits)
  with Chmod_ok [OF ch] show ?thesis by simp
qed

lemma writeCertFile_ok:
  assumes "writeCertFile lib p c w = (Inr (), v)"
  shows "\<exists>d. EncodeCertificates lib c = Some d \<and> w_files v p = Some (FileNode certFileMode d)"
  using assms by (auto simp: writeCertFile_def writeFile_ok split: option.splits)

lemma writeKeyFile_ok:
  assumes "writeKeyFile lib p k w = (Inr (), v)"
  shows "\<exists>d. MarshalPrivateKeyToPEM lib k = Some d \<and> w_files v p = Some (FileNode keyFileMode d)"
  using assms by (auto simp: writeKeyFile_def writeFile_ok split: option.splits)

lemma pem_ok_cert:
  "pem_ok lib \<Longrightarrow> SignedBy c \<noteq> NoKey \<Longrightarrow> EncodeCertificates lib c = Some d \<Longrightarrow> ParseCertsPEM lib d = Some [c]"
  unfolding pem_ok_def by (metis option.inject)

lemma pem_ok_key:
  "pem_ok lib \<Longrightarrow> k \<in> {RSAKey n, ECKey n} \<Longrightarrow> MarshalPrivateKeyToPEM lib k = Some d \<Longrightarrow>
     ParsePrivateKeyPEM lib d = Some k"
  unfolding pem_ok_def by (metis option.inject)

lemma Public_NoKey: "Public k \<noteq> NoKey \<longleftrightarrow> is_signer k"
  by (cases k) simp_all

lemma createCertificate_ok:
  "createCertificate lib tmpl parent pub signer = Inr c \<Longrightarrow>
     c = tmpl\<lparr>Issuer := Subject parent, PublicKey := pub, SignedBy := Public signer\<rparr>"
  by (auto simp: createCertificate_def x509_CreateCertificate_def x509_ParseCertificate_def result_simps
      split: if_splits list.splits)

lemma randomSerial_ok: "randomSerial w = (Inr s, v) \<Longrightarrow> 1 \<le> s \<and> s \<le> 2 ^ 63 - 2"
proof -
  assume "randomSerial w = (Inr s, v)"
  then obtain n where s: "s = int (n mod maxSerialBytes) + 1"
    by (auto simp: randomSerial_def act_bind_Inr_iff Let_def)
  have "n mod maxSerialBytes < maxSerialBytes" by (rule mod_less_divisor) (simp add: maxSerialBytes_def)
  then have "int (n mod maxSerialBytes) < int maxSerialBytes" by simp
  with s show ?thesis by (simp add: maxSerialBytes_def)
qed

definition issued_certificate ::
  "certificate \<Rightarrow> private_key \<Rightarrow> int \<Rightarrow> leafSpec \<Rightarrow> int \<Rightarrow> nat \<Rightarrow> certificate" where
  "issued_certificate caCert caKey now spec serial n =
     \<lparr>SerialNumber = serial, Subject = (commonName spec, []), NotBefore = seconds now,
      NotAfter = seconds now + certValidity, KeyUsage = 5, ExtKeyUsage = usages spec,
      BasicConstraintsValid = True, IsCA = False, DNSNames = dnsNames spec, IPAddresses = ipAddresses spec,
      Issuer = Subject caCert, PublicKey = ECPub n, SignedBy = Public caKey\<rparr>"

definition leaf_issued :: "pem \<Rightarrow> files \<Rightarrow> certificate \<Rightarrow> private_key \<Rightarrow> int \<Rightarrow> leafSpec \<Rightarrow> bool" where
  "leaf_issued lib fs caCert caKey now spec \<longleftrightarrow>
     (\<exists>serial n d e. 1 \<le> serial \<and> serial \<le> 2 ^ 63 - 2 \<and>
        fs (CertPath (leaf_artifact spec)) = Some (FileNode certFileMode d) \<and>
        fs (KeyPath (leaf_artifact spec)) = Some (FileNode keyFileMode e) \<and>
        ParseCertsPEM lib d = Some [issued_certificate caCert caKey now spec serial n] \<and>
        ParsePrivateKeyPEM lib e = Some (ECKey n))"

lemma leaf_issued_pair:
  "leaf_issued lib fs caCert caKey now spec \<Longrightarrow>
     pair_on_disk lib fs (CertPath (leaf_artifact spec)) (KeyPath (leaf_artifact spec))"
  by (auto simp: leaf_issued_def pair_on_disk_def cert_on_disk_def key_on_disk_def file_data_def
      issued_certificate_def publicKeysEqual_def)

definition leaf_ok :: "pem \<Rightarrow> private_key \<Rightarrow> leafSpec \<Rightarrow> bool" where
  "leaf_ok lib caKey spec \<longleftrightarrow> pem_ok lib \<and> is_signer caKey \<and>
     CertPath (leaf_artifact spec) \<noteq> KeyPath (leaf_artifact spec)"

lemma key_usage_bits: "or KeyUsageKeyEncipherment KeyUsageDigitalSignature = 5"
  by (simp add: KeyUsageKeyEncipherment_def KeyUsageDigitalSignature_def)

lemma newSignedCert_ok:
  assumes "newSignedCert lib cfg now (ECKey n) caCert caKey w = (Inr c, v)"
  shows "\<exists>s. 1 \<le> s \<and> s \<le> 2 ^ 63 - 2 \<and>
    c = \<lparr>SerialNumber = s, Subject = (CommonName cfg, Organization cfg), NotBefore = seconds now,
      NotAfter = seconds now + certValidity, KeyUsage = 5, ExtKeyUsage = Usages cfg,
      BasicConstraintsValid = True, IsCA = False, DNSNames = AltDNSNames cfg, IPAddresses = AltIPs cfg,
      Issuer = Subject caCert, PublicKey = ECPub n, SignedBy = Public caKey\<rparr>"
  using assms
  by (force simp: newSignedCert_def act_bind_Inr_iff Let_def zero_certificate_def key_usage_bits
      dest!: createCertificate_ok dest: randomSerial_ok)

lemma ensureLeaf_cases:
  assumes ok: "leaf_ok lib caKey spec" and run: "ensureLeaf lib caCert caKey now spec w = (Inr (), v)"
  shows "pair_on_disk lib (w_files w) (CertPath (leaf_artifact spec)) (KeyPath (leaf_artifact spec)) \<and> same_disk w v \<or>
     leaf_issued lib (w_files v) caCert caKey now spec"
proof -
  let ?c = "CertPath (leaf_artifact spec)" and ?k = "KeyPath (leaf_artifact spec)"
  obtain b u where check: "validPair lib ?c ?k w = (b, u)" by fastforce
  show ?thesis
  proof (cases b)
    case True
    with check run have "v = u" by (simp add: ensureLeaf_def act_bind_def of_state_def Let_def)
    with True check show ?thesis by (auto dest: validPair_True validPair_same)
  next
    case False
    with check run obtain n crt u1 u2 u3 where
      crt: "newSignedCert lib \<lparr>CommonName = commonName spec, Organization = [], AltDNSNames = dnsNames spec,
            AltIPs = ipAddresses spec, Usages = usages spec\<rparr> now (ECKey n) caCert caKey u1 = (Inr crt, u2)"
      and wc: "writeCertFile lib ?c crt u2 = (Inr (), u3)" and wk: "writeKeyFile lib ?k (ECKey n) u3 = (Inr (), v)"
      by (auto simp: ensureLeaf_def GenerateECDSA_def act_bind_Inr_iff act_wrap_Inr_iff of_state_def Let_def
          split: prod.splits)
    from newSignedCert_ok [OF crt] obtain s where s: "1 \<le> s" "s \<le> 2 ^ 63 - 2"
      and crt_eq: "crt = issued_certificate caCert caKey now spec s n"
      by (auto simp: issued_certificate_def)
    from writeCertFile_ok [OF wc] obtain d where d: "EncodeCertificates lib crt = Some d"
      "w_files u3 ?c = Some (FileNode certFileMode d)" by blast
    from writeKeyFile_ok [OF wk] obtain e where e: "MarshalPrivateKeyToPEM lib (ECKey n) = Some e"
      "w_files v ?k = Some (FileNode keyFileMode e)" by blast
    have "within {?k} u3 v" by (rule stays_run [OF write_pem_within(2) wk]) simp
    with d(2) ok have "w_files v ?c = Some (FileNode certFileMode d)"
      by (auto simp: within_def leaf_ok_def dest: only_writes_kept)
    moreover have "SignedBy crt \<noteq> NoKey" using ok by (simp add: crt_eq issued_certificate_def leaf_ok_def Public_NoKey)
    with ok d(1) have "ParseCertsPEM lib d = Some [crt]" by (auto simp: leaf_ok_def intro: pem_ok_cert)
    moreover from ok e(1) have "ParsePrivateKeyPEM lib e = Some (ECKey n)"
      by (auto simp: leaf_ok_def intro: pem_ok_key [of lib "ECKey n" n])
    ultimately show ?thesis using s e(2) unfolding leaf_issued_def crt_eq by blast
  qed
qed
text \<open>The service-account pair and the authority, when the operation succeeds.\<close>

definition sa_written :: "files \<Rightarrow> string \<Rightarrow> string \<Rightarrow> bool" where
  "sa_written fs certPath keyPath \<longleftrightarrow>
     (\<exists>d e. fs certPath = Some (FileNode certFileMode d) \<and> fs keyPath = Some (FileNode keyFileMode e))"

lemma ensureSA_cases:
  assumes lib: "pem_ok lib" and ck: "c \<noteq> k"
    and run: "ensureServiceAccountPair lib c k w = (Inr (), v)"
  shows "sa_on_disk lib (w_files w) c k \<and> same_disk w v \<or>
     sa_on_disk lib (w_files v) c k \<and> sa_written (w_files v) c k"
proof -
  obtain b u where check: "validSAPair lib c k w = (b, u)" by fastforce
  show ?thesis
  proof (cases b)
    case True
    with check run have "v = u" by (simp add: ensureServiceAccountPair_def act_bind_def of_state_def)
    with True check show ?thesis by (auto dest: validSAPair_True validSAPair_same)
  next
    case False
    with check run obtain n crt u1 u2 u3 where
      wk: "writeKeyFile lib k (RSAKey n) u1 = (Inr (), u2)"
      and crt: "publicKeyCert lib (RSAPub n) (RSAKey n) u2 = (Inr crt, u3)"
      and wc: "writeCertFile lib c crt u3 = (Inr (), v)"
      by (auto simp: ensureServiceAccountPair_def GenerateRSA_def act_bind_Inr_iff act_wrap_Inr_iff of_state_def
          split: prod.splits)
    from writeKeyFile_ok [OF wk] obtain e where e: "MarshalPrivateKeyToPEM lib (RSAKey n) = Some e"
      "w_files u2 k = Some (FileNode keyFileMode e)" by blast
    from writeCertFile_ok [OF wc] obtain d where d: "EncodeCertificates lib crt = Some d"
      "w_files v c = Some (FileNode certFileMode d)" by blast
    have "same_disk u2 u3" using crt by (rule stays_run [OF new_cert_reads(3)])
    moreover have "within {c} u3 v" by (rule stays_run [OF write_pem_within(1) wc]) simp
    ultimately have k: "w_files v k = Some (FileNode keyFileMode e)"
      using e(2) ck by (auto simp: within_def same_disk_def dest: only_writes_kept)
    have pub: "PublicKey crt = RSAPub n \<and> SignedBy crt = RSAPub n"
      using crt by (auto simp: publicKeyCert_def act_bind_Inr_iff Let_def dest!: createCertificate_ok)
    with lib d(1) have "ParseCertsPEM lib d = Some [crt]" by (intro pem_ok_cert) simp_all
    moreover from lib e(1) have "ParsePrivateKeyPEM lib e = Some (RSAKey n)"
      by (intro pem_ok_key [of lib "RSAKey n" n]) simp_all
    ultimately have "sa_on_disk lib (w_files v) c k"
      using d(2) k pub
      by (simp add: sa_on_disk_def pair_on_disk_def cert_on_disk_def key_on_disk_def file_data_def
          publicKeysEqual_def)
    with d(2) k show ?thesis by (simp add: sa_written_def)
  qed
qed

lemma fileExists_ok:
  assumes "fileExists p w = (Inr b, v)"
  shows "b = (file_data (w_files w) p \<noteq> None)"
proof -
  obtain r u where st: "Stat p w = (r, u)" by fastforce
  consider (regular) m d where "r = Inr (FileNode m d)" | (directory) "r = Inr DirNode" | (failed) e where "r = Inl e"
    by (metis sum.exhaust node.exhaust)
  then show ?thesis
  proof cases
    case regular
    with st assms show ?thesis by (auto simp: fileExists_def file_data_def dest: Stat_file)
  next
    case directory
    with st have "is_dir (w_files w) p" by (auto dest: Stat_dir)
    moreover have "w_files w p \<noteq> Some (FileNode m d)" for m d
      using st directory by (auto simp: Stat_def next_fault_def split: fault.splits option.splits if_splits)
    ultimately show ?thesis
      using st directory assms by (auto simp: fileExists_def file_data_def split: option.splits node.splits)
  next
    case failed
    with st assms have "e = ErrNotExist" by (auto simp: fileExists_def split: if_splits)
    with failed st assms show ?thesis by (auto simp: fileExists_def file_data_def dest: Stat_missing)
  qed
qed

lemma loadCAPair_ok:
  assumes "loadCAPair lib c k w = (Inr (crt, key), v)"
  shows "authority_on_disk lib (w_files w) c k = Some (crt, key) \<and> is_signer key"
proof -
  from assms obtain u where u: "readSingleCert lib c w = (Inr crt, u)" and key: "readSigner lib k u = (Inr key, v)"
    and auth: "is_authority crt key"
    by (auto simp: loadCAPair_def act_bind_Inr_iff act_wrap_Inr_iff is_authority_def split: if_splits)
  have "same_disk w u" using u by (rule stays_run [OF read_pem_reads(1)])
  with readSigner_ok [OF key] have "key_on_disk lib (w_files w) k = Some key" "is_signer key"
    by (simp_all add: same_disk_def)
  with readSingleCert_ok [OF u] auth show ?thesis by (simp add: authority_on_disk_def)
qed

lemma loadCAPair_calm:
  assumes "calm w" and "authority_on_disk lib (w_files w) c k = Some (crt, key)"
  shows "\<exists>v. loadCAPair lib c k w = (Inr (crt, key), v)"
proof -
  from assms(2) have ck: "cert_on_disk lib (w_files w) c = Some crt" "key_on_disk lib (w_files w) k = Some key"
    "is_authority crt key"
    by (auto simp: authority_on_disk_def split: option.splits if_splits)
  obtain u where u: "readSingleCert lib c w = (Inr crt, u)" using readSingleCert_calm [OF assms(1) ck(1)] by blast
  then have "same_disk w u" by (rule stays_run [OF read_pem_reads(1)])
  with assms(1) ck(2) have "calm u" "key_on_disk lib (w_files u) k = Some key"
    by (auto simp: same_disk_def dest: same_env_calm)
  then obtain v where "readSigner lib k u = (Inr key, v)" using readSigner_calm by blast
  with u ck(3) show ?thesis by (simp add: loadCAPair_def act_bind_def act_wrap_def is_authority_def)
qed

definition authority_certificate :: "int \<Rightarrow> int \<Rightarrow> nat \<Rightarrow> certificate" where
  "authority_certificate now serial n =
     \<lparr>SerialNumber = serial, Subject = (''capishim-ca'', []), NotBefore = seconds now,
      NotAfter = seconds now + certValidity, KeyUsage = 37, ExtKeyUsage = [],
      BasicConstraintsValid = True, IsCA = True, DNSNames = [], IPAddresses = [],
      Issuer = (''capishim-ca'', []), PublicKey = RSAPub n, SignedBy = RSAPub n\<rparr>"

definition authority_created ::
  "pem \<Rightarrow> files \<Rightarrow> string \<Rightarrow> string \<Rightarrow> int \<Rightarrow> certificate \<Rightarrow> private_key \<Rightarrow> bool" where
  "authority_created lib fs certPath keyPath now caCert caKey \<longleftrightarrow>
     (\<exists>serial n d e. 1 \<le> serial \<and> serial \<le> 2 ^ 63 - 2 \<and>
        caCert = authority_certificate now serial n \<and> caKey = RSAKey n \<and>
        fs certPath = Some (FileNode certFileMode d) \<and> fs keyPath = Some (FileNode keyFileMode e) \<and>
        ParseCertsPEM lib d = Some [caCert] \<and> ParsePrivateKeyPEM lib e = Some caKey)"

lemma authority_created_on_disk:
  "authority_created lib fs c k now crt key \<Longrightarrow> authority_on_disk lib fs c k = Some (crt, key)"
  by (auto simp: authority_created_def authority_on_disk_def cert_on_disk_def key_on_disk_def file_data_def
      is_authority_def authority_certificate_def publicKeysEqual_def KeyUsageCertSign_def)

lemma newCACert_ok:
  assumes "newCACert lib (RSAKey n) now w = (Inr c, v)"
  shows "\<exists>s. 1 \<le> s \<and> s \<le> 2 ^ 63 - 2 \<and> c = authority_certificate now s n"
proof -
  have "or (or KeyUsageKeyEncipherment KeyUsageDigitalSignature) KeyUsageCertSign = 37"
    by (simp add: key_usage_bits KeyUsageCertSign_def)
  with assms show ?thesis
    by (force simp: newCACert_def act_bind_Inr_iff Let_def zero_certificate_def authority_certificate_def
        dest!: createCertificate_ok dest: randomSerial_ok)
qed

text \<open>A successful run reads the authority that is there, or makes one: it writes the certificate, then the key.\<close>

lemma ensureCA_run:
  assumes c: "c = PathJoin [dir, caCertName]" and k: "k = PathJoin [dir, caKeyName]"
    and run: "ensureCA lib dir now w = (Inr (crt, key), v)"
  obtains (present) u where "file_data (w_files w) c \<noteq> None" "file_data (w_files w) k \<noteq> None" "same_disk w u"
      "loadCAPair lib c k u = (Inr (crt, key), v)"
  | (fresh) n s u u' where "file_data (w_files w) c = None" "file_data (w_files w) k = None" "key = RSAKey n"
      "1 \<le> s" "s \<le> 2 ^ 63 - 2" "crt = authority_certificate now s n" "same_disk w u"
      "writeCertFile lib c crt u = (Inr (), u')" "writeKeyFile lib k key u' = (Inr (), v)"
proof -
  from run obtain ce u1 ke u2 where ce: "fileExists c w = (Inr ce, u1)" and ke: "fileExists k u1 = (Inr ke, u2)"
    and rest: "(if ce \<and> ke then act_wrap InvalidCA (loadCAPair lib c k)
           else if ce \<or> ke then act_throw IncompleteCA
           else
             act_bind GenerateRSA (\<lambda>caKey.
             act_bind (act_wrap GenerateCA (newCACert lib caKey now)) (\<lambda>caCert.
             act_bind (act_wrap WriteCACert (writeCertFile lib c caCert)) (\<lambda>_.
             act_bind (act_wrap WriteCAKey (writeKeyFile lib k caKey)) (\<lambda>_.
               act_return (caCert, caKey)))))) u2 = (Inr (crt, key), v)"
    unfolding ensureCA_def Let_def c [symmetric] k [symmetric] act_bind_Inr_iff act_wrap_Inr_iff by blast
  have u1: "same_disk w u1" using stays_run [OF fileExists_reads ce] .
  have sd: "same_disk w u2" using u1 stays_run [OF fileExists_reads ke] by (rule same_disk_trans)
  have cd: "ce = (file_data (w_files w) c \<noteq> None)" using fileExists_ok [OF ce] .
  have kd: "ke = (file_data (w_files w) k \<noteq> None)" using fileExists_ok [OF ke] u1 by (simp add: same_disk_def)
  consider (both) "ce" "ke" | (none) "\<not> ce" "\<not> ke" using rest by fastforce
  then show thesis
  proof cases
    case both
    with rest cd kd sd show thesis by (intro present) (simp_all add: act_wrap_Inr_iff)
  next
    case none
    with rest obtain n u3 u4 u5 where key: "key = RSAKey n" and gen: "GenerateRSA u2 = (Inr (RSAKey n) :: pki_error + private_key, u3)"
      and crt: "newCACert lib (RSAKey n) now u3 = (Inr crt, u4)"
      and wc: "writeCertFile lib c crt u4 = (Inr (), u5)" and wk: "writeKeyFile lib k key u5 = (Inr (), v)"
      by (auto simp: GenerateRSA_def act_bind_Inr_iff act_wrap_Inr_iff)
    have "same_disk w u4"
      using sd stays_run [OF Generate_key_reads(1) gen] stays_run [OF new_cert_reads(1) crt] by (blast intro: same_disk_trans)
    with newCACert_ok [OF crt] key none cd kd wc wk show thesis by (auto intro: fresh)
  qed
qed

lemma ensureCA_cases:
  assumes lib: "pem_ok lib" and ck: "c \<noteq> k"
    and c: "c = PathJoin [dir, caCertName]" and k: "k = PathJoin [dir, caKeyName]"
    and run: "ensureCA lib dir now w = (Inr (crt, key), v)"
  shows "is_signer key \<and>
    (authority_on_disk lib (w_files w) c k = Some (crt, key) \<and> same_disk w v \<or>
     file_data (w_files w) c = None \<and> file_data (w_files w) k = None \<and>
     authority_created lib (w_files v) c k now crt key)"
proof (rule ensureCA_run [OF c k run])
  fix u assume sd: "same_disk w u" and ld: "loadCAPair lib c k u = (Inr (crt, key), v)"
  with loadCAPair_ok [OF ld] stays_run [OF loadCAPair_reads ld] show ?thesis
    by (auto simp: same_disk_def same_env_def)
next
  fix n s u u' assume key: "key = RSAKey n" and s: "1 \<le> s" "s \<le> 2 ^ 63 - 2" "crt = authority_certificate now s n"
    and none: "file_data (w_files w) c = None" "file_data (w_files w) k = None"
    and wc: "writeCertFile lib c crt u = (Inr (), u')" and wk: "writeKeyFile lib k key u' = (Inr (), v)"
  from writeCertFile_ok [OF wc] obtain d where d: "EncodeCertificates lib crt = Some d"
    "w_files u' c = Some (FileNode certFileMode d)" by blast
  from writeKeyFile_ok [OF wk] key obtain e where e: "MarshalPrivateKeyToPEM lib (RSAKey n) = Some e"
    "w_files v k = Some (FileNode keyFileMode e)" by blast
  have "within {k} u' v" by (rule stays_run [OF write_pem_within(2) wk]) simp
  with d(2) ck have "w_files v c = Some (FileNode certFileMode d)"
    by (auto simp: within_def dest: only_writes_kept)
  moreover have "ParseCertsPEM lib d = Some [crt]"
    using lib d(1) by (intro pem_ok_cert) (simp_all add: s(3) authority_certificate_def)
  moreover have "ParsePrivateKeyPEM lib e = Some (RSAKey n)"
    using lib e(1) by (intro pem_ok_key [of lib "RSAKey n" n]) simp_all
  ultimately have "authority_created lib (w_files v) c k now crt key"
    using s e(2) key unfolding authority_created_def by blast
  with none key show ?thesis by simp
qed

lemma ensureCA_present:
  assumes "calm w" and "authority_on_disk lib (w_files w) (PathJoin [dir, caCertName]) (PathJoin [dir, caKeyName]) = Some (crt, key)"
  shows "\<exists>v. ensureCA lib dir now w = (Inr (crt, key), v) \<and> same_disk w v"
proof -
  let ?c = "PathJoin [dir, caCertName]" and ?k = "PathJoin [dir, caKeyName]"
  have exists: "\<exists>u. fileExists p z = (Inr True, u) \<and> same_disk z u"
    if "calm z" "w_files z p = Some (FileNode m d)" for z p m d
    using that Stat_calm [OF that(1), of p] next_fault_same [of z]
    by (cases "next_fault z") (simp add: fileExists_def)
  from assms(2) obtain m d where c: "w_files w ?c = Some (FileNode m d)"
    by (auto simp: authority_on_disk_def cert_on_disk_def file_data_Some split: option.splits)
  from assms(2) obtain m' d' where k: "w_files w ?k = Some (FileNode m' d')"
    by (auto simp: authority_on_disk_def key_on_disk_def file_data_Some split: option.splits)
  obtain u where u: "fileExists ?c w = (Inr True, u)" "same_disk w u" using exists [OF assms(1) c] by blast
  then have cu: "calm u" "w_files u = w_files w" using assms(1) by (auto simp: same_disk_def dest: same_env_calm)
  obtain x where x: "fileExists ?k u = (Inr True, x)" "same_disk u x" using exists [of u ?k] cu k by auto
  then have cx: "calm x" "w_files x = w_files w" using cu by (auto simp: same_disk_def dest: same_env_calm)
  with assms(2) obtain v where v: "loadCAPair lib ?c ?k x = (Inr (crt, key), v)"
    using loadCAPair_calm [of x lib ?c ?k crt key] by auto
  have "same_disk x v" using v by (rule stays_run [OF loadCAPair_reads])
  with u x v show ?thesis
    by (auto simp: ensureCA_def Let_def act_bind_def act_wrap_def intro: same_disk_trans)
qed

end
