(* ===== verification/Quadlet.thy ===== *)
theory Quadlet
  imports Config Pki
begin

text \<open>
  The renderer of the quadlet units, \<open>src/internal/quadlet/render.go\<close>, with the unit templates that
  \<open>src/quadlet/templates.go\<close> embeds. Of \<open>text/template\<close> the templates use literal text and actions that
  name a field; that is what \<open>parse_template\<close> and \<open>execute\<close> do, and an action of any other form is an
  error of the model.
\<close>

section \<open>Templates\<close>

datatype segment = Literal string | Field string

fun cut_at :: "string \<Rightarrow> string \<Rightarrow> (string \<times> string) option" where
  "cut_at sep [] = None"
| "cut_at sep (c # s) =
     (if HasPrefix (c # s) sep then Some ([], TrimPrefix (c # s) sep)
      else (case cut_at sep s of None \<Rightarrow> None | Some (a, b) \<Rightarrow> Some (c # a, b)))"

definition field_char :: "char \<Rightarrow> bool" where
  "field_char c \<longleftrightarrow> is_digit c \<or> 65 \<le> byte_val c \<and> byte_val c \<le> 90 \<or> 97 \<le> byte_val c \<and> byte_val c \<le> 122 \<or> c = CHR ''_''"

definition field_action :: "string \<Rightarrow> string option" where
  "field_action inner =
     (case TrimSpace inner of
        [] \<Rightarrow> None
      | c # name \<Rightarrow> if c = CHR ''.'' \<and> name \<noteq> [] \<and> list_all field_char name then Some name else None)"

lemma cut_at_length: "cut_at sep s = Some (a, b) \<Longrightarrow> length b < length s \<or> sep = []"
proof (induction s arbitrary: a b)
  case Nil
  then show ?case by simp
next
  case (Cons c s)
  then show ?case
    by (force simp: TrimPrefix_def HasPrefix_def split: if_splits option.splits prod.splits dest!: Cons.IH)
qed

function parse_template :: "string \<Rightarrow> segment list option" where
  "parse_template s =
     (case cut_at ''{{'' s of
        None \<Rightarrow> Some [Literal s]
      | Some (text, r) \<Rightarrow>
          (case cut_at ''}}'' r of
             None \<Rightarrow> None
           | Some (inner, rest) \<Rightarrow>
               (case field_action inner of
                  None \<Rightarrow> None
                | Some f \<Rightarrow> map_option (\<lambda>segs. Literal text # Field f # segs) (parse_template rest))))"
  by pat_completeness auto
termination
  by (relation "measure length") (auto dest!: cut_at_length)

fun execute :: "(string \<rightharpoonup> string) \<Rightarrow> segment list \<Rightarrow> string option" where
  "execute field [] = Some []"
| "execute field (Literal s # segs) = map_option (\<lambda>t. s @ t) (execute field segs)"
| "execute field (Field f # segs) =
     (case field f of None \<Rightarrow> None | Some v \<Rightarrow> map_option (\<lambda>t. v @ t) (execute field segs))"

section \<open>The embedded templates\<close>

definition lines_of :: "string list \<Rightarrow> string" where
  "lines_of ls = Join ls [CHR 0x0A]"

definition pod_template :: string where
  "pod_template = lines_of
     [''[Pod]'',
      ''PublishPort={{ .PublishPort }}'',
      ''ExitPolicy=continue'',
      '''']"

definition pki_template :: string where
  "pki_template = lines_of
     [''[Container]'',
      ''Pod=capishim.pod'',
      ''Image={{ .Image }}'',
      ''Volume={{ .StateDir }}/pki:{{ .StateDir }}/pki:rw'',
      ''Volume={{ .StateDir }}/webhook-certs:{{ .StateDir }}/webhook-certs:rw'',
      ''Environment={{ .EnvStateDir }}={{ .StateDir }}'',
      ''User=0'',
      ''Exec={{ .Exec }}'',
      ''[Service]'',
      ''Type=oneshot'',
      ''RemainAfterExit=yes'']"

definition etcd_template :: string where
  "etcd_template = lines_of
     [''[Unit]'',
      ''Requires=capishim-pki.service'',
      ''After=capishim-pki.service'',
      '''',
      ''[Container]'',
      ''Pod=capishim.pod'',
      ''Image={{ .Image }}'',
      ''Volume={{ .StateDir }}/etcd:{{ .StateDir }}/etcd:rw'',
      ''Volume={{ .StateDir }}/pki:{{ .StateDir }}/pki:ro'',
      ''Exec={{ .Exec }}'']"

definition apiserver_template :: string where
  "apiserver_template = lines_of
     [''[Unit]'',
      ''Requires=capishim-etcd.service'',
      ''After=capishim-etcd.service'',
      '''',
      ''[Container]'',
      ''Pod=capishim.pod'',
      ''Image={{ .Image }}'',
      ''Volume={{ .StateDir }}/pki:{{ .StateDir }}/pki:ro'',
      ''Volume={{ .StateDir }}/abac:{{ .StateDir }}/abac:ro'',
      ''Exec={{ .Exec }}'']"

definition setup_template :: string where
  "setup_template = lines_of
     [''[Unit]'',
      ''Requires=capishim-apiserver.service'',
      ''After=capishim-apiserver.service'',
      '''',
      ''[Container]'',
      ''Pod=capishim.pod'',
      ''Image={{ .Image }}'',
      ''Volume={{ .StateDir }}/pki:{{ .StateDir }}/pki:ro'',
      ''Volume={{ .StateDir }}/webhook-certs:{{ .StateDir }}/webhook-certs:rw'',
      ''Volume={{ .StateDir }}/kubeconfigs:{{ .StateDir }}/kubeconfigs:rw'',
      ''Environment={{ .EnvStateDir }}={{ .StateDir }}'',
      ''Environment={{ .EnvBindAddr }}={{ .BindAddress }}'',
      ''User=0'',
      ''Exec={{ .Exec }}'',
      ''[Service]'',
      ''Type=oneshot'',
      ''RemainAfterExit=yes'']"

text \<open>The four manager units differ in the webhook volume; CAPD's has one more environment line.\<close>

definition manager_template :: "ComponentID \<Rightarrow> string list \<Rightarrow> string" where
  "manager_template i extra = lines_of
     ([''[Unit]'',
       ''Requires=capishim-setup.service'',
       ''After=capishim-setup.service'',
       '''',
       ''[Container]'',
       ''Pod=capishim.pod'',
       ''Image={{ .Image }}'',
       ''Volume={{ .StateDir }}/pki:{{ .StateDir }}/pki:ro'',
       ''Volume={{ .StateDir }}/kubeconfigs:{{ .StateDir }}/kubeconfigs:ro'',
       ''Volume={{ .StateDir }}/pki/'' @ i @ ''-webhook:{{ .StateDir }}/pki/'' @ i @ ''-webhook:ro'']
      @ extra @
      [''Exec={{ .Exec }}'',
       ''User=0''])"

definition unit_templates :: "(string \<times> string) list" where
  "unit_templates =
     [(''capishim.pod'', pod_template),
      (''capishim-pki.container'', pki_template),
      (''capishim-etcd.container'', etcd_template),
      (''capishim-apiserver.container'', apiserver_template),
      (''capishim-setup.container'', setup_template),
      (''capishim-core.container'', manager_template ''core'' []),
      (''capishim-cabpk.container'', manager_template ''cabpk'' []),
      (''capishim-kcp.container'', manager_template ''kcp'' []),
      (''capishim-capd.container'', manager_template ''capd'' [''Environment=POD_IP=127.0.0.1''])]"

datatype template_error = NoTemplate string | BadTemplate string | NoField string

definition UnitTemplate :: "string \<Rightarrow> template_error + string" where
  "UnitTemplate name = (case map_of unit_templates name of None \<Rightarrow> Inl (NoTemplate name) | Some raw \<Rightarrow> Inr raw)"

section \<open>The data of a unit\<close>

definition podUnitName :: string where "podUnitName = ''capishim.pod''"
definition unitPrefix :: string where "unitPrefix = ''capishim-''"
definition containerSuffix :: string where "containerSuffix = ''.container''"
definition containerPort :: string where "containerPort = ''6443''"
definition etcdClientPort :: string where "etcdClientPort = ''2379''"
definition etcdPeerPort :: string where "etcdPeerPort = ''2380''"
definition localImagePrefix :: string where "localImagePrefix = ''localhost/capishim-''"

record quadlet_input =
  in_Config :: config
  in_Version :: string

record templateData =
  PublishPort :: string
  Image :: string
  td_StateDir :: string
  td_BindAddress :: string
  td_EnvStateDir :: string
  EnvBindAddr :: string
  Exec :: string

definition empty_data :: templateData where
  "empty_data =
     \<lparr>PublishPort = [], Image = [], td_StateDir = [], td_BindAddress = [], td_EnvStateDir = [], EnvBindAddr = [], Exec = []\<rparr>"

definition data_field :: "templateData \<Rightarrow> string \<rightharpoonup> string" where
  "data_field d =
     [''PublishPort'' \<mapsto> PublishPort d, ''Image'' \<mapsto> Image d, ''StateDir'' \<mapsto> td_StateDir d,
      ''BindAddress'' \<mapsto> td_BindAddress d, ''EnvStateDir'' \<mapsto> td_EnvStateDir d, ''EnvBindAddr'' \<mapsto> EnvBindAddr d,
      ''Exec'' \<mapsto> Exec d]"

definition executeTemplate :: "string \<Rightarrow> templateData \<Rightarrow> template_error + string" where
  "executeTemplate name data =
     bind_result (UnitTemplate name) (\<lambda>raw.
       case parse_template raw of
         None \<Rightarrow> Inl (BadTemplate name)
       | Some t \<Rightarrow> (case execute (data_field data) t of None \<Rightarrow> Inl (NoField name) | Some out \<Rightarrow> Inr out))"

definition imageFor :: "string \<Rightarrow> string \<Rightarrow> string" where
  "imageFor ref version =
     (if version = [] \<or> \<not> HasPrefix ref localImagePrefix then ref
      else (case cut_last ref CHR '':'' of None \<Rightarrow> ref | Some (repo, _) \<Rightarrow> repo @ '':'' @ version))"

definition etcdExec :: "string \<Rightarrow> string" where
  "etcdExec stateDir = Join
     [''etcd'',
      ''--name=capishim-etcd'',
      ''--data-dir='' @ PathJoin [stateDir, ''etcd''],
      ''--listen-client-urls=https://127.0.0.1:'' @ etcdClientPort,
      ''--advertise-client-urls=https://127.0.0.1:'' @ etcdClientPort,
      ''--listen-peer-urls=https://127.0.0.1:'' @ etcdPeerPort,
      ''--initial-advertise-peer-urls=https://127.0.0.1:'' @ etcdPeerPort,
      ''--initial-cluster=capishim-etcd=https://127.0.0.1:'' @ etcdPeerPort,
      ''--cert-file='' @ PathJoin [stateDir, ''pki'', ''etcd-server.crt''],
      ''--key-file='' @ PathJoin [stateDir, ''pki'', ''etcd-server.key''],
      ''--trusted-ca-file='' @ PathJoin [stateDir, ''pki'', ''ca.crt''],
      ''--client-cert-auth=true'',
      ''--peer-cert-file='' @ PathJoin [stateDir, ''pki'', ''etcd-server.crt''],
      ''--peer-key-file='' @ PathJoin [stateDir, ''pki'', ''etcd-server.key''],
      ''--peer-trusted-ca-file='' @ PathJoin [stateDir, ''pki'', ''ca.crt''],
      ''--peer-client-cert-auth=true''] '' ''"

definition apiserverExec :: "string \<Rightarrow> string" where
  "apiserverExec stateDir = Join
     [''kube-apiserver'',
      ''--etcd-servers=https://127.0.0.1:'' @ etcdClientPort,
      ''--etcd-cafile='' @ PathJoin [stateDir, ''pki'', ''ca.crt''],
      ''--etcd-certfile='' @ PathJoin [stateDir, ''pki'', ''apiserver-client.crt''],
      ''--etcd-keyfile='' @ PathJoin [stateDir, ''pki'', ''apiserver-client.key''],
      ''--client-ca-file='' @ PathJoin [stateDir, ''pki'', ''ca.crt''],
      ''--tls-cert-file='' @ PathJoin [stateDir, ''pki'', ''apiserver.crt''],
      ''--tls-private-key-file='' @ PathJoin [stateDir, ''pki'', ''apiserver.key''],
      ''--service-account-key-file='' @ PathJoin [stateDir, ''pki'', ''sa.pub''],
      ''--service-account-signing-key-file='' @ PathJoin [stateDir, ''pki'', ''sa.key''],
      ''--service-account-issuer=https://127.0.0.1:'' @ containerPort,
      ''--authorization-mode=ABAC,RBAC'',
      ''--authorization-policy-file='' @ PathJoin [stateDir, ''abac'', ''policy.json''],
      ''--bind-address=0.0.0.0'',
      ''--secure-port='' @ containerPort,
      ''--service-cluster-ip-range=10.128.0.0/12'',
      ''--allow-privileged=true''] '' ''"

definition managerExec :: "component_spec \<Rightarrow> string \<Rightarrow> string" where
  "managerExec spec stateDir = Join
     [''--kubeconfig='' @ PathJoin [stateDir, Kubeconfig spec],
      ''--webhook-port='' @ Itoa (WebhookPort spec),
      ''--webhook-cert-dir='' @ PathJoin [stateDir, ''pki'', ID spec @ ''-webhook''],
      ''--health-addr=127.0.0.1:'' @ Itoa (HealthPort spec),
      ''--diagnostics-address=127.0.0.1:'' @ Itoa (DiagnosticsPort spec),
      ''--feature-gates=ClusterTopology=true''] '' ''"

definition exec_for :: "component_spec \<Rightarrow> string \<Rightarrow> string" where
  "exec_for spec stateDir =
     (if ID spec = ComponentEtcd then etcdExec stateDir
      else if ID spec = ComponentAPIServer then apiserverExec stateDir
      else if ID spec \<in> {ComponentCore, ComponentCABPK, ComponentKCP, ComponentCAPD} then managerExec spec stateDir
      else if ID spec = ComponentPKI then ''pki''
      else if ID spec = ComponentSetup then ''setup''
      else [])"

definition unitDataFor :: "component_spec \<Rightarrow> quadlet_input \<Rightarrow> templateData" where
  "unitDataFor spec input =
     \<lparr>PublishPort = [], Image = imageFor (ImageRef spec) (in_Version input),
      td_StateDir = StateDir (in_Config input), td_BindAddress = BindAddress (in_Config input),
      td_EnvStateDir = EnvStateDir, EnvBindAddr = EnvBindAddress, Exec = exec_for spec (StateDir (in_Config input))\<rparr>"

section \<open>Rendering\<close>

datatype quadlet_error =
  EmptyStateDir | EmptyBindAddress | UnknownUnit string | ExternalUnit string
| TemplateFailed template_error | RenderFailed string quadlet_error

definition validateInput :: "quadlet_input \<Rightarrow> quadlet_error + unit" where
  "validateInput input =
     (if TrimSpace (StateDir (in_Config input)) = [] then Inl EmptyStateDir
      else if TrimSpace (BindAddress (in_Config input)) = [] then Inl EmptyBindAddress
      else Inr ())"

definition componentIDFromUnitName :: "string \<Rightarrow> ComponentID option" where
  "componentIDFromUnitName name =
     (if \<not> HasPrefix name unitPrefix \<or> \<not> HasSuffix name containerSuffix then None
      else let i = TrimSuffix (TrimPrefix name unitPrefix) containerSuffix
           in if i = [] then None else Some i)"

definition unitFileName :: "ComponentID \<Rightarrow> string" where
  "unitFileName i = unitPrefix @ i @ containerSuffix"

definition RenderUnit :: "string \<Rightarrow> quadlet_input \<Rightarrow> quadlet_error + string" where
  "RenderUnit name input =
     bind_result (validateInput input) (\<lambda>_.
       if name = podUnitName
       then wrap_err TemplateFailed
              (executeTemplate name (empty_data\<lparr>PublishPort := BindAddress (in_Config input) @ '':'' @ containerPort\<rparr>))
       else (case componentIDFromUnitName name of
               None \<Rightarrow> Inl (UnknownUnit name)
             | Some i \<Rightarrow>
                 (case Component i of
                    None \<Rightarrow> Inl (UnknownUnit name)
                  | Some spec \<Rightarrow>
                      if External spec then Inl (ExternalUnit name)
                      else wrap_err TemplateFailed (executeTemplate (unitFileName (ID spec)) (unitDataFor spec input)))))"

fun render_components :: "quadlet_input \<Rightarrow> component_spec list \<Rightarrow> (string \<rightharpoonup> string) \<Rightarrow> quadlet_error + (string \<rightharpoonup> string)" where
  "render_components input [] units = Inr units"
| "render_components input (spec # specs) units =
     (if External spec then render_components input specs units
      else (let name = unitFileName (ID spec)
            in bind_result (wrap_err (RenderFailed name) (RenderUnit name input)) (\<lambda>unit.
                 render_components input specs (units(name \<mapsto> unit)))))"

definition Render :: "quadlet_input \<Rightarrow> quadlet_error + (string \<rightharpoonup> string)" where
  "Render input =
     bind_result (validateInput input) (\<lambda>_.
     bind_result (RenderUnit podUnitName input) (\<lambda>pod.
       render_components input Components [podUnitName \<mapsto> pod]))"

section \<open>Templates line by line\<close>

text \<open>Parsing and executing in one. A template renders line by line, because no action spans two lines.\<close>

declare parse_template.simps [simp del]

definition render :: "(string \<rightharpoonup> string) \<Rightarrow> string \<Rightarrow> string option" where
  "render field s = (case parse_template s of None \<Rightarrow> None | Some t \<Rightarrow> execute field t)"

lemma render_eq:
  "render field s =
     (case cut_at ''{{'' s of
        None \<Rightarrow> Some s
      | Some (text, r) \<Rightarrow>
          (case cut_at ''}}'' r of
             None \<Rightarrow> None
           | Some (inner, rest) \<Rightarrow>
               (case field_action inner of
                  None \<Rightarrow> None
                | Some f \<Rightarrow>
                    (case field f of None \<Rightarrow> None | Some v \<Rightarrow> map_option (\<lambda>t. text @ v @ t) (render field rest)))))"
  unfolding render_def
  by (subst parse_template.simps) (auto simp: option.map_comp comp_def split: option.splits prod.splits)

lemma HasPrefix_short: "HasPrefix (a @ b) p \<Longrightarrow> length p \<le> length a \<Longrightarrow> HasPrefix a p"
  unfolding HasPrefix_def using prefix_length_prefix [of p "a @ b" a] by simp

lemma cut_at_Some: "cut_at sep s = Some (t, r) \<Longrightarrow> s = t @ sep @ r"
proof (induction s arbitrary: t)
  case Nil
  then show ?case by simp
next
  case (Cons c s)
  show ?case
  proof (cases "HasPrefix (c # s) sep")
    case True
    then obtain q where q: "c # s = sep @ q" by (auto simp: HasPrefix_iff)
    then have "TrimPrefix (c # s) sep = q" by (simp only: q TrimPrefix_append)
    with True have "cut_at sep (c # s) = Some ([], q)" by simp
    with Cons.prems have "t = []" "r = q" by (metis Pair_inject option.inject)+
    with q show ?thesis by simp
  next
    case False
    with Cons show ?thesis by (auto split: option.splits prod.splits)
  qed
qed

lemma cut_at_append: "cut_at sep a = Some (t, r) \<Longrightarrow> cut_at sep (a @ x) = Some (t, r @ x)"
proof (induction a arbitrary: t r)
  case Nil
  then show ?case by simp
next
  case (Cons c a)
  show ?case
  proof (cases "HasPrefix (c # a) sep")
    case True
    then obtain q where q: "c # a = sep @ q" by (auto simp: HasPrefix_iff)
    then have "c # (a @ x) = sep @ (q @ x)" by (metis append_Cons append_assoc)
    then have "HasPrefix (c # (a @ x)) sep" "TrimPrefix (c # (a @ x)) sep = q @ x" by (simp_all only: HasPrefix_append TrimPrefix_append)
    moreover have "TrimPrefix (c # a) sep = q" by (simp only: q TrimPrefix_append)
    ultimately show ?thesis using Cons.prems True by simp
  next
    case False
    with Cons.prems obtain t' where t': "cut_at sep a = Some (t', r)" "t = c # t'"
      by (auto split: option.splits prod.splits)
    then have "length sep \<le> length (c # a)" by (auto dest: cut_at_Some)
    with False HasPrefix_short [of "c # a" x sep] have "\<not> HasPrefix (c # (a @ x)) sep" by auto
    with t' Cons.IH [OF t'(1)] show ?thesis by simp
  qed
qed

lemma cut_at_absent:
  assumes "sep \<noteq> []" and "nl \<notin> set sep"
  shows "cut_at sep a = None \<Longrightarrow>
    cut_at sep (a @ nl # b) = (case cut_at sep b of None \<Rightarrow> None | Some (t, r) \<Rightarrow> Some (a @ nl # t, r))"
proof (induction a)
  case Nil
  have "\<not> HasPrefix (nl # b) sep" using assms by (cases sep) (auto simp: HasPrefix_def)
  then show ?case by (simp split: option.split)
next
  case (Cons c a)
  have no: "\<not> HasPrefix (c # a) sep" using Cons.prems by (auto split: if_splits)
  have "\<not> HasPrefix (c # a @ nl # b) sep"
  proof
    assume p: "HasPrefix (c # a @ nl # b) sep"
    then have "\<not> length sep \<le> length (c # a)" using no HasPrefix_short [of "c # a" "nl # b" sep] by auto
    moreover from p obtain q where "(c # a) @ nl # b = sep @ q" by (auto simp: HasPrefix_iff)
    ultimately have "nl \<in> set sep" by (auto simp: append_eq_append_conv2 Cons_eq_append_conv)
    with assms show False by simp
  qed
  moreover have "cut_at sep a = None" using Cons.prems by (auto split: if_splits option.splits)
  ultimately show ?case using Cons.IH by (auto split: option.split)
qed

lemma render_line:
  assumes "nl = CHR 0x0A"
  shows "render field l = Some r \<Longrightarrow> render field (l @ nl # rest) = map_option (\<lambda>t. r @ nl # t) (render field rest)"
proof (induction l arbitrary: r rule: parse_template.induct)
  case (1 l)
  have nl: "nl \<notin> set ''{{''" "nl \<notin> set ''}}''" by (simp_all add: assms)
  show ?case
  proof (cases "cut_at ''{{'' l")
    case None
    with 1(2) have "r = l" by (simp add: render_eq [of field l])
    with None show ?thesis
      using cut_at_absent [OF _ nl(1) None, of rest]
      by (simp add: render_eq [of field "l @ nl # rest"] render_eq [of field rest] option.map_comp comp_def split: option.split)
  next
    case (Some p)
    then obtain u q where p: "cut_at ''{{'' l = Some (u, q)" by (cases p) auto
    with 1(2) obtain inner rest' f v t where i: "cut_at ''}}'' q = Some (inner, rest')" "field_action inner = Some f"
      "field f = Some v" "render field rest' = Some t" "r = u @ v @ t"
      by (auto simp: render_eq [of field l] split: option.splits prod.splits)
    from 1(1) [OF p refl i(1) refl i(2,4)] show ?thesis
      using cut_at_append [OF p, of "nl # rest"] cut_at_append [OF i(1), of "nl # rest"] i
      by (simp add: render_eq [of field "l @ nl # rest"] option.map_comp comp_def)
  qed
qed

lemma render_lines:
  "list_all2 (\<lambda>l r. render field l = Some r) ls rs \<Longrightarrow> ls \<noteq> [] \<Longrightarrow> render field (lines_of ls) = Some (lines_of rs)"
proof (induction rule: list_all2_induct)
  case Nil
  then show ?case by simp
next
  case (Cons l ls r rs)
  show ?case
  proof (cases "ls = []")
    case True
    with Cons show ?thesis by (simp add: lines_of_def)
  next
    case False
    with Cons have "rs \<noteq> []" by auto
    with False Cons render_line [OF refl, of field l r "lines_of ls"] show ?thesis by (simp add: lines_of_def Join_Cons)
  qed
qed

lemma cut_at_first: "s \<noteq> [] \<Longrightarrow> hd s \<notin> set a \<Longrightarrow> cut_at s (a @ s @ b) = Some (a, b)"
proof (induction a)
  case Nil
  then have "\<exists>c q. s @ b = c # q" by (cases s) auto
  then obtain c q where q: "s @ b = c # q" by blast
  have "HasPrefix (c # q) s" "TrimPrefix (c # q) s = b" by (metis q HasPrefix_append, metis q TrimPrefix_append)
  with q show ?case by simp
next
  case (Cons c a)
  then have "\<not> HasPrefix (c # a @ s @ b) s" by (cases s) (auto simp: HasPrefix_def)
  with Cons show ?case by simp
qed

lemma cut_at_never: "s \<noteq> [] \<Longrightarrow> hd s \<notin> set a \<Longrightarrow> cut_at s a = None"
proof (induction a)
  case Nil
  then show ?case by simp
next
  case (Cons c a)
  then have "\<not> HasPrefix (c # a) s" by (cases s) (auto simp: HasPrefix_def)
  with Cons show ?case by simp
qed

lemma render_plain: "CHR ''{'' \<notin> set a \<Longrightarrow> render field a = Some a"
  by (simp add: render_eq cut_at_never)

lemma render_field:
  assumes "CHR ''{'' \<notin> set a" and "CHR ''}'' \<notin> set inner" and "field_action inner = Some f" and "field f = Some v"
  shows "render field (a @ ''{{'' @ inner @ ''}}'' @ b) = map_option (\<lambda>t. a @ v @ t) (render field b)"
proof -
  have "cut_at ''{{'' (a @ ''{{'' @ inner @ ''}}'' @ b) = Some (a, inner @ ''}}'' @ b)"
    by (rule cut_at_first) (simp_all add: assms)
  moreover have "cut_at ''}}'' (inner @ ''}}'' @ b) = Some (inner, b)"
    by (rule cut_at_first) (simp_all add: assms)
  ultimately show ?thesis using assms(3,4) by (subst render_eq) simp
qed

lemma field_actions:
  "field_action '' .PublishPort '' = Some ''PublishPort''" "field_action '' .Image '' = Some ''Image''"
  "field_action '' .StateDir '' = Some ''StateDir''" "field_action '' .BindAddress '' = Some ''BindAddress''"
  "field_action '' .EnvStateDir '' = Some ''EnvStateDir''" "field_action '' .EnvBindAddr '' = Some ''EnvBindAddr''"
  "field_action '' .Exec '' = Some ''Exec''"
  by code_simp+

section \<open>What a unit holds\<close>

text \<open>
  The specification of a container unit: the unit that must be up before it, its volumes under the
  state directory with their modes, and whether it runs once, is a server or is a manager.
\<close>

datatype unit_kind = Oneshot | Server | Manager

record unit_spec =
  us_after :: "ComponentID option"
  us_mounts :: "(string \<times> string) list"
  us_kind :: unit_kind

definition unit_spec_of :: "ComponentID \<Rightarrow> unit_spec" where
  "unit_spec_of i =
     (if i = ComponentPKI then
        \<lparr>us_after = None, us_mounts = [(''pki'', ''rw''), (''webhook-certs'', ''rw'')], us_kind = Oneshot\<rparr>
      else if i = ComponentEtcd then
        \<lparr>us_after = Some ComponentPKI, us_mounts = [(''etcd'', ''rw''), (''pki'', ''ro'')], us_kind = Server\<rparr>
      else if i = ComponentAPIServer then
        \<lparr>us_after = Some ComponentEtcd, us_mounts = [(''pki'', ''ro''), (''abac'', ''ro'')], us_kind = Server\<rparr>
      else if i = ComponentSetup then
        \<lparr>us_after = Some ComponentAPIServer,
         us_mounts = [(''pki'', ''ro''), (''webhook-certs'', ''rw''), (''kubeconfigs'', ''rw'')], us_kind = Oneshot\<rparr>
      else
        \<lparr>us_after = Some ComponentSetup,
         us_mounts = [(''pki'', ''ro''), (''kubeconfigs'', ''ro''), (''pki/'' @ i @ ''-webhook'', ''ro'')], us_kind = Manager\<rparr>)"

text \<open>The environment of a unit, from the two keys, the state directory and the bind address.\<close>

definition unit_env :: "ComponentID \<Rightarrow> string \<Rightarrow> string \<Rightarrow> string \<Rightarrow> string \<Rightarrow> (string \<times> string) list" where
  "unit_env i dirKey dir bindKey bind =
     (if i = ComponentPKI then [(dirKey, dir)]
      else if i = ComponentSetup then [(dirKey, dir), (bindKey, bind)]
      else if i = ComponentCAPD then [(''POD_IP'', ''127.0.0.1'')]
      else [])"

definition unit_lines :: "unit_spec \<Rightarrow> string \<Rightarrow> string \<Rightarrow> string \<Rightarrow> (string \<times> string) list \<Rightarrow> string list" where
  "unit_lines us img dir ex env =
     (case us_after us of
        None \<Rightarrow> []
      | Some i \<Rightarrow> [''[Unit]'', ''Requires=capishim-'' @ i @ ''.service'', ''After=capishim-'' @ i @ ''.service'', ''''])
     @ [''[Container]'', ''Pod=capishim.pod'', ''Image='' @ img]
     @ map (\<lambda>(m, mode). ''Volume='' @ dir @ ''/'' @ m @ '':'' @ dir @ ''/'' @ m @ '':'' @ mode) (us_mounts us)
     @ map (\<lambda>(k, v). ''Environment='' @ k @ ''='' @ v) env
     @ (case us_kind us of
          Oneshot \<Rightarrow> [''User=0'', ''Exec='' @ ex, ''[Service]'', ''Type=oneshot'', ''RemainAfterExit=yes'']
        | Server \<Rightarrow> [''Exec='' @ ex]
        | Manager \<Rightarrow> [''Exec='' @ ex, ''User=0''])"

definition pod_components :: "component_spec list" where
  "pod_components = filter (\<lambda>spec. \<not> External spec) Components"

lemma pod_ids:
  "map ID pod_components =
     [ComponentPKI, ComponentEtcd, ComponentAPIServer, ComponentSetup, ComponentCore, ComponentCABPK, ComponentKCP, ComponentCAPD]"
  by (simp add: pod_components_def Components_def plain_component_def)

lemma template_lines:
  assumes "spec \<in> set pod_components"
  shows "UnitTemplate (unitFileName (ID spec)) = Inr (lines_of (unit_lines (unit_spec_of (ID spec))
    ''{{ .Image }}'' ''{{ .StateDir }}'' ''{{ .Exec }}''
    (unit_env (ID spec) ''{{ .EnvStateDir }}'' ''{{ .StateDir }}'' ''{{ .EnvBindAddr }}'' ''{{ .BindAddress }}'')))"
proof -
  have "ID spec \<in> set (map ID pod_components)" using assms by simp
  then consider "ID spec = ComponentPKI" | "ID spec = ComponentEtcd" | "ID spec = ComponentAPIServer" | "ID spec = ComponentSetup"
    | "ID spec = ComponentCore" | "ID spec = ComponentCABPK" | "ID spec = ComponentKCP" | "ID spec = ComponentCAPD"
    unfolding pod_ids by auto
  then show ?thesis
    by cases
      (simp_all add: UnitTemplate_def unit_templates_def unitFileName_def unitPrefix_def containerSuffix_def component_ids
        unit_lines_def unit_spec_of_def unit_env_def pki_template_def etcd_template_def apiserver_template_def
        setup_template_def manager_template_def)
qed

lemma render_one_field:
  assumes "CHR ''{'' \<notin> set a" and "CHR ''{'' \<notin> set b" and "CHR ''}'' \<notin> set inner" and "field_action inner = Some f" and "field f = Some v"
  shows "render field (a @ ''{{'' @ inner @ ''}}'' @ b) = Some (a @ v @ b)"
  using render_field [where field = field and f = f, OF assms(1,3,4,5), of b] render_plain [OF assms(2)] by simp

lemma render_volume:
  assumes dir: "field ''StateDir'' = Some dir" and m: "CHR ''{'' \<notin> set m" "CHR ''{'' \<notin> set mode"
  shows "render field (''Volume='' @ ''{{ .StateDir }}'' @ ''/'' @ m @ '':'' @ ''{{ .StateDir }}'' @ ''/'' @ m @ '':'' @ mode) =
    Some (''Volume='' @ dir @ ''/'' @ m @ '':'' @ dir @ ''/'' @ m @ '':'' @ mode)"
proof -
  have "render field ((''/'' @ m @ '':'') @ ''{{'' @ '' .StateDir '' @ ''}}'' @ (''/'' @ m @ '':'' @ mode)) =
      Some ((''/'' @ m @ '':'') @ dir @ (''/'' @ m @ '':'' @ mode))"
    by (rule render_one_field [where f = "''StateDir''"]) (use m dir field_actions in simp_all)
  moreover have "render field (''Volume='' @ ''{{'' @ '' .StateDir '' @ ''}}'' @ b) = map_option (\<lambda>t. ''Volume='' @ dir @ t) (render field b)" for b
    by (rule render_field [where f = "''StateDir''"]) (use dir field_actions in simp_all)
  ultimately show ?thesis by simp
qed

lemma render_env:
  assumes "CHR ''}'' \<notin> set k" "field_action k = Some fk" "field fk = Some key"
    and "CHR ''}'' \<notin> set v" "field_action v = Some fv" "field fv = Some val"
  shows "render field (''Environment='' @ (''{{'' @ k @ ''}}'') @ ''='' @ (''{{'' @ v @ ''}}'')) = Some (''Environment='' @ key @ ''='' @ val)"
proof -
  have "render field (''='' @ ''{{'' @ v @ ''}}'' @ []) = Some (''='' @ val @ [])"
    by (rule render_one_field [where f = fv]) (use assms in simp_all)
  moreover have "render field (''Environment='' @ ''{{'' @ k @ ''}}'' @ b) = map_option (\<lambda>t. ''Environment='' @ key @ t) (render field b)" for b
    by (rule render_field [where f = fk]) (use assms in simp_all)
  ultimately show ?thesis by simp
qed

lemma list_all2_both_map: "(\<And>x. x \<in> set xs \<Longrightarrow> R (f x) (g x)) \<Longrightarrow> list_all2 R (map f xs) (map g xs)"
  by (simp add: list.rel_map list.rel_refl_strong)

lemma unit_names_plain:
  assumes "spec \<in> set pod_components"
  shows "\<forall>i. us_after (unit_spec_of (ID spec)) = Some i \<longrightarrow> CHR ''{'' \<notin> set i"
    and "\<forall>(m, mode) \<in> set (us_mounts (unit_spec_of (ID spec))). CHR ''{'' \<notin> set m \<and> CHR ''{'' \<notin> set mode"
proof -
  have "ID spec \<in> set (map ID pod_components)" using assms by simp
  then show "\<forall>i. us_after (unit_spec_of (ID spec)) = Some i \<longrightarrow> CHR ''{'' \<notin> set i"
    "\<forall>(m, mode) \<in> set (us_mounts (unit_spec_of (ID spec))). CHR ''{'' \<notin> set m \<and> CHR ''{'' \<notin> set mode"
    unfolding pod_ids by (auto simp: unit_spec_of_def component_ids)
qed

lemma unit_env_renders:
  assumes "field = data_field d"
  shows "list_all2 (\<lambda>l r. render field l = Some r)
    (map (\<lambda>(k, v). ''Environment='' @ k @ ''='' @ v)
       (unit_env i ''{{ .EnvStateDir }}'' ''{{ .StateDir }}'' ''{{ .EnvBindAddr }}'' ''{{ .BindAddress }}''))
    (map (\<lambda>(k, v). ''Environment='' @ k @ ''='' @ v)
       (unit_env i (td_EnvStateDir d) (td_StateDir d) (EnvBindAddr d) (td_BindAddress d)))"
proof -
  have f: "field ''StateDir'' = Some (td_StateDir d)" "field ''EnvStateDir'' = Some (td_EnvStateDir d)"
    "field ''BindAddress'' = Some (td_BindAddress d)" "field ''EnvBindAddr'' = Some (EnvBindAddr d)"
    by (simp_all add: assms data_field_def)
  have "render field ''Environment={{ .EnvStateDir }}={{ .StateDir }}'' = Some (''Environment='' @ td_EnvStateDir d @ ''='' @ td_StateDir d)"
    using render_env [where field = field and fk = "''EnvStateDir''" and fv = "''StateDir''" and k = "'' .EnvStateDir ''" and v = "'' .StateDir ''"]
      field_actions f by simp
  moreover have "render field ''Environment={{ .EnvBindAddr }}={{ .BindAddress }}'' = Some (''Environment='' @ EnvBindAddr d @ ''='' @ td_BindAddress d)"
    using render_env [where field = field and fk = "''EnvBindAddr''" and fv = "''BindAddress''" and k = "'' .EnvBindAddr ''" and v = "'' .BindAddress ''"]
      field_actions f by simp
  moreover have "render field ''Environment=POD_IP=127.0.0.1'' = Some ''Environment=POD_IP=127.0.0.1''"
    by (rule render_plain) simp
  ultimately show ?thesis by (simp add: unit_env_def)
qed

lemma unit_lines_render:
  assumes spec: "spec \<in> set pod_components"
  shows "list_all2 (\<lambda>l r. render (data_field d) l = Some r)
    (unit_lines (unit_spec_of (ID spec)) ''{{ .Image }}'' ''{{ .StateDir }}'' ''{{ .Exec }}''
      (unit_env (ID spec) ''{{ .EnvStateDir }}'' ''{{ .StateDir }}'' ''{{ .EnvBindAddr }}'' ''{{ .BindAddress }}''))
    (unit_lines (unit_spec_of (ID spec)) (Image d) (td_StateDir d) (Exec d)
      (unit_env (ID spec) (td_EnvStateDir d) (td_StateDir d) (EnvBindAddr d) (td_BindAddress d)))"
proof -
  let ?f = "data_field d" and ?us = "unit_spec_of (ID spec)"
  have f: "?f ''StateDir'' = Some (td_StateDir d)" "?f ''Image'' = Some (Image d)" "?f ''Exec'' = Some (Exec d)"
    by (simp_all add: data_field_def)
  have img: "render ?f (''Image='' @ ''{{ .Image }}'') = Some (''Image='' @ Image d)"
    using render_one_field [where field = ?f and f = "''Image''" and inner = "'' .Image ''" and a = "''Image=''" and b = "[]"]
      field_actions(2) f(2) by simp
  have ex: "render ?f (''Exec='' @ ''{{ .Exec }}'') = Some (''Exec='' @ Exec d)"
    using render_one_field [where field = ?f and f = "''Exec''" and inner = "'' .Exec ''" and a = "''Exec=''" and b = "[]"]
      field_actions(7) f(3) by simp
  have vol: "list_all2 (\<lambda>l r. render ?f l = Some r)
      (map (\<lambda>(m, mode). ''Volume='' @ ''{{ .StateDir }}'' @ ''/'' @ m @ '':'' @ ''{{ .StateDir }}'' @ ''/'' @ m @ '':'' @ mode) (us_mounts ?us))
      (map (\<lambda>(m, mode). ''Volume='' @ td_StateDir d @ ''/'' @ m @ '':'' @ td_StateDir d @ ''/'' @ m @ '':'' @ mode) (us_mounts ?us))"
    using unit_names_plain(2) [OF spec] render_volume [where field = ?f, OF f(1)] by (intro list_all2_both_map) auto
  have head: "list_all2 (\<lambda>l r. render ?f l = Some r)
      (case us_after ?us of None \<Rightarrow> []
       | Some i \<Rightarrow> [''[Unit]'', ''Requires=capishim-'' @ i @ ''.service'', ''After=capishim-'' @ i @ ''.service'', ''''])
      (case us_after ?us of None \<Rightarrow> []
       | Some i \<Rightarrow> [''[Unit]'', ''Requires=capishim-'' @ i @ ''.service'', ''After=capishim-'' @ i @ ''.service'', ''''])"
    using unit_names_plain(1) [OF spec] by (auto simp: render_plain split: option.split)
  show ?thesis
    unfolding unit_lines_def
    by (intro list_all2_appendI head vol unit_env_renders [OF refl])
      (use img ex in \<open>auto simp: render_plain split: unit_kind.split\<close>)
qed

section \<open>Rendering is exact\<close>

definition rendered :: "quadlet_input \<Rightarrow> component_spec \<Rightarrow> string" where
  "rendered input spec = lines_of (unit_lines (unit_spec_of (ID spec)) (imageFor (ImageRef spec) (in_Version input))
     (StateDir (in_Config input)) (exec_for spec (StateDir (in_Config input)))
     (unit_env (ID spec) EnvStateDir (StateDir (in_Config input)) EnvBindAddress (BindAddress (in_Config input))))"

definition expected_units :: "quadlet_input \<Rightarrow> (string \<times> string) list" where
  "expected_units input =
     (podUnitName, lines_of [''[Pod]'', ''PublishPort='' @ BindAddress (in_Config input) @ '':6443'', ''ExitPolicy=continue'', ''''])
     # map (\<lambda>spec. (unitFileName (ID spec), rendered input spec)) pod_components"

lemma executeTemplate_render:
  assumes "UnitTemplate name = Inr raw" and "render (data_field d) raw = Some out"
  shows "executeTemplate name d = Inr out"
  using assms by (auto simp: executeTemplate_def render_def split: option.splits)

lemma unit_lines_not_Nil: "unit_lines us img dir ex env \<noteq> []"
  by (simp add: unit_lines_def)

lemma executeTemplate_unit:
  assumes "spec \<in> set pod_components"
  shows "executeTemplate (unitFileName (ID spec)) (unitDataFor spec input) = Inr (rendered input spec)"
  using executeTemplate_render [OF template_lines [OF assms] render_lines [OF unit_lines_render [OF assms] unit_lines_not_Nil]]
  by (simp add: rendered_def unitDataFor_def)

lemma executeTemplate_pod:
  "executeTemplate podUnitName (empty_data\<lparr>PublishPort := p\<rparr>) =
     Inr (lines_of [''[Pod]'', ''PublishPort='' @ p, ''ExitPolicy=continue'', ''''])"
proof -
  let ?f = "data_field (empty_data\<lparr>PublishPort := p\<rparr>)"
  have "render ?f (''PublishPort='' @ ''{{'' @ '' .PublishPort '' @ ''}}'' @ []) = Some (''PublishPort='' @ p @ [])"
    by (rule render_one_field [where f = "''PublishPort''"]) (simp_all add: field_actions data_field_def)
  then have "list_all2 (\<lambda>l r. render ?f l = Some r) [''[Pod]'', ''PublishPort={{ .PublishPort }}'', ''ExitPolicy=continue'', '''']
      [''[Pod]'', ''PublishPort='' @ p, ''ExitPolicy=continue'', '''']"
    by (simp add: render_plain)
  from render_lines [OF this] show ?thesis
    by (intro executeTemplate_render [where raw = pod_template]) (simp_all add: UnitTemplate_def unit_templates_def podUnitName_def pod_template_def)
qed

lemma unit_name_parses: "componentIDFromUnitName (unitFileName i) = (if i = [] then None else Some i)"
proof -
  have "HasPrefix (unitFileName i) unitPrefix" "TrimPrefix (unitFileName i) unitPrefix = i @ containerSuffix"
    unfolding unitFileName_def by (rule HasPrefix_append, rule TrimPrefix_append)
  moreover have "HasSuffix (unitFileName i) containerSuffix"
    unfolding unitFileName_def using HasSuffix_append [of "unitPrefix @ i"] by simp
  ultimately show ?thesis by (simp add: componentIDFromUnitName_def Let_def)
qed

lemma unit_name_inverse:
  assumes "componentIDFromUnitName name = Some i"
  shows "name = unitFileName i \<and> i \<noteq> []"
proof -
  from assms have pre: "HasPrefix name unitPrefix" and suf: "HasSuffix name containerSuffix"
    and i: "i = TrimSuffix (TrimPrefix name unitPrefix) containerSuffix" "i \<noteq> []"
    by (auto simp: componentIDFromUnitName_def Let_def split: if_splits)
  obtain r where r: "name = unitPrefix @ r" using pre by (auto simp: HasPrefix_iff)
  obtain q where q: "name = q @ containerSuffix" using suf by (auto simp: HasSuffix_iff)
  have "\<exists>us. r = us @ containerSuffix"
  proof -
    have "unitPrefix @ r = q @ containerSuffix" using r q by simp
    then obtain us where "unitPrefix = q @ us \<and> us @ r = containerSuffix \<or> unitPrefix @ us = q \<and> r = us @ containerSuffix"
      unfolding append_eq_append_conv2 by blast
    moreover have "us = []" if "unitPrefix = q @ us" "us @ r = containerSuffix"
    proof (cases us)
      case (Cons c cs)
      with that(2) have "c = CHR ''.''" by (simp add: containerSuffix_def)
      moreover have "c \<in> set (q @ us)" using Cons by simp
      then have "c \<in> set unitPrefix" by (simp only: that(1))
      ultimately show ?thesis by (simp add: unitPrefix_def)
    qed simp
    ultimately show ?thesis by auto
  qed
  then obtain us where us: "r = us @ containerSuffix" by blast
  have "TrimPrefix name unitPrefix = r" unfolding r by (rule TrimPrefix_append)
  then have "i = us" unfolding i(1) by (simp only: us TrimSuffix_append)
  with r us i(2) show ?thesis by (simp add: unitFileName_def)
qed

lemma unitFileName_inj [simp]: "unitFileName i = unitFileName j \<longleftrightarrow> i = j"
  by (simp add: unitFileName_def)

lemma unitFileName_pod: "unitFileName i \<noteq> podUnitName"
  by (simp add: unitFileName_def unitPrefix_def podUnitName_def containerSuffix_def)

lemma components_pod: "spec \<in> set Components \<Longrightarrow> External spec \<or> spec \<in> set pod_components"
  by (simp add: pod_components_def)

lemma component_id_not_Nil: "spec \<in> set Components \<Longrightarrow> ID spec \<noteq> []"
proof -
  assume "spec \<in> set Components"
  then have "ID spec \<in> set (map ID Components)" by simp
  then show ?thesis unfolding Components_ids by (auto simp: component_ids)
qed

lemma RenderUnit_component:
  assumes "validateInput input = Inr ()" and spec: "spec \<in> set pod_components"
  shows "RenderUnit (unitFileName (ID spec)) input = Inr (rendered input spec)"
proof -
  from spec have mem: "spec \<in> set Components" "\<not> External spec" by (simp_all add: pod_components_def)
  then have "Component (ID spec) = Some spec" by (simp add: Component_Some_iff)
  with assms mem show ?thesis
    by (simp add: RenderUnit_def unitFileName_pod unit_name_parses component_id_not_Nil executeTemplate_unit)
qed

lemma RenderUnit_pod:
  "validateInput input = Inr () \<Longrightarrow> RenderUnit podUnitName input = Inr (snd (hd (expected_units input)))"
  by (simp add: RenderUnit_def executeTemplate_pod expected_units_def containerPort_def)

lemma map_of_expected:
  "map_of (expected_units input) name =
     (if name = podUnitName then Some (snd (hd (expected_units input)))
      else (case componentIDFromUnitName name of
              None \<Rightarrow> None
            | Some i \<Rightarrow> (case Component i of None \<Rightarrow> None | Some spec \<Rightarrow> if External spec then None else Some (rendered input spec))))"
proof (cases "name = podUnitName")
  case True
  then show ?thesis by (simp add: expected_units_def)
next
  case False
  have dist: "distinct (map (\<lambda>spec. unitFileName (ID spec)) pod_components)"
    using table.ids_distinct by (auto simp: distinct_map pod_components_def inj_on_def distinct_map_filter)
  have found: "map_of (map (\<lambda>spec. (unitFileName (ID spec), rendered input spec)) pod_components) (unitFileName (ID spec)) =
      Some (rendered input spec)" if "spec \<in> set pod_components" for spec
    using that dist by (intro map_of_is_SomeI) (auto simp: comp_def)
  show ?thesis
  proof (cases "\<exists>spec \<in> set pod_components. name = unitFileName (ID spec)")
    case True
    then obtain spec where spec: "spec \<in> set pod_components" "name = unitFileName (ID spec)" by blast
    then have mem: "spec \<in> set Components" "\<not> External spec" by (simp_all add: pod_components_def)
    then have "Component (ID spec) = Some spec" by (simp add: Component_Some_iff)
    with spec found mem show ?thesis
      by (simp add: expected_units_def unitFileName_pod unit_name_parses component_id_not_Nil)
  next
    case none: False
    then have "map_of (map (\<lambda>spec. (unitFileName (ID spec), rendered input spec)) pod_components) name = None"
      by (auto simp: map_of_eq_None_iff)
    moreover have "External spec" if "componentIDFromUnitName name = Some i" "Component i = Some spec" for i spec
    proof -
      from that have "name = unitFileName (ID spec)" "spec \<in> set Components"
        using unit_name_inverse by (auto simp: Component_Some_iff)
      with none components_pod show ?thesis by blast
    qed
    ultimately show ?thesis using False by (auto simp: expected_units_def split: option.split)
  qed
qed

lemma external_component:
  "spec \<in> set Components \<Longrightarrow> External spec \<longleftrightarrow> ID spec = ComponentHypervisor"
  by (auto simp: Components_def plain_component_def component_ids)

lemma RenderUnit_exact:
  "RenderUnit name input = bind_result (validateInput input) (\<lambda>_.
     case map_of (expected_units input) name of
       Some out \<Rightarrow> Inr out
     | None \<Rightarrow> Inl (if name = unitFileName ComponentHypervisor then ExternalUnit name else UnknownUnit name))"
proof (cases "validateInput input")
  case (Inl e)
  then show ?thesis by (simp add: RenderUnit_def)
next
  case (Inr x)
  then have ok: "validateInput input = Inr ()" by simp
  show ?thesis
  proof (cases "name = podUnitName")
    case True
    then show ?thesis using RenderUnit_pod [OF ok] ok by (simp add: map_of_expected)
  next
    case not_pod: False
    show ?thesis
    proof (cases "componentIDFromUnitName name")
      case None
      then have "name \<noteq> unitFileName ComponentHypervisor" by (auto simp: unit_name_parses component_ids)
      with None not_pod ok show ?thesis by (simp add: map_of_expected RenderUnit_def)
    next
      case (Some i)
      then have name: "name = unitFileName i" using unit_name_inverse by blast
      show ?thesis
      proof (cases "Component i")
        case None
        then have "i \<noteq> ComponentHypervisor" by auto
        with None Some name not_pod ok show ?thesis by (simp add: map_of_expected RenderUnit_def)
      next
        case spec: (Some spec)
        then have mem: "spec \<in> set Components" "ID spec = i" by (simp_all add: Component_Some_iff)
        show ?thesis
        proof (cases "External spec")
          case True
          with mem external_component have "i = ComponentHypervisor" by simp
          with True spec Some name not_pod ok show ?thesis by (simp add: map_of_expected RenderUnit_def)
        next
          case False
          with mem have "spec \<in> set pod_components" by (simp add: pod_components_def)
          from RenderUnit_component [OF ok this] False spec Some name not_pod ok mem show ?thesis
            by (simp add: map_of_expected)
        qed
      qed
    qed
  qed
qed

lemma render_components_exact:
  assumes ok: "validateInput input = Inr ()" and sub: "set specs \<subseteq> set Components"
  shows "render_components input specs units =
    Inr (units ++ map_of (rev (map (\<lambda>spec. (unitFileName (ID spec), rendered input spec)) (filter (\<lambda>s. \<not> External s) specs))))"
  using sub
proof (induction specs arbitrary: units)
  case Nil
  then show ?case by simp
next
  case (Cons spec specs)
  show ?case
  proof (cases "External spec")
    case True
    with Cons show ?thesis by simp
  next
    case False
    with Cons.prems have "spec \<in> set pod_components" by (simp add: pod_components_def)
    from RenderUnit_component [OF ok this] False Cons show ?thesis by (simp add: Let_def)
  qed
qed

lemma map_of_rev_distinct: "distinct (map fst xs) \<Longrightarrow> map_of (rev xs) = map_of xs"
  by (rule map_of_eqI) (auto simp: rev_map [symmetric])

lemma Render_is_exact: "Render input = bind_result (validateInput input) (\<lambda>_. Inr (map_of (expected_units input)))"
proof (cases "validateInput input")
  case (Inl e)
  then show ?thesis by (simp add: Render_def)
next
  case (Inr x)
  then have ok: "validateInput input = Inr ()" by simp
  let ?cs = "map (\<lambda>spec. (unitFileName (ID spec), rendered input spec)) pod_components"
  have dist: "distinct (map fst ?cs)"
    using table.ids_distinct by (auto simp: distinct_map pod_components_def inj_on_def distinct_map_filter comp_def)
  have "[podUnitName \<mapsto> p] ++ map_of ?cs = map_of ((podUnitName, p) # ?cs)" for p
  proof (rule ext)
    fix n
    have "map_of ?cs podUnitName = None" by (auto simp: map_of_eq_None_iff unitFileName_pod [symmetric])
    then show "([podUnitName \<mapsto> p] ++ map_of ?cs) n = map_of ((podUnitName, p) # ?cs) n"
      by (simp add: map_add_def split: option.split)
  qed
  with render_components_exact [OF ok subset_refl, of "[podUnitName \<mapsto> snd (hd (expected_units input))]"]
    RenderUnit_pod [OF ok] ok map_of_rev_distinct [OF dist]
  show ?thesis by (simp add: Render_def expected_units_def pod_components_def)
qed

text \<open>
  C19. Rendering is exact. For an input with a state directory and a bind address, \<open>Render\<close> yields the pod
  unit and one unit for each component that runs in the pod, and none for the external one; each
  container unit is the specified list of lines: the unit it waits for, the rewritten image, its
  volumes, its environment and its command line. \<open>RenderUnit\<close> agrees with it on every name, and
  refuses every other name.
\<close>

theorem Render_exact:
  "Render input = bind_result (validateInput input) (\<lambda>_. Inr (map_of (expected_units input))) \<and>
   RenderUnit name input = bind_result (validateInput input) (\<lambda>_.
     case map_of (expected_units input) name of
       Some out \<Rightarrow> Inr out
     | None \<Rightarrow> Inl (if name = unitFileName ComponentHypervisor then ExternalUnit name else UnknownUnit name))"
  by (intro conjI Render_is_exact RenderUnit_exact)

end
