(* ===== verification/Unstructured.thy ===== *)
theory Unstructured
  imports GoStrings "HOL-Library.Word"
begin

text \<open>
  JSON values as Go decodes them into \<open>any\<close>, and the part of apimachinery's package
  \<open>unstructured\<close> the program calls. The package is not part of the repository: its accessors
  are the fields of the record \<open>k8s_lib\<close>, an argument of every definition that calls one, and
  \<open>k8s_lib_ok\<close> says what their documentation promises. \<open>path_lib\<close> is one library that keeps
  the promise; the witnesses use it.
\<close>

section \<open>Values\<close>

text \<open>A decoded document holds no other types: numbers are \<open>int64\<close> (kept as an integer) or
  \<open>float64\<close> (kept as its bits).\<close>

datatype json =
    JNull
  | JBool bool
  | JInt int
  | JFloat "64 word"
  | JStr string
  | JArr "json list"
  | JObj "string \<rightharpoonup> json"

text \<open>\<open>Unstructured.Object\<close>. Values are not shared in the model, so \<open>DeepCopy\<close> is the
  identity; an update of a copy is a function update.\<close>

type_synonym obj = "string \<rightharpoonup> json"

text \<open>The type assertions \<open>v.(string)\<close>, \<open>v.(map[string]any)\<close>, \<open>v.([]any)\<close>.\<close>

fun as_string :: "json \<Rightarrow> string option" where
  "as_string (JStr s) = Some s"
| "as_string _ = None"

fun as_map :: "json \<Rightarrow> obj option" where
  "as_map (JObj m) = Some m"
| "as_map _ = None"

fun as_list :: "json \<Rightarrow> json list option" where
  "as_list (JArr xs) = Some xs"
| "as_list _ = None"

lemma as_string_iff: "as_string v = Some s \<longleftrightarrow> v = JStr s"
  by (cases v) auto

lemma as_map_iff: "as_map v = Some m \<longleftrightarrow> v = JObj m"
  by (cases v) auto

lemma as_list_iff: "as_list v = Some xs \<longleftrightarrow> v = JArr xs"
  by (cases v) auto

text \<open>\<open>m[k].(string)\<close> with the comma-ok form.\<close>

definition string_field :: "obj \<Rightarrow> string \<Rightarrow> string option" where
  "string_field m k = Option.bind (m k) as_string"

lemma string_field_iff: "string_field m k = Some s \<longleftrightarrow> m k = Some (JStr s)"
  by (auto simp: string_field_def bind_eq_Some_conv as_string_iff)

section \<open>The library\<close>

record gvk =
  gvk_group :: string
  gvk_version :: string
  gvk_kind :: string

record k8s_lib =
  GetAPIVersion :: "obj \<Rightarrow> string"
  GetKind :: "obj \<Rightarrow> string"
  GetName :: "obj \<Rightarrow> string"
  GetNamespace :: "obj \<Rightarrow> string"
  GetResourceVersion :: "obj \<Rightarrow> string"
  GroupVersionKind :: "obj \<Rightarrow> gvk"
  SetResourceVersion :: "obj \<Rightarrow> string \<Rightarrow> obj"
  NestedString :: "obj \<Rightarrow> string list \<Rightarrow> unit + string \<times> bool"
  NestedFieldNoCopy :: "obj \<Rightarrow> string list \<Rightarrow> unit + json option"

definition identity_keys :: "string list" where
  "identity_keys = [''apiVersion'', ''kind'', ''metadata'']"

text \<open>
  The promises. The identity accessors read \<open>apiVersion\<close>, \<open>kind\<close> and \<open>metadata\<close> only, and
  return the string found there; a group-version-kind has the kind of the object;
  setting the resource version changes \<open>metadata\<close> only and keeps the identity; the nested
  accessors follow the path through maps, report a missing field as not found, and
  refuse a string accessor on a field that is not a string.
\<close>

definition same_identity :: "k8s_lib \<Rightarrow> obj \<Rightarrow> obj \<Rightarrow> bool" where
  "same_identity L a b \<longleftrightarrow>
     GetAPIVersion L a = GetAPIVersion L b \<and> GetKind L a = GetKind L b \<and>
     GetName L a = GetName L b \<and> GetNamespace L a = GetNamespace L b \<and>
     GroupVersionKind L a = GroupVersionKind L b"

definition k8s_lib_ok :: "k8s_lib \<Rightarrow> bool" where
  "k8s_lib_ok L \<longleftrightarrow>
     (\<forall>a b. (\<forall>k \<in> set identity_keys. a k = b k) \<longrightarrow> same_identity L a b) \<and>
     (\<forall>a s. a ''kind'' = Some (JStr s) \<longrightarrow> GetKind L a = s) \<and>
     (\<forall>a m s. a ''metadata'' = Some (JObj m) \<longrightarrow> m ''name'' = Some (JStr s) \<longrightarrow> GetName L a = s) \<and>
     (\<forall>a m. a ''metadata'' = Some (JObj m) \<longrightarrow> m ''namespace'' = None \<longrightarrow> GetNamespace L a = []) \<and>
     (\<forall>a. gvk_kind (GroupVersionKind L a) = GetKind L a) \<and>
     (\<forall>a r. same_identity L (SetResourceVersion L a r) a) \<and>
     (\<forall>a r k. k \<noteq> ''metadata'' \<longrightarrow> SetResourceVersion L a r k = a k) \<and>
     (\<forall>a m r. a ''metadata'' = Some (JObj m) \<longrightarrow>
        GetResourceVersion L (SetResourceVersion L a r) = r \<and>
        (\<exists>m'. SetResourceVersion L a r ''metadata'' = Some (JObj m'))) \<and>
     (\<forall>a k l.
        NestedString L a [k, l] =
          (case a k of
             None \<Rightarrow> Inr ([], False)
           | Some v \<Rightarrow> (case as_map v of
               None \<Rightarrow> Inl ()
             | Some m \<Rightarrow> (case m l of
                 None \<Rightarrow> Inr ([], False)
               | Some u \<Rightarrow> (case as_string u of None \<Rightarrow> Inl () | Some s \<Rightarrow> Inr (s, True)))))) \<and>
     (\<forall>a k l.
        NestedFieldNoCopy L a [k, l] =
          (case a k of
             None \<Rightarrow> Inr None
           | Some v \<Rightarrow> (case as_map v of None \<Rightarrow> Inl () | Some m \<Rightarrow> Inr (m l))))"

section \<open>A library that keeps the promises\<close>

fun follow :: "obj \<Rightarrow> string list \<Rightarrow> unit + json option" where
  "follow a [] = Inr None"
| "follow a [k] = Inr (a k)"
| "follow a (k # l # ks) =
     (case a k of
        None \<Rightarrow> Inr None
      | Some v \<Rightarrow> (case as_map v of None \<Rightarrow> Inl () | Some m \<Rightarrow> follow m (l # ks)))"

definition follow_string :: "obj \<Rightarrow> string list \<Rightarrow> unit + string \<times> bool" where
  "follow_string a ks =
     bind_result (follow a ks) (\<lambda>r. case r of
         None \<Rightarrow> Inr ([], False)
       | Some u \<Rightarrow> (case as_string u of None \<Rightarrow> Inl () | Some s \<Rightarrow> Inr (s, True)))"

definition string_at :: "obj \<Rightarrow> string list \<Rightarrow> string" where
  "string_at a ks = (case follow_string a ks of Inl _ \<Rightarrow> [] | Inr (s, _) \<Rightarrow> s)"

definition group_version :: "string \<Rightarrow> string \<times> string" where
  "group_version av = (case Cut av (CHR ''/'') of (g, v, found) \<Rightarrow> if found then (g, v) else ([], av))"

definition gvk_of :: "obj \<Rightarrow> gvk" where
  "gvk_of a =
     \<lparr>gvk_group = fst (group_version (string_at a [''apiVersion''])),
      gvk_version = snd (group_version (string_at a [''apiVersion''])),
      gvk_kind = string_at a [''kind'']\<rparr>"

definition set_resource_version :: "obj \<Rightarrow> string \<Rightarrow> obj" where
  "set_resource_version a r =
     (case a ''metadata'' of
        None \<Rightarrow> a(''metadata'' \<mapsto> JObj [''resourceVersion'' \<mapsto> JStr r])
      | Some v \<Rightarrow> (case as_map v of
          None \<Rightarrow> a
        | Some m \<Rightarrow> a(''metadata'' \<mapsto> JObj (m(''resourceVersion'' \<mapsto> JStr r)))))"

definition path_lib :: k8s_lib where
  "path_lib =
     \<lparr>GetAPIVersion = (\<lambda>a. string_at a [''apiVersion'']),
      GetKind = (\<lambda>a. string_at a [''kind'']),
      GetName = (\<lambda>a. string_at a [''metadata'', ''name'']),
      GetNamespace = (\<lambda>a. string_at a [''metadata'', ''namespace'']),
      GetResourceVersion = (\<lambda>a. string_at a [''metadata'', ''resourceVersion'']),
      GroupVersionKind = gvk_of,
      SetResourceVersion = set_resource_version,
      NestedString = follow_string,
      NestedFieldNoCopy = follow\<rparr>"

lemmas path_lib_defs [go_eval] =
  path_lib_def string_at_def follow_string_def gvk_of_def group_version_def set_resource_version_def string_field_def

lemma string_at_eq: "a k = b k \<Longrightarrow> string_at a (k # ks) = string_at b (k # ks)"
  by (cases ks) (simp_all add: string_at_def follow_string_def)

lemma path_lib_identity:
  fixes a b :: obj
  assumes "\<forall>k \<in> set identity_keys. a k = b k"
  shows "same_identity path_lib a b"
proof -
  have eq: "string_at a (k # ks) = string_at b (k # ks)" if "k \<in> set identity_keys" for k ks
    using assms that by (intro string_at_eq) blast
  show ?thesis by (simp add: same_identity_def path_lib_def gvk_of_def eq identity_keys_def)
qed

lemma path_lib_set_version: "same_identity path_lib (set_resource_version a r) a"
proof (cases "\<exists>v. a ''metadata'' = Some v \<and> as_map v = None")
  case True
  then have "set_resource_version a r = a" by (auto simp: set_resource_version_def)
  then show ?thesis by (simp add: same_identity_def)
next
  case False
  define m where "m = (case a ''metadata'' of None \<Rightarrow> (\<lambda>_. None) | Some v \<Rightarrow> the (as_map v))"
  from False have b: "set_resource_version a r = a(''metadata'' \<mapsto> JObj (m(''resourceVersion'' \<mapsto> JStr r)))"
    by (auto simp: set_resource_version_def m_def split: option.splits)
  have "string_at (set_resource_version a r) [''metadata'', k] = string_at a [''metadata'', k]"
    if "k \<noteq> ''resourceVersion''" for k
    using False that unfolding b
    by (auto simp: string_at_def follow_string_def m_def as_map_iff split: option.splits)
  moreover have "string_at (set_resource_version a r) [k] = string_at a [k]" if "k \<noteq> ''metadata''" for k
    using that unfolding b by (intro string_at_eq) simp
  ultimately show ?thesis by (simp add: same_identity_def path_lib_def gvk_of_def)
qed

lemma path_lib_ok: "k8s_lib_ok path_lib"
  unfolding k8s_lib_ok_def
proof (intro conjI allI impI)
  fix a b :: obj
  assume "\<forall>k \<in> set identity_keys. a k = b k"
  then show "same_identity path_lib a b" by (rule path_lib_identity)
next
  fix a r
  show "same_identity path_lib (SetResourceVersion path_lib a r) a"
    using path_lib_set_version by (simp add: path_lib_def)
next
  fix a
  show "gvk_kind (GroupVersionKind path_lib a) = GetKind path_lib a"
    by (simp add: path_lib_def gvk_of_def Let_def split: prod.splits)
next
  fix a :: obj and r k assume "k \<noteq> ''metadata''"
  then show "SetResourceVersion path_lib a r k = a k"
    by (simp add: path_lib_def set_resource_version_def split: option.splits)
qed (simp_all add: path_lib_def string_at_def follow_string_def set_resource_version_def
      split: option.splits)

section \<open>Consequences of the promises\<close>

lemma lib_same_identity:
  "k8s_lib_ok L \<Longrightarrow> (\<And>k. k \<in> set identity_keys \<Longrightarrow> a k = b k) \<Longrightarrow> same_identity L a b"
  by (simp add: k8s_lib_ok_def)

lemma lib_update_other:
  "k8s_lib_ok L \<Longrightarrow> k \<notin> set identity_keys \<Longrightarrow> same_identity L (a(k := v)) a"
  by (rule lib_same_identity) auto

lemma lib_kind: "k8s_lib_ok L \<Longrightarrow> a ''kind'' = Some (JStr s) \<Longrightarrow> GetKind L a = s"
  by (simp add: k8s_lib_ok_def)

lemma lib_name:
  "k8s_lib_ok L \<Longrightarrow> a ''metadata'' = Some (JObj m) \<Longrightarrow> m ''name'' = Some (JStr s) \<Longrightarrow> GetName L a = s"
  by (simp add: k8s_lib_ok_def)

lemma lib_no_namespace:
  "k8s_lib_ok L \<Longrightarrow> a ''metadata'' = Some (JObj m) \<Longrightarrow> m ''namespace'' = None \<Longrightarrow> GetNamespace L a = []"
  by (simp add: k8s_lib_ok_def)

lemma lib_gvk_kind: "k8s_lib_ok L \<Longrightarrow> gvk_kind (GroupVersionKind L a) = GetKind L a"
  by (simp add: k8s_lib_ok_def)

lemma lib_set_version: "k8s_lib_ok L \<Longrightarrow> same_identity L (SetResourceVersion L a r) a"
  by (simp add: k8s_lib_ok_def)

lemma lib_get_set_version:
  "k8s_lib_ok L \<Longrightarrow> a ''metadata'' = Some (JObj m) \<Longrightarrow>
   GetResourceVersion L (SetResourceVersion L a r) = r"
  by (simp add: k8s_lib_ok_def)

lemma lib_nested_string:
  "k8s_lib_ok L \<Longrightarrow> NestedString L a [k, l] =
     (case a k of
        None \<Rightarrow> Inr ([], False)
      | Some v \<Rightarrow> (case as_map v of
          None \<Rightarrow> Inl ()
        | Some m \<Rightarrow> (case m l of
            None \<Rightarrow> Inr ([], False)
          | Some u \<Rightarrow> (case as_string u of None \<Rightarrow> Inl () | Some s \<Rightarrow> Inr (s, True)))))"
  unfolding k8s_lib_ok_def by blast

lemma lib_nested_field:
  "k8s_lib_ok L \<Longrightarrow> NestedFieldNoCopy L a [k, l] =
     (case a k of
        None \<Rightarrow> Inr None
      | Some v \<Rightarrow> (case as_map v of None \<Rightarrow> Inl () | Some m \<Rightarrow> Inr (m l)))"
  unfolding k8s_lib_ok_def by blast

end
