(* ===== verification/Manifests.thy ===== *)
theory Manifests
  imports Unstructured
begin

text \<open>
  \<open>internal/manifests/manifests.go\<close> and \<open>apply.go\<close>, without the CRD wait loop (theory Poll):
  decoding manifest streams, the filter of applied kinds, and \<open>Apply\<close>. The YAML decoder and
  the dynamic client are arguments (\<open>decoder\<close>, \<open>dynamic_client\<close>); \<open>decoder_ok\<close> and
  \<open>client_ok\<close> say what their documentation promises.
\<close>

section \<open>Kinds\<close>

definition kindNamespace :: string where "kindNamespace = ''Namespace''"
definition kindCustomResourceDefinition :: string where
  "kindCustomResourceDefinition = ''CustomResourceDefinition''"
definition kindClusterRole :: string where "kindClusterRole = ''ClusterRole''"
definition kindClusterRoleBinding :: string where "kindClusterRoleBinding = ''ClusterRoleBinding''"
definition kindRole :: string where "kindRole = ''Role''"
definition kindRoleBinding :: string where "kindRoleBinding = ''RoleBinding''"
definition kindMutatingWebhookConfiguration :: string where
  "kindMutatingWebhookConfiguration = ''MutatingWebhookConfiguration''"
definition kindValidatingWebhookConfiguration :: string where
  "kindValidatingWebhookConfiguration = ''ValidatingWebhookConfiguration''"

lemmas kind_defs [go_eval] =
  kindNamespace_def kindCustomResourceDefinition_def kindClusterRole_def kindClusterRoleBinding_def
  kindRole_def kindRoleBinding_def kindMutatingWebhookConfiguration_def
  kindValidatingWebhookConfiguration_def

text \<open>The published group and version of the four API packages the file imports.\<close>

type_synonym group_version = "string \<times> string"

definition corev1_gv :: group_version where "corev1_gv = ([], ''v1'')"
definition apiextv1_gv :: group_version where "apiextv1_gv = (''apiextensions.k8s.io'', ''v1'')"
definition rbacv1_gv :: group_version where "rbacv1_gv = (''rbac.authorization.k8s.io'', ''v1'')"
definition admissionv1_gv :: group_version where
  "admissionv1_gv = (''admissionregistration.k8s.io'', ''v1'')"

definition WithKind :: "group_version \<Rightarrow> string \<Rightarrow> gvk" where
  "WithKind gv k = \<lparr>gvk_group = fst gv, gvk_version = snd gv, gvk_kind = k\<rparr>"

definition kept_gvks :: "gvk list" where
  "kept_gvks =
     [WithKind corev1_gv kindNamespace,
      WithKind apiextv1_gv kindCustomResourceDefinition,
      WithKind rbacv1_gv kindClusterRole,
      WithKind rbacv1_gv kindClusterRoleBinding,
      WithKind rbacv1_gv kindRole,
      WithKind rbacv1_gv kindRoleBinding,
      WithKind admissionv1_gv kindMutatingWebhookConfiguration,
      WithKind admissionv1_gv kindValidatingWebhookConfiguration]"

text \<open>A nil pointer is \<open>None\<close>.\<close>

definition Keep :: "k8s_lib \<Rightarrow> obj option \<Rightarrow> bool" where
  "Keep L p = (case p of None \<Rightarrow> False | Some x \<Rightarrow> GroupVersionKind L x \<in> set kept_gvks)"

record gvr =
  gvr_group :: string
  gvr_version :: string
  gvr_resource :: string

definition WithResource :: "group_version \<Rightarrow> string \<Rightarrow> gvr" where
  "WithResource gv r = \<lparr>gvr_group = fst gv, gvr_version = snd gv, gvr_resource = r\<rparr>"

record resource_ref =
  ref_gvr :: gvr
  namespaced :: bool

definition resourceFor :: "string \<Rightarrow> resource_ref option" where
  "resourceFor k =
     (if k = kindNamespace then
        Some \<lparr>ref_gvr = WithResource corev1_gv ''namespaces'', namespaced = False\<rparr>
      else if k = kindCustomResourceDefinition then
        Some \<lparr>ref_gvr = WithResource apiextv1_gv ''customresourcedefinitions'', namespaced = False\<rparr>
      else if k = kindClusterRole then
        Some \<lparr>ref_gvr = WithResource rbacv1_gv ''clusterroles'', namespaced = False\<rparr>
      else if k = kindClusterRoleBinding then
        Some \<lparr>ref_gvr = WithResource rbacv1_gv ''clusterrolebindings'', namespaced = False\<rparr>
      else if k = kindRole then
        Some \<lparr>ref_gvr = WithResource rbacv1_gv ''roles'', namespaced = True\<rparr>
      else if k = kindRoleBinding then
        Some \<lparr>ref_gvr = WithResource rbacv1_gv ''rolebindings'', namespaced = True\<rparr>
      else if k = kindMutatingWebhookConfiguration then
        Some \<lparr>ref_gvr = WithResource admissionv1_gv ''mutatingwebhookconfigurations'', namespaced = False\<rparr>
      else if k = kindValidatingWebhookConfiguration then
        Some \<lparr>ref_gvr = WithResource admissionv1_gv ''validatingwebhookconfigurations'', namespaced = False\<rparr>
      else None)"

section \<open>Decoding a stream\<close>

text \<open>
  \<open>yaml.NewYAMLOrJSONDecoder\<close>: made from a stream, and asked again and again for the next
  document until it reports the end. \<open>Document None\<close> is a document that leaves the map nil.
\<close>

datatype decoded = EndOfStream | DecodeFailed string | Document "obj option"

record 's decoder =
  NewDecoder :: "string \<Rightarrow> 's"
  Decode :: "'s \<Rightarrow> decoded \<times> 's"

datatype parse_error = DecodeDocument string | RoundsExhausted

fun parse_loop :: "nat \<Rightarrow> ('s \<Rightarrow> decoded \<times> 's) \<Rightarrow> 's \<Rightarrow> obj list \<Rightarrow> parse_error + obj list" where
  "parse_loop 0 dec s objs = Inl RoundsExhausted"
| "parse_loop (Suc n) dec s objs =
     (case dec s of
        (EndOfStream, _) \<Rightarrow> Inr objs
      | (DecodeFailed e, _) \<Rightarrow> Inl (DecodeDocument e)
      | (Document None, s') \<Rightarrow> parse_loop n dec s' objs
      | (Document (Some raw), s') \<Rightarrow> parse_loop n dec s' (objs @ [raw]))"

definition Parse :: "'s decoder \<Rightarrow> string \<Rightarrow> parse_error + obj list" where
  "Parse D r = parse_loop (length r + 2) (Decode D) (NewDecoder D r) []"

text \<open>Every document costs the decoder input: \<open>m\<close> is what it has left.\<close>

definition decoder_ok :: "('s \<Rightarrow> nat) \<Rightarrow> 's decoder \<Rightarrow> bool" where
  "decoder_ok m D \<longleftrightarrow>
     (\<forall>r. m (NewDecoder D r) \<le> length r + 1) \<and>
     (\<forall>s d s'. Decode D s = (Document d, s') \<longrightarrow> m s' < m s)"

datatype 'f load_error = ReadFailed string 'f | ParseFailed string parse_error

fun load_loop ::
  "(string \<Rightarrow> 'f + string) \<Rightarrow> 's decoder \<Rightarrow> string list \<Rightarrow> obj list \<Rightarrow> 'f load_error + obj list" where
  "load_loop read D [] objs = Inr objs"
| "load_loop read D (path # paths) objs =
     bind_result (wrap_err (ReadFailed path) (read path)) (\<lambda>data.
     bind_result (wrap_err (ParseFailed path) (Parse D data)) (\<lambda>parsed.
       load_loop read D paths (objs @ parsed)))"

definition Load ::
  "(string \<Rightarrow> 'f + string) \<Rightarrow> 's decoder \<Rightarrow> string list \<Rightarrow> 'f load_error + obj list" where
  "Load read D paths = load_loop read D paths []"

section \<open>Apply\<close>

datatype api_error = AlreadyExists | NotFound | OtherAPIError string

text \<open>
  The dynamic client over a world \<open>'w\<close>: a resource, for a namespaced kind its namespace, the
  object or its name. \<open>IsAlreadyExists\<close> recognises the first constructor.
\<close>

type_synonym endpoint = "gvr \<times> string option"

record 'w dynamic_client =
  api_Create :: "endpoint \<Rightarrow> obj \<Rightarrow> ('w, api_error, obj) action"
  api_Get :: "endpoint \<Rightarrow> string \<Rightarrow> ('w, api_error, obj) action"
  api_Update :: "endpoint \<Rightarrow> obj \<Rightarrow> ('w, api_error, obj) action"

datatype apply_error =
    KindNotApplied string string
  | DuplicateIdentifier string string string
  | ReadExistingFailed string string api_error
  | ApplyFailed string string api_error

definition nul :: char where "nul = CHR 0x00"

definition applyKey :: "k8s_lib \<Rightarrow> obj \<Rightarrow> resource_ref \<Rightarrow> string" where
  "applyKey L x ref =
     (let ns = (if namespaced ref then GetNamespace L x else [])
      in ns @ nul # GetKind L x @ nul # GetName L x)"

text \<open>The first loop of \<open>Apply\<close>: every object is checked before anything is sent.\<close>

fun check_batch :: "k8s_lib \<Rightarrow> (string \<rightharpoonup> string) \<Rightarrow> obj list \<Rightarrow> apply_error + unit" where
  "check_batch L seen [] = Inr ()"
| "check_batch L seen (x # xs) =
     (case resourceFor (GetKind L x) of
        None \<Rightarrow> Inl (KindNotApplied (GetKind L x) (GetName L x))
      | Some ref \<Rightarrow>
          (let key = applyKey L x ref
           in case seen key of
                Some first \<Rightarrow> Inl (DuplicateIdentifier (GetKind L x) (GetName L x) first)
              | None \<Rightarrow>
                  check_batch L (seen(key \<mapsto> GetKind L x @ ''/'' @ GetName L x)) xs))"

definition endpoint_of :: "k8s_lib \<Rightarrow> obj \<Rightarrow> resource_ref \<Rightarrow> endpoint" where
  "endpoint_of L x ref = (ref_gvr ref, if namespaced ref then Some (GetNamespace L x) else None)"

text \<open>The body of the second loop. The zero \<open>resourceRef\<close> stands for an unknown kind.\<close>

definition zero_ref :: resource_ref where
  "zero_ref = \<lparr>ref_gvr = \<lparr>gvr_group = [], gvr_version = [], gvr_resource = []\<rparr>, namespaced = False\<rparr>"

definition apply_one ::
  "k8s_lib \<Rightarrow> 'w dynamic_client \<Rightarrow> obj \<Rightarrow> ('w, apply_error, unit) action" where
  "apply_one L C x w =
     (let ref = (case resourceFor (GetKind L x) of Some r \<Rightarrow> r | None \<Rightarrow> zero_ref);
          ri = endpoint_of L x ref
      in case api_Create C ri x w of
           (Inr _, w1) \<Rightarrow> (Inr (), w1)
         | (Inl AlreadyExists, w1) \<Rightarrow>
             (case api_Get C ri (GetName L x) w1 of
                (Inl e, w2) \<Rightarrow> (Inl (ReadExistingFailed (GetKind L x) (GetName L x) e), w2)
              | (Inr existing, w2) \<Rightarrow>
                  (let y = SetResourceVersion L x (GetResourceVersion L existing)
                   in case api_Update C ri y w2 of
                        (Inl e, w3) \<Rightarrow> (Inl (ApplyFailed (GetKind L y) (GetName L y) e), w3)
                      | (Inr _, w3) \<Rightarrow> (Inr (), w3)))
         | (Inl e, w1) \<Rightarrow> (Inl (ApplyFailed (GetKind L x) (GetName L x) e), w1))"

definition Apply ::
  "k8s_lib \<Rightarrow> 'w dynamic_client \<Rightarrow> obj list \<Rightarrow> ('w, apply_error, unit) action" where
  "Apply L C objs =
     act_bind (act_lift (check_batch L (\<lambda>_. None) objs)) (\<lambda>_. act_iter (apply_one L C) objs)"

section \<open>The filter and the batch check\<close>

definition applied_kinds :: "string list" where
  "applied_kinds =
     [kindNamespace, kindCustomResourceDefinition, kindClusterRole, kindClusterRoleBinding, kindRole,
      kindRoleBinding, kindMutatingWebhookConfiguration, kindValidatingWebhookConfiguration]"

lemma kinds_distinct: "distinct applied_kinds"
  by (simp add: applied_kinds_def kind_defs)

lemma kinds_neq [simp]:
  "kindCustomResourceDefinition \<noteq> kindNamespace"
  "kindClusterRole \<noteq> kindNamespace" "kindClusterRole \<noteq> kindCustomResourceDefinition"
  "kindClusterRoleBinding \<noteq> kindNamespace" "kindClusterRoleBinding \<noteq> kindCustomResourceDefinition"
  "kindClusterRoleBinding \<noteq> kindClusterRole"
  "kindRole \<noteq> kindNamespace" "kindRole \<noteq> kindCustomResourceDefinition"
  "kindRole \<noteq> kindClusterRole" "kindRole \<noteq> kindClusterRoleBinding"
  "kindRoleBinding \<noteq> kindNamespace" "kindRoleBinding \<noteq> kindCustomResourceDefinition"
  "kindRoleBinding \<noteq> kindClusterRole" "kindRoleBinding \<noteq> kindClusterRoleBinding"
  "kindRoleBinding \<noteq> kindRole"
  "kindMutatingWebhookConfiguration \<noteq> kindNamespace"
  "kindMutatingWebhookConfiguration \<noteq> kindCustomResourceDefinition"
  "kindMutatingWebhookConfiguration \<noteq> kindClusterRole"
  "kindMutatingWebhookConfiguration \<noteq> kindClusterRoleBinding"
  "kindMutatingWebhookConfiguration \<noteq> kindRole"
  "kindMutatingWebhookConfiguration \<noteq> kindRoleBinding"
  "kindValidatingWebhookConfiguration \<noteq> kindNamespace"
  "kindValidatingWebhookConfiguration \<noteq> kindCustomResourceDefinition"
  "kindValidatingWebhookConfiguration \<noteq> kindClusterRole"
  "kindValidatingWebhookConfiguration \<noteq> kindClusterRoleBinding"
  "kindValidatingWebhookConfiguration \<noteq> kindRole"
  "kindValidatingWebhookConfiguration \<noteq> kindRoleBinding"
  "kindValidatingWebhookConfiguration \<noteq> kindMutatingWebhookConfiguration"
  using kinds_distinct by (auto simp: applied_kinds_def)

lemmas kinds_neq_sym [simp] = kinds_neq [symmetric]

lemma resourceFor_applied: "resourceFor k \<noteq> None \<longleftrightarrow> k \<in> set applied_kinds"
  by (simp add: resourceFor_def applied_kinds_def)

lemma resourceFor_kinds:
  "resourceFor kindNamespace = Some \<lparr>ref_gvr = WithResource corev1_gv ''namespaces'', namespaced = False\<rparr>"
  "resourceFor kindCustomResourceDefinition =
     Some \<lparr>ref_gvr = WithResource apiextv1_gv ''customresourcedefinitions'', namespaced = False\<rparr>"
  "resourceFor kindClusterRole =
     Some \<lparr>ref_gvr = WithResource rbacv1_gv ''clusterroles'', namespaced = False\<rparr>"
  "resourceFor kindClusterRoleBinding =
     Some \<lparr>ref_gvr = WithResource rbacv1_gv ''clusterrolebindings'', namespaced = False\<rparr>"
  "resourceFor kindRole = Some \<lparr>ref_gvr = WithResource rbacv1_gv ''roles'', namespaced = True\<rparr>"
  "resourceFor kindRoleBinding =
     Some \<lparr>ref_gvr = WithResource rbacv1_gv ''rolebindings'', namespaced = True\<rparr>"
  "resourceFor kindMutatingWebhookConfiguration =
     Some \<lparr>ref_gvr = WithResource admissionv1_gv ''mutatingwebhookconfigurations'', namespaced = False\<rparr>"
  "resourceFor kindValidatingWebhookConfiguration =
     Some \<lparr>ref_gvr = WithResource admissionv1_gv ''validatingwebhookconfigurations'', namespaced = False\<rparr>"
  by (simp_all add: resourceFor_def)

lemma resourceFor_gvr_inj:
  assumes "resourceFor k = Some r" and "resourceFor l = Some s" and "ref_gvr r = ref_gvr s"
  shows "k = l"
proof -
  from assms(1, 2) have "k \<in> set applied_kinds" "l \<in> set applied_kinds"
    using resourceFor_applied by blast+
  moreover have "distinct (map (\<lambda>k. gvr_resource (ref_gvr (the (resourceFor k)))) applied_kinds)"
    by (simp add: applied_kinds_def resourceFor_kinds WithResource_def)
  ultimately show ?thesis
    using assms unfolding distinct_map by (metis (mono_tags, lifting) inj_onD option.sel)
qed

text \<open>
  Every object the filter keeps has a resource to apply it to, and the resource has the
  API group and version of the object's own apiVersion: the table that \<open>Keep\<close> reads and the
  one that \<open>Apply\<close> reads name the same eight kinds.
\<close>

theorem kept_has_resource:
  assumes "k8s_lib_ok L" and "Keep L (Some x)"
  shows "\<exists>ref. resourceFor (GetKind L x) = Some ref \<and>
     gvr_group (ref_gvr ref) = gvk_group (GroupVersionKind L x) \<and>
     gvr_version (ref_gvr ref) = gvk_version (GroupVersionKind L x)"
proof -
  have kind: "GetKind L x = gvk_kind (GroupVersionKind L x)"
    using assms(1) by (simp add: lib_gvk_kind)
  from assms(2) have "GroupVersionKind L x \<in> set kept_gvks" by (simp add: Keep_def)
  then show ?thesis
    unfolding kind kept_gvks_def
    by (auto simp: resourceFor_kinds WithKind_def WithResource_def)
qed

theorem kept_has_resource_witness:
  "\<exists>ref. resourceFor ''Role'' = Some ref \<and> gvr_group (ref_gvr ref) = ''rbac.authorization.k8s.io''"
proof -
  let ?x = "[''apiVersion'' \<mapsto> JStr ''rbac.authorization.k8s.io/v1'', ''kind'' \<mapsto> JStr ''Role'']"
  have gvk: "GroupVersionKind path_lib ?x = WithKind rbacv1_gv kindRole"
    by (simp add: go_eval WithKind_def rbacv1_gv_def)
  have k: "GetKind path_lib ?x = ''Role''" by (simp add: go_eval)
  have "Keep path_lib (Some ?x)" by (simp add: Keep_def gvk kept_gvks_def)
  from kept_has_resource [OF path_lib_ok this] show ?thesis
    unfolding k gvk by (auto simp: WithKind_def rbacv1_gv_def)
qed

text \<open>The identity under which \<open>Apply\<close> refuses duplicates, and the slot an object has on
  the server. Slots of different identities are different.\<close>

definition apply_id :: "k8s_lib \<Rightarrow> obj \<Rightarrow> string" where
  "apply_id L x = applyKey L x (the (resourceFor (GetKind L x)))"

definition slot :: "k8s_lib \<Rightarrow> obj \<Rightarrow> endpoint \<times> string" where
  "slot L x = (endpoint_of L x (the (resourceFor (GetKind L x))), GetName L x)"

definition valid_batch :: "k8s_lib \<Rightarrow> obj list \<Rightarrow> bool" where
  "valid_batch L xs \<longleftrightarrow>
     (\<forall>x \<in> set xs. resourceFor (GetKind L x) \<noteq> None) \<and> distinct (map (apply_id L) xs)"

lemma check_batch_ok_iff:
  "check_batch L seen xs = Inr () \<longleftrightarrow>
     valid_batch L xs \<and> apply_id L ` set xs \<inter> dom seen = {}"
proof (induction xs arbitrary: seen)
  case Nil
  then show ?case by (simp add: valid_batch_def)
next
  case (Cons x xs)
  show ?case
  proof (cases "resourceFor (GetKind L x)")
    case None
    then show ?thesis by (auto simp: valid_batch_def)
  next
    case (Some ref)
    then have key: "applyKey L x ref = apply_id L x" by (simp add: apply_id_def)
    show ?thesis
    proof (cases "seen (apply_id L x)")
      case None
      with Some key Cons.IH show ?thesis by (auto simp: Let_def valid_batch_def)
    next
      case (Some first)
      with \<open>resourceFor (GetKind L x) = Some ref\<close> key show ?thesis by (auto simp: Let_def)
    qed
  qed
qed

lemma slot_apply_id:
  assumes "resourceFor (GetKind L x) \<noteq> None" and "resourceFor (GetKind L y) \<noteq> None"
    and "slot L x = slot L y"
  shows "apply_id L x = apply_id L y"
proof -
  from assms obtain r s where r: "resourceFor (GetKind L x) = Some r" and s: "resourceFor (GetKind L y) = Some s"
    by auto
  with assms(3) have "ref_gvr r = ref_gvr s" by (simp add: slot_def endpoint_of_def)
  with r s have kind: "GetKind L x = GetKind L y" by (rule resourceFor_gvr_inj)
  with r s have "r = s" by simp
  with assms(3) kind r show ?thesis
    by (auto simp: slot_def endpoint_of_def apply_id_def applyKey_def Let_def split: if_splits)
qed

lemma valid_batch_slots: "valid_batch L xs \<Longrightarrow> distinct (map (slot L) xs)"
  unfolding valid_batch_def distinct_map inj_on_def by (metis slot_apply_id)

section \<open>What the API server promises\<close>

text \<open>
  \<open>view w\<close> is what the server stores, by slot; \<open>same x y\<close> says that the stored object \<open>y\<close>
  carries what the client sent in \<open>x\<close> (the server adds fields of its own). A call changes the
  slot it names and no other, a failed create because of an existing object changes nothing,
  and a read changes nothing. No other client writes in the meantime.
\<close>

type_synonym store = "endpoint \<times> string \<rightharpoonup> obj"

definition client_ok ::
  "k8s_lib \<Rightarrow> 'w dynamic_client \<Rightarrow> ('w \<Rightarrow> store) \<Rightarrow> (obj \<Rightarrow> obj \<Rightarrow> bool) \<Rightarrow> bool" where
  "client_ok L C view same \<longleftrightarrow>
     (\<forall>e x w y w'. api_Create C e x w = (Inr y, w') \<longrightarrow>
        view w (e, GetName L x) = None \<and> same x y \<and> view w' = (view w)((e, GetName L x) \<mapsto> y)) \<and>
     (\<forall>e x w w'. api_Create C e x w = (Inl AlreadyExists, w') \<longrightarrow>
        view w (e, GetName L x) \<noteq> None \<and> view w' = view w) \<and>
     (\<forall>e x w f w' s. api_Create C e x w = (Inl f, w') \<longrightarrow> s \<noteq> (e, GetName L x) \<longrightarrow>
        view w' s = view w s) \<and>
     (\<forall>e n w r w'. api_Get C e n w = (r, w') \<longrightarrow>
        view w' = view w \<and> (\<forall>y. r = Inr y \<longrightarrow> view w (e, n) = Some y)) \<and>
     (\<forall>e x w y w'. api_Update C e x w = (Inr y, w') \<longrightarrow>
        same x y \<and> view w' = (view w)((e, GetName L x) \<mapsto> y)) \<and>
     (\<forall>e x w f w' s. api_Update C e x w = (Inl f, w') \<longrightarrow> s \<noteq> (e, GetName L x) \<longrightarrow>
        view w' s = view w s) \<and>
     (\<forall>x r y. same (SetResourceVersion L x r) y \<longrightarrow> same x y)"

text \<open>A server that accepts: creating an absent object works, creating a present one reports
  that it exists, a present object can be read, and an update with the current resource
  version works.\<close>

definition accepting :: "k8s_lib \<Rightarrow> 'w dynamic_client \<Rightarrow> ('w \<Rightarrow> store) \<Rightarrow> bool" where
  "accepting L C view \<longleftrightarrow>
     (\<forall>e x w. view w (e, GetName L x) = None \<longrightarrow> is_ok (fst (api_Create C e x w))) \<and>
     (\<forall>e x w. view w (e, GetName L x) \<noteq> None \<longrightarrow> fst (api_Create C e x w) = Inl AlreadyExists) \<and>
     (\<forall>e n w. view w (e, n) \<noteq> None \<longrightarrow> is_ok (fst (api_Get C e n w))) \<and>
     (\<forall>e x w y. view w (e, GetName L x) = Some y \<longrightarrow> GetResourceVersion L x = GetResourceVersion L y \<longrightarrow>
        is_ok (fst (api_Update C e x w)))"

lemma client_create:
  "client_ok L C view same \<Longrightarrow> api_Create C e x w = (Inr y, w') \<Longrightarrow>
   same x y \<and> view w' = (view w)((e, GetName L x) \<mapsto> y)"
  unfolding client_ok_def by (elim conjE) metis

lemma client_exists:
  "client_ok L C view same \<Longrightarrow> api_Create C e x w = (Inl AlreadyExists, w') \<Longrightarrow>
   view w (e, GetName L x) \<noteq> None \<and> view w' = view w"
  unfolding client_ok_def by (elim conjE) metis

lemma client_create_failed:
  "client_ok L C view same \<Longrightarrow> api_Create C e x w = (Inl f, w') \<Longrightarrow> s \<noteq> (e, GetName L x) \<Longrightarrow>
   view w' s = view w s"
  unfolding client_ok_def by (elim conjE) metis

lemma client_get: "client_ok L C view same \<Longrightarrow> api_Get C e n w = (g, w') \<Longrightarrow> view w' = view w"
  unfolding client_ok_def by (elim conjE) metis

lemma client_get_value:
  "client_ok L C view same \<Longrightarrow> api_Get C e n w = (Inr y, w') \<Longrightarrow> view w (e, n) = Some y"
  unfolding client_ok_def by (elim conjE) metis

lemma client_update:
  "client_ok L C view same \<Longrightarrow> api_Update C e x w = (Inr y, w') \<Longrightarrow>
   same x y \<and> view w' = (view w)((e, GetName L x) \<mapsto> y)"
  unfolding client_ok_def by (elim conjE) metis

lemma client_update_failed:
  "client_ok L C view same \<Longrightarrow> api_Update C e x w = (Inl f, w') \<Longrightarrow> s \<noteq> (e, GetName L x) \<Longrightarrow>
   view w' s = view w s"
  unfolding client_ok_def by (elim conjE) metis

lemma client_same: "client_ok L C view same \<Longrightarrow> same (SetResourceVersion L x q) y \<Longrightarrow> same x y"
  unfolding client_ok_def by (elim conjE) metis

lemma accepts_create:
  "accepting L C view \<Longrightarrow> view w (e, GetName L x) = None \<Longrightarrow> \<exists>y w'. api_Create C e x w = (Inr y, w')"
  unfolding accepting_def is_ok_iff by (metis prod.collapse)

lemma accepts_exists:
  "accepting L C view \<Longrightarrow> view w (e, GetName L x) = Some y \<Longrightarrow> \<exists>w'. api_Create C e x w = (Inl AlreadyExists, w')"
  unfolding accepting_def by (metis option.distinct(1) prod.collapse)

lemma accepts_get:
  "accepting L C view \<Longrightarrow> view w (e, n) = Some y \<Longrightarrow> \<exists>z w'. api_Get C e n w = (Inr z, w')"
  unfolding accepting_def is_ok_iff by (metis option.distinct(1) prod.collapse)

lemma accepts_update:
  "accepting L C view \<Longrightarrow> view w (e, GetName L x) = Some y \<Longrightarrow>
   GetResourceVersion L x = GetResourceVersion L y \<Longrightarrow> \<exists>z w'. api_Update C e x w = (Inr z, w')"
  unfolding accepting_def is_ok_iff by (metis prod.collapse)

section \<open>One object\<close>

lemma apply_one_ok:
  assumes lib: "k8s_lib_ok L" and client: "client_ok L C view same"
    and run: "apply_one L C x w = (Inr (), w')" and known: "resourceFor (GetKind L x) \<noteq> None"
  shows "\<exists>y. same x y \<and> view w' = (view w)(slot L x \<mapsto> y)"
proof -
  obtain ref where ref: "resourceFor (GetKind L x) = Some ref" using known by auto
  let ?ri = "endpoint_of L x ref"
  have slot: "slot L x = (?ri, GetName L x)" by (simp add: slot_def ref)
  obtain c w1 where c: "api_Create C ?ri x w = (c, w1)" by fastforce
  show ?thesis
  proof (cases c)
    case (Inr y)
    with run ref c have "w' = w1" by (simp add: apply_one_def)
    with client_create [OF client c [unfolded Inr]] slot show ?thesis by auto
  next
    case (Inl e)
    with run ref c have e: "e = AlreadyExists"
      by (cases e) (simp_all add: apply_one_def)
    have v1: "view w1 = view w" using client_exists [OF client] c Inl e by blast
    obtain g w2 where g: "api_Get C ?ri (GetName L x) w1 = (g, w2)" by fastforce
    have v2: "view w2 = view w1" using client_get [OF client g] .
    from run ref c Inl e g obtain old where old: "g = Inr old"
      by (cases g) (simp_all add: apply_one_def)
    let ?y = "SetResourceVersion L x (GetResourceVersion L old)"
    have name: "GetName L ?y = GetName L x"
      using lib_set_version [OF lib] by (simp add: same_identity_def)
    obtain u w3 where u: "api_Update C ?ri ?y w2 = (u, w3)" by fastforce
    with run ref c Inl e g old obtain z where "u = Inr z" "w' = w3"
      by (cases u) (simp_all add: apply_one_def Let_def)
    with client_update [OF client u [unfolded this]] name v1 v2 slot client_same [OF client]
    show ?thesis by auto
  qed
qed

lemma apply_one_frame:
  assumes lib: "k8s_lib_ok L" and client: "client_ok L C view same"
    and known: "resourceFor (GetKind L x) \<noteq> None" and other: "s \<noteq> slot L x"
  shows "view (snd (apply_one L C x w)) s = view w s"
proof -
  obtain ref where ref: "resourceFor (GetKind L x) = Some ref" using known by auto
  let ?ri = "endpoint_of L x ref"
  have s: "s \<noteq> (?ri, GetName L x)" using other by (simp add: slot_def ref)
  obtain c w1 where c: "api_Create C ?ri x w = (c, w1)" by fastforce
  have v1: "view w1 s = view w s"
  proof (cases c)
    case (Inl e)
    from client_create_failed [OF client c [unfolded Inl] s] show ?thesis .
  next
    case (Inr y)
    from client_create [OF client c [unfolded Inr]] s show ?thesis by simp
  qed
  obtain g w2 where g: "api_Get C ?ri (GetName L x) w1 = (g, w2)" by fastforce
  have v2: "view w2 = view w1" using client_get [OF client g] .
  have v3: "view w3 s = view w s"
    if up: "api_Update C ?ri (SetResourceVersion L x r) w2 = (u, w3)" for r u w3
  proof -
    have name: "GetName L (SetResourceVersion L x r) = GetName L x"
      using lib_set_version [OF lib] by (simp add: same_identity_def)
    show ?thesis
    proof (cases u)
      case (Inl e)
      from client_update_failed [OF client up [unfolded Inl], of s] s name v1 v2 show ?thesis by simp
    next
      case (Inr y)
      from client_update [OF client up [unfolded Inr]] s name v1 v2 show ?thesis by simp
    qed
  qed
  show ?thesis
    using ref c g v1 v2 v3
    by (auto simp: apply_one_def Let_def split: sum.splits prod.splits api_error.splits)
qed

lemma apply_one_accepted:
  assumes lib: "k8s_lib_ok L" and client: "client_ok L C view same" and acc: "accepting L C view"
    and meta: "x ''metadata'' = Some (JObj m)"
  shows "is_ok (fst (apply_one L C x w))"
proof -
  let ?ref = "case resourceFor (GetKind L x) of Some r \<Rightarrow> r | None \<Rightarrow> zero_ref"
  let ?ri = "endpoint_of L x ?ref"
  show ?thesis
  proof (cases "view w (?ri, GetName L x)")
    case None
    from accepts_create [OF acc None] show ?thesis by (auto simp: apply_one_def)
  next
    case (Some old)
    from accepts_exists [OF acc Some] obtain w1 where c: "api_Create C ?ri x w = (Inl AlreadyExists, w1)"
      by blast
    from client_exists [OF client c] have v1: "view w1 = view w" by simp
    from accepts_get [OF acc, of w1 ?ri "GetName L x" old] Some v1 obtain z w2
      where g: "api_Get C ?ri (GetName L x) w1 = (Inr z, w2)" by auto
    from client_get_value [OF client g] Some v1 have z: "z = old" by simp
    from client_get [OF client g] v1 have v2: "view w2 = view w" by simp
    let ?y = "SetResourceVersion L x (GetResourceVersion L old)"
    have "GetName L ?y = GetName L x" "GetResourceVersion L ?y = GetResourceVersion L old"
      using lib_set_version [OF lib] lib_get_set_version [OF lib, where a = x and m = m] meta by (simp_all add: same_identity_def)
    with accepts_update [OF acc, of w2 ?ri ?y old] Some v2 obtain u w3
      where "api_Update C ?ri ?y w2 = (Inr u, w3)" by auto
    with c g z show ?thesis by (simp add: apply_one_def Let_def)
  qed
qed

section \<open>A server in memory\<close>

text \<open>
  The smallest server that keeps the promises: a store and a counter that numbers the
  versions. Two objects have the same content when they differ in the version only.
\<close>

record mem_world =
  mem_store :: store
  mem_next :: int

definition mem_put :: "endpoint \<Rightarrow> obj \<Rightarrow> (mem_world, api_error, obj) action" where
  "mem_put e x w =
     (let y = SetResourceVersion path_lib x (Itoa (mem_next w))
      in (Inr y, w\<lparr>mem_store := (mem_store w)((e, GetName path_lib x) \<mapsto> y), mem_next := mem_next w + 1\<rparr>))"

definition mem_client :: "mem_world dynamic_client" where
  "mem_client =
     \<lparr>api_Create = (\<lambda>e x w. if mem_store w (e, GetName path_lib x) = None then mem_put e x w
                             else (Inl AlreadyExists, w)),
      api_Get = (\<lambda>e n w. case mem_store w (e, n) of None \<Rightarrow> (Inl NotFound, w) | Some y \<Rightarrow> (Inr y, w)),
      api_Update = (\<lambda>e x w. case mem_store w (e, GetName path_lib x) of
          None \<Rightarrow> (Inl NotFound, w)
        | Some y \<Rightarrow>
            if GetResourceVersion path_lib x = GetResourceVersion path_lib y then mem_put e x w
            else (Inl (OtherAPIError ''conflict''), w))\<rparr>"

definition same_content :: "obj \<Rightarrow> obj \<Rightarrow> bool" where
  "same_content x y \<longleftrightarrow> (\<forall>r. set_resource_version x r = set_resource_version y r)"

lemma set_version_twice: "set_resource_version (set_resource_version x q) r = set_resource_version x r"
  by (simp add: set_resource_version_def split: option.splits)

lemma mem_put_view:
  "mem_put e x w = (Inr y, w') \<Longrightarrow>
   same_content x y \<and> mem_store w' = (mem_store w)((e, GetName path_lib x) \<mapsto> y)"
  by (auto simp: mem_put_def Let_def same_content_def path_lib_def set_version_twice)

lemma mem_put_no_error: "mem_put e x w \<noteq> (Inl f, w')"
  by (simp add: mem_put_def Let_def)

lemma mem_client_ok: "client_ok path_lib mem_client mem_store same_content"
  unfolding client_ok_def
proof (intro conjI allI impI)
  fix x y :: obj and r
  assume "same_content (SetResourceVersion path_lib x r) y"
  then show "same_content x y" by (simp add: same_content_def path_lib_def set_version_twice)
qed (auto simp: mem_client_def mem_put_no_error split: if_splits option.splits dest: mem_put_view)

lemma mem_client_accepting: "accepting path_lib mem_client mem_store"
  by (auto simp: accepting_def mem_client_def mem_put_def Let_def split: option.splits)

section \<open>A batch\<close>

lemma Apply_valid: "valid_batch L xs \<Longrightarrow> Apply L C xs w = act_iter (apply_one L C) xs w"
proof -
  assume "valid_batch L xs"
  then have "check_batch L (\<lambda>_. None) xs = Inr ()" by (simp add: check_batch_ok_iff)
  then show ?thesis by (simp add: Apply_def act_bind_def)
qed

lemma Apply_invalid: "\<not> valid_batch L xs \<Longrightarrow> \<exists>e. Apply L C xs w = (Inl e, w)"
proof -
  assume "\<not> valid_batch L xs"
  then have "check_batch L (\<lambda>_. None) xs \<noteq> Inr ()" by (simp add: check_batch_ok_iff)
  then show ?thesis by (cases "check_batch L (\<lambda>_. None) xs") (auto simp: Apply_def act_bind_def)
qed

lemma apply_all_ok:
  assumes lib: "k8s_lib_ok L" and client: "client_ok L C view same"
  shows "valid_batch L xs \<Longrightarrow> act_iter (apply_one L C) xs w = (Inr (), w') \<Longrightarrow>
    (\<forall>x \<in> set xs. \<exists>y. same x y \<and> view w' (slot L x) = Some y) \<and>
    (\<forall>s. s \<notin> slot L ` set xs \<longrightarrow> view w' s = view w s)"
proof (induction xs arbitrary: w)
  case Nil
  then show ?case by simp
next
  case (Cons x xs)
  from Cons.prems(1) have known: "resourceFor (GetKind L x) \<noteq> None" and rest: "valid_batch L xs"
    by (auto simp: valid_batch_def)
  have fresh: "slot L x \<notin> slot L ` set xs" using valid_batch_slots [OF Cons.prems(1)] by simp
  from Cons.prems(2) obtain v where one: "apply_one L C x w = (Inr (), v)"
    and run: "act_iter (apply_one L C) xs v = (Inr (), w')" by (auto simp: act_bind_Inr_iff)
  from apply_one_ok [OF lib client one known] obtain y
    where "same x y" "view v = (view w)(slot L x \<mapsto> y)" by blast
  moreover from Cons.IH [OF rest run]
  have "\<forall>z \<in> set xs. \<exists>y. same z y \<and> view w' (slot L z) = Some y"
    and other: "\<And>s. s \<notin> slot L ` set xs \<Longrightarrow> view w' s = view v s" by blast+
  moreover from other [OF fresh] have "view w' (slot L x) = view v (slot L x)" .
  ultimately show ?case by simp
qed

lemma apply_all_accepted:
  assumes lib: "k8s_lib_ok L" and client: "client_ok L C view same" and acc: "accepting L C view"
  shows "\<forall>x \<in> set xs. \<exists>m. x ''metadata'' = Some (JObj m) \<Longrightarrow>
    \<exists>w'. act_iter (apply_one L C) xs w = (Inr (), w')"
proof (induction xs arbitrary: w)
  case Nil
  then show ?case by simp
next
  case (Cons x xs)
  then obtain m where "x ''metadata'' = Some (JObj m)" by auto
  from apply_one_accepted [OF lib client acc, where x = x and m = m] this obtain v
    where "apply_one L C x w = (Inr (), v)" by (metis is_ok_iff old.unit.exhaust prod.collapse)
  moreover from Cons obtain w' where "act_iter (apply_one L C) xs v = (Inr (), w')" by auto
  ultimately show ?case by (simp add: act_bind_def)
qed

text \<open>
  C32. A batch is refused before anything is sent: when a kind is not applied or two objects
  share an identity, \<open>Apply\<close> fails and the world, the server included, is the one it started in.
\<close>

theorem Apply_refuses_untouched:
  assumes "\<not> valid_batch L xs"
  shows "\<exists>e. Apply L C xs w = (Inl e, w)"
  using assms by (rule Apply_invalid)

lemma Apply_stores:
  assumes "k8s_lib_ok L" and "client_ok L C view same" and "Apply L C xs w = (Inr (), w')"
  shows "(\<forall>x \<in> set xs. \<exists>y. same x y \<and> view w' (slot L x) = Some y) \<and>
    (\<forall>s. s \<notin> slot L ` set xs \<longrightarrow> view w' s = view w s)"
proof -
  have valid: "valid_batch L xs" using Apply_invalid [of L xs C w] assms(3) by force
  with assms show ?thesis using apply_all_ok [OF assms(1, 2) valid, of w w'] by (simp add: Apply_valid)
qed

text \<open>
  C10. A successful \<open>Apply\<close> converges: afterwards the server stores every object of the batch in
  its slot, with the content that was sent, and every other slot is as it was.
\<close>

theorem Apply_converges:
  assumes "k8s_lib_ok L" and "client_ok L C view same" and "Apply L C xs w = (Inr (), w')"
  shows "(\<forall>x \<in> set xs. \<exists>y. same x y \<and> view w' (slot L x) = Some y) \<and>
    (\<forall>s. s \<notin> slot L ` set xs \<longrightarrow> view w' s = view w s)"
  using assms by (rule Apply_stores)

text \<open>
  Create-or-update: against a server that accepts, \<open>Apply\<close> of any batch with distinct
  identities and applied kinds succeeds from any state of the server, whichever of the
  objects are there already, and so does applying the batch again.
\<close>

theorem Apply_accepted:
  assumes "k8s_lib_ok L" and "client_ok L C view same" and "accepting L C view"
    and "valid_batch L xs" and "\<forall>x \<in> set xs. \<exists>m. x ''metadata'' = Some (JObj m)"
  shows "\<exists>w1 w2. Apply L C xs w = (Inr (), w1) \<and> Apply L C xs w1 = (Inr (), w2)"
  using apply_all_accepted [OF assms(1-3, 5)] by (simp add: Apply_valid [OF assms(4)])

text \<open>
  A failed \<open>Apply\<close> never touches a slot that no object of the batch has.
\<close>

theorem Apply_frame:
  assumes "k8s_lib_ok L" and "client_ok L C view same" and "s \<notin> slot L ` set xs"
  shows "view (snd (Apply L C xs w)) s = view w s"
proof (cases "valid_batch L xs")
  case True
  have "view (snd (act_iter (apply_one L C) xs w)) s = view w s"
  proof (rule act_iter_invariant [where P = "\<lambda>v. view v s = view w s"])
    fix x v assume x: "x \<in> set xs" and v: "view v s = view w s"
    from True x have "resourceFor (GetKind L x) \<noteq> None" by (auto simp: valid_batch_def)
    moreover from assms(3) x have "s \<noteq> slot L x" by auto
    ultimately show "view (snd (apply_one L C x v)) s = view w s"
      using apply_one_frame [OF assms(1, 2)] v by simp
  qed simp
  with True show ?thesis by (simp add: Apply_valid)
next
  case False
  then show ?thesis using Apply_invalid [of L xs C w] by auto
qed

text \<open>Witnesses: a namespace and a role in it, sent to an empty server in memory.\<close>

definition sample_namespace :: obj where
  "sample_namespace =
     [''apiVersion'' \<mapsto> JStr ''v1'', ''kind'' \<mapsto> JStr ''Namespace'',
      ''metadata'' \<mapsto> JObj [''name'' \<mapsto> JStr ''a'']]"

definition sample_role :: obj where
  "sample_role =
     [''apiVersion'' \<mapsto> JStr ''rbac.authorization.k8s.io/v1'', ''kind'' \<mapsto> JStr ''Role'',
      ''metadata'' \<mapsto> JObj [''name'' \<mapsto> JStr ''r'', ''namespace'' \<mapsto> JStr ''a'']]"

definition empty_server :: mem_world where
  "empty_server = \<lparr>mem_store = (\<lambda>_. None), mem_next = 1\<rparr>"

lemma sample_identities [simp]:
  "GetKind path_lib sample_namespace = kindNamespace" "GetName path_lib sample_namespace = ''a''"
  "GetKind path_lib sample_role = kindRole" "GetName path_lib sample_role = ''r''"
  "GetNamespace path_lib sample_role = ''a''"
  by (simp_all add: sample_namespace_def sample_role_def go_eval)

lemma sample_valid: "valid_batch path_lib [sample_namespace, sample_role]"
  by (simp add: valid_batch_def resourceFor_kinds apply_id_def applyKey_def nul_def)

lemma sample_metadata: "\<forall>x \<in> set [sample_namespace, sample_role]. \<exists>m. x ''metadata'' = Some (JObj m)"
  by (simp add: sample_namespace_def sample_role_def)

theorem Apply_refuses_untouched_witness:
  "\<exists>e. Apply path_lib mem_client [sample_role, sample_role] empty_server = (Inl e, empty_server)"
  by (rule Apply_refuses_untouched) (simp add: valid_batch_def)

theorem Apply_accepted_witness:
  "\<exists>w1 w2. Apply path_lib mem_client [sample_namespace, sample_role] empty_server = (Inr (), w1) \<and>
     Apply path_lib mem_client [sample_namespace, sample_role] w1 = (Inr (), w2)"
  by (rule Apply_accepted [OF path_lib_ok mem_client_ok mem_client_accepting sample_valid sample_metadata])

lemma sample_run:
  obtains w where "Apply path_lib mem_client [sample_namespace, sample_role] empty_server = (Inr (), w)"
  using apply_all_accepted [OF path_lib_ok mem_client_ok mem_client_accepting sample_metadata]
  by (auto simp: Apply_valid [OF sample_valid])

theorem Apply_converges_witness:
  "\<exists>w y. Apply path_lib mem_client [sample_namespace, sample_role] empty_server = (Inr (), w) \<and>
     same_content sample_role y \<and> mem_store w (slot path_lib sample_role) = Some y"
proof -
  obtain w where run: "Apply path_lib mem_client [sample_namespace, sample_role] empty_server = (Inr (), w)"
    by (rule sample_run)
  from Apply_converges [OF path_lib_ok mem_client_ok run] run show ?thesis by auto
qed

theorem Apply_frame_witness:
  "mem_store (snd (Apply path_lib mem_client [sample_role] empty_server)) (slot path_lib sample_namespace) = None"
proof -
  have "slot path_lib sample_namespace \<notin> slot path_lib ` set [sample_role]"
    by (simp add: slot_def)
  from Apply_frame [where L = path_lib and C = mem_client and view = mem_store and
      same = same_content and xs = "[sample_role]", OF path_lib_ok mem_client_ok this, of empty_server]
  show ?thesis by (simp add: empty_server_def)
qed

section \<open>The decoded stream\<close>

text \<open>What a stream holds: its documents up to the end or to the first malformed one.\<close>

inductive holds :: "('s \<Rightarrow> decoded \<times> 's) \<Rightarrow> 's \<Rightarrow> obj list \<Rightarrow> string option \<Rightarrow> bool"
  for dec :: "'s \<Rightarrow> decoded \<times> 's" where
  holds_end: "dec s = (EndOfStream, s') \<Longrightarrow> holds dec s [] None"
| holds_bad: "dec s = (DecodeFailed e, s') \<Longrightarrow> holds dec s [] (Some e)"
| holds_skip: "dec s = (Document None, s') \<Longrightarrow> holds dec s' ds r \<Longrightarrow> holds dec s ds r"
| holds_doc: "dec s = (Document (Some d), s') \<Longrightarrow> holds dec s' ds r \<Longrightarrow> holds dec s (d # ds) r"

inductive_cases holdsE: "holds dec s ds r"

lemma holds_functional:
  "holds dec s ds r \<Longrightarrow> holds dec s ds' r' \<Longrightarrow> ds' = ds \<and> r' = r"
proof (induction arbitrary: ds' r' rule: holds.induct)
  case (holds_end s s')
  from holds_end.prems holds_end.hyps show ?case by (auto elim: holdsE)
next
  case (holds_bad s e s')
  from holds_bad.prems holds_bad.hyps show ?case by (auto elim: holdsE)
next
  case (holds_skip s s' ds r)
  from holds_skip.prems holds_skip.hyps(1) have "holds dec s' ds' r'" by (auto elim: holdsE)
  then show ?case by (rule holds_skip.IH)
next
  case (holds_doc s d s' ds r)
  from holds_doc.prems holds_doc.hyps(1) obtain es where "ds' = d # es" "holds dec s' es r'"
    by (auto elim: holdsE)
  with holds_doc.IH show ?case by simp
qed

lemma parse_loop_holds:
  assumes dec: "\<And>s d s'. dec s = (Document d, s') \<Longrightarrow> m s' < m s"
  shows "m s < n \<Longrightarrow> \<exists>ds r. holds dec s ds r \<and>
    parse_loop n dec s acc = (case r of None \<Rightarrow> Inr (acc @ ds) | Some e \<Rightarrow> Inl (DecodeDocument e))"
proof (induction n arbitrary: s acc)
  case 0
  then show ?case by simp
next
  case (Suc n)
  obtain d s' where d: "dec s = (d, s')" by fastforce
  show ?case
  proof (cases d)
    case EndOfStream
    with d show ?thesis using holds_end [of dec s s'] by fastforce
  next
    case (DecodeFailed e)
    with d show ?thesis using holds_bad [of dec s e s'] by fastforce
  next
    case (Document x)
    with d dec Suc.prems have "m s' < n" by fastforce
    then show ?thesis
    proof (cases x)
      case None
      from Suc.IH [OF \<open>m s' < n\<close>, of acc] None Document d show ?thesis
        by (auto intro: holds_skip)
    next
      case (Some raw)
      from Suc.IH [OF \<open>m s' < n\<close>, of "acc @ [raw]"] obtain ds r where "holds dec s' ds r"
        "parse_loop n dec s' (acc @ [raw]) =
           (case r of None \<Rightarrow> Inr ((acc @ [raw]) @ ds) | Some e \<Rightarrow> Inl (DecodeDocument e))" by blast
      with Some Document d show ?thesis
        by (intro exI [of _ "raw # ds"] exI [of _ r]) (auto intro: holds_doc split: option.splits)
    qed
  qed
qed

lemma Parse_holds:
  assumes "decoder_ok m D"
  shows "\<exists>ds b. holds (Decode D) (NewDecoder D r) ds b \<and>
    Parse D r = (case b of None \<Rightarrow> Inr ds | Some e \<Rightarrow> Inl (DecodeDocument e))"
proof -
  have "m (NewDecoder D r) < length r + 2"
    using assms unfolding decoder_ok_def by (metis add.commute le_imp_less_Suc one_add_one plus_1_eq_Suc add_Suc_right)
  moreover have "m s' < m s" if "Decode D s = (Document d, s')" for s d s'
    using assms that unfolding decoder_ok_def by blast
  ultimately show ?thesis
    using parse_loop_holds [where dec = "Decode D" and m = m and acc = "[]"]
    unfolding Parse_def append_Nil by blast
qed

text \<open>
  \<open>Parse\<close> ends on every input and returns what the stream holds: all its documents that are
  not empty, in stream order, or the error of the first malformed one.
\<close>

theorem Parse_complete:
  assumes "decoder_ok m D" and "holds (Decode D) (NewDecoder D r) ds bad"
  shows "Parse D r = (case bad of None \<Rightarrow> Inr ds | Some e \<Rightarrow> Inl (DecodeDocument e))"
proof -
  from Parse_holds [OF assms(1)] obtain es b
    where "holds (Decode D) (NewDecoder D r) es b"
      "Parse D r = (case b of None \<Rightarrow> Inr es | Some e \<Rightarrow> Inl (DecodeDocument e))" by blast
  moreover from this(1) have "es = ds" "b = bad" using holds_functional [OF assms(2)] by blast+
  ultimately show ?thesis by (simp split: option.split)
qed

text \<open>A decoder for the witnesses: one document per line, an empty line is an empty document.\<close>

definition newline :: char where "newline = CHR 0x0A"

definition line_decoder :: "string list decoder" where
  "line_decoder =
     \<lparr>NewDecoder = (\<lambda>r. Split r newline),
      Decode = (\<lambda>ls. case ls of
          [] \<Rightarrow> (EndOfStream, [])
        | l # rest \<Rightarrow> (Document (if l = [] then None else Some [''kind'' \<mapsto> JStr l]), rest))\<rparr>"

lemma Split_length: "length (Split s c) \<le> length s + 1"
  by (induction s) (auto split: list.splits)

lemma line_decoder_ok: "decoder_ok length line_decoder"
  using Split_length by (auto simp: decoder_ok_def line_decoder_def split: list.splits)

theorem Parse_complete_witness:
  "Parse line_decoder (''A'' @ [newline, newline] @ ''B'') = Inr [[''kind'' \<mapsto> JStr ''A''], [''kind'' \<mapsto> JStr ''B'']]"
proof -
  have split: "NewDecoder line_decoder (''A'' @ [newline, newline] @ ''B'') = [''A'', [], ''B'']"
    by (simp add: line_decoder_def newline_def)
  have "holds (Decode line_decoder) [''A'', [], ''B''] [[''kind'' \<mapsto> JStr ''A''], [''kind'' \<mapsto> JStr ''B'']] None"
    by (rule holds_doc holds_skip holds_end | simp add: line_decoder_def)+
  from Parse_complete [OF line_decoder_ok this [folded split]] show ?thesis by simp
qed

lemma load_loop_app:
  "load_loop read D paths objs = bind_result (load_loop read D paths []) (\<lambda>xs. Inr (objs @ xs))"
proof (induction paths arbitrary: objs)
  case Nil
  then show ?case by simp
next
  case (Cons p ps)
  show ?case
  proof (cases "bind_result (wrap_err (ReadFailed p) (read p)) (\<lambda>data. wrap_err (ParseFailed p) (Parse D data))")
    case (Inl e)
    then show ?thesis by (auto simp: bind_result_def split: sum.splits)
  next
    case (Inr xs)
    then have "load_loop read D (p # ps) os = load_loop read D ps (os @ xs)" for os
      by (auto simp: bind_result_def split: sum.splits)
    from this [of objs] this [of "[]"] Cons.IH [of "objs @ xs"] Cons.IH [of xs] show ?thesis
      by (cases "load_loop read D ps []") (simp_all del: load_loop.simps)
  qed
qed

text \<open>\<open>Load\<close> reads and parses file by file and concatenates.\<close>

lemma Load_traverse:
  "Load read D paths =
     bind_result (traverse (\<lambda>p. bind_result (wrap_err (ReadFailed p) (read p))
        (\<lambda>data. wrap_err (ParseFailed p) (Parse D data))) paths) (\<lambda>xss. Inr (concat xss))"
proof (induction paths)
  case Nil
  then show ?case by (simp add: Load_def)
next
  case (Cons p ps)
  then show ?case
    unfolding Load_def load_loop.simps
    by (subst load_loop_app) (auto simp: bind_result_def split: sum.splits)
qed

end
