(* ===== verification/Rbac.thy ===== *)
theory Rbac
  imports Manifests
begin

text \<open>
  \<open>internal/manifests/rbac.go\<close>: the rewrite of the provider RBAC bindings, from service
  accounts to the manager users and from the aggregation shell to the concrete role.
\<close>

definition subjectKindServiceAccount :: string where "subjectKindServiceAccount = ''ServiceAccount''"
definition subjectKindUser :: string where "subjectKindUser = ''User''"
definition fieldKind :: string where "fieldKind = ''kind''"
definition fieldName :: string where "fieldName = ''name''"
definition fieldNamespace :: string where "fieldNamespace = ''namespace''"
definition fieldSubjects :: string where "fieldSubjects = ''subjects''"
definition fieldRoleRef :: string where "fieldRoleRef = ''roleRef''"
definition aggregatedManagerRoleSuffix :: string where
  "aggregatedManagerRoleSuffix = ''-aggregated-manager-role''"
definition managerRoleSuffix :: string where "managerRoleSuffix = ''-manager-role''"

lemmas rbac_names [go_eval] =
  subjectKindServiceAccount_def subjectKindUser_def fieldKind_def fieldName_def fieldNamespace_def
  fieldSubjects_def fieldRoleRef_def aggregatedManagerRoleSuffix_def managerRoleSuffix_def

datatype subject_error = SubjectsNotAList json | SubjectWithoutNamespace | NoManagerCN string

datatype rbac_error = RewriteFailed string string subject_error | RoleBindingWithoutNamespace string

section \<open>Subjects\<close>

text \<open>One round of the loop over the subjects.\<close>

definition rewrite_subject :: "(string \<rightharpoonup> string) \<Rightarrow> json \<Rightarrow> subject_error + json" where
  "rewrite_subject cns v =
     (case as_map v of
        None \<Rightarrow> Inr v
      | Some subject \<Rightarrow>
          (case string_field subject fieldKind of
             None \<Rightarrow> Inr v
           | Some k \<Rightarrow>
               if k \<noteq> subjectKindServiceAccount then Inr v
               else (case string_field subject fieldNamespace of
                       None \<Rightarrow> Inl SubjectWithoutNamespace
                     | Some ns \<Rightarrow>
                         (case cns ns of
                            None \<Rightarrow> Inl (NoManagerCN ns)
                          | Some cn \<Rightarrow>
                              Inr (JObj [fieldKind \<mapsto> JStr subjectKindUser, fieldName \<mapsto> JStr cn])))))"

definition rewriteSubjects :: "(string \<rightharpoonup> string) \<Rightarrow> obj \<Rightarrow> subject_error option \<times> obj" where
  "rewriteSubjects cns binding =
     (case binding fieldSubjects of
        None \<Rightarrow> (None, binding)
      | Some raw \<Rightarrow>
          (case as_list raw of
             None \<Rightarrow> (Some (SubjectsNotAList raw), binding)
           | Some subjects \<Rightarrow>
               (case each_until (rewrite_subject cns) subjects of
                  (err, subjects') \<Rightarrow> (err, binding(fieldSubjects \<mapsto> JArr subjects')))))"

definition redirectAggregatedManagerRoleRef :: "obj \<Rightarrow> obj" where
  "redirectAggregatedManagerRoleRef binding =
     (case binding fieldRoleRef of
        None \<Rightarrow> binding
      | Some rawRef \<Rightarrow>
          (case as_map rawRef of
             None \<Rightarrow> binding
           | Some ref \<Rightarrow>
               (case string_field ref fieldName of
                  None \<Rightarrow> binding
                | Some name \<Rightarrow>
                    (case CutSuffix name aggregatedManagerRoleSuffix of
                       None \<Rightarrow> binding
                     | Some pre \<Rightarrow>
                         binding(fieldRoleRef \<mapsto> JObj (ref(fieldName \<mapsto> JStr (pre @ managerRoleSuffix))))))))"

text \<open>One round of the loop of \<open>RewriteRBACSubjects\<close>, on a deep copy of the object.\<close>

definition rewrite_object :: "k8s_lib \<Rightarrow> (string \<rightharpoonup> string) \<Rightarrow> obj \<Rightarrow> rbac_error + obj" where
  "rewrite_object L cns x =
     (if GetKind L x = kindClusterRoleBinding then
        (case rewriteSubjects cns x of
           (Some e, copied) \<Rightarrow> Inl (RewriteFailed (GetKind L copied) (GetName L copied) e)
         | (None, copied) \<Rightarrow> Inr (redirectAggregatedManagerRoleRef copied))
      else if GetKind L x = kindRoleBinding then
        (if GetNamespace L x = [] then Inl (RoleBindingWithoutNamespace (GetName L x))
         else (case rewriteSubjects cns x of
                 (Some e, copied) \<Rightarrow> Inl (RewriteFailed (GetKind L copied) (GetName L copied) e)
               | (None, copied) \<Rightarrow> Inr copied))
      else Inr x)"

definition RewriteRBACSubjects :: "k8s_lib \<Rightarrow> (string \<rightharpoonup> string) \<Rightarrow> obj list \<Rightarrow> rbac_error + obj list" where
  "RewriteRBACSubjects L cns objs = traverse (rewrite_object L cns) objs"

definition AdminClusterRoleBinding :: "string \<Rightarrow> obj" where
  "AdminClusterRoleBinding adminCN =
     [''apiVersion'' \<mapsto> JStr ''rbac.authorization.k8s.io/v1'',
      ''kind'' \<mapsto> JStr kindClusterRoleBinding,
      ''metadata'' \<mapsto> JObj [''name'' \<mapsto> JStr ''capishim-admin''],
      ''roleRef'' \<mapsto> JObj [''apiGroup'' \<mapsto> JStr ''rbac.authorization.k8s.io'',
                          ''kind'' \<mapsto> JStr kindClusterRole,
                          ''name'' \<mapsto> JStr ''cluster-admin''],
      ''subjects'' \<mapsto> JArr [JObj [fieldKind \<mapsto> JStr subjectKindUser, fieldName \<mapsto> JStr adminCN]]]"

section \<open>What a rewritten binding looks like\<close>

text \<open>The subjects of a binding, none when there is no such list.\<close>

definition subjects_of :: "obj \<Rightarrow> json list" where
  "subjects_of b = (case b fieldSubjects of None \<Rightarrow> [] | Some v \<Rightarrow> (case as_list v of None \<Rightarrow> [] | Some xs \<Rightarrow> xs))"

definition service_account :: "json \<Rightarrow> string option \<Rightarrow> bool" where
  "service_account v ns \<longleftrightarrow>
     (\<exists>m. v = JObj m \<and> m fieldKind = Some (JStr subjectKindServiceAccount) \<and> string_field m fieldNamespace = ns)"

definition is_service_account :: "json \<Rightarrow> bool" where
  "is_service_account v \<longleftrightarrow> (\<exists>ns. service_account v ns)"

definition user_subject :: "string \<Rightarrow> json" where
  "user_subject cn = JObj [fieldKind \<mapsto> JStr subjectKindUser, fieldName \<mapsto> JStr cn]"

text \<open>The subjects the bindings should have: service accounts become the user of their namespace.\<close>

definition granted_subject :: "(string \<rightharpoonup> string) \<Rightarrow> json \<Rightarrow> json \<Rightarrow> bool" where
  "granted_subject cns v u \<longleftrightarrow>
     (if is_service_account v then \<exists>ns cn. service_account v (Some ns) \<and> cns ns = Some cn \<and> u = user_subject cn
      else u = v)"

lemma rewrite_subject_granted: "rewrite_subject cns v = Inr u \<longleftrightarrow> granted_subject cns v u"
proof (cases "\<exists>m. v = JObj m \<and> m fieldKind = Some (JStr subjectKindServiceAccount)")
  case True
  then obtain m where m: "v = JObj m" "m fieldKind = Some (JStr subjectKindServiceAccount)" by blast
  then have "service_account v ns \<longleftrightarrow> ns = string_field m fieldNamespace" for ns
    by (auto simp: service_account_def)
  moreover have "string_field m fieldKind = Some subjectKindServiceAccount"
    using m(2) by (simp add: string_field_iff)
  ultimately show ?thesis
    using m(1) unfolding rewrite_subject_def granted_subject_def is_service_account_def user_subject_def
    by (cases "string_field m fieldNamespace") (auto split: option.splits)
next
  case False
  then have "\<not> is_service_account v" by (auto simp: is_service_account_def service_account_def)
  moreover have "rewrite_subject cns v = Inr v"
    using False by (cases v) (auto simp: rewrite_subject_def string_field_iff split: option.splits)
  ultimately show ?thesis by (auto simp: granted_subject_def)
qed

lemma user_not_service: "\<not> is_service_account (user_subject cn)"
  by (simp add: is_service_account_def service_account_def user_subject_def rbac_names)

lemma granted_not_service: "granted_subject cns v u \<Longrightarrow> \<not> is_service_account u"
  by (auto simp: granted_subject_def user_not_service split: if_splits)

lemma granted_self: "\<not> is_service_account u \<Longrightarrow> rewrite_subject cns u = Inr u"
  by (simp add: rewrite_subject_granted granted_subject_def)

section \<open>Whole objects\<close>

definition is_binding :: "k8s_lib \<Rightarrow> obj \<Rightarrow> bool" where
  "is_binding L x \<longleftrightarrow> GetKind L x = kindClusterRoleBinding \<or> GetKind L x = kindRoleBinding"

text \<open>The objects the rewrite accepts.\<close>

definition rewritable :: "k8s_lib \<Rightarrow> (string \<rightharpoonup> string) \<Rightarrow> obj \<Rightarrow> bool" where
  "rewritable L cns x \<longleftrightarrow>
     (is_binding L x \<longrightarrow>
        (x fieldSubjects \<noteq> None \<longrightarrow> (\<exists>vs. x fieldSubjects = Some (JArr vs))) \<and>
        (\<forall>v \<in> set (subjects_of x). is_service_account v \<longrightarrow>
           (\<exists>ns cn. service_account v (Some ns) \<and> cns ns = Some cn))) \<and>
     (GetKind L x = kindRoleBinding \<longrightarrow> GetNamespace L x \<noteq> [])"

text \<open>The name of the role a binding refers to.\<close>

definition role_name :: "obj \<Rightarrow> string option" where
  "role_name b = Option.bind (b fieldRoleRef) (\<lambda>r. Option.bind (as_map r) (\<lambda>m. string_field m fieldName))"

definition concrete_role :: "string \<Rightarrow> string" where
  "concrete_role n =
     (case CutSuffix n aggregatedManagerRoleSuffix of None \<Rightarrow> n | Some pre \<Rightarrow> pre @ managerRoleSuffix)"

lemma rewriteSubjects_keeps: "k \<noteq> fieldSubjects \<Longrightarrow> snd (rewriteSubjects cns b) k = b k"
  by (auto simp: rewriteSubjects_def split: option.splits prod.splits)

lemma redirect_keeps: "k \<noteq> fieldRoleRef \<Longrightarrow> redirectAggregatedManagerRoleRef b k = b k"
  by (auto simp: redirectAggregatedManagerRoleRef_def split: option.splits)

lemma role_name_redirect: "role_name (redirectAggregatedManagerRoleRef b) = map_option concrete_role (role_name b)"
proof (cases "role_name b")
  case None
  then have "redirectAggregatedManagerRoleRef b = b"
    by (auto simp: redirectAggregatedManagerRoleRef_def role_name_def split: option.splits)
  with None show ?thesis by simp
next
  case (Some n)
  then obtain r where "b fieldRoleRef = Some (JObj r)" "string_field r fieldName = Some n"
    by (auto simp: role_name_def bind_eq_Some_conv as_map_iff)
  then show ?thesis
    by (auto simp: redirectAggregatedManagerRoleRef_def role_name_def concrete_role_def string_field_def
        split: option.splits)
qed

lemma redirect_ref_other:
  "redirectAggregatedManagerRoleRef b fieldRoleRef = b fieldRoleRef \<or>
   (\<exists>r n. b fieldRoleRef = Some (JObj r) \<and>
      redirectAggregatedManagerRoleRef b fieldRoleRef = Some (JObj (r(fieldName \<mapsto> JStr (concrete_role n)))) \<and>
      r fieldName = Some (JStr n))"
  by (auto simp: redirectAggregatedManagerRoleRef_def concrete_role_def as_map_iff string_field_iff
      split: option.splits)

lemma rewriteSubjects_ok_iff:
  "rewriteSubjects cns b = (None, c) \<longleftrightarrow>
     (b fieldSubjects \<noteq> None \<longrightarrow> (\<exists>vs. b fieldSubjects = Some (JArr vs))) \<and>
     list_all2 (granted_subject cns) (subjects_of b) (subjects_of c) \<and>
     (\<forall>k. k \<noteq> fieldSubjects \<longrightarrow> c k = b k) \<and>
     (b fieldSubjects = None \<longrightarrow> c fieldSubjects = None) \<and>
     (b fieldSubjects \<noteq> None \<longrightarrow> (\<exists>vs. c fieldSubjects = Some (JArr vs)))"
proof (cases "b fieldSubjects")
  case None
  have "c = b \<longleftrightarrow> (\<forall>k. k \<noteq> fieldSubjects \<longrightarrow> c k = b k) \<and> c fieldSubjects = None"
    using None by (auto simp: fun_eq_iff) metis
  with None show ?thesis by (auto simp: rewriteSubjects_def subjects_of_def)
next
  case (Some v)
  show ?thesis
  proof (cases v)
    case (JArr vs)
    have "rewriteSubjects cns b = (None, c) \<longleftrightarrow>
        (\<exists>us. each_until (rewrite_subject cns) vs = (None, us) \<and> c = b(fieldSubjects \<mapsto> JArr us))"
      using Some JArr by (auto simp: rewriteSubjects_def split: prod.splits)
    also have "\<dots> \<longleftrightarrow> (\<exists>us. traverse (rewrite_subject cns) vs = Inr us \<and> c = b(fieldSubjects \<mapsto> JArr us))"
      by (simp add: each_until_ok_iff)
    also have "\<dots> \<longleftrightarrow> (\<exists>us. list_all2 (granted_subject cns) vs us \<and> c fieldSubjects = Some (JArr us) \<and>
        (\<forall>k. k \<noteq> fieldSubjects \<longrightarrow> c k = b k))"
      by (simp add: traverse_Inr_iff rewrite_subject_granted fun_eq_iff) (metis (mono_tags, lifting))
    also have "\<dots> \<longleftrightarrow> list_all2 (granted_subject cns) (subjects_of b) (subjects_of c) \<and>
        (\<exists>us. c fieldSubjects = Some (JArr us)) \<and> (\<forall>k. k \<noteq> fieldSubjects \<longrightarrow> c k = b k)"
      using Some JArr by (auto simp: subjects_of_def)
    finally show ?thesis using Some JArr by auto
  qed (use Some in \<open>auto simp: rewriteSubjects_def\<close>)
qed

text \<open>What the rewrite of one object promises.\<close>

definition rewritten :: "k8s_lib \<Rightarrow> (string \<rightharpoonup> string) \<Rightarrow> obj \<Rightarrow> obj \<Rightarrow> bool" where
  "rewritten L cns x y \<longleftrightarrow>
     (if is_binding L x then
        list_all2 (granted_subject cns) (subjects_of x) (subjects_of y) \<and>
        (\<forall>k. k \<noteq> fieldSubjects \<longrightarrow> k \<noteq> fieldRoleRef \<longrightarrow> y k = x k) \<and>
        (if GetKind L x = kindClusterRoleBinding then role_name y = map_option concrete_role (role_name x)
         else y fieldRoleRef = x fieldRoleRef)
      else y = x)"

lemma field_names_distinct [simp]:
  "fieldRoleRef \<noteq> fieldSubjects" "fieldSubjects \<noteq> fieldRoleRef"
  by (simp_all add: rbac_names)

lemma role_name_cong: "b fieldRoleRef = c fieldRoleRef \<Longrightarrow> role_name b = role_name c"
  by (simp add: role_name_def)

lemma subjects_of_redirect: "subjects_of (redirectAggregatedManagerRoleRef b) = subjects_of b"
  by (simp add: subjects_of_def redirect_keeps)

lemma rewriteSubjects_is_ok:
  "fst (rewriteSubjects cns b) = None \<longleftrightarrow>
     (b fieldSubjects \<noteq> None \<longrightarrow> (\<exists>vs. b fieldSubjects = Some (JArr vs))) \<and>
     (\<forall>v \<in> set (subjects_of b). is_ok (rewrite_subject cns v))"
proof (cases "b fieldSubjects")
  case None
  then show ?thesis by (simp add: rewriteSubjects_def subjects_of_def)
next
  case (Some v)
  show ?thesis
  proof (cases v)
    case (JArr vs)
    have "fst (each_until (rewrite_subject cns) vs) = None \<longleftrightarrow> is_ok (traverse (rewrite_subject cns) vs)"
      unfolding is_ok_iff each_until_ok_iff [symmetric] by (metis fst_conv prod.collapse)
    with Some JArr show ?thesis
      by (cases "each_until (rewrite_subject cns) vs")
        (simp add: rewriteSubjects_def subjects_of_def traverse_is_ok)
  qed (use Some in \<open>auto simp: rewriteSubjects_def\<close>)
qed

lemma granted_ok_iff:
  "is_ok (rewrite_subject cns v) \<longleftrightarrow>
     (is_service_account v \<longrightarrow> (\<exists>ns cn. service_account v (Some ns) \<and> cns ns = Some cn))"
  unfolding is_ok_iff rewrite_subject_granted by (auto simp: granted_subject_def)

lemma rewrite_object_ok_iff: "is_ok (rewrite_object L cns x) \<longleftrightarrow> rewritable L cns x"
proof -
  obtain e c where run: "rewriteSubjects cns x = (e, c)" by fastforce
  have "e = None \<longleftrightarrow> (x fieldSubjects \<noteq> None \<longrightarrow> (\<exists>vs. x fieldSubjects = Some (JArr vs))) \<and>
     (\<forall>v \<in> set (subjects_of x). is_service_account v \<longrightarrow>
        (\<exists>ns cn. service_account v (Some ns) \<and> cns ns = Some cn))"
    using rewriteSubjects_is_ok [of cns x] run by (simp add: granted_ok_iff)
  with run show ?thesis
    unfolding rewrite_object_def rewritable_def is_binding_def by (cases e) auto
qed

lemma rewrite_object_rewritten:
  assumes "rewrite_object L cns x = Inr y"
  shows "rewritten L cns x y"
proof (cases "is_binding L x")
  case False
  with assms show ?thesis by (simp add: rewrite_object_def rewritten_def is_binding_def)
next
  case True
  with assms obtain c where run: "rewriteSubjects cns x = (None, c)"
    and y: "y = (if GetKind L x = kindClusterRoleBinding then redirectAggregatedManagerRoleRef c else c)"
    by (auto simp: rewrite_object_def is_binding_def split: prod.splits option.splits if_splits)
  have c: "list_all2 (granted_subject cns) (subjects_of x) (subjects_of c)"
    "\<And>k. k \<noteq> fieldSubjects \<Longrightarrow> c k = x k"
    using run by (simp_all add: rewriteSubjects_ok_iff)
  then have "role_name c = role_name x" by (intro role_name_cong) simp
  with c y True show ?thesis
    by (simp add: rewritten_def subjects_of_redirect redirect_keeps role_name_redirect)
qed

text \<open>
  The RBAC rewrite succeeds exactly on the inputs its contract allows: every binding has a
  list of subjects or none, every service account subject names a namespace that has a
  manager, and every role binding has a namespace.
\<close>

theorem RewriteRBACSubjects_ok_iff:
  "is_ok (RewriteRBACSubjects L cns objs) \<longleftrightarrow> (\<forall>x \<in> set objs. rewritable L cns x)"
  by (auto simp: RewriteRBACSubjects_def traverse_is_ok rewrite_object_ok_iff)


section \<open>Running the rewrite again\<close>

text \<open>Two suffixes in a row: the rewrite strips one of them per run.\<close>

definition doubly_aggregated :: "string \<Rightarrow> bool" where
  "doubly_aggregated n \<longleftrightarrow> HasSuffix n (''-aggregated'' @ aggregatedManagerRoleSuffix)"

lemma suffix_cancel: "HasSuffix (a @ c) (b @ c) \<longleftrightarrow> HasSuffix a b"
  by (auto simp: HasSuffix_iff)

lemma aggregated_split: "aggregatedManagerRoleSuffix = ''-aggregated'' @ managerRoleSuffix"
  by (simp add: rbac_names)

lemma concrete_role_again:
  "concrete_role (concrete_role n) = concrete_role n \<longleftrightarrow> \<not> doubly_aggregated n"
proof (cases "CutSuffix n aggregatedManagerRoleSuffix")
  case None
  then have "\<not> HasSuffix n aggregatedManagerRoleSuffix" by (auto simp: CutSuffix_def split: if_splits)
  moreover have "doubly_aggregated n \<Longrightarrow> HasSuffix n aggregatedManagerRoleSuffix"
    by (auto simp: doubly_aggregated_def HasSuffix_iff)
  ultimately show ?thesis using None by (auto simp: concrete_role_def)
next
  case (Some pre)
  then have n: "n = pre @ aggregatedManagerRoleSuffix" by (simp add: CutSuffix_Some_iff)
  have doubly: "doubly_aggregated n \<longleftrightarrow> HasSuffix pre ''-aggregated''"
    by (simp only: doubly_aggregated_def n suffix_cancel)
  have c: "concrete_role n = pre @ managerRoleSuffix" using Some by (simp add: concrete_role_def)
  have "HasSuffix (pre @ managerRoleSuffix) aggregatedManagerRoleSuffix \<longleftrightarrow> HasSuffix pre ''-aggregated''"
    by (simp only: aggregated_split suffix_cancel)
  with doubly c show ?thesis
    by (auto simp: concrete_role_def CutSuffix_def)
      (auto simp: HasSuffix_iff aggregated_split managerRoleSuffix_def)
qed

lemma redirect_again:
  assumes "\<And>n. role_name b = Some n \<Longrightarrow> \<not> doubly_aggregated n"
  shows "redirectAggregatedManagerRoleRef (redirectAggregatedManagerRoleRef b) = redirectAggregatedManagerRoleRef b"
proof -
  let ?c = "redirectAggregatedManagerRoleRef b"
  have fixed: "redirectAggregatedManagerRoleRef d = d"
    if "\<And>n. role_name d = Some n \<Longrightarrow> CutSuffix n aggregatedManagerRoleSuffix = None" for d
    using that by (auto simp: redirectAggregatedManagerRoleRef_def role_name_def split: option.splits)
  show ?thesis
  proof (rule fixed)
    fix n assume n: "role_name ?c = Some n"
    then obtain m where m: "role_name b = Some m" "n = concrete_role m" by (auto simp: role_name_redirect)
    with assms have again: "concrete_role n = n" by (simp add: concrete_role_again)
    show "CutSuffix n aggregatedManagerRoleSuffix = None"
    proof (rule ccontr)
      assume "CutSuffix n aggregatedManagerRoleSuffix \<noteq> None"
      then obtain pre where "CutSuffix n aggregatedManagerRoleSuffix = Some pre" by auto
      with again show False
        by (auto simp: concrete_role_def CutSuffix_Some_iff aggregated_split)
    qed
  qed
qed

text \<open>
  A second run of the RBAC rewrite changes nothing, provided no cluster role binding refers
  to a role whose name carries the aggregation suffix twice.
\<close>

theorem RewriteRBACSubjects_idempotent:
  assumes lib: "k8s_lib_ok L" and run: "RewriteRBACSubjects L cns objs = Inr out"
    and once: "\<forall>x \<in> set objs. \<forall>n. role_name x = Some n \<longrightarrow> \<not> doubly_aggregated n"
  shows "RewriteRBACSubjects L cns out = Inr out"
  unfolding RewriteRBACSubjects_def
proof (rule traverse_idem [OF run [unfolded RewriteRBACSubjects_def]])
  fix x y assume x: "x \<in> set objs" and y: "rewrite_object L cns x = Inr y"
  show "rewrite_object L cns y = Inr y"
  proof (cases "is_binding L x")
    case False
    with y have "y = x" by (simp add: rewrite_object_def is_binding_def)
    with y show ?thesis by simp
  next
    case True
    with y obtain c where c: "rewriteSubjects cns x = (None, c)"
      and y_eq: "y = (if GetKind L x = kindClusterRoleBinding then redirectAggregatedManagerRoleRef c else c)"
      and ns: "GetKind L x = kindRoleBinding \<Longrightarrow> GetNamespace L x \<noteq> []"
      by (auto simp: rewrite_object_def is_binding_def split: prod.splits option.splits if_splits)
    have same: "same_identity L y x"
    proof (rule lib_same_identity [OF lib])
      fix k assume "k \<in> set identity_keys"
      then have "k \<noteq> fieldSubjects \<and> k \<noteq> fieldRoleRef" by (auto simp: identity_keys_def rbac_names)
      with rewriteSubjects_keeps [of k cns x] c y_eq show "y k = x k" by (simp add: redirect_keeps)
    qed
    have subj: "list_all2 (granted_subject cns) (subjects_of x) (subjects_of y)"
      using rewriteSubjects_ok_iff [of cns x c] c y_eq by (simp add: subjects_of_redirect)
    have stable: "list_all2 (granted_subject cns) (subjects_of y) (subjects_of y)"
    proof -
      have "granted_subject cns u u" if "granted_subject cns v u" for v u
        using granted_not_service [OF that] by (simp add: granted_subject_def)
      with subj show ?thesis unfolding list_all2_conv_all_nth by metis
    qed
    have "rewriteSubjects cns y = (None, y)"
      using stable c y_eq by (auto simp: rewriteSubjects_ok_iff redirect_keeps)
    moreover have "redirectAggregatedManagerRoleRef y = y" if "GetKind L x = kindClusterRoleBinding"
    proof -
      have "role_name c = role_name x"
        using rewriteSubjects_keeps [of fieldRoleRef cns x] c by (intro role_name_cong) simp
      with once x redirect_again [of c] that y_eq show ?thesis by simp
    qed
    ultimately show ?thesis
      using same True ns by (auto simp: rewrite_object_def is_binding_def same_identity_def)
  qed
qed

text \<open>Witnesses: a binding of a shell role with a service account subject.\<close>

definition sample_binding :: obj where
  "sample_binding =
     [''kind'' \<mapsto> JStr ''ClusterRoleBinding'',
      ''roleRef'' \<mapsto> JObj [''name'' \<mapsto> JStr ''x-aggregated-manager-role''],
      ''subjects'' \<mapsto> JArr [JObj [''kind'' \<mapsto> JStr ''ServiceAccount'', ''namespace'' \<mapsto> JStr ''n'']]]"

definition sample_rewritten :: obj where
  "sample_rewritten =
     [''kind'' \<mapsto> JStr ''ClusterRoleBinding'',
      ''roleRef'' \<mapsto> JObj [''name'' \<mapsto> JStr ''x-manager-role''],
      ''subjects'' \<mapsto> JArr [JObj [''kind'' \<mapsto> JStr ''User'', ''name'' \<mapsto> JStr ''u'']]]"

lemma sample_binding_kind: "GetKind path_lib sample_binding = kindClusterRoleBinding"
  by (simp add: sample_binding_def go_eval)

lemma sample_rewrite:
  "RewriteRBACSubjects path_lib [''n'' \<mapsto> ''u''] [sample_binding] = Inr [sample_rewritten]"
proof -
  have s: "rewriteSubjects [''n'' \<mapsto> ''u''] sample_binding =
      (None, sample_binding(''subjects'' \<mapsto> JArr [JObj [''kind'' \<mapsto> JStr ''User'', ''name'' \<mapsto> JStr ''u'']]))"
    by (simp add: rewriteSubjects_def sample_binding_def rewrite_subject_def rbac_names string_field_def)
  show ?thesis
    by (simp add: RewriteRBACSubjects_def rewrite_object_def sample_binding_kind s)
      (simp add: redirectAggregatedManagerRoleRef_def sample_binding_def sample_rewritten_def rbac_names
        string_field_def go_eval fun_upd_twist)
qed

theorem RewriteRBACSubjects_ok_iff_witness:
  "is_ok (RewriteRBACSubjects path_lib [''n'' \<mapsto> ''u''] [sample_binding]) \<and>
   rewritable path_lib [''n'' \<mapsto> ''u''] sample_binding"
  using RewriteRBACSubjects_ok_iff [of path_lib "[''n'' \<mapsto> ''u'']" "[sample_binding]"] sample_rewrite
  by (simp add: is_ok_iff)


theorem RewriteRBACSubjects_idempotent_witness:
  "RewriteRBACSubjects path_lib [''n'' \<mapsto> ''u''] [sample_rewritten] = Inr [sample_rewritten]"
proof (rule RewriteRBACSubjects_idempotent [OF path_lib_ok sample_rewrite])
  have "role_name sample_binding = Some ''x-aggregated-manager-role''"
    by (simp add: role_name_def sample_binding_def rbac_names string_field_def)
  moreover have "\<not> doubly_aggregated ''x-aggregated-manager-role''"
    by (simp add: doubly_aggregated_def HasSuffix_def rbac_names)
  ultimately show "\<forall>x \<in> set [sample_binding]. \<forall>n. role_name x = Some n \<longrightarrow> \<not> doubly_aggregated n"
    by simp
qed

text \<open>A name with the suffix twice loses one suffix per run, so a re-run changes the binding.\<close>

lemma double_suffix_not_stable:
  "concrete_role ''x-aggregated-aggregated-manager-role'' = ''x-aggregated-manager-role'' \<and>
   concrete_role ''x-aggregated-manager-role'' = ''x-manager-role''"
  by (simp add: concrete_role_def rbac_names go_eval)

section \<open>The admin binding\<close>

lemma AdminClusterRoleBinding_identity:
  assumes "k8s_lib_ok L"
  shows "GetKind L (AdminClusterRoleBinding cn) = kindClusterRoleBinding"
    "GetName L (AdminClusterRoleBinding cn) = ''capishim-admin''"
  using assms
  by (simp_all add: lib_kind lib_name [where m = "[''name'' \<mapsto> JStr ''capishim-admin'']"] AdminClusterRoleBinding_def)

lemma AdminClusterRoleBinding_subjects:
  "subjects_of (AdminClusterRoleBinding cn) = [user_subject cn]"
  "role_name (AdminClusterRoleBinding cn) = Some ''cluster-admin''"
  by (simp_all add: subjects_of_def role_name_def AdminClusterRoleBinding_def user_subject_def rbac_names
      string_field_def)

end
