(* ===== verification/GoUrl.thy ===== *)
theory GoUrl
  imports GoNet
begin

text \<open>
  Go's \<open>net/url\<close> as the webhook rewrite uses it (Go 1.26, the version of \<open>go.mod\<close>): \<open>Parse\<close>,
  \<open>Port\<close>, \<open>Hostname\<close> and \<open>String\<close>. A parse error is \<open>None\<close>; the program only asks whether
  there is one.
\<close>

section \<open>Escaping\<close>

datatype encoding = EncodePath | EncodeUserPassword | EncodeHost | EncodeZone | EncodeFragment

definition host_mode :: "encoding \<Rightarrow> bool" where
  "host_mode m \<longleftrightarrow> m = EncodeHost \<or> m = EncodeZone"

definition alnum :: "char \<Rightarrow> bool" where
  "alnum c \<longleftrightarrow>
     (let n = byte_val c in 48 \<le> n \<and> n \<le> 57 \<or> 65 \<le> n \<and> n \<le> 90 \<or> 97 \<le> n \<and> n \<le> 122)"

definition apostrophe :: char where "apostrophe = CHR 0x27"

definition sub_delims :: string where
  "sub_delims = ''!$&()*+,;='' @ [apostrophe]"

definition shouldEscape :: "encoding \<Rightarrow> char \<Rightarrow> bool" where
  "shouldEscape m c =
     (if alnum c then False
      else if host_mode m \<and> c \<in> set (sub_delims @ '':[]<>'' @ [CHR 0x22]) then False
      else if c \<in> set ''-_.~'' then False
      else if c \<in> set ''$&+,/:;=?@'' then
        (case m of
           EncodePath \<Rightarrow> c = CHR ''?''
         | EncodeUserPassword \<Rightarrow> c \<in> set ''@/?:''
         | EncodeHost \<Rightarrow> True
         | EncodeZone \<Rightarrow> True
         | EncodeFragment \<Rightarrow> False)
      else if m = EncodeFragment \<and> c \<in> set ''!()*'' then False
      else True)"

definition upper_hex :: "nat \<Rightarrow> char" where
  "upper_hex n = ''0123456789ABCDEF'' ! n"

definition escape_char :: "encoding \<Rightarrow> char \<Rightarrow> string" where
  "escape_char m c =
     (if shouldEscape m c then [CHR ''%'', upper_hex (byte_val c div 16), upper_hex (byte_val c mod 16)]
      else [c])"

definition escape :: "encoding \<Rightarrow> string \<Rightarrow> string" where
  "escape m s = concat (map (escape_char m) s)"

definition hex_byte :: "char \<Rightarrow> char \<Rightarrow> char" where
  "hex_byte h l = char_of (16 * hex_val h + hex_val l)"

fun unescape :: "encoding \<Rightarrow> string \<Rightarrow> string option" where
  "unescape m [] = Some []"
| "unescape m (c # s) =
     (if c = CHR ''%'' then
        (case s of
           h # l # rest \<Rightarrow>
             if \<not> is_hex h \<or> \<not> is_hex l then None
             else if m = EncodeHost \<and> hex_val h < 8 \<and> [h, l] \<noteq> ''25'' then None
             else if m = EncodeZone \<and> [h, l] \<noteq> ''25'' \<and> hex_byte h l \<noteq> CHR '' '' \<and>
               shouldEscape EncodeHost (hex_byte h l) then None
             else map_option ((#) (hex_byte h l)) (unescape m rest)
         | _ \<Rightarrow> None)
      else if host_mode m \<and> byte_val c < 128 \<and> shouldEscape m c then None
      else map_option ((#) c) (unescape m s))"

definition validEncoded :: "encoding \<Rightarrow> string \<Rightarrow> bool" where
  "validEncoded m s \<longleftrightarrow>
     list_all (\<lambda>c. c \<in> set (sub_delims @ '':@[]%'') \<or> \<not> shouldEscape m c) s"

section \<open>Parse\<close>

record userinfo =
  ui_username :: string
  ui_password :: "string option"

record url =
  url_Scheme :: string
  url_Opaque :: string
  url_User :: "userinfo option"
  url_Host :: string
  url_Path :: string
  url_RawPath :: string
  url_ForceQuery :: bool
  url_RawQuery :: string
  url_Fragment :: string
  url_RawFragment :: string
  url_OmitHost :: bool

definition empty_url :: url where
  "empty_url =
     \<lparr>url_Scheme = [], url_Opaque = [], url_User = None, url_Host = [], url_Path = [], url_RawPath = [],
      url_ForceQuery = False, url_RawQuery = [], url_Fragment = [], url_RawFragment = [],
      url_OmitHost = False\<rparr>"

definition letter :: "char \<Rightarrow> bool" where
  "letter c \<longleftrightarrow> (let n = byte_val c in 65 \<le> n \<and> n \<le> 90 \<or> 97 \<le> n \<and> n \<le> 122)"

text \<open>\<open>getScheme\<close>: the scheme and the rest, or \<open>None\<close> for a URL that starts with a colon.\<close>

definition getScheme :: "string \<Rightarrow> (string \<times> string) option" where
  "getScheme s =
     (let pre = takeWhile (\<lambda>c. letter c \<or> is_digit c \<or> c \<in> set ''+-.'') s;
          rest = drop (length pre) s
      in if s \<noteq> [] \<and> hd s = colon then None
         else if pre \<noteq> [] \<and> letter (hd pre) \<and> rest \<noteq> [] \<and> hd rest = colon then Some (pre, tl rest)
         else Some ([], s))"

definition to_lower :: "string \<Rightarrow> string" where
  "to_lower s = map (\<lambda>c. if 65 \<le> byte_val c \<and> byte_val c \<le> 90 then char_of (byte_val c + 32) else c) s"

definition validOptionalPort :: "string \<Rightarrow> bool" where
  "validOptionalPort p = (case p of [] \<Rightarrow> True | c # ds \<Rightarrow> c = colon \<and> list_all is_digit ds)"

text \<open>
  \<open>parseHost\<close>. In brackets there must be an IPv6 address, with its zone percent-encoded;
  outside of them there is at most one colon.
\<close>

definition cut_zone :: "string \<Rightarrow> (string \<times> string) option" where
  "cut_zone s =
     (case find (\<lambda>i. prefix ''%25'' (drop i s)) [0..<length s] of
        None \<Rightarrow> None | Some i \<Rightarrow> Some (take i s, drop i s))"

definition bracket_content :: "string \<Rightarrow> string option" where
  "bracket_content hostname =
     (case cut_zone hostname of
        None \<Rightarrow> unescape EncodeHost hostname
      | Some (addr, zone) \<Rightarrow>
          Option.bind (unescape EncodeHost addr) (\<lambda>a. map_option ((@) a) (unescape EncodeZone zone)))"

definition parseHost :: "string \<Rightarrow> string option" where
  "parseHost host =
     (case cut_last host (CHR ''['') of
        Some (before, inside) \<Rightarrow>
          if before \<noteq> [] then None
          else (case cut_last inside (CHR '']'') of
                  None \<Rightarrow> None
                | Some (hostname, colonPort) \<Rightarrow>
                    if \<not> validOptionalPort colonPort then None
                    else (case bracket_content hostname of
                            None \<Rightarrow> None
                          | Some h \<Rightarrow>
                              (case ParseAddr h of
                                 Some (False, _, _) \<Rightarrow> Some (CHR ''['' # h @ CHR '']'' # colonPort)
                               | _ \<Rightarrow> None)))
      | None \<Rightarrow>
          if colon \<in> set host \<and> \<not> validOptionalPort (dropWhile (\<lambda>c. c \<noteq> colon) host) then None
          else unescape EncodeHost host)"

definition validUserinfo :: "string \<Rightarrow> bool" where
  "validUserinfo s \<longleftrightarrow> list_all (\<lambda>c. alnum c \<or> c \<in> set (sub_delims @ ''-._:~%@'')) s"

definition parseUser :: "string \<Rightarrow> userinfo option" where
  "parseUser info =
     (if \<not> validUserinfo info then None
      else (case Cut info colon of
              (u, p, found) \<Rightarrow>
                if \<not> found then
                  map_option (\<lambda>n. \<lparr>ui_username = n, ui_password = None\<rparr>) (unescape EncodeUserPassword info)
                else Option.bind (unescape EncodeUserPassword u) (\<lambda>n.
                  map_option (\<lambda>w. \<lparr>ui_username = n, ui_password = Some w\<rparr>) (unescape EncodeUserPassword p))))"

definition parseAuthority :: "string \<Rightarrow> (userinfo option \<times> string) option" where
  "parseAuthority authority =
     (case cut_last authority (CHR ''@'') of
        None \<Rightarrow> map_option (Pair None) (parseHost authority)
      | Some (info, host) \<Rightarrow>
          Option.bind (parseHost host) (\<lambda>h. map_option (\<lambda>u. (Some u, h)) (parseUser info)))"

definition setPath :: "string \<Rightarrow> url \<Rightarrow> url option" where
  "setPath p u =
     map_option (\<lambda>path. u\<lparr>url_Path := path, url_RawPath := (if p = escape EncodePath path then [] else p)\<rparr>)
       (unescape EncodePath p)"

definition setFragment :: "string \<Rightarrow> url \<Rightarrow> url option" where
  "setFragment f u =
     map_option (\<lambda>frag. u\<lparr>url_Fragment := frag,
         url_RawFragment := (if f = escape EncodeFragment frag then [] else f)\<rparr>)
       (unescape EncodeFragment f)"

definition question_mark :: char where "question_mark = CHR ''?''"

definition cut_query :: "string \<Rightarrow> bool \<times> string \<times> string" where
  "cut_query rest =
     (if HasSuffix rest [question_mark] \<and> count_list rest question_mark = 1 then (True, butlast rest, [])
      else (case Cut rest question_mark of (r, q, _) \<Rightarrow> (False, r, q)))"

text \<open>The part after the scheme, the query gone: opaque, authority and path, or path.\<close>

definition parse_rest :: "string \<Rightarrow> url \<Rightarrow> url option" where
  "parse_rest rest u =
     (if \<not> HasPrefix rest ''/'' \<and> url_Scheme u \<noteq> [] then Some (u\<lparr>url_Opaque := rest\<rparr>)
      else if \<not> HasPrefix rest ''/'' \<and> colon \<in> set (takeWhile (\<lambda>c. c \<noteq> CHR ''/'') rest) then None
      else if (url_Scheme u \<noteq> [] \<or> \<not> HasPrefix rest ''///'') \<and> HasPrefix rest ''//'' then
        (let authority = takeWhile (\<lambda>c. c \<noteq> CHR ''/'') (drop 2 rest);
             path = dropWhile (\<lambda>c. c \<noteq> CHR ''/'') (drop 2 rest)
         in case parseAuthority authority of
              None \<Rightarrow> None
            | Some (user, host) \<Rightarrow> setPath path (u\<lparr>url_User := user, url_Host := host\<rparr>))
      else setPath rest (u\<lparr>url_OmitHost := (url_Scheme u \<noteq> [] \<and> HasPrefix rest ''/'')\<rparr>))"

definition control :: "char \<Rightarrow> bool" where
  "control c \<longleftrightarrow> byte_val c < 32 \<or> byte_val c = 127"

definition parse_no_fragment :: "string \<Rightarrow> url option" where
  "parse_no_fragment raw =
     (if list_ex control raw then None
      else if raw = ''*'' then Some (empty_url\<lparr>url_Path := ''*''\<rparr>)
      else (case getScheme raw of
              None \<Rightarrow> None
            | Some (scheme, rest) \<Rightarrow>
                (case cut_query rest of
                   (force, rest', query) \<Rightarrow>
                     parse_rest rest' (empty_url\<lparr>url_Scheme := to_lower scheme, url_ForceQuery := force,
                       url_RawQuery := query\<rparr>))))"

definition url_Parse :: "string \<Rightarrow> url option" where
  "url_Parse raw =
     (case Cut raw (CHR ''#'') of
        (s, frag, _) \<Rightarrow>
          Option.bind (parse_no_fragment s) (\<lambda>u. if frag = [] then Some u else setFragment frag u))"

section \<open>Reading and printing\<close>

definition split_port :: "string \<Rightarrow> string \<times> string" where
  "split_port hp =
     (let (h, p) = (case cut_last hp colon of
                      Some (a, b) \<Rightarrow> if validOptionalPort (colon # b) then (a, b) else (hp, [])
                    | None \<Rightarrow> (hp, []))
      in (if HasPrefix h ''['' \<and> HasSuffix h '']'' then butlast (tl h) else h, p))"

definition url_Port :: "url \<Rightarrow> string" where
  "url_Port u = snd (split_port (url_Host u))"

definition url_Hostname :: "url \<Rightarrow> string" where
  "url_Hostname u = fst (split_port (url_Host u))"

definition EscapedPath :: "url \<Rightarrow> string" where
  "EscapedPath u =
     (if url_RawPath u \<noteq> [] \<and> validEncoded EncodePath (url_RawPath u) \<and>
         unescape EncodePath (url_RawPath u) = Some (url_Path u) then url_RawPath u
      else if url_Path u = ''*'' then ''*''
      else escape EncodePath (url_Path u))"

definition EscapedFragment :: "url \<Rightarrow> string" where
  "EscapedFragment u =
     (if url_RawFragment u \<noteq> [] \<and> validEncoded EncodeFragment (url_RawFragment u) \<and>
         unescape EncodeFragment (url_RawFragment u) = Some (url_Fragment u) then url_RawFragment u
      else escape EncodeFragment (url_Fragment u))"

definition user_string :: "userinfo \<Rightarrow> string" where
  "user_string ui =
     (case ui_password ui of
        Some p \<Rightarrow> escape EncodeUserPassword (ui_username ui) @ colon # escape EncodeUserPassword p
      | None \<Rightarrow> escape EncodeUserPassword (ui_username ui))"

definition url_String :: "url \<Rightarrow> string" where
  "url_String u =
     (let scheme = (if url_Scheme u \<noteq> [] then url_Scheme u @ '':'' else []);
          authority =
            (if url_Scheme u \<noteq> [] \<or> url_Host u \<noteq> [] \<or> url_User u \<noteq> None then
               (if url_OmitHost u \<and> url_Host u = [] \<and> url_User u = None then []
                else (if url_Host u \<noteq> [] \<or> url_Path u \<noteq> [] \<or> url_User u \<noteq> None then ''//'' else []) @
                     (case url_User u of None \<Rightarrow> [] | Some ui \<Rightarrow> user_string ui @ ''@'') @
                     escape EncodeHost (url_Host u))
             else []);
          path = EscapedPath u;
          slash_path = (if path \<noteq> [] \<and> hd path \<noteq> CHR ''/'' \<and> url_Host u \<noteq> [] then ''/'' else []);
          dot = (if scheme @ authority @ slash_path = [] \<and> colon \<in> set (takeWhile (\<lambda>c. c \<noteq> CHR ''/'') path)
                 then ''./'' else [])
      in (if url_Opaque u \<noteq> [] then scheme @ url_Opaque u
          else scheme @ authority @ slash_path @ dot @ path) @
         (if url_ForceQuery u \<or> url_RawQuery u \<noteq> [] then ''?'' @ url_RawQuery u else []) @
         (if url_Fragment u \<noteq> [] then ''#'' @ EscapedFragment u else []))"

lemmas go_url_defs [go_eval] =
  host_mode_def hex_byte_def alnum_def apostrophe_def sub_delims_def shouldEscape_def upper_hex_def escape_char_def escape_def
  validEncoded_def letter_def getScheme_def to_lower_def validOptionalPort_def parseHost_def
  parseAuthority_def setPath_def setFragment_def question_mark_def cut_query_def parse_rest_def
  control_def parse_no_fragment_def url_Parse_def split_port_def url_Port_def url_Hostname_def
  EscapedPath_def EscapedFragment_def user_string_def url_String_def empty_url_def

section \<open>Characters that stay as they are\<close>

definition host_char :: "char \<Rightarrow> bool" where
  "host_char c \<longleftrightarrow> alnum c \<or> c = CHR ''-'' \<or> c = CHR ''.''"

definition plain_host :: "string \<Rightarrow> bool" where
  "plain_host h \<longleftrightarrow> h \<noteq> [] \<and> list_all host_char h"

lemma alnum_neq:
  "alnum c \<Longrightarrow> c \<noteq> colon \<and> c \<noteq> CHR ''%'' \<and> c \<noteq> CHR ''@'' \<and> c \<noteq> CHR ''['' \<and> c \<noteq> CHR '']'' \<and>
     c \<noteq> CHR ''/'' \<and> c \<noteq> CHR ''?'' \<and> c \<noteq> CHR ''#'' \<and> \<not> control c"
  by (auto simp: alnum_def Let_def byte_val_def control_def)

lemma host_char_neq:
  "host_char c \<Longrightarrow> c \<noteq> colon \<and> c \<noteq> CHR ''%'' \<and> c \<noteq> CHR ''@'' \<and> c \<noteq> CHR ''['' \<and> c \<noteq> CHR '']'' \<and>
     c \<noteq> CHR ''/'' \<and> c \<noteq> CHR ''?'' \<and> c \<noteq> CHR ''#''"
  by (auto simp: host_char_def dest: alnum_neq)

lemma host_char_plain: "host_char c \<Longrightarrow> \<not> shouldEscape m c"
  by (auto simp: host_char_def shouldEscape_def)

lemma digit_alnum: "is_digit c \<Longrightarrow> alnum c"
  by (simp add: is_digit_def alnum_def Let_def)

lemma digit_host_char: "is_digit c \<Longrightarrow> host_char c"
  by (simp add: host_char_def digit_alnum)

lemma colon_plain: "\<not> shouldEscape EncodeHost colon"
  by (simp add: shouldEscape_def host_mode_def)

lemma unescape_id:
  "(\<And>c. c \<in> set s \<Longrightarrow> c \<noteq> CHR ''%'' \<and> \<not> shouldEscape m c) \<Longrightarrow> unescape m s = Some s"
  by (induction s) auto

lemma escape_id: "(\<And>c. c \<in> set s \<Longrightarrow> \<not> shouldEscape m c) \<Longrightarrow> escape m s = s"
  by (induction s) (auto simp: escape_def escape_char_def)

lemma upper_hex_digit: "n < 16 \<Longrightarrow> alnum (upper_hex n)"
proof -
  assume "n < 16"
  then have "n \<in> set [0, 1, 2, 3, 4, 5, 6, 7, 8, 9, 10, 11, 12, 13, 14, 15]" by (simp, presburger)
  then show ?thesis by (auto simp: upper_hex_def alnum_def byte_val_def)
qed

lemma byte_val_less: "byte_val c < 256"
  by (simp add: byte_val_def)

lemma escape_chars:
  "c \<in> set (escape m s) \<Longrightarrow> c = CHR ''%'' \<or> alnum c \<or> \<not> shouldEscape m c"
proof -
  assume "c \<in> set (escape m s)"
  then obtain d where "d \<in> set s" "c \<in> set (escape_char m d)" by (auto simp: escape_def)
  moreover have "byte_val d div 16 < 16" using byte_val_less [of d] by (simp add: less_mult_imp_div_less)
  ultimately show ?thesis
    using upper_hex_digit [of "byte_val d div 16"] upper_hex_digit [of "byte_val d mod 16"]
    by (auto simp: escape_char_def split: if_splits)
qed

lemma not_alnum_specials:
  "\<not> alnum CHR ''/''" "\<not> alnum CHR ''?''" "\<not> alnum CHR ''#''" "\<not> alnum CHR ''@''" "\<not> alnum colon"
  by (simp_all add: alnum_def byte_val_def)

lemma escaped_specials:
  "c \<in> set ''/?#@:'' \<Longrightarrow> shouldEscape EncodeUserPassword c \<and> \<not> alnum c \<and> c \<noteq> CHR ''%''"
  "c \<in> set ''?#'' \<Longrightarrow> shouldEscape EncodePath c \<and> \<not> alnum c \<and> c \<noteq> CHR ''%''"
  by (simp, elim disjE; simp add: shouldEscape_def host_mode_def not_alnum_specials)+

lemma escape_user_chars: "c \<in> set (escape EncodeUserPassword s) \<Longrightarrow> c \<notin> set ''/?#@:''"
  using escape_chars [of c EncodeUserPassword s] escaped_specials(1) [of c] by blast

lemma user_string_chars: "c \<in> set (user_string ui) \<Longrightarrow> c \<notin> set ''/?#@''"
  using escape_user_chars by (auto simp: user_string_def split: option.splits)

lemma validEncoded_chars:
  "validEncoded EncodePath s \<Longrightarrow> c \<in> set s \<Longrightarrow> c \<notin> set ''?#'' \<and> \<not> control c"
proof -
  assume "validEncoded EncodePath s" "c \<in> set s"
  then have c: "c \<in> set (sub_delims @ '':@[]%'') \<or> \<not> shouldEscape EncodePath c"
    by (simp add: validEncoded_def list_all_iff)
  moreover have "d \<notin> set (sub_delims @ '':@[]%'')" if "d \<in> set ''?#''" for d
    using that by (auto simp: sub_delims_def apostrophe_def)
  ultimately have "c \<notin> set ''?#''" using escaped_specials(2) [of c] by blast
  moreover have "\<not> control c"
  proof
    assume "control c"
    moreover from this have "\<not> alnum c" using alnum_neq by blast
    moreover have "\<not> control d" if "d \<in> set (sub_delims @ '':@[]%-_.~$&+,/:;=?@'')" for d
      using that by (auto simp: sub_delims_def apostrophe_def control_def byte_val_def)
    ultimately have special: "c \<notin> set (sub_delims @ '':@[]%-_.~$&+,/:;=?@'')" "\<not> alnum c" by blast+
    then have "shouldEscape EncodePath c" by (simp add: shouldEscape_def host_mode_def)
    with c special show False by simp
  qed
  ultimately show ?thesis by simp
qed

lemma EscapedPath_chars: "c \<in> set (EscapedPath u) \<Longrightarrow> c \<notin> set ''?#''"
proof -
  assume "c \<in> set (EscapedPath u)"
  then consider "validEncoded EncodePath (url_RawPath u)" "c \<in> set (url_RawPath u)"
    | "c = CHR ''*''" | "c \<in> set (escape EncodePath (url_Path u))"
    by (auto simp: EscapedPath_def split: if_splits)
  then show ?thesis
  proof cases
    case 3
    then show ?thesis using escape_chars [of c EncodePath] escaped_specials(2) [of c] by blast
  qed (use validEncoded_chars in auto)
qed

section \<open>Parsing an authority\<close>

lemma validOptionalPort_digits: "list_all is_digit p \<Longrightarrow> validOptionalPort (colon # p)"
  by (simp add: validOptionalPort_def)

lemma parseHost_plain:
  assumes "plain_host h" and "list_all is_digit p"
  shows "parseHost (h @ colon # p) = Some (h @ colon # p)"
proof -
  have chars: "host_char c" if "c \<in> set h" for c
    using assms(1) that by (simp add: plain_host_def list_all_iff)
  have digits: "host_char c" if "c \<in> set p" for c
    using assms(2) that digit_alnum by (auto simp: list_all_iff host_char_def)
  have "CHR ''['' \<notin> set (h @ colon # p)"
    using chars digits by (auto dest: host_char_neq)
  then have "cut_last (h @ colon # p) (CHR ''['') = None" by (simp add: cut_last_None_iff)
  moreover have "dropWhile (\<lambda>c. c \<noteq> colon) (h @ colon # p) = colon # p"
    using chars by (intro dropWhile_neq_append) (auto dest: host_char_neq)
  moreover have "unescape EncodeHost (h @ colon # p) = Some (h @ colon # p)"
    using chars digits by (intro unescape_id) (auto dest: host_char_neq host_char_plain simp: colon_plain)
  ultimately show ?thesis
    using assms(2) by (simp add: parseHost_def validOptionalPort_digits)
qed

lemma escape_host_plain:
  "plain_host h \<Longrightarrow> list_all is_digit p \<Longrightarrow> escape EncodeHost (h @ colon # p) = h @ colon # p"
  by (rule escape_id)
    (auto simp: plain_host_def list_all_iff colon_plain dest: digit_host_char dest: host_char_plain)

lemma split_port_plain:
  assumes "plain_host h" and "list_all is_digit p"
  shows "split_port (h @ colon # p) = (h, p)"
proof -
  have "colon \<notin> set p" using assms(2) by (auto simp: list_all_iff dest!: digit_alnum alnum_neq)
  then have "cut_last (h @ colon # p) colon = Some (h, p)" by (rule cut_last_append)
  moreover have "\<not> HasPrefix h ''[''"
    using assms(1) by (cases h) (auto simp: plain_host_def HasPrefix_def dest: host_char_neq)
  ultimately show ?thesis using assms(2) by (simp add: split_port_def validOptionalPort_digits)
qed

lemma takeWhile_eq_all: "(\<And>c. c \<in> set xs \<Longrightarrow> P c) \<Longrightarrow> takeWhile P (xs @ ys) = xs @ takeWhile P ys"
  by (induction xs) auto

lemma getScheme_letters:
  assumes "sc \<noteq> []" and "list_all letter sc"
  shows "getScheme (sc @ colon # rest) = Some (sc, rest)"
proof -
  have colon: "\<not> letter colon" "\<not> is_digit colon" by (simp_all add: letter_def is_digit_def byte_val_def)
  have "takeWhile (\<lambda>c. letter c \<or> is_digit c \<or> c \<in> set ''+-.'') (sc @ colon # rest) = sc"
    using assms(2) colon by (subst takeWhile_eq_all) (auto simp: list_all_iff)
  moreover have "hd sc \<noteq> colon" "letter (hd sc)"
    using assms colon by (cases sc; auto)+
  ultimately show ?thesis using assms by (auto simp: getScheme_def Let_def)
qed

lemma cut_query_path: "fst (snd (cut_query r)) = takeWhile (\<lambda>c. c \<noteq> question_mark) r"
proof (cases "HasSuffix r [question_mark] \<and> count_list r question_mark = 1")
  case True
  then obtain q where q: "r = q @ [question_mark]" by (auto simp: HasSuffix_iff)
  with True have "question_mark \<notin> set q" by (auto simp: count_list_0_iff)
  with q True show ?thesis by (simp add: cut_query_def takeWhile_neq_append)
next
  case False
  then show ?thesis by (auto simp: cut_query_def Cut_def takeWhile_neq_id)
qed

lemma setPath_Some:
  "setPath p u = Some v \<Longrightarrow> \<exists>q. unescape EncodePath p = Some q \<and>
     v = u\<lparr>url_Path := q, url_RawPath := (if p = escape EncodePath q then [] else p)\<rparr>"
  by (auto simp: setPath_def)

lemma url_Parse_no_fragment:
  assumes "url_Parse raw = Some u"
  obtains v where "parse_no_fragment (fst (Cut raw (CHR ''#''))) = Some v"
    and "url_Host u = url_Host v" "url_Opaque u = url_Opaque v" "url_Path u = url_Path v"
      "url_RawPath u = url_RawPath v" "url_RawQuery u = url_RawQuery v"
  using assms by (auto simp: url_Parse_def setFragment_def bind_eq_Some_conv split: prod.splits if_splits)

lemma url_Parse_host:
  assumes parse: "url_Parse (sc @ ''://'' @ ui @ a @ t) = Some u"
    and sc: "sc \<noteq> []" "list_all letter sc"
    and ui: "ui = [] \<or> (\<exists>x. ui = x @ ''@'')" "\<And>c. c \<in> set ui \<Longrightarrow> c \<notin> set ''/?#''"
    and a: "\<And>c. c \<in> set a \<Longrightarrow> c \<notin> set ''/?#@''"
    and t: "t = [] \<or> hd t \<in> set ''/?#''"
  shows "parseHost a = Some (url_Host u)"
proof -
  let ?q = "\<lambda>c. c \<noteq> question_mark"
  have fst_cut: "fst (Cut s c) = takeWhile (\<lambda>x. x \<noteq> c) s" for s c
    by (simp add: Cut_def takeWhile_neq_id)
  define t' where "t' = takeWhile (\<lambda>x. x \<noteq> CHR ''#'') t"
  have sc_hash: "c \<noteq> CHR ''#''" if "c \<in> set sc" for c
    using sc(2) that by (auto simp: list_all_iff letter_def byte_val_def Let_def)
  have s: "fst (Cut (sc @ ''://'' @ ui @ a @ t) (CHR ''#'')) = sc @ colon # (''//'' @ ui @ a @ t')"
    unfolding fst_cut t'_def
    by (subst takeWhile_eq_all, simp add: sc_hash)
      (simp, subst takeWhile_eq_all, use ui(2) in force, subst takeWhile_eq_all, use a in force, simp)
  have t': "t' = [] \<or> hd t' \<in> set ''/?''"
    using t by (cases t) (auto simp: t'_def)
  obtain v where v: "parse_no_fragment (sc @ colon # (''//'' @ ui @ a @ t')) = Some v"
    and host: "url_Host u = url_Host v"
    by (rule url_Parse_no_fragment [OF parse, unfolded s])
  define t'' where "t'' = takeWhile ?q t'"
  have t'': "t'' = [] \<or> hd t'' = CHR ''/''"
    using t' by (cases t') (auto simp: t''_def question_mark_def)
  have rest: "takeWhile ?q (''//'' @ ui @ a @ t') = ''//'' @ ui @ a @ t''"
    unfolding t''_def question_mark_def
    by (simp, subst takeWhile_eq_all, use ui(2) in force, subst takeWhile_eq_all, use a in force, simp)
  obtain f q where cut: "cut_query (''//'' @ ui @ a @ t') = (f, ''//'' @ ui @ a @ t'', q)"
    using cut_query_path [of "''//'' @ ui @ a @ t'"] rest by (metis prod.collapse)
  have "sc @ colon # (''//'' @ ui @ a @ t') \<noteq> ''*''" using sc(1) by (cases sc) auto
  with v cut getScheme_letters [OF sc] obtain w
    where w: "parse_rest (''//'' @ ui @ a @ t'') w = Some v" "url_Scheme w \<noteq> []"
    using sc(1) by (auto simp: parse_no_fragment_def to_lower_def split: if_splits)
  have auth: "takeWhile (\<lambda>c. c \<noteq> CHR ''/'') (ui @ a @ t'') = ui @ a"
    using t'' by (subst takeWhile_eq_all, use ui(2) in force, subst takeWhile_eq_all, use a in force)
      (cases t''; simp)
  have "HasPrefix (''//'' @ x) ''/''" "HasPrefix (''//'' @ x) ''//''" for x
    by (simp_all add: HasPrefix_def)
  with w auth obtain user h where h: "parseAuthority (ui @ a) = Some (user, h)" "url_Host v = h"
    by (auto simp: parse_rest_def Let_def split: option.splits prod.splits if_splits dest!: setPath_Some)
  have at: "CHR ''@'' \<notin> set a" using a by force
  from ui(1) show ?thesis
  proof
    assume "ui = []"
    with h host at show ?thesis by (auto simp: parseAuthority_def cut_last_def)
  next
    assume "\<exists>x. ui = x @ ''@''"
    then obtain x where "ui @ a = x @ CHR ''@'' # a" by auto
    with h host at show ?thesis by (auto simp: parseAuthority_def bind_eq_Some_conv)
  qed
qed

section \<open>Printing what was parsed\<close>

lemma unescape_hd:
  "unescape EncodePath p = Some q \<Longrightarrow> p = [] \<or> hd p = CHR ''/'' \<Longrightarrow> q = [] \<or> hd q = CHR ''/''"
  by (cases p) (auto simp: host_mode_def)

lemma slash_path_char: "\<not> shouldEscape EncodePath CHR ''/''"
  by (simp add: shouldEscape_def host_mode_def not_alnum_specials)

lemma escape_hd: "q = [] \<or> hd q = CHR ''/'' \<Longrightarrow> escape EncodePath q = [] \<or> hd (escape EncodePath q) = CHR ''/''"
  by (cases q) (auto simp: escape_def escape_char_def slash_path_char)

lemma EscapedPath_hd:
  assumes "url_RawPath u = [] \<or> hd (url_RawPath u) = CHR ''/''" and "url_Path u = [] \<or> hd (url_Path u) = CHR ''/''"
  shows "EscapedPath u = [] \<or> hd (EscapedPath u) = CHR ''/''"
  using assms escape_hd [OF assms(2)] by (auto simp: EscapedPath_def)

lemma dropWhile_shape: "dropWhile (\<lambda>c. c \<noteq> x) s = [] \<or> hd (dropWhile (\<lambda>c. c \<noteq> x) s) = x"
  using hd_dropWhile [of "\<lambda>c. c \<noteq> x" s] by auto

lemma parse_rest_host:
  assumes "parse_rest rest w = Some v" and "url_Host w = []" "url_Opaque w = []" and "url_Host v \<noteq> []"
  shows "url_Opaque v = [] \<and> (EscapedPath v = [] \<or> hd (EscapedPath v) = CHR ''/'') \<and>
    url_RawQuery v = url_RawQuery w"
proof -
  define path where "path = dropWhile (\<lambda>c. c \<noteq> CHR ''/'') (drop 2 rest)"
  have path: "path = [] \<or> hd path = CHR ''/''" unfolding path_def by (rule dropWhile_shape)
  from assms obtain user host where
    set: "setPath path (w\<lparr>url_User := user, url_Host := host\<rparr>) = Some v"
    by (auto simp: parse_rest_def Let_def path_def split: if_splits option.splits prod.splits dest: setPath_Some)
  from setPath_Some [OF set] obtain q where q: "unescape EncodePath path = Some q"
    and v: "v = w\<lparr>url_User := user, url_Host := host, url_Path := q,
       url_RawPath := (if path = escape EncodePath q then [] else path)\<rparr>" by auto
  from v path unescape_hd [OF q path] have "EscapedPath v = [] \<or> hd (EscapedPath v) = CHR ''/''"
    by (intro EscapedPath_hd) auto
  with v assms(3) show ?thesis by simp
qed

lemma cut_query_chars: "set (snd (snd (cut_query r))) \<subseteq> set r"
  by (auto simp: cut_query_def Cut_def dest!: list.set_sel(2) [rotated] set_dropWhileD split: if_splits prod.splits)

lemma getScheme_chars: "getScheme s = Some (a, r) \<Longrightarrow> set r \<subseteq> set s"
  by (auto simp: getScheme_def Let_def split: if_splits dest!: list.set_sel(2) [rotated] in_set_dropD)

lemma url_Parse_shape:
  assumes parse: "url_Parse raw = Some u" and host: "url_Host u \<noteq> []"
  shows "url_Opaque u = [] \<and> (EscapedPath u = [] \<or> hd (EscapedPath u) = CHR ''/'') \<and>
    CHR ''#'' \<notin> set (url_RawQuery u)"
proof -
  define s where "s = fst (Cut raw (CHR ''#''))"
  have s: "CHR ''#'' \<notin> set s" by (auto simp: s_def Cut_def dest: set_takeWhileD)
  obtain v where v: "parse_no_fragment s = Some v" and eq: "url_Host u = url_Host v"
    "url_Opaque u = url_Opaque v" "url_Path u = url_Path v" "url_RawPath u = url_RawPath v"
    "url_RawQuery u = url_RawQuery v"
    by (rule url_Parse_no_fragment [OF parse]) (auto simp: s_def)
  have path: "EscapedPath u = EscapedPath v" by (simp add: EscapedPath_def eq)
  have "s \<noteq> ''*''" using v host eq by (auto simp: parse_no_fragment_def empty_url_def split: if_splits)
  with v obtain sc rest where scheme: "getScheme s = Some (sc, rest)"
    by (auto simp: parse_no_fragment_def split: if_splits option.splits)
  obtain f rest' q where cut: "cut_query rest = (f, rest', q)" by (cases "cut_query rest") auto
  let ?w = "empty_url\<lparr>url_Scheme := to_lower sc, url_ForceQuery := f, url_RawQuery := q\<rparr>"
  have "parse_rest rest' ?w = Some v"
    using v scheme cut \<open>s \<noteq> ''*''\<close> by (auto simp: parse_no_fragment_def split: if_splits)
  from parse_rest_host [OF this] host eq
  have "url_Opaque v = [] \<and> (EscapedPath v = [] \<or> hd (EscapedPath v) = CHR ''/'') \<and> url_RawQuery v = q"
    by (simp add: empty_url_def)
  moreover have "set q \<subseteq> set s"
    using cut_query_chars [of rest] cut getScheme_chars [OF scheme] by auto
  ultimately show ?thesis using s eq path by auto
qed

definition print_user :: "url \<Rightarrow> string" where
  "print_user u = (case url_User u of None \<Rightarrow> [] | Some ui \<Rightarrow> user_string ui @ ''@'')"

definition print_tail :: "url \<Rightarrow> string" where
  "print_tail u = EscapedPath u @
     (if url_ForceQuery u \<or> url_RawQuery u \<noteq> [] then ''?'' @ url_RawQuery u else []) @
     (if url_Fragment u \<noteq> [] then ''#'' @ EscapedFragment u else [])"

lemma url_String_host:
  assumes "url_Scheme u \<noteq> []" "url_Host u \<noteq> []" "url_Opaque u = []"
    and "EscapedPath u = [] \<or> hd (EscapedPath u) = CHR ''/''"
  shows "url_String u = url_Scheme u @ ''://'' @ print_user u @ escape EncodeHost (url_Host u) @ print_tail u"
  using assms by (auto simp: url_String_def Let_def print_user_def print_tail_def split: option.splits)

lemma print_tail_shape:
  "EscapedPath u = [] \<or> hd (EscapedPath u) = CHR ''/'' \<Longrightarrow> print_tail u = [] \<or> hd (print_tail u) \<in> set ''/?#''"
  by (cases "EscapedPath u") (auto simp: print_tail_def)

lemma print_user_shape:
  "(print_user u = [] \<or> (\<exists>x. print_user u = x @ ''@'')) \<and> (\<forall>c \<in> set (print_user u). c \<notin> set ''/?#'')"
  using user_string_chars by (auto simp: print_user_def split: option.splits)

section \<open>Paths that survive\<close>

text \<open>A path that is empty or rooted, whose bytes need no escape and whose escapes are well formed.\<close>

definition path_ok :: "string \<Rightarrow> bool" where
  "path_ok r \<longleftrightarrow> (r = [] \<or> hd r = CHR ''/'') \<and> validEncoded EncodePath r \<and> unescape EncodePath r \<noteq> None"

lemma unescape_Nil_iff: "unescape m r = Some [] \<longleftrightarrow> r = []"
  by (cases "(m, r)" rule: unescape.cases) (auto split: if_splits list.splits)

lemma EscapedPath_verbatim:
  assumes "path_ok r" and "setPath r w = Some v"
  shows "EscapedPath v = r"
proof -
  from setPath_Some [OF assms(2)] obtain q where q: "unescape EncodePath r = Some q"
    and v: "v = w\<lparr>url_Path := q, url_RawPath := (if r = escape EncodePath q then [] else r)\<rparr>" by blast
  have r: "r = [] \<or> hd r = CHR ''/''" "validEncoded EncodePath r" using assms(1) by (simp_all add: path_ok_def)
  have "q \<noteq> ''*''" using unescape_hd [OF q r(1)] by auto
  with v q r(2) show ?thesis
    by (cases "r = []") (auto simp: EscapedPath_def escape_def)
qed

lemma split_at_char:
  "(\<And>c. c \<in> set a \<Longrightarrow> c \<noteq> x) \<Longrightarrow> r = [] \<or> hd r = x \<Longrightarrow>
   takeWhile (\<lambda>c. c \<noteq> x) (a @ r) = a \<and> dropWhile (\<lambda>c. c \<noteq> x) (a @ r) = r"
  by (induction a) (cases r; auto)+

lemma url_Parse_verbatim:
  assumes sc: "sc \<noteq> []" "list_all letter sc" and h: "plain_host h" and p: "list_all is_digit p"
    and r: "path_ok r"
  shows "\<exists>u. url_Parse (sc @ ''://'' @ h @ colon # p @ r) = Some u \<and> url_Host u = h @ colon # p \<and>
    url_User u = None \<and> url_Opaque u = [] \<and> EscapedPath u = r \<and> \<not> url_ForceQuery u \<and>
    url_RawQuery u = [] \<and> url_Fragment u = []"
proof -
  let ?a = "h @ colon # p"
  have ctl: "\<not> control colon" "\<not> control CHR ''/''" "\<not> control CHR ''-''" "\<not> control CHR ''.''"
    by (simp_all add: control_def byte_val_def)
  have a_host: "host_char c \<or> c = colon" if "c \<in> set ?a" for c
    using h p that by (auto simp: plain_host_def list_all_iff dest: digit_host_char)
  have a: "c \<notin> set ''/?#@'' \<and> \<not> control c" if "c \<in> set ?a" for c
    using a_host [OF that] ctl by (auto simp: host_char_def dest: alnum_neq)
  have sc_chars: "c \<notin> set ''?#'' \<and> \<not> control c" if "c \<in> set sc" for c
    using sc(2) that by (auto simp: list_all_iff letter_def byte_val_def control_def Let_def)
  have r_chars: "c \<notin> set ''?#'' \<and> \<not> control c" if "c \<in> set r" for c
    using r validEncoded_chars that by (auto simp: path_ok_def)
  let ?raw = "sc @ ''://'' @ ?a @ r"
  have clean: "c \<notin> set ''?#'' \<and> \<not> control c" if "c \<in> set ?raw" for c
    using that sc_chars [of c] a [of c] r_chars [of c] ctl by auto
  have no_hash: "CHR ''#'' \<notin> set ?raw" using clean by force
  have no_q: "question_mark \<notin> set (''//'' @ ?a @ r)" using clean [of question_mark] by (auto simp: question_mark_def)
  have no_ctl: "\<not> list_ex control ?raw" using clean by (auto simp: list_ex_iff)
  have "cut_query (''//'' @ ?a @ r) = (False, ''//'' @ ?a @ r, [])"
    using no_q by (simp add: cut_query_def HasSuffix_iff del: append.simps) auto
  moreover have "?raw \<noteq> ''*''" using sc(1) by (cases sc) auto
  ultimately have pnf: "parse_no_fragment ?raw = parse_rest (''//'' @ ?a @ r) (empty_url\<lparr>url_Scheme := to_lower sc\<rparr>)"
    using getScheme_letters [OF sc, of "''//'' @ ?a @ r"] no_ctl
    by (simp add: parse_no_fragment_def empty_url_def)
  have r0: "r = [] \<or> hd r = CHR ''/''" using r by (simp add: path_ok_def)
  have tw: "takeWhile (\<lambda>c. c \<noteq> CHR ''/'') (?a @ r) = ?a"
    and dw: "dropWhile (\<lambda>c. c \<noteq> CHR ''/'') (?a @ r) = r"
    using split_at_char [of ?a "CHR ''/''" r] a r0 by (metis list.set_intros(1))+
  have "CHR ''@'' \<notin> set ?a" using a by force
  then have auth: "parseAuthority ?a = Some (None, ?a)"
    by (simp add: parseAuthority_def cut_last_def parseHost_plain [OF h p])
  let ?w = "empty_url\<lparr>url_Scheme := to_lower sc, url_User := None, url_Host := ?a\<rparr>"
  have "parse_rest (''//'' @ ?a @ r) (empty_url\<lparr>url_Scheme := to_lower sc\<rparr>) = setPath r ?w"
    using tw dw auth sc(1) by (simp add: parse_rest_def HasPrefix_def to_lower_def)
  moreover from r obtain v where v: "setPath r ?w = Some v" by (auto simp: path_ok_def setPath_def)
  ultimately have "url_Parse ?raw = Some v"
    using no_hash pnf by (simp add: url_Parse_def Cut_def del: append.simps append_Cons)
  moreover have "url_Host v = ?a \<and> url_User v = None \<and> url_Opaque v = [] \<and> \<not> url_ForceQuery v \<and>
      url_RawQuery v = [] \<and> url_Fragment v = []"
    using setPath_Some [OF v] by (auto simp: empty_url_def)
  ultimately show ?thesis using EscapedPath_verbatim [OF r v] by auto
qed

end
