(* ===== verification/WebhookRewrite.thy ===== *)
theory WebhookRewrite
  imports GoUrl
begin

text \<open>
  \<open>internal/webhookrewrite/webhookrewrite.go\<close>: service references of webhook client
  configurations become loopback URLs, loopback URLs of the external manager's ports become
  URLs of the external host. The typed API objects are records of the fields the code reads
  or writes; what else they hold is a field of type \<open>'r\<close> (per webhook) or \<open>'m\<close> (per object)
  that no operation touches. The updates happen in place, so an operation returns an error
  (or none) together with the updated object.
\<close>

section \<open>The objects\<close>

record service_reference =
  svc_Namespace :: string
  svc_Name :: string
  svc_Path :: "string option"

text \<open>The admission and the conversion API have a \<open>WebhookClientConfig\<close> each, with the same fields.\<close>

record client_config =
  cc_URL :: "string option"
  cc_Service :: "service_reference option"
  cc_CABundle :: string

record 'r webhook =
  wh_Name :: string
  wh_ClientConfig :: client_config
  wh_Rest :: 'r

record ('r, 'm) webhook_configuration =
  Webhooks :: "'r webhook list"
  wc_Rest :: 'm

text \<open>\<open>spec.conversion\<close>, its \<open>webhook\<close> and that one's \<open>clientConfig\<close> may each be nil.\<close>

record 'm crd =
  crd_Name :: string
  crd_Conversion :: "client_config option option option"
  crd_Rest :: 'm

datatype ('r, 'm) typed_object =
    MutatingConfig "('r, 'm) webhook_configuration"
  | ValidatingConfig "('r, 'm) webhook_configuration"
  | CRD "'m crd"
  | OtherKind 'm

section \<open>One client configuration\<close>

definition webhookURLPrefix :: string where "webhookURLPrefix = ''https://localhost:''"

datatype rewrite_error =
    ServiceWithoutCA string string
  | NeitherServiceNorURL
  | URLWithoutCA string
  | LoopbackWithoutCA string string
  | NoPortForNamespace string
  | InMutatingWebhook string rewrite_error
  | InValidatingWebhook string rewrite_error
  | InCRDConversion string rewrite_error
  | UnsupportedKind

definition RewriteClientConfig :: "client_config \<Rightarrow> int \<Rightarrow> string \<Rightarrow> rewrite_error option \<times> client_config" where
  "RewriteClientConfig cc port caPEM =
     (case cc_Service cc of
        Some svc \<Rightarrow>
          if caPEM = [] then (Some (ServiceWithoutCA (svc_Namespace svc) (svc_Name svc)), cc)
          else
            (let u = webhookURLPrefix @ Itoa port @
                   (case svc_Path svc of None \<Rightarrow> [] | Some p \<Rightarrow> p)
             in (None, cc\<lparr>cc_URL := Some u, cc_Service := None, cc_CABundle := caPEM\<rparr>))
      | None \<Rightarrow>
          (case cc_URL cc of
             None \<Rightarrow> (Some NeitherServiceNorURL, cc)
           | Some url \<Rightarrow>
               if caPEM = [] then (Some (URLWithoutCA url), cc)
               else (None, cc\<lparr>cc_CABundle := caPEM\<rparr>)))"

text \<open>\<open>RewriteClientConfig\<close> on a field of a webhook, its error wrapped with the webhook's name.\<close>

definition on_client_config ::
  "(string \<Rightarrow> rewrite_error \<Rightarrow> rewrite_error) \<Rightarrow> (client_config \<Rightarrow> rewrite_error option \<times> client_config) \<Rightarrow>
   'r webhook \<Rightarrow> rewrite_error option \<times> 'r webhook" where
  "on_client_config c f wh =
     (case f (wh_ClientConfig wh) of
        (e, cc) \<Rightarrow> (map_option (c (wh_Name wh)) e, wh\<lparr>wh_ClientConfig := cc\<rparr>))"

definition on_webhooks ::
  "('r webhook \<Rightarrow> rewrite_error option \<times> 'r webhook) \<Rightarrow>
   ('r, 'm) webhook_configuration \<Rightarrow> rewrite_error option \<times> ('r, 'm) webhook_configuration" where
  "on_webhooks f cfg = (case for_each f (Webhooks cfg) of (e, whs) \<Rightarrow> (e, cfg\<lparr>Webhooks := whs\<rparr>))"

definition RewriteMutatingConfig ::
  "('r, 'm) webhook_configuration \<Rightarrow> int \<Rightarrow> string \<Rightarrow> rewrite_error option \<times> ('r, 'm) webhook_configuration" where
  "RewriteMutatingConfig cfg port caPEM =
     on_webhooks (on_client_config InMutatingWebhook (\<lambda>cc. RewriteClientConfig cc port caPEM)) cfg"

definition RewriteValidatingConfig ::
  "('r, 'm) webhook_configuration \<Rightarrow> int \<Rightarrow> string \<Rightarrow> rewrite_error option \<times> ('r, 'm) webhook_configuration" where
  "RewriteValidatingConfig cfg port caPEM =
     on_webhooks (on_client_config InValidatingWebhook (\<lambda>cc. RewriteClientConfig cc port caPEM)) cfg"

text \<open>
  The conversion client config is copied into an admission one, rewritten there and copied
  back; on error the original is untouched.
\<close>

definition RewriteCRDConversion :: "'m crd \<Rightarrow> int \<Rightarrow> string \<Rightarrow> rewrite_error option \<times> 'm crd" where
  "RewriteCRDConversion crd port caPEM =
     (case crd_Conversion crd of
        Some (Some (Some cc)) \<Rightarrow>
          (let admissionCC = \<lparr>cc_URL = cc_URL cc,
                 cc_Service = map_option (\<lambda>s. \<lparr>svc_Namespace = svc_Namespace s, svc_Name = svc_Name s,
                   svc_Path = svc_Path s\<rparr>) (cc_Service cc),
                 cc_CABundle = cc_CABundle cc\<rparr>
           in case RewriteClientConfig admissionCC port caPEM of
                (Some e, _) \<Rightarrow> (Some e, crd)
              | (None, acc) \<Rightarrow>
                  (None, crd\<lparr>crd_Conversion := Some (Some (Some
                     (cc\<lparr>cc_URL := cc_URL acc, cc_CABundle := cc_CABundle acc, cc_Service := None\<rparr>)))\<rparr>))
      | _ \<Rightarrow> (None, crd))"

section \<open>The external host\<close>

record external_webhook =
  ext_host :: string
  ext_ports :: "int \<Rightarrow> bool"

definition no_external :: external_webhook where
  "no_external = \<lparr>ext_host = [], ext_ports = (\<lambda>_. False)\<rparr>"

definition active :: "external_webhook \<Rightarrow> bool" where
  "active e \<longleftrightarrow> ext_host e \<noteq> []"

text \<open>An option updates the option state; a nil option is \<open>None\<close>.\<close>

type_synonym rewrite_option = "external_webhook \<Rightarrow> external_webhook"

definition WithExternalWebhookHost :: "string \<Rightarrow> int list \<Rightarrow> rewrite_option" where
  "WithExternalWebhookHost host ports e =
     e\<lparr>ext_host := host, ext_ports := foldl (\<lambda>m p. m(p := True)) (\<lambda>_. False) ports\<rparr>"

definition isLoopbackAuthority :: "string \<Rightarrow> bool" where
  "isLoopbackAuthority host \<longleftrightarrow> EqualFold host ''127.0.0.1'' \<or> EqualFold host ''localhost''"

text \<open>The result is the error, whether the URL was rewritten, and the URL.\<close>

definition rewriteLoopbackURL ::
  "external_webhook \<Rightarrow> string option \<Rightarrow> string \<Rightarrow> rewrite_error option \<times> bool \<times> string option" where
  "rewriteLoopbackURL e ccURL caPEM =
     (case ccURL of
        None \<Rightarrow> (None, False, ccURL)
      | Some raw \<Rightarrow>
          if \<not> active e then (None, False, ccURL)
          else (case url_Parse raw of
                  None \<Rightarrow> (None, False, ccURL)
                | Some parsed \<Rightarrow>
                    (let port = url_Port parsed
                     in if port = [] then (None, False, ccURL)
                        else (case Atoi port of
                                None \<Rightarrow> (None, False, ccURL)
                              | Some portNum \<Rightarrow>
                                  if \<not> ext_ports e portNum then (None, False, ccURL)
                                  else if \<not> isLoopbackAuthority (url_Hostname parsed) then (None, False, ccURL)
                                  else if caPEM = [] then
                                    (Some (LoopbackWithoutCA raw (ext_host e)), False, ccURL)
                                  else
                                    (None, True, Some (url_String
                                       (parsed\<lparr>url_Scheme := ''https'',
                                               url_Host := ext_host e @ '':'' @ port\<rparr>)))))))"

section \<open>All objects\<close>

definition portForClientConfig :: "service_reference option \<Rightarrow> (string \<rightharpoonup> int) \<Rightarrow> rewrite_error + int" where
  "portForClientConfig service ports =
     (case service of
        None \<Rightarrow> Inr 0
      | Some s \<Rightarrow>
          (case ports (svc_Namespace s) of
             None \<Rightarrow> Inl (NoPortForNamespace (svc_Namespace s))
           | Some port \<Rightarrow> Inr port))"

definition portForConversionClientConfig ::
  "service_reference option \<Rightarrow> (string \<rightharpoonup> int) \<Rightarrow> rewrite_error + int" where
  "portForConversionClientConfig service ports =
     (case service of
        None \<Rightarrow> Inr 0
      | Some s \<Rightarrow>
          (case ports (svc_Namespace s) of
             None \<Rightarrow> Inl (NoPortForNamespace (svc_Namespace s))
           | Some port \<Rightarrow> Inr port))"

text \<open>The loop body the two admission kinds share, but for the error text.\<close>

definition rewrite_by_namespace ::
  "(string \<rightharpoonup> int) \<Rightarrow> string \<Rightarrow> external_webhook \<Rightarrow> client_config \<Rightarrow> rewrite_error option \<times> client_config" where
  "rewrite_by_namespace ports caPEM ext cc =
     (case rewriteLoopbackURL ext (cc_URL cc) caPEM of
        (Some e, _, _) \<Rightarrow> (Some e, cc)
      | (None, True, u) \<Rightarrow> (None, cc\<lparr>cc_URL := u, cc_CABundle := caPEM\<rparr>)
      | (None, False, _) \<Rightarrow>
          (case portForClientConfig (cc_Service cc) ports of
             Inl e \<Rightarrow> (Some e, cc)
           | Inr port \<Rightarrow> RewriteClientConfig cc port caPEM))"

definition rewriteMutatingByNamespace ::
  "('r, 'm) webhook_configuration \<Rightarrow> (string \<rightharpoonup> int) \<Rightarrow> string \<Rightarrow> external_webhook \<Rightarrow>
   rewrite_error option \<times> ('r, 'm) webhook_configuration" where
  "rewriteMutatingByNamespace cfg ports caPEM ext =
     on_webhooks (on_client_config InMutatingWebhook (rewrite_by_namespace ports caPEM ext)) cfg"

definition rewriteValidatingByNamespace ::
  "('r, 'm) webhook_configuration \<Rightarrow> (string \<rightharpoonup> int) \<Rightarrow> string \<Rightarrow> external_webhook \<Rightarrow>
   rewrite_error option \<times> ('r, 'm) webhook_configuration" where
  "rewriteValidatingByNamespace cfg ports caPEM ext =
     on_webhooks (on_client_config InValidatingWebhook (rewrite_by_namespace ports caPEM ext)) cfg"

definition rewriteCRDByNamespace ::
  "'m crd \<Rightarrow> (string \<rightharpoonup> int) \<Rightarrow> string \<Rightarrow> external_webhook \<Rightarrow> rewrite_error option \<times> 'm crd" where
  "rewriteCRDByNamespace crd ports caPEM ext =
     (case crd_Conversion crd of
        Some (Some (Some cc)) \<Rightarrow>
          (case rewriteLoopbackURL ext (cc_URL cc) caPEM of
             (Some e, _, _) \<Rightarrow> (Some (InCRDConversion (crd_Name crd) e), crd)
           | (None, True, u) \<Rightarrow>
               (None, crd\<lparr>crd_Conversion := Some (Some (Some (cc\<lparr>cc_URL := u, cc_CABundle := caPEM\<rparr>)))\<rparr>)
           | (None, False, _) \<Rightarrow>
               (case portForConversionClientConfig (cc_Service cc) ports of
                  Inl e \<Rightarrow> (Some (InCRDConversion (crd_Name crd) e), crd)
                | Inr port \<Rightarrow> RewriteCRDConversion crd port caPEM))
      | _ \<Rightarrow> (None, crd))"

definition rewrite_typed ::
  "(string \<rightharpoonup> int) \<Rightarrow> string \<Rightarrow> external_webhook \<Rightarrow> ('r, 'm) typed_object \<Rightarrow>
   rewrite_error option \<times> ('r, 'm) typed_object" where
  "rewrite_typed ports caPEM ext x =
     (case x of
        MutatingConfig cfg \<Rightarrow> map_prod id MutatingConfig (rewriteMutatingByNamespace cfg ports caPEM ext)
      | ValidatingConfig cfg \<Rightarrow> map_prod id ValidatingConfig (rewriteValidatingByNamespace cfg ports caPEM ext)
      | CRD crd \<Rightarrow> map_prod id CRD (rewriteCRDByNamespace crd ports caPEM ext)
      | OtherKind _ \<Rightarrow> (Some UnsupportedKind, x))"

definition apply_options :: "rewrite_option option list \<Rightarrow> external_webhook" where
  "apply_options opts = foldl (\<lambda>e opt. case opt of None \<Rightarrow> e | Some f \<Rightarrow> f e) no_external opts"

definition RewriteAll ::
  "('r, 'm) typed_object list \<Rightarrow> (string \<rightharpoonup> int) \<Rightarrow> string \<Rightarrow> rewrite_option option list \<Rightarrow>
   rewrite_error option \<times> ('r, 'm) typed_object list" where
  "RewriteAll objs ports caPEM opts = for_each (rewrite_typed ports caPEM (apply_options opts)) objs"

section \<open>What the rewrites converge to\<close>

definition configured :: "string \<Rightarrow> client_config \<Rightarrow> bool" where
  "configured ca cc \<longleftrightarrow> cc_Service cc = None \<and> cc_URL cc \<noteq> None \<and> cc_CABundle cc = ca \<and> ca \<noteq> []"

interpretation client: converging "\<lambda>cc. RewriteClientConfig cc port ca" "configured ca" for port ca
  by unfold_locales
    (auto simp: RewriteClientConfig_def configured_def Let_def split: option.splits if_splits)

lemma on_client_config_converging:
  assumes "converging f settled"
  shows "converging (on_client_config c f) (\<lambda>wh. settled (wh_ClientConfig wh))"
  using assms unfolding converging_def
  by (fastforce simp: on_client_config_def split: prod.splits)

lemma on_webhooks_converging:
  assumes "converging f settled"
  shows "converging (on_webhooks f) (\<lambda>cfg. list_all settled (Webhooks cfg))"
proof
  fix cfg out :: "('a, 'b) webhook_configuration"
  assume "on_webhooks f cfg = (None, out)"
  then obtain whs where "for_each f (Webhooks cfg) = (None, whs)" "Webhooks out = whs"
    by (auto simp: on_webhooks_def split: prod.splits)
  with converging.loop_settles [OF assms] show "list_all settled (Webhooks out)" by blast
next
  fix cfg :: "('a, 'b) webhook_configuration"
  assume "list_all settled (Webhooks cfg)"
  with converging.loop_stable [OF assms] show "on_webhooks f cfg = (None, cfg)"
    by (simp add: on_webhooks_def)
qed

interpretation mutating: converging
    "\<lambda>cfg. RewriteMutatingConfig cfg port ca"
    "\<lambda>cfg. list_all (\<lambda>wh. configured ca (wh_ClientConfig wh)) (Webhooks cfg)" for port ca
  unfolding RewriteMutatingConfig_def
  by (intro on_webhooks_converging on_client_config_converging client.converging_axioms)

interpretation validating: converging
    "\<lambda>cfg. RewriteValidatingConfig cfg port ca"
    "\<lambda>cfg. list_all (\<lambda>wh. configured ca (wh_ClientConfig wh)) (Webhooks cfg)" for port ca
  unfolding RewriteValidatingConfig_def
  by (intro on_webhooks_converging on_client_config_converging client.converging_axioms)

text \<open>
  The updates of all webhooks of a configuration: the names, the other fields and the order
  stay, the client configurations are updated one by one.
\<close>

lemma on_client_config_ok:
  "on_client_config c f wh = (None, wh') \<longleftrightarrow>
     (\<exists>cc. f (wh_ClientConfig wh) = (None, cc) \<and> wh' = wh\<lparr>wh_ClientConfig := cc\<rparr>)"
  by (auto simp: on_client_config_def split: prod.splits)

lemma on_webhooks_ok:
  "on_webhooks (on_client_config c f) cfg = (None, out) \<longleftrightarrow>
     (\<forall>wh \<in> set (Webhooks cfg). fst (f (wh_ClientConfig wh)) = None) \<and>
     out = cfg\<lparr>Webhooks := map (\<lambda>wh. wh\<lparr>wh_ClientConfig := snd (f (wh_ClientConfig wh))\<rparr>) (Webhooks cfg)\<rparr>"
proof -
  have loop: "for_each (on_client_config c f) whs = (None, whs') \<longleftrightarrow>
      (\<forall>wh \<in> set whs. fst (f (wh_ClientConfig wh)) = None) \<and>
      whs' = map (\<lambda>wh. wh\<lparr>wh_ClientConfig := snd (f (wh_ClientConfig wh))\<rparr>) whs" for whs whs'
    unfolding for_each_ok_iff
  proof (induction whs arbitrary: whs')
    case Nil
    then show ?case by auto
  next
    case (Cons wh whs)
    then show ?case
      by (cases whs'; cases "f (wh_ClientConfig wh)") (auto simp: on_client_config_ok)
  qed
  have "on_webhooks (on_client_config c f) cfg = (None, out) \<longleftrightarrow>
      (\<exists>whs. for_each (on_client_config c f) (Webhooks cfg) = (None, whs) \<and> out = cfg\<lparr>Webhooks := whs\<rparr>)"
    by (auto simp: on_webhooks_def split: prod.splits)
  then show ?thesis unfolding loop by blast
qed

lemma fst_None_iff: "fst r = None \<longleftrightarrow> (\<exists>x. r = (None, x))"
  by (cases r) auto

text \<open>When a client configuration can be rewritten, and to what.\<close>

definition rewritable_config :: "string \<Rightarrow> client_config \<Rightarrow> bool" where
  "rewritable_config ca cc \<longleftrightarrow> ca \<noteq> [] \<and> (cc_Service cc \<noteq> None \<or> cc_URL cc \<noteq> None)"

definition loopback_url :: "int \<Rightarrow> service_reference \<Rightarrow> string" where
  "loopback_url port svc =
     ''https://localhost:'' @ Itoa port @ (case svc_Path svc of None \<Rightarrow> [] | Some p \<Rightarrow> p)"

definition rewritten_config :: "int \<Rightarrow> string \<Rightarrow> client_config \<Rightarrow> client_config" where
  "rewritten_config port ca cc =
     \<lparr>cc_URL = (case cc_Service cc of Some svc \<Rightarrow> Some (loopback_url port svc) | None \<Rightarrow> cc_URL cc),
      cc_Service = None, cc_CABundle = ca\<rparr>"

lemma RewriteClientConfig_ok:
  "RewriteClientConfig cc port ca = (None, out) \<longleftrightarrow> rewritable_config ca cc \<and> out = rewritten_config port ca cc"
  by (cases cc) (auto simp: RewriteClientConfig_def rewritable_config_def rewritten_config_def loopback_url_def
      webhookURLPrefix_def Let_def split: option.splits)

text \<open>
  Rewriting an admission webhook configuration succeeds exactly when no webhook is in the
  way: each has a service or a URL, and the pod CA is there unless there is no webhook at
  all. Then every webhook has a URL (its own, or the loopback URL of its service with the
  service path), no service and the pod CA, everything else is untouched, and running the
  rewrite again, with any port, changes nothing.
\<close>

theorem RewriteMutatingConfig_correct:
  "(fst (RewriteMutatingConfig cfg port ca) = None \<longleftrightarrow>
      (\<forall>wh \<in> set (Webhooks cfg). rewritable_config ca (wh_ClientConfig wh))) \<and>
   (\<forall>out. RewriteMutatingConfig cfg port ca = (None, out) \<longrightarrow>
      out = cfg\<lparr>Webhooks := map (\<lambda>wh. wh\<lparr>wh_ClientConfig := rewritten_config port ca (wh_ClientConfig wh)\<rparr>)
        (Webhooks cfg)\<rparr> \<and>
      RewriteMutatingConfig out port' ca = (None, out))"
proof -
  have step: "fst (RewriteClientConfig cc port ca) = None \<longleftrightarrow> rewritable_config ca cc" for cc
    using RewriteClientConfig_ok [of cc port ca] by (metis fst_conv prod.collapse)
  have snd: "rewritable_config ca cc \<Longrightarrow> snd (RewriteClientConfig cc port ca) = rewritten_config port ca cc" for cc
    using RewriteClientConfig_ok [of cc port ca] by (metis snd_conv)
  have again: "RewriteMutatingConfig out port' ca = (None, out)"
    if "RewriteMutatingConfig cfg port ca = (None, out)" for out
    by (rule mutating.settled_stable) (rule mutating.step_settles [OF that])
  let ?f = "\<lambda>cc. RewriteClientConfig cc port ca"
  let ?out = "cfg\<lparr>Webhooks := map (\<lambda>wh. wh\<lparr>wh_ClientConfig := snd (?f (wh_ClientConfig wh))\<rparr>) (Webhooks cfg)\<rparr>"
  have ok: "RewriteMutatingConfig cfg port ca = (None, out) \<longleftrightarrow>
      (\<forall>wh \<in> set (Webhooks cfg). rewritable_config ca (wh_ClientConfig wh)) \<and> out = ?out" for out
    by (simp add: RewriteMutatingConfig_def on_webhooks_ok step)
  have new: "?out = cfg\<lparr>Webhooks := map (\<lambda>wh. wh\<lparr>wh_ClientConfig :=
      rewritten_config port ca (wh_ClientConfig wh)\<rparr>) (Webhooks cfg)\<rparr>"
    if "\<forall>wh \<in> set (Webhooks cfg). rewritable_config ca (wh_ClientConfig wh)"
    using that by (simp add: snd cong: map_cong)
  show ?thesis
  proof (intro conjI allI impI)
    show "fst (RewriteMutatingConfig cfg port ca) = None \<longleftrightarrow>
        (\<forall>wh \<in> set (Webhooks cfg). rewritable_config ca (wh_ClientConfig wh))"
      unfolding fst_None_iff ok by blast
  next
    fix out assume run: "RewriteMutatingConfig cfg port ca = (None, out)"
    then show "out = cfg\<lparr>Webhooks := map (\<lambda>wh. wh\<lparr>wh_ClientConfig :=
        rewritten_config port ca (wh_ClientConfig wh)\<rparr>) (Webhooks cfg)\<rparr>"
      using new unfolding ok by simp
    show "RewriteMutatingConfig out port' ca = (None, out)" by (rule again [OF run])
  qed
qed

section \<open>URLs of the external manager\<close>

lemma EqualFold_refl: "EqualFold s s"
  by (induction s) (simp_all add: leading_rune_def fold_forms_def)

lemma rewriteLoopbackURL_None [simp]: "rewriteLoopbackURL e None ca = (None, False, None)"
  by (simp add: rewriteLoopbackURL_def)

lemma rewriteLoopbackURL_inactive [simp]: "\<not> active e \<Longrightarrow> rewriteLoopbackURL e u ca = (None, False, u)"
  by (simp add: rewriteLoopbackURL_def split: option.splits)

text \<open>The URLs the option redirects.\<close>

definition redirected :: "external_webhook \<Rightarrow> string \<Rightarrow> url \<Rightarrow> bool" where
  "redirected e raw u \<longleftrightarrow>
     active e \<and> url_Parse raw = Some u \<and> url_Port u \<noteq> [] \<and>
     (\<exists>n. Atoi (url_Port u) = Some n \<and> ext_ports e n) \<and> isLoopbackAuthority (url_Hostname u)"

lemma rewriteLoopbackURL_cases:
  "rewriteLoopbackURL e (Some raw) ca =
     (case url_Parse raw of
        None \<Rightarrow> (None, False, Some raw)
      | Some u \<Rightarrow>
          if \<not> redirected e raw u then (None, False, Some raw)
          else if ca = [] then (Some (LoopbackWithoutCA raw (ext_host e)), False, Some raw)
          else (None, True, Some (url_String
             (u\<lparr>url_Scheme := ''https'', url_Host := ext_host e @ '':'' @ url_Port u\<rparr>))))"
  by (auto simp: rewriteLoopbackURL_def redirected_def Let_def split: option.splits)

text \<open>A host that the rewritten URL carries as it is, and that is not a loopback name.\<close>

definition safe_external :: "external_webhook \<Rightarrow> bool" where
  "safe_external e \<longleftrightarrow> plain_host (ext_host e) \<and> \<not> isLoopbackAuthority (ext_host e)"

lemma split_port_digits: "list_all is_digit (snd (split_port hp))"
  by (auto simp: split_port_def validOptionalPort_def split: option.splits prod.splits if_splits)

lemma url_Port_host: "url_Port u \<noteq> [] \<Longrightarrow> url_Host u \<noteq> []"
  by (auto simp: url_Port_def split_port_def cut_last_def)

lemma https_letters: "list_all letter ''https''"
  by (simp add: letter_def byte_val_def)

lemma plain_authority_chars:
  "plain_host h \<Longrightarrow> list_all is_digit p \<Longrightarrow> c \<in> set (h @ colon # p) \<Longrightarrow> c \<notin> set ''/?#@''"
  by (auto simp: plain_host_def list_all_iff dest: digit_host_char host_char_neq)

lemma parsed_plain_host:
  assumes "url_Parse (''https://'' @ ui @ h @ colon # p @ t) = Some u"
    and "plain_host h" and "list_all is_digit p"
    and "ui = [] \<or> (\<exists>x. ui = x @ ''@'')" and "\<And>c. c \<in> set ui \<Longrightarrow> c \<notin> set ''/?#''"
    and "t = [] \<or> hd t \<in> set ''/?#''"
  shows "url_Hostname u = h \<and> url_Port u = p"
proof -
  have "parseHost (h @ colon # p) = Some (url_Host u)"
  proof (rule url_Parse_host)
    show "url_Parse (''https'' @ ''://'' @ ui @ (h @ colon # p) @ t) = Some u" using assms(1) by simp
  qed (use assms https_letters plain_authority_chars in auto)
  then have "url_Host u = h @ colon # p" using parseHost_plain [OF assms(2, 3)] by simp
  then show ?thesis using split_port_plain [OF assms(2, 3)] by (simp add: url_Hostname_def url_Port_def)
qed

lemma redirected_again:
  assumes "redirected e raw u" and "safe_external e"
  shows "\<not> redirected e (url_String (u\<lparr>url_Scheme := ''https'', url_Host := ext_host e @ '':'' @ url_Port u\<rparr>)) v"
proof
  let ?u = "u\<lparr>url_Scheme := ''https'', url_Host := ext_host e @ colon # url_Port u\<rparr>"
  assume "redirected e (url_String (u\<lparr>url_Scheme := ''https'', url_Host := ext_host e @ '':'' @ url_Port u\<rparr>)) v"
  then have parse: "url_Parse (url_String ?u) = Some v" and loop: "isLoopbackAuthority (url_Hostname v)"
    by (simp_all add: redirected_def)
  have host: "plain_host (ext_host e)" using assms(2) by (simp add: safe_external_def)
  have port: "list_all is_digit (url_Port u)" by (simp add: url_Port_def split_port_digits)
  from assms(1) have u: "url_Parse raw = Some u" "url_Host u \<noteq> []"
    by (auto simp: redirected_def dest: url_Port_host)
  from url_Parse_shape [OF u] have shape: "url_Opaque u = []" "EscapedPath u = [] \<or> hd (EscapedPath u) = CHR ''/''"
    by simp_all
  have same: "EscapedPath ?u = EscapedPath u" by (simp add: EscapedPath_def)
  have "url_String ?u = ''https://'' @ print_user ?u @ escape EncodeHost (ext_host e @ colon # url_Port u) @ print_tail ?u"
    using shape same by (subst url_String_host) auto
  then have string: "url_String ?u = ''https://'' @ print_user ?u @ ext_host e @ colon # url_Port u @ print_tail ?u"
    by (simp add: escape_host_plain [OF host port])
  have "url_Hostname v = ext_host e"
    using parsed_plain_host [OF parse [unfolded string] host port] print_user_shape [of ?u]
      print_tail_shape [of ?u] shape same by auto
  with loop assms(2) show False by (simp add: safe_external_def)
qed

text \<open>
  C31. The redirect keeps the path: a URL of any scheme whose authority is one of the two loopback
  names and an external port, followed by a well-formed path, becomes the https URL of the
  external host with the same port and byte for byte the same path, no slash added.
\<close>

theorem redirect_keeps_path:
  assumes sc: "sc \<noteq> []" "list_all letter sc" and h: "h = ''localhost'' \<or> h = ''127.0.0.1''"
    and p: "p \<noteq> []" "list_all is_digit p" "Atoi p = Some n" "ext_ports e n"
    and e: "plain_host (ext_host e)" and r: "path_ok r" and ca: "ca \<noteq> []"
  shows "rewriteLoopbackURL e (Some (sc @ ''://'' @ h @ '':'' @ p @ r)) ca =
    (None, True, Some (''https://'' @ ext_host e @ '':'' @ p @ r))"
proof -
  have plain: "plain_host h" using h by (auto simp: plain_host_def host_char_def alnum_def byte_val_def)
  from url_Parse_verbatim [OF sc plain p(2) r] obtain u where
    u: "url_Parse (sc @ ''://'' @ h @ colon # p @ r) = Some u" "url_Host u = h @ colon # p"
      "url_User u = None" "url_Opaque u = []" "EscapedPath u = r" "\<not> url_ForceQuery u"
      "url_RawQuery u = []" "url_Fragment u = []" by blast
  have port: "url_Port u = p" "url_Hostname u = h"
    using u(2) split_port_plain [OF plain p(2)] by (simp_all add: url_Port_def url_Hostname_def)
  have "isLoopbackAuthority h" using h EqualFold_refl unfolding isLoopbackAuthority_def by blast
  then have red: "redirected e (sc @ ''://'' @ h @ colon # p @ r) u"
    using e p port u(1) by (auto simp: redirected_def active_def plain_host_def)
  let ?u = "u\<lparr>url_Scheme := ''https'', url_Host := ext_host e @ colon # p\<rparr>"
  have "EscapedPath ?u = EscapedPath u" by (simp add: EscapedPath_def)
  with u(5) have "EscapedPath ?u = r" by simp
  then have "url_String ?u = ''https://'' @ print_user ?u @ escape EncodeHost (ext_host e @ colon # p) @ print_tail ?u"
    using r u(4) by (subst url_String_host) (auto simp: path_ok_def)
  moreover have "print_user ?u = []" "print_tail ?u = r"
    using u \<open>EscapedPath ?u = r\<close> by (simp_all add: print_user_def print_tail_def)
  ultimately show ?thesis
    using red port u(1) ca by (simp add: rewriteLoopbackURL_cases escape_host_plain [OF e p(2)])
qed

section \<open>All objects\<close>

text \<open>The client configurations of an object, and the object with each of them mapped.\<close>

fun client_configs :: "('r, 'm) typed_object \<Rightarrow> client_config list" where
  "client_configs (MutatingConfig cfg) = map wh_ClientConfig (Webhooks cfg)"
| "client_configs (ValidatingConfig cfg) = map wh_ClientConfig (Webhooks cfg)"
| "client_configs (CRD crd) = (case crd_Conversion crd of Some (Some (Some cc)) \<Rightarrow> [cc] | _ \<Rightarrow> [])"
| "client_configs (OtherKind _) = []"

definition map_webhooks ::
  "(client_config \<Rightarrow> client_config) \<Rightarrow> ('r, 'm) webhook_configuration \<Rightarrow> ('r, 'm) webhook_configuration" where
  "map_webhooks g cfg = cfg\<lparr>Webhooks := map (\<lambda>wh. wh\<lparr>wh_ClientConfig := g (wh_ClientConfig wh)\<rparr>) (Webhooks cfg)\<rparr>"

fun map_configs :: "(client_config \<Rightarrow> client_config) \<Rightarrow> ('r, 'm) typed_object \<Rightarrow> ('r, 'm) typed_object" where
  "map_configs g (MutatingConfig cfg) = MutatingConfig (map_webhooks g cfg)"
| "map_configs g (ValidatingConfig cfg) = ValidatingConfig (map_webhooks g cfg)"
| "map_configs g (CRD crd) = CRD (crd\<lparr>crd_Conversion := map_option (map_option (map_option g)) (crd_Conversion crd)\<rparr>)"
| "map_configs g (OtherKind m) = OtherKind m"

fun supported :: "('r, 'm) typed_object \<Rightarrow> bool" where
  "supported (OtherKind _) = False"
| "supported _ = True"

lemma client_configs_map: "client_configs (map_configs g x) = map g (client_configs x)"
  by (cases x) (auto simp: map_webhooks_def split: option.splits)

lemma supported_map [simp]: "supported (map_configs g x) = supported x"
  by (cases x) auto

lemma map_configs_id:
  "(\<And>cc. cc \<in> set (client_configs x) \<Longrightarrow> g cc = cc) \<Longrightarrow> map_configs g x = x"
proof (cases x)
  case (CRD crd)
  assume "\<And>cc. cc \<in> set (client_configs x) \<Longrightarrow> g cc = cc"
  with CRD have "map_option (map_option (map_option g)) (crd_Conversion crd) = crd_Conversion crd"
    by (cases "crd_Conversion crd"; cases "the (crd_Conversion crd)";
        cases "the (the (crd_Conversion crd))") simp_all
  with CRD show ?thesis by simp
qed (auto simp: map_webhooks_def map_idI)

text \<open>
  Rewriting one object is mapping the rewrite of one client configuration over it, for the
  admission kinds and for conversions alike.
\<close>

lemma port_lookups_equal: "portForConversionClientConfig = portForClientConfig"
  by (intro ext) (simp add: portForConversionClientConfig_def portForClientConfig_def)

lemma RewriteCRDConversion_ok:
  assumes "crd_Conversion crd = Some (Some (Some cc))"
  shows "RewriteCRDConversion crd port ca = (None, out) \<longleftrightarrow>
    rewritable_config ca cc \<and> out = crd\<lparr>crd_Conversion := Some (Some (Some (rewritten_config port ca cc)))\<rparr>"
proof -
  have copy: "\<lparr>cc_URL = cc_URL cc, cc_Service = map_option (\<lambda>s. \<lparr>svc_Namespace = svc_Namespace s,
      svc_Name = svc_Name s, svc_Path = svc_Path s\<rparr>) (cc_Service cc), cc_CABundle = cc_CABundle cc\<rparr> = cc"
    by (cases cc; cases "cc_Service cc") auto
  obtain e acc where run: "RewriteClientConfig cc port ca = (e, acc)" by fastforce
  show ?thesis
  proof (cases e)
    case None
    with run have "rewritable_config ca cc" "acc = rewritten_config port ca cc"
      by (simp_all add: RewriteClientConfig_ok)
    with None assms copy run show ?thesis
      by (auto simp: RewriteCRDConversion_def Let_def rewritten_config_def)
  next
    case (Some d)
    with run RewriteClientConfig_ok [of cc port ca] have "\<not> rewritable_config ca cc" by auto
    with Some assms copy run show ?thesis by (simp add: RewriteCRDConversion_def Let_def)
  qed
qed

lemma rewrite_by_namespace_ok:
  "rewrite_by_namespace ports ca ext cc = (None, out) \<longleftrightarrow>
     (case rewriteLoopbackURL ext (cc_URL cc) ca of
        (Some _, _, _) \<Rightarrow> False
      | (None, True, u) \<Rightarrow> out = cc\<lparr>cc_URL := u, cc_CABundle := ca\<rparr>
      | (None, False, _) \<Rightarrow>
          (\<exists>port. portForClientConfig (cc_Service cc) ports = Inr port \<and> rewritable_config ca cc \<and>
             out = rewritten_config port ca cc))"
  by (auto simp: rewrite_by_namespace_def RewriteClientConfig_ok split: prod.splits option.splits bool.splits
      sum.splits)

lemma rewriteCRDByNamespace_ok:
  assumes "crd_Conversion crd = Some (Some (Some cc))"
  shows "rewriteCRDByNamespace crd ports ca ext = (None, out) \<longleftrightarrow>
    (\<exists>c. rewrite_by_namespace ports ca ext cc = (None, c) \<and> out = crd\<lparr>crd_Conversion := Some (Some (Some c))\<rparr>)"
  using assms unfolding rewriteCRDByNamespace_def rewrite_by_namespace_ok port_lookups_equal
  by (auto simp: RewriteCRDConversion_ok split: prod.splits option.splits bool.splits sum.splits)

lemma rewrite_typed_ok:
  "rewrite_typed ports ca ext x = (None, y) \<longleftrightarrow>
     supported x \<and> (\<forall>cc \<in> set (client_configs x). fst (rewrite_by_namespace ports ca ext cc) = None) \<and>
     y = map_configs (\<lambda>cc. snd (rewrite_by_namespace ports ca ext cc)) x"
proof -
  let ?f = "rewrite_by_namespace ports ca ext"
  have prod: "map_prod id c r = (None, y) \<longleftrightarrow> (\<exists>z. r = (None, z) \<and> y = c z)"
    for c :: "'z \<Rightarrow> ('a, 'b) typed_object" and r :: "rewrite_error option \<times> 'z"
    by (cases r) auto
  show ?thesis
  proof (cases x)
    case (CRD crd)
    show ?thesis
    proof (cases "\<exists>cc. crd_Conversion crd = Some (Some (Some cc))")
      case True
      then obtain cc where cc: "crd_Conversion crd = Some (Some (Some cc))" by blast
      then show ?thesis
        by (cases "?f cc") (auto simp: CRD rewrite_typed_def prod rewriteCRDByNamespace_ok)
    next
      case False
      then have "rewriteCRDByNamespace crd ports ca ext = (None, crd)" and none: "client_configs x = []"
        using CRD by (auto simp: rewriteCRDByNamespace_def split: option.splits)
      moreover have "map_configs g x = x" for g by (rule map_configs_id) (simp add: none)
      ultimately show ?thesis using CRD by (auto simp: rewrite_typed_def)
    qed
  qed (auto simp: rewrite_typed_def prod rewriteMutatingByNamespace_def rewriteValidatingByNamespace_def
      on_webhooks_ok map_webhooks_def)
qed

lemma RewriteAll_ok:
  "RewriteAll objs ports ca opts = (None, out) \<longleftrightarrow>
     (\<forall>x \<in> set objs. supported x \<and>
        (\<forall>cc \<in> set (client_configs x). fst (rewrite_by_namespace ports ca (apply_options opts) cc) = None)) \<and>
     out = map (map_configs (\<lambda>cc. snd (rewrite_by_namespace ports ca (apply_options opts) cc))) objs"
  unfolding RewriteAll_def for_each_ok_iff rewrite_typed_ok
proof (induction objs arbitrary: out)
  case Nil
  then show ?case by auto
next
  case (Cons x xs)
  then show ?case by (cases out) auto
qed

text \<open>
  C17. \<open>RewriteAll\<close> is the rewrite of every client configuration, wherever it stands: the call
  succeeds exactly when all objects are of supported kinds and every client configuration of
  theirs can be rewritten, and then it has replaced each of them by its rewrite and nothing
  else; names, rules, order and all other fields are kept.
\<close>

theorem RewriteAll_exact:
  "RewriteAll objs ports ca opts = (None, out) \<longleftrightarrow>
     (\<forall>x \<in> set objs. supported x \<and>
        (\<forall>cc \<in> set (client_configs x). fst (rewrite_by_namespace ports ca (apply_options opts) cc) = None)) \<and>
     out = map (map_configs (\<lambda>cc. snd (rewrite_by_namespace ports ca (apply_options opts) cc))) objs"
  by (rule RewriteAll_ok)

section \<open>Running it again\<close>

text \<open>A client configuration as the API server admits it: a service or a URL, not both, and a
  rooted service path. \<open>apart\<close> says that the port of its service is not an external one.\<close>

definition admitted :: "client_config \<Rightarrow> bool" where
  "admitted cc \<longleftrightarrow>
     (cc_Service cc = None \<or> cc_URL cc = None) \<and>
     (\<forall>svc p. cc_Service cc = Some svc \<longrightarrow> svc_Path svc = Some p \<longrightarrow> p = [] \<or> hd p = CHR ''/'')"

definition apart :: "(string \<rightharpoonup> int) \<Rightarrow> external_webhook \<Rightarrow> client_config \<Rightarrow> bool" where
  "apart ports e cc \<longleftrightarrow>
     (\<forall>svc n. cc_Service cc = Some svc \<longrightarrow> ports (svc_Namespace svc) = Some n \<longrightarrow>
        0 \<le> n \<and> n < 65536 \<and> \<not> ext_ports e n)"

definition settled_config :: "string \<Rightarrow> external_webhook \<Rightarrow> client_config \<Rightarrow> bool" where
  "settled_config ca e cc \<longleftrightarrow>
     configured ca cc \<and> (\<forall>raw u. cc_URL cc = Some raw \<longrightarrow> \<not> redirected e raw u)"

lemma settled_config_stable:
  assumes "settled_config ca e cc"
  shows "rewrite_by_namespace ports ca e cc = (None, cc)"
proof -
  from assms obtain raw where raw: "cc_URL cc = Some raw" and c: "configured ca cc"
    and no: "\<And>u. \<not> redirected e raw u"
    by (auto simp: settled_config_def configured_def)
  have "rewriteLoopbackURL e (cc_URL cc) ca = (None, False, Some raw)"
    using raw no by (simp add: rewriteLoopbackURL_cases split: option.splits)
  moreover have "portForClientConfig (cc_Service cc) ports = Inr 0"
    using c by (simp add: portForClientConfig_def configured_def)
  moreover have "RewriteClientConfig cc 0 ca = (None, cc)" using c by (rule client.settled_stable)
  ultimately show ?thesis by (simp add: rewrite_by_namespace_def)
qed

lemma service_url_not_redirected:
  assumes "0 \<le> n" "n < 65536" "\<not> ext_ports e n"
    and "\<forall>p. svc_Path svc = Some p \<longrightarrow> p = [] \<or> hd p = CHR ''/''"
  shows "\<not> redirected e (loopback_url n svc) u"
proof
  assume r: "redirected e (loopback_url n svc) u"
  let ?t = "case svc_Path svc of None \<Rightarrow> [] | Some p \<Rightarrow> p"
  have parse: "url_Parse (''https://'' @ [] @ ''localhost'' @ colon # Itoa n @ ?t) = Some u"
    using r by (simp add: redirected_def loopback_url_def)
  have "plain_host ''localhost''" by (simp add: plain_host_def host_char_def alnum_def byte_val_def)
  moreover have "?t = [] \<or> hd ?t \<in> set ''/?#''" using assms(4) by (cases "svc_Path svc") auto
  ultimately have "url_Port u = Itoa n"
    using parsed_plain_host [OF parse _ Itoa_digits [OF assms(1)]] by simp
  moreover have "Atoi (Itoa n) = Some n" using assms by (intro Atoi_Itoa) auto
  ultimately show False using r assms(3) by (simp add: redirected_def)
qed

lemma rewrite_by_namespace_settles:
  assumes run: "rewrite_by_namespace ports ca e cc = (None, out)"
    and safe: "active e \<longrightarrow> safe_external e" and adm: "admitted cc" and apart: "apart ports e cc"
  shows "settled_config ca e out"
proof (cases "\<exists>raw u. cc_URL cc = Some raw \<and> redirected e raw u")
  case True
  then obtain raw u where raw: "cc_URL cc = Some raw" "redirected e raw u" by blast
  then have parse: "url_Parse raw = Some u" and act: "active e" by (simp_all add: redirected_def)
  let ?new = "url_String (u\<lparr>url_Scheme := ''https'', url_Host := ext_host e @ '':'' @ url_Port u\<rparr>)"
  have "ca \<noteq> []" and "out = cc\<lparr>cc_URL := Some ?new, cc_CABundle := ca\<rparr>"
    using run raw parse by (auto simp: rewrite_by_namespace_ok rewriteLoopbackURL_cases split: if_splits)
  moreover have "cc_Service cc = None" using adm raw by (simp add: admitted_def)
  moreover have "\<not> redirected e ?new v" for v using redirected_again [OF raw(2)] safe act by blast
  ultimately show ?thesis by (simp add: settled_config_def configured_def)
next
  case False
  then have "rewriteLoopbackURL e (cc_URL cc) ca = (None, False, cc_URL cc)"
    by (cases "cc_URL cc") (auto simp: rewriteLoopbackURL_cases split: option.splits)
  with run obtain n where n: "portForClientConfig (cc_Service cc) ports = Inr n"
    and ok: "rewritable_config ca cc" and out: "out = rewritten_config n ca cc"
    by (auto simp: rewrite_by_namespace_ok)
  have conf: "configured ca out"
    using ok out by (auto simp: configured_def rewritable_config_def rewritten_config_def split: option.splits)
  have "\<not> redirected e raw u" if "cc_URL out = Some raw" for raw u
  proof (cases "cc_Service cc")
    case None
    with that out False show ?thesis by (simp add: rewritten_config_def)
  next
    case (Some svc)
    with n have "ports (svc_Namespace svc) = Some n"
      by (auto simp: portForClientConfig_def split: option.splits)
    with Some apart adm have "0 \<le> n" "n < 65536" "\<not> ext_ports e n"
      "\<forall>p. svc_Path svc = Some p \<longrightarrow> p = [] \<or> hd p = CHR ''/''"
      by (auto simp: apart_def admitted_def)
    from service_url_not_redirected [OF this] Some that out show ?thesis by (simp add: rewritten_config_def)
  qed
  with conf show ?thesis by (simp add: settled_config_def)
qed


text \<open>
  Witnesses. A service in namespace n and a URL of the external manager, then the case the
  hypothesis on the ports excludes: when a service has the port of the external manager, its
  own loopback URL is redirected by the second run.
\<close>

definition sample_external :: rewrite_option where
  "sample_external = WithExternalWebhookHost ''host.internal'' [9443]"

definition config_of :: "client_config \<Rightarrow> (unit, unit) typed_object" where
  "config_of cc = MutatingConfig \<lparr>Webhooks = [\<lparr>wh_Name = ''w'', wh_ClientConfig = cc, wh_Rest = ()\<rparr>], wc_Rest = ()\<rparr>"

definition service_config :: client_config where
  "service_config = \<lparr>cc_URL = None,
     cc_Service = Some \<lparr>svc_Namespace = ''n'', svc_Name = ''s'', svc_Path = Some ''/p''\<rparr>, cc_CABundle = []\<rparr>"

definition url_config :: "string \<Rightarrow> string \<Rightarrow> client_config" where
  "url_config u ca = \<lparr>cc_URL = Some u, cc_Service = None, cc_CABundle = ca\<rparr>"

lemma sample_external_state:
  "apply_options [Some sample_external] = \<lparr>ext_host = ''host.internal'', ext_ports = (\<lambda>_. False)(9443 := True)\<rparr>"
  by (simp add: apply_options_def sample_external_def WithExternalWebhookHost_def no_external_def)

lemma sample_safe: "safe_external (apply_options [Some sample_external])"
  by (simp add: sample_external_state safe_external_def plain_host_def host_char_def alnum_def byte_val_def
      isLoopbackAuthority_def leading_rune_def fold_forms_def other_case_def)

theorem RewriteMutatingConfig_correct_witness:
  "RewriteMutatingConfig
     \<lparr>Webhooks = [\<lparr>wh_Name = ''w'', wh_ClientConfig = url_config ''https://localhost:1/p'' ''ca'', wh_Rest = ()\<rparr>], wc_Rest = ()\<rparr>
     2 ''ca'' =
     (None, \<lparr>Webhooks = [\<lparr>wh_Name = ''w'', wh_ClientConfig = url_config ''https://localhost:1/p'' ''ca'', wh_Rest = ()\<rparr>], wc_Rest = ()\<rparr>)"
proof -
  let ?in = "\<lparr>Webhooks = [\<lparr>wh_Name = ''w'', wh_ClientConfig = service_config, wh_Rest = ()\<rparr>], wc_Rest = ()\<rparr>"
  have "RewriteMutatingConfig ?in 1 ''ca'' =
     (None, \<lparr>Webhooks = [\<lparr>wh_Name = ''w'', wh_ClientConfig = url_config ''https://localhost:1/p'' ''ca'', wh_Rest = ()\<rparr>], wc_Rest = ()\<rparr>)"
    by (simp add: RewriteMutatingConfig_def on_webhooks_def on_client_config_def RewriteClientConfig_def
        service_config_def url_config_def webhookURLPrefix_def go_eval)
  with RewriteMutatingConfig_correct [of ?in 1 "''ca''" 2] show ?thesis by blast
qed

theorem RewriteAll_exact_witness:
  "RewriteAll [config_of (url_config ''u'' [])] (\<lambda>_. None) ''ca'' [] = (None, [config_of (url_config ''u'' ''ca'')])"
  by (rule RewriteAll_exact [THEN iffD2])
    (simp add: config_of_def url_config_def rewrite_by_namespace_def portForClientConfig_def
      RewriteClientConfig_def rewriteLoopbackURL_def active_def apply_options_def no_external_def map_webhooks_def)

theorem redirect_keeps_path_witness:
  "rewriteLoopbackURL (apply_options [Some sample_external]) (Some ''http://127.0.0.1:9443/convert'') ''ca'' =
     (None, True, Some ''https://host.internal:9443/convert'')"
proof -
  let ?e = "apply_options [Some sample_external]"
  have "path_ok ''/convert''" by (simp add: path_ok_def go_eval)
  moreover have "plain_host (ext_host ?e)" using sample_safe by (simp add: safe_external_def)
  moreover have "Atoi ''9443'' = Some 9443" by (simp add: go_eval)
  ultimately have "rewriteLoopbackURL ?e (Some (''http'' @ ''://'' @ ''127.0.0.1'' @ '':'' @ ''9443'' @ ''/convert'')) ''ca'' =
      (None, True, Some (''https://'' @ ext_host ?e @ '':'' @ ''9443'' @ ''/convert''))"
    by (intro redirect_keeps_path) (simp_all add: letter_def byte_val_def is_digit_def sample_external_state)
  then show ?thesis by (simp add: sample_external_state)
qed

lemma run_service:
  "rewrite_by_namespace [''n'' \<mapsto> 9444] ''ca'' e service_config =
     (None, url_config ''https://localhost:9444/p'' ''ca'')"
  by (simp add: rewrite_by_namespace_def service_config_def portForClientConfig_def RewriteClientConfig_def
      webhookURLPrefix_def url_config_def go_eval)



end
