(* ===== verification/Pipeline.thy ===== *)
theory Pipeline
  imports Rbac WebhookRewrite Components GoPath
begin

text \<open>
  The pure functions of \<open>cmd/capishim/setup.go\<close>: from the manifest files to the batches of
  objects that the setup command applies. Reading a file is an argument (\<open>read\<close>), as are the
  decoder and the converter between typed and unstructured objects.
\<close>

section \<open>Loading without duplicates\<close>

definition objectIdentity :: "k8s_lib \<Rightarrow> obj \<Rightarrow> string" where
  "objectIdentity L x =
     GetAPIVersion L x @ nul # GetKind L x @ nul # GetNamespace L x @ nul # GetName L x"

datatype content_conflict = DifferentContent string string string string string string

datatype 'f dedupe_error = LoadFailed "'f load_error" | Conflict content_conflict

record dedupe_state =
  dd_objs :: "obj list"
  dd_sources :: "string list"
  dd_first :: "string \<rightharpoonup> nat"

text \<open>The body of the inner loop; \<open>reflect.DeepEqual\<close> on decoded maps is equality of values.\<close>

definition dedupe_one ::
  "k8s_lib \<Rightarrow> string \<Rightarrow> obj \<Rightarrow> dedupe_state \<Rightarrow> content_conflict + dedupe_state" where
  "dedupe_one L path x s =
     (let i = objectIdentity L x
      in case dd_first s i of
           None \<Rightarrow>
             Inr (s\<lparr>dd_first := (dd_first s)(i \<mapsto> length (dd_objs s)),
                    dd_objs := dd_objs s @ [x], dd_sources := dd_sources s @ [path]\<rparr>)
         | Some first \<Rightarrow>
             if dd_objs s ! first = x then Inr s
             else Inl (DifferentContent (GetAPIVersion L x) (GetKind L x) (GetName L x) (GetNamespace L x)
               (dd_sources s ! first) path))"

fun dedupe_docs ::
  "k8s_lib \<Rightarrow> string \<Rightarrow> obj list \<Rightarrow> dedupe_state \<Rightarrow> content_conflict + dedupe_state" where
  "dedupe_docs L path [] s = Inr s"
| "dedupe_docs L path (x # xs) s = bind_result (dedupe_one L path x s) (dedupe_docs L path xs)"

fun dedupe_files ::
  "k8s_lib \<Rightarrow> (string \<Rightarrow> 'f + string) \<Rightarrow> 's decoder \<Rightarrow> string list \<Rightarrow> dedupe_state \<Rightarrow>
   'f dedupe_error + dedupe_state" where
  "dedupe_files L read D [] s = Inr s"
| "dedupe_files L read D (path # paths) s =
     bind_result (wrap_err (\<lambda>e. LoadFailed (ReadFailed path e)) (read path)) (\<lambda>data.
     bind_result (wrap_err (\<lambda>e. LoadFailed (ParseFailed path e)) (Parse D data)) (\<lambda>parsed.
     bind_result (wrap_err Conflict (dedupe_docs L path parsed s)) (dedupe_files L read D paths)))"

definition LoadDedupedObjects ::
  "k8s_lib \<Rightarrow> (string \<Rightarrow> 'f + string) \<Rightarrow> 's decoder \<Rightarrow> string list \<Rightarrow> 'f dedupe_error + obj list" where
  "LoadDedupedObjects L read D paths =
     bind_result (dedupe_files L read D paths
         \<lparr>dd_objs = [], dd_sources = [], dd_first = (\<lambda>_. None)\<rparr>)
       (\<lambda>s. Inr (dd_objs s))"

definition providerManifestFile :: string where "providerManifestFile = ''provider.yaml''"

definition ProviderManifestFiles :: "string \<Rightarrow> string list" where
  "ProviderManifestFiles dir =
     [PathJoin [dir, ''core'', providerManifestFile],
      PathJoin [dir, ''cabpk'', providerManifestFile],
      PathJoin [dir, ''kcp'', providerManifestFile],
      PathJoin [dir, ''capd'', providerManifestFile],
      PathJoin [dir, ''infrastructure-hypervisor'', providerManifestFile],
      PathJoin [dir, ''bootstrap-hypervisor'', providerManifestFile],
      PathJoin [dir, ''control-plane-hypervisor'', providerManifestFile]]"

section \<open>Filters\<close>

definition servedCAPIVersion :: string where "servedCAPIVersion = ''v1beta2''"

definition capiServedGroups :: "string \<Rightarrow> bool" where
  "capiServedGroups g \<longleftrightarrow> g = ''cluster.x-k8s.io'' \<or> g = ''addons.cluster.x-k8s.io''"

definition fieldSpec :: string where "fieldSpec = ''spec''"
definition fieldVersions :: string where "fieldVersions = ''versions''"
definition fieldConversion :: string where "fieldConversion = ''conversion''"

definition crdSpecGroup :: "k8s_lib \<Rightarrow> obj \<Rightarrow> string" where
  "crdSpecGroup L crd =
     (case NestedString L crd [fieldSpec, ''group''] of Inl _ \<Rightarrow> [] | Inr (g, _) \<Rightarrow> g)"

definition crdVersionsList :: "k8s_lib \<Rightarrow> obj \<Rightarrow> json list \<times> bool" where
  "crdVersionsList L crd =
     (case NestedFieldNoCopy L crd [fieldSpec, fieldVersions] of
        Inr (Some raw) \<Rightarrow> (case as_list raw of Some versions \<Rightarrow> (versions, True) | None \<Rightarrow> ([], False))
      | _ \<Rightarrow> ([], False))"

definition served_entry :: "json \<Rightarrow> bool" where
  "served_entry v =
     (case as_map v of
        None \<Rightarrow> False
      | Some entry \<Rightarrow>
          (case string_field entry ''name'' of Some n \<Rightarrow> n | None \<Rightarrow> []) = servedCAPIVersion)"

definition v1Beta2VersionEntry :: "json list \<Rightarrow> json option" where
  "v1Beta2VersionEntry versions = find served_entry versions"

text \<open>The body of the loop: the object to append, none when it is dropped.\<close>

definition restrict_one :: "k8s_lib \<Rightarrow> obj \<Rightarrow> obj option" where
  "restrict_one L x =
     (if GetKind L x \<noteq> kindCustomResourceDefinition \<or> \<not> capiServedGroups (crdSpecGroup L x) then Some x
      else (case crdVersionsList L x of
              (versions, wellFormed) \<Rightarrow>
                if \<not> wellFormed then Some x
                else (case v1Beta2VersionEntry versions of
                        None \<Rightarrow> None
                      | Some v1beta2 \<Rightarrow>
                          (case Option.bind (x fieldSpec) as_map of
                             None \<Rightarrow> None
                           | Some spec \<Rightarrow>
                               Some (x(fieldSpec \<mapsto> JObj (spec(fieldVersions \<mapsto> JArr [v1beta2],
                                                              fieldConversion := None))))))))"

definition RestrictCAPIVersionsToV1Beta2 :: "k8s_lib \<Rightarrow> obj list \<Rightarrow> obj list" where
  "RestrictCAPIVersionsToV1Beta2 L objs = List.map_filter (restrict_one L) objs"

definition keepObjects :: "k8s_lib \<Rightarrow> obj list \<Rightarrow> obj list" where
  "keepObjects L objs = filter (\<lambda>x. Keep L (Some x)) objs"

definition WithoutRBACBindings :: "k8s_lib \<Rightarrow> obj list \<Rightarrow> obj list" where
  "WithoutRBACBindings L objs =
     filter (\<lambda>x. GetKind L x \<noteq> kindClusterRoleBinding \<and> GetKind L x \<noteq> kindRoleBinding) objs"

fun crd_names_loop :: "k8s_lib \<Rightarrow> string set \<Rightarrow> string list \<Rightarrow> obj list \<Rightarrow> string list" where
  "crd_names_loop L seen names [] = names"
| "crd_names_loop L seen names (x # xs) =
     (if GetKind L x \<noteq> kindCustomResourceDefinition then crd_names_loop L seen names xs
      else if GetName L x \<in> seen then crd_names_loop L seen names xs
      else crd_names_loop L (insert (GetName L x) seen) (names @ [GetName L x]) xs)"

definition CrdNamesFrom :: "k8s_lib \<Rightarrow> obj list \<Rightarrow> string list" where
  "CrdNamesFrom L objs = crd_names_loop L {} [] objs"

definition CRDNames :: "string list" where
  "CRDNames =
     [''clusterclasses.cluster.x-k8s.io'',
      ''clusterresourcesets.addons.cluster.x-k8s.io'',
      ''clusters.cluster.x-k8s.io'',
      ''devclusters.infrastructure.cluster.x-k8s.io'',
      ''devclustertemplates.infrastructure.cluster.x-k8s.io'',
      ''devmachines.infrastructure.cluster.x-k8s.io'',
      ''devmachinetemplates.infrastructure.cluster.x-k8s.io'',
      ''devmachinepooltemplates.infrastructure.cluster.x-k8s.io'',
      ''kubeadmconfigs.bootstrap.cluster.x-k8s.io'',
      ''kubeadmconfigtemplates.bootstrap.cluster.x-k8s.io'',
      ''kubeadmcontrolplanes.controlplane.cluster.x-k8s.io'',
      ''machinedeployments.cluster.x-k8s.io'',
      ''machinehealthchecks.cluster.x-k8s.io'',
      ''machines.cluster.x-k8s.io'',
      ''machinesets.cluster.x-k8s.io'']"

section \<open>Typed objects\<close>

record ('r, 'm) converter =
  FromMutating :: "obj \<Rightarrow> string + ('r, 'm) webhook_configuration"
  FromValidating :: "obj \<Rightarrow> string + ('r, 'm) webhook_configuration"
  FromCRD :: "obj \<Rightarrow> string + 'm crd"
  ToUnstructured :: "('r, 'm) typed_object \<Rightarrow> string + obj"

datatype convert_error = FromFailed string string string | ToFailed string

fun webhook_objects_loop ::
  "k8s_lib \<Rightarrow> ('r, 'm) converter \<Rightarrow> obj list \<Rightarrow> convert_error + ('r, 'm) typed_object list" where
  "webhook_objects_loop L V [] = Inr []"
| "webhook_objects_loop L V (x # xs) =
     (let fail = FromFailed (GetKind L x) (GetName L x);
          more = (\<lambda>t. bind_result (webhook_objects_loop L V xs) (\<lambda>ts. Inr (t # ts)))
      in if GetKind L x = kindMutatingWebhookConfiguration then
           bind_result (wrap_err fail (FromMutating V x)) (\<lambda>t. more (MutatingConfig t))
         else if GetKind L x = kindValidatingWebhookConfiguration then
           bind_result (wrap_err fail (FromValidating V x)) (\<lambda>t. more (ValidatingConfig t))
         else if GetKind L x = kindCustomResourceDefinition then
           bind_result (wrap_err fail (FromCRD V x)) (\<lambda>t. more (CRD t))
         else webhook_objects_loop L V xs)"

definition WebhookObjects ::
  "k8s_lib \<Rightarrow> ('r, 'm) converter \<Rightarrow> obj list \<Rightarrow> convert_error + ('r, 'm) typed_object list" where
  "WebhookObjects L V kept = webhook_objects_loop L V kept"

definition UnstructuredObjects ::
  "('r, 'm) converter \<Rightarrow> ('r, 'm) typed_object list \<Rightarrow> convert_error + obj list" where
  "UnstructuredObjects V objects = traverse (\<lambda>x. wrap_err ToFailed (ToUnstructured V x)) objects"

section \<open>Maps from the component table\<close>

definition ManagerCNByNamespace :: "string \<rightharpoonup> string" where
  "ManagerCNByNamespace =
     namespace_map (\<lambda>s. ProviderNamespace s \<noteq> [] \<and> ManagerCN s \<noteq> []) ManagerCN Components (\<lambda>_. None)"

definition WebhookPortsByNamespace :: "string \<rightharpoonup> int" where
  "WebhookPortsByNamespace =
     namespace_map (\<lambda>s. \<not> External s \<and> ProviderNamespace s \<noteq> [] \<and> WebhookPort s \<noteq> 0) WebhookPort
       Components (\<lambda>_. None)"

definition RewriteWebhookPortsByNamespace :: "string \<rightharpoonup> int" where
  "RewriteWebhookPortsByNamespace =
     namespace_map (\<lambda>s. \<not> (\<not> External s \<or> ProviderNamespace s = [] \<or> WebhookPort s = 0)) WebhookPort
       Components WebhookPortsByNamespace"

section \<open>The loaded set\<close>

text \<open>What the state of the loop means: the objects seen so far, each identity once, with the
  index under which it was stored.\<close>

definition dedupe_inv :: "k8s_lib \<Rightarrow> obj list \<Rightarrow> dedupe_state \<Rightarrow> bool" where
  "dedupe_inv L docs s \<longleftrightarrow>
     dd_objs s = first_by (objectIdentity L) docs \<and>
     length (dd_sources s) = length (dd_objs s) \<and>
     (\<forall>i k. dd_first s i = Some k \<longleftrightarrow> k < length (dd_objs s) \<and> objectIdentity L (dd_objs s ! k) = i) \<and>
     (\<forall>x \<in> set docs. \<forall>y \<in> set docs. objectIdentity L x = objectIdentity L y \<longrightarrow> x = y)"

lemma first_by_aux_snoc:
  "first_by_aux k seen (xs @ [x]) =
     (if k x \<in> set seen \<union> k ` set xs then first_by_aux k seen xs else first_by_aux k seen xs @ [x])"
  by (induction xs arbitrary: seen) auto

lemma first_by_snoc:
  "first_by k (xs @ [x]) = (if k x \<in> k ` set xs then first_by k xs else first_by k xs @ [x])"
  by (simp add: first_by_def first_by_aux_snoc)

lemma subseq_subset: "subseq xs ys \<Longrightarrow> x \<in> set xs \<Longrightarrow> x \<in> set ys"
  by (induction rule: list_emb.induct) auto

lemma first_by_subset: "set (first_by k xs) \<subseteq> set xs"
  using first_by_subseq [of k xs] by (auto dest: subseq_subset)

lemma dedupe_one_inv:
  assumes inv: "dedupe_inv L docs s" and step: "dedupe_one L path x s = Inr t"
  shows "dedupe_inv L (docs @ [x]) t"
proof -
  let ?id = "objectIdentity L"
  have objs: "dd_objs s = first_by ?id docs"
    and first: "\<And>i k. dd_first s i = Some k \<longleftrightarrow> k < length (dd_objs s) \<and> ?id (dd_objs s ! k) = i"
    and same: "\<And>a b. a \<in> set docs \<Longrightarrow> b \<in> set docs \<Longrightarrow> ?id a = ?id b \<Longrightarrow> a = b"
    using inv unfolding dedupe_inv_def by blast+
  have keys: "?id ` set (dd_objs s) = ?id ` set docs" using objs by (simp add: first_by_keys)
  show ?thesis
  proof (cases "dd_first s (?id x)")
    case (Some k)
    then have k: "k < length (dd_objs s)" "?id (dd_objs s ! k) = ?id x" by (simp_all add: first)
    with step Some have t: "t = s" and x: "dd_objs s ! k = x"
      by (auto simp: dedupe_one_def Let_def split: if_splits)
    then have "x \<in> set docs" using nth_mem [OF k(1)] objs first_by_subset [of ?id docs] by auto
    with inv t show ?thesis unfolding dedupe_inv_def by (auto simp: first_by_snoc)
  next
    case None
    have fresh: "?id x \<notin> ?id ` set docs"
    proof -
      have "?id (dd_objs s ! k) \<noteq> ?id x" if "k < length (dd_objs s)" for k
        using first [of "?id x" k] None that by simp
      then show ?thesis unfolding keys [symmetric] by (metis imageE in_set_conv_nth)
    qed
    from None step have t: "t = s\<lparr>dd_first := (dd_first s)(?id x \<mapsto> length (dd_objs s)),
        dd_objs := dd_objs s @ [x], dd_sources := dd_sources s @ [path]\<rparr>"
      by (simp add: dedupe_one_def Let_def)
    have index: "dd_first t i = Some k \<longleftrightarrow> k < length (dd_objs t) \<and> ?id (dd_objs t ! k) = i" for i k
    proof (cases "i = ?id x")
      case True
      have "?id (dd_objs s ! k) \<noteq> ?id x" if "k < length (dd_objs s)"
        using fresh that unfolding keys [symmetric] by (metis image_eqI nth_mem)
      with True t show ?thesis by (auto simp: nth_append less_Suc_eq)
    next
      case False
      with t first [of i k] show ?thesis by (auto simp: nth_append less_Suc_eq)
    qed
    have len: "length (dd_sources s) = length (dd_objs s)" using inv by (simp add: dedupe_inv_def)
    have "\<forall>a \<in> set (docs @ [x]). \<forall>b \<in> set (docs @ [x]). ?id a = ?id b \<longrightarrow> a = b"
      using same fresh by auto (metis imageI)+
    with index t len objs fresh show ?thesis unfolding dedupe_inv_def by (auto simp: first_by_snoc)
  qed
qed

lemma dedupe_one_ok:
  assumes inv: "dedupe_inv L docs s"
    and same: "\<forall>y \<in> set docs. objectIdentity L x = objectIdentity L y \<longrightarrow> x = y"
  shows "\<exists>t. dedupe_one L path x s = Inr t"
proof (cases "dd_first s (objectIdentity L x)")
  case (Some k)
  with inv have "k < length (dd_objs s)" "objectIdentity L (dd_objs s ! k) = objectIdentity L x"
    unfolding dedupe_inv_def by blast+
  moreover from this inv have "dd_objs s ! k \<in> set docs"
    unfolding dedupe_inv_def by (metis first_by_subset nth_mem subsetD)
  ultimately show ?thesis using Some same by (auto simp: dedupe_one_def Let_def)
qed (simp add: dedupe_one_def Let_def)

lemma dedupe_docs_inv:
  "dedupe_inv L docs s \<Longrightarrow> dedupe_docs L path xs s = Inr t \<Longrightarrow> dedupe_inv L (docs @ xs) t"
proof (induction xs arbitrary: docs s)
  case Nil
  then show ?case by simp
next
  case (Cons x xs)
  then obtain u where "dedupe_one L path x s = Inr u" "dedupe_docs L path xs u = Inr t"
    by (auto simp: bind_result_Inr_iff)
  with Cons.IH [OF dedupe_one_inv [OF Cons.prems(1)]] show ?case by simp
qed

lemma dedupe_docs_ok:
  "dedupe_inv L docs s \<Longrightarrow>
   (\<forall>x \<in> set (docs @ xs). \<forall>y \<in> set (docs @ xs). objectIdentity L x = objectIdentity L y \<longrightarrow> x = y) \<Longrightarrow>
   \<exists>t. dedupe_docs L path xs s = Inr t"
proof (induction xs arbitrary: docs s)
  case Nil
  then show ?case by simp
next
  case (Cons x xs)
  from Cons.prems have "\<forall>y \<in> set docs. objectIdentity L x = objectIdentity L y \<longrightarrow> x = y" by auto
  from dedupe_one_ok [OF Cons.prems(1) this] obtain u where u: "dedupe_one L path x s = Inr u" by blast
  from Cons.IH [OF dedupe_one_inv [OF Cons.prems(1) u]] Cons.prems(2) u show ?case by simp
qed

lemma dedupe_files_iff:
  "dedupe_inv L docs s \<Longrightarrow>
   (\<exists>t. dedupe_files L read D paths s = Inr t \<and> dd_objs t = out) \<longleftrightarrow>
   (\<exists>more. Load read D paths = Inr more \<and>
      (\<forall>x \<in> set (docs @ more). \<forall>y \<in> set (docs @ more). objectIdentity L x = objectIdentity L y \<longrightarrow> x = y) \<and>
      out = first_by (objectIdentity L) (docs @ more))"
proof (induction paths arbitrary: docs s)
  case Nil
  then show ?case by (auto simp: Load_def dedupe_inv_def)
next
  case (Cons p ps)
  show ?case
  proof (cases "bind_result (wrap_err (ReadFailed p) (read p)) (\<lambda>data. wrap_err (ParseFailed p) (Parse D data))")
    case (Inl e)
    then show ?thesis by (auto simp: Load_def bind_result_def wrap_err_def split: sum.splits)
  next
    case (Inr xs)
    then obtain data where data: "read p = Inr data" "Parse D data = Inr xs"
      by (auto simp: result_simps)
    have load: "Load read D (p # ps) = bind_result (Load read D ps) (\<lambda>more. Inr (xs @ more))"
      unfolding Load_def using data by (simp, subst load_loop_app, simp)
    have rhs: "(\<exists>more. Load read D (p # ps) = Inr more \<and> Q more) \<longleftrightarrow>
        (\<exists>more. Load read D ps = Inr more \<and> Q (xs @ more))" for Q
      unfolding load by (auto simp: bind_result_Inr_iff)
    have files: "dedupe_files L read D (p # ps) s =
        bind_result (wrap_err Conflict (dedupe_docs L p xs s)) (dedupe_files L read D ps)"
      using data by simp
    show ?thesis
    proof (cases "dedupe_docs L p xs s")
      case (Inr u)
      show ?thesis
        unfolding rhs files Inr wrap_err_simps bind_result_simps
        using Cons.IH [OF dedupe_docs_inv [OF Cons.prems Inr]] by simp
    next
      case (Inl e)
      have "\<not> (\<forall>x \<in> set (docs @ xs @ more). \<forall>y \<in> set (docs @ xs @ more).
          objectIdentity L x = objectIdentity L y \<longrightarrow> x = y)" for more
      proof
        assume "\<forall>x \<in> set (docs @ xs @ more). \<forall>y \<in> set (docs @ xs @ more).
          objectIdentity L x = objectIdentity L y \<longrightarrow> x = y"
        then have "\<forall>x \<in> set (docs @ xs). \<forall>y \<in> set (docs @ xs).
          objectIdentity L x = objectIdentity L y \<longrightarrow> x = y" by auto
        from dedupe_docs_ok [OF Cons.prems this, of p] Inl show False by simp
      qed
      then show ?thesis unfolding rhs by (simp only: files Inl wrap_err_simps bind_result_simps) simp
    qed
  qed
qed

lemma LoadDeduped_iff:
  "LoadDedupedObjects L read D paths = Inr out \<longleftrightarrow>
     (\<exists>docs. Load read D paths = Inr docs \<and>
        (\<forall>x \<in> set docs. \<forall>y \<in> set docs. objectIdentity L x = objectIdentity L y \<longrightarrow> x = y) \<and>
        out = first_by (objectIdentity L) docs)"
proof -
  have "dedupe_inv L [] \<lparr>dd_objs = [], dd_sources = [], dd_first = (\<lambda>_. None)\<rparr>"
    by (simp add: dedupe_inv_def first_by_def)
  from dedupe_files_iff [OF this, of read D paths out] show ?thesis
    by (auto simp: LoadDedupedObjects_def bind_result_Inr_iff)
qed

text \<open>
  C29. Loading with duplicates removed is loading everything and keeping the first copy of every
  identity, in order; it succeeds exactly when every file can be read and parsed and no two
  documents of one identity differ.
\<close>

theorem LoadDedupedObjects_first_copies:
  "LoadDedupedObjects L read D paths = Inr out \<longleftrightarrow>
     (\<exists>docs. Load read D paths = Inr docs \<and>
        (\<forall>x \<in> set docs. \<forall>y \<in> set docs. objectIdentity L x = objectIdentity L y \<longrightarrow> x = y) \<and>
        out = first_by (objectIdentity L) docs)"
  by (rule LoadDeduped_iff)

lemma LoadDeduped_distinct:
  "LoadDedupedObjects L read D paths = Inr out \<Longrightarrow> distinct (map (objectIdentity L) out)"
  by (auto simp: LoadDeduped_iff first_by_distinct)

section \<open>The filters\<close>

lemma restrict_cases:
  assumes lib: "k8s_lib_ok L"
  shows "restrict_one L x =
    (if GetKind L x \<noteq> kindCustomResourceDefinition \<or> \<not> capiServedGroups (crdSpecGroup L x) then Some x
     else case x fieldSpec of
       Some (JObj spec) \<Rightarrow>
         (case spec fieldVersions of
            Some (JArr versions) \<Rightarrow>
              map_option (\<lambda>v. x(fieldSpec \<mapsto> JObj (spec(fieldVersions \<mapsto> JArr [v], fieldConversion := None))))
                (v1Beta2VersionEntry versions)
          | _ \<Rightarrow> Some x)
     | _ \<Rightarrow> Some x)"
proof (cases "x fieldSpec")
  case None
  then show ?thesis
    by (auto simp: restrict_one_def crdVersionsList_def lib_nested_field [OF lib])
next
  case (Some v)
  then show ?thesis
    by (cases v) (auto simp: restrict_one_def crdVersionsList_def lib_nested_field [OF lib]
        split: option.splits json.splits)
qed

definition capi_crd :: "k8s_lib \<Rightarrow> obj \<Rightarrow> bool" where
  "capi_crd L x \<longleftrightarrow> GetKind L x = kindCustomResourceDefinition \<and> capiServedGroups (crdSpecGroup L x)"

text \<open>The versions of a CRD, none when they are not a list.\<close>

definition versions_of :: "obj \<Rightarrow> json list option" where
  "versions_of x =
     (case x fieldSpec of Some (JObj spec) \<Rightarrow> (case spec fieldVersions of Some (JArr vs) \<Rightarrow> Some vs | _ \<Rightarrow> None)
      | _ \<Rightarrow> None)"

definition conversion_of :: "obj \<Rightarrow> json option" where
  "conversion_of x = (case x fieldSpec of Some (JObj spec) \<Rightarrow> spec fieldConversion | _ \<Rightarrow> None)"

text \<open>A Cluster API CRD that serves v1beta2 only, or that has no list of versions at all.\<close>

definition v1beta2_only :: "obj \<Rightarrow> bool" where
  "v1beta2_only x \<longleftrightarrow>
     (case versions_of x of
        None \<Rightarrow> True
      | Some vs \<Rightarrow> (\<exists>v. vs = [v] \<and> served_entry v) \<and> conversion_of x = None)"

lemma spec_names [simp]: "fieldVersions \<noteq> fieldConversion" "fieldSpec \<notin> set identity_keys"
    "fieldConversion \<noteq> fieldVersions" "fieldVersions \<noteq> ''group''" "fieldConversion \<noteq> ''group''"
    "''group'' \<noteq> fieldVersions" "''group'' \<noteq> fieldConversion"
  by (simp_all add: fieldVersions_def fieldConversion_def fieldSpec_def identity_keys_def)

lemma find_served: "v1Beta2VersionEntry vs = Some v \<Longrightarrow> v \<in> set vs \<and> served_entry v"
  by (auto simp: v1Beta2VersionEntry_def find_Some_iff)

lemma restrict_one_props:
  assumes lib: "k8s_lib_ok L" and step: "restrict_one L x = Some y"
  shows "same_identity L y x \<and> crdSpecGroup L y = crdSpecGroup L x \<and> (\<not> capi_crd L x \<longrightarrow> y = x) \<and>
    (capi_crd L x \<longrightarrow> v1beta2_only y) \<and> (\<forall>k. k \<noteq> fieldSpec \<longrightarrow> y k = x k)"
proof (cases "capi_crd L x \<and> y \<noteq> x")
  case False
  have "v1beta2_only x" if "capi_crd L x" "y = x"
  proof (cases "versions_of x")
    case (Some vs)
    then obtain spec where spec: "x fieldSpec = Some (JObj spec)" "spec fieldVersions = Some (JArr vs)"
      by (auto simp: versions_of_def split: option.splits json.splits)
    with step that restrict_cases [OF lib, of x] obtain v where
      v: "v1Beta2VersionEntry vs = Some v"
        "x(fieldSpec \<mapsto> JObj (spec(fieldVersions \<mapsto> JArr [v], fieldConversion := None))) = x"
      by (auto simp: capi_crd_def)
    from v(2) spec(1) have "spec(fieldVersions \<mapsto> JArr [v], fieldConversion := None) = spec"
      by (metis fun_upd_same json.inject(6) option.inject)
    then have "spec fieldVersions = Some (JArr [v])" "spec fieldConversion = None"
      by (metis fun_upd_other fun_upd_same spec_names(1))+
    with spec v(1) show ?thesis
      by (auto simp: v1beta2_only_def versions_of_def conversion_of_def dest: find_served)
  qed (simp add: v1beta2_only_def)
  moreover have "\<not> capi_crd L x \<Longrightarrow> y = x" using step by (auto simp: restrict_one_def capi_crd_def)
  ultimately show ?thesis using False by (auto simp: same_identity_def)
next
  case True
  with step restrict_cases [OF lib, of x] obtain spec vs v where
    x: "x fieldSpec = Some (JObj spec)" "spec fieldVersions = Some (JArr vs)" "v1Beta2VersionEntry vs = Some v"
    and y: "y = x(fieldSpec \<mapsto> JObj (spec(fieldVersions \<mapsto> JArr [v], fieldConversion := None)))"
    by (auto simp: capi_crd_def split: option.splits json.splits)
  have "same_identity L y x" unfolding y by (rule lib_update_other [OF lib]) simp
  moreover have "crdSpecGroup L y = crdSpecGroup L x"
    using x by (simp add: crdSpecGroup_def lib_nested_string [OF lib] y)
  moreover have "v1beta2_only y"
    using find_served [OF x(3)] by (simp add: v1beta2_only_def versions_of_def conversion_of_def y)
  ultimately show ?thesis using True y by simp
qed

lemma restrict_one_fixed:
  assumes lib: "k8s_lib_ok L" and y: "capi_crd L y \<Longrightarrow> v1beta2_only y"
  shows "restrict_one L y = Some y"
proof (cases "capi_crd L y \<and> versions_of y \<noteq> None")
  case True
  then obtain spec v where s: "y fieldSpec = Some (JObj spec)" "spec fieldVersions = Some (JArr [v])"
    "spec fieldConversion = None" "served_entry v"
    using y by (auto simp: v1beta2_only_def versions_of_def conversion_of_def split: option.splits json.splits)
  then have "v1Beta2VersionEntry [v] = Some v" by (simp add: v1Beta2VersionEntry_def)
  moreover have "spec(fieldVersions \<mapsto> JArr [v], fieldConversion := None) = spec"
    using s by (auto simp: fun_eq_iff)
  moreover from this s(1) have "y(fieldSpec \<mapsto> JObj (spec(fieldVersions \<mapsto> JArr [v], fieldConversion := None))) = y"
    by (simp add: fun_upd_idem)
  ultimately show ?thesis using s by (simp add: restrict_cases [OF lib])
next
  case False
  then show ?thesis
    by (auto simp: restrict_cases [OF lib] capi_crd_def versions_of_def split: option.splits json.splits)
qed

lemma map_filter_Some_id: "(\<And>x. x \<in> set xs \<Longrightarrow> f x = Some x) \<Longrightarrow> List.map_filter f xs = xs"
  by (induction xs) (auto simp: List.map_filter_def)

lemma map_filter_mem: "y \<in> set (List.map_filter f xs) \<longleftrightarrow> (\<exists>x \<in> set xs. f x = Some y)"
  by (force simp: List.map_filter_def)


text \<open>The names to wait for: first-seen, without repetition.\<close>

lemma crd_names_loop_eq:
  "set names = seen \<Longrightarrow>
   crd_names_loop L seen names xs =
     names @ first_by_aux id (rev names)
       (map (GetName L) (filter (\<lambda>x. GetKind L x = kindCustomResourceDefinition) xs))"
proof (induction xs arbitrary: seen names)
  case Nil
  then show ?case by simp
next
  case (Cons x xs)
  from Cons.IH [OF Cons.prems] Cons.IH [of "names @ [GetName L x]" "insert (GetName L x) seen"] Cons.prems
  show ?case by auto
qed

lemma CrdNames_first:
  "CrdNamesFrom L objs =
     first_by id (map (GetName L) (filter (\<lambda>x. GetKind L x = kindCustomResourceDefinition) objs))"
  using crd_names_loop_eq [of "[]" "{}" L objs] by (simp add: CrdNamesFrom_def first_by_def)

text \<open>
  The wait list names every CRD of the loaded set once and nothing else.
\<close>

theorem CrdNamesFrom_complete:
  "distinct (CrdNamesFrom L objs) \<and>
   set (CrdNamesFrom L objs) = {GetName L x | x. x \<in> set objs \<and> GetKind L x = kindCustomResourceDefinition}"
  using first_by_distinct [of id "map (GetName L) (filter (\<lambda>x. GetKind L x = kindCustomResourceDefinition) objs)"]
    first_by_keys [of id "map (GetName L) (filter (\<lambda>x. GetKind L x = kindCustomResourceDefinition) objs)"]
  by (auto simp: CrdNames_first)

section \<open>The batches\<close>

text \<open>
  What the pipeline asks of the manifests: names and namespaces without NUL bytes, no namespace
  on a cluster-scoped object, one spelling of the apiVersion per group and version.
\<close>

definition clean_manifests :: "k8s_lib \<Rightarrow> obj list \<Rightarrow> bool" where
  "clean_manifests L xs \<longleftrightarrow>
     (\<forall>x \<in> set xs. nul \<notin> set (GetName L x) \<and> nul \<notin> set (GetNamespace L x)) \<and>
     (\<forall>x \<in> set xs. \<forall>ref. resourceFor (GetKind L x) = Some ref \<longrightarrow> \<not> namespaced ref \<longrightarrow> GetNamespace L x = []) \<and>
     (\<forall>x \<in> set xs. \<forall>y \<in> set xs. GroupVersionKind L x = GroupVersionKind L y \<longrightarrow>
        GetAPIVersion L x = GetAPIVersion L y)"

lemma nul_split:
  "nul \<notin> set a \<Longrightarrow> nul \<notin> set c \<Longrightarrow> a @ nul # b = c @ nul # d \<longleftrightarrow> a = c \<and> b = d"
proof (induction a arbitrary: c)
  case Nil
  then show ?case by (cases c) auto
next
  case (Cons x a)
  then show ?case by (cases c) auto
qed

lemma kinds_no_nul: "k \<in> set applied_kinds \<Longrightarrow> nul \<notin> set k"
  by (auto simp: applied_kinds_def kind_defs nul_def)

lemma Keep_known: "k8s_lib_ok L \<Longrightarrow> Keep L (Some x) \<Longrightarrow> GetKind L x \<in> set applied_kinds"
  by (auto simp: Keep_def kept_gvks_def WithKind_def applied_kinds_def lib_gvk_kind [symmetric])

lemma Keep_gvk:
  assumes "k8s_lib_ok L" "Keep L (Some x)" "Keep L (Some y)" "GetKind L x = GetKind L y"
  shows "GroupVersionKind L x = GroupVersionKind L y"
proof -
  have "distinct (map gvk_kind kept_gvks)" by (simp add: kept_gvks_def WithKind_def)
  moreover have "GroupVersionKind L x \<in> set kept_gvks" "GroupVersionKind L y \<in> set kept_gvks"
    using assms(2, 3) by (simp_all add: Keep_def)
  moreover have "gvk_kind (GroupVersionKind L x) = gvk_kind (GroupVersionKind L y)"
    using assms(1, 4) by (simp add: lib_gvk_kind)
  ultimately show ?thesis unfolding distinct_map by (blast dest: inj_onD)
qed

lemma apply_id_identity:
  assumes lib: "k8s_lib_ok L" and clean: "clean_manifests L xs"
    and x: "x \<in> set xs" "Keep L (Some x)" and y: "y \<in> set xs" "Keep L (Some y)"
    and eq: "apply_id L x = apply_id L y"
  shows "objectIdentity L x = objectIdentity L y"
proof -
  have known: "GetKind L x \<in> set applied_kinds" "GetKind L y \<in> set applied_kinds"
    using Keep_known [OF lib] x y by auto
  then obtain r s where r: "resourceFor (GetKind L x) = Some r" and s: "resourceFor (GetKind L y) = Some s"
    using resourceFor_applied by blast
  let ?nx = "if namespaced r then GetNamespace L x else []"
  let ?ny = "if namespaced s then GetNamespace L y else []"
  have nul: "nul \<notin> set ?nx" "nul \<notin> set ?ny" "nul \<notin> set (GetKind L x)" "nul \<notin> set (GetKind L y)"
    using clean x y known kinds_no_nul by (auto simp: clean_manifests_def)
  have "?nx @ nul # GetKind L x @ nul # GetName L x = ?ny @ nul # GetKind L y @ nul # GetName L y"
    using eq r s by (simp add: apply_id_def applyKey_def Let_def)
  then have "?nx = ?ny \<and> GetKind L x = GetKind L y \<and> GetName L x = GetName L y"
    unfolding nul_split [OF nul(1, 2)] nul_split [OF nul(3, 4)] .
  then have parts: "?nx = ?ny" "GetKind L x = GetKind L y" "GetName L x = GetName L y" by blast+
  with r s have "r = s" by simp
  have "GetNamespace L x = GetNamespace L y"
  proof (cases "namespaced r")
    case True
    with parts(1) \<open>r = s\<close> show ?thesis by simp
  next
    case False
    then have "\<not> namespaced s" using \<open>r = s\<close> by simp
    with False clean x(1) y(1) r s have "GetNamespace L x = []" "GetNamespace L y = []"
      unfolding clean_manifests_def by blast+
    then show ?thesis by simp
  qed
  moreover have "GetAPIVersion L x = GetAPIVersion L y"
    using clean x(1) y(1) Keep_gvk [OF lib x(2) y(2) parts(2)] unfolding clean_manifests_def by blast
  ultimately show ?thesis using parts by (simp add: objectIdentity_def)
qed

lemma distinct_map_inj_on_sub:
  "distinct (map f xs) \<Longrightarrow> (\<And>x y. x \<in> set xs \<Longrightarrow> y \<in> set xs \<Longrightarrow> g x = g y \<Longrightarrow> f x = f y) \<Longrightarrow> distinct (map g xs)"
  unfolding distinct_map inj_on_def by blast

lemma kept_batch_valid:
  assumes lib: "k8s_lib_ok L" and clean: "clean_manifests L xs" and dist: "distinct (map (objectIdentity L) xs)"
  shows "valid_batch L (keepObjects L xs)"
proof -
  have "distinct (map (objectIdentity L) (keepObjects L xs))"
    using dist by (simp add: keepObjects_def distinct_map_filter)
  then have "distinct (map (apply_id L) (keepObjects L xs))"
    by (rule distinct_map_inj_on_sub)
      (use apply_id_identity [OF lib clean] in \<open>auto simp: keepObjects_def\<close>)
  then show ?thesis
    using Keep_known [OF lib] resourceFor_applied by (auto simp: valid_batch_def keepObjects_def)
qed

lemma valid_batch_filter: "valid_batch L xs \<Longrightarrow> valid_batch L (filter P xs)"
  by (auto simp: valid_batch_def distinct_map_filter)

lemma apply_id_cong: "same_identity L x y \<Longrightarrow> apply_id L x = apply_id L y"
  by (simp add: same_identity_def apply_id_def applyKey_def)

lemma valid_batch_cong:
  "list_all2 (same_identity L) xs ys \<Longrightarrow> valid_batch L xs = valid_batch L ys"
proof -
  assume same: "list_all2 (same_identity L) xs ys"
  then have "map (apply_id L) xs = map (apply_id L) ys" "map (GetKind L) xs = map (GetKind L) ys"
    by (induction rule: list_all2_induct) (auto simp: apply_id_cong, auto simp: same_identity_def)
  moreover have "(\<forall>x \<in> set zs. resourceFor (GetKind L x) \<noteq> None) \<longleftrightarrow>
      (\<forall>k \<in> set (map (GetKind L) zs). resourceFor k \<noteq> None)" for zs by simp
  ultimately show ?thesis unfolding valid_batch_def by presburger
qed

lemma restrict_identities:
  assumes "k8s_lib_ok L"
  shows "subseq (map (objectIdentity L) (RestrictCAPIVersionsToV1Beta2 L xs)) (map (objectIdentity L) xs)"
proof (induction xs)
  case Nil
  then show ?case by (simp add: RestrictCAPIVersionsToV1Beta2_def List.map_filter_def)
next
  case (Cons x xs)
  have "objectIdentity L y = objectIdentity L x" if "restrict_one L x = Some y" for y
    using restrict_one_props [OF assms that] by (simp add: objectIdentity_def same_identity_def)
  with Cons show ?case
    by (cases "restrict_one L x")
      (auto simp: RestrictCAPIVersionsToV1Beta2_def map_filter_simps)
qed

lemma clean_manifests_sub:
  assumes "clean_manifests L xs" and "\<forall>y \<in> set ys. \<exists>x \<in> set xs. same_identity L y x"
  shows "clean_manifests L ys"
  using assms unfolding clean_manifests_def same_identity_def by metis

lemma restrict_sub:
  "k8s_lib_ok L \<Longrightarrow> y \<in> set (RestrictCAPIVersionsToV1Beta2 L xs) \<Longrightarrow> \<exists>x \<in> set xs. same_identity L y x"
  by (auto simp: RestrictCAPIVersionsToV1Beta2_def map_filter_mem dest: restrict_one_props)

lemma subseq_distinct: "subseq xs ys \<Longrightarrow> distinct ys \<Longrightarrow> distinct xs"
  by (induction rule: list_emb.induct) (auto dest: subseq_subset)

lemma pipeline_kept_valid:
  assumes lib: "k8s_lib_ok L" and load: "LoadDedupedObjects L read D paths = Inr loaded"
    and clean: "clean_manifests L loaded"
  shows "valid_batch L (keepObjects L (RestrictCAPIVersionsToV1Beta2 L loaded))"
proof (rule kept_batch_valid [OF lib])
  show "clean_manifests L (RestrictCAPIVersionsToV1Beta2 L loaded)"
    using clean_manifests_sub [OF clean] restrict_sub [OF lib] by blast
  have "distinct (map (objectIdentity L) loaded)" using load by (rule LoadDeduped_distinct)
  with restrict_identities [OF lib, of loaded]
  show "distinct (map (objectIdentity L) (RestrictCAPIVersionsToV1Beta2 L loaded))"
    by (metis subseq_distinct)
qed

lemma rewritten_identity:
  assumes "k8s_lib_ok L" "rewritten L cns x y"
  shows "same_identity L x y"
proof (cases "is_binding L x")
  case True
  show ?thesis
  proof (rule lib_same_identity [OF assms(1)])
    fix k assume "k \<in> set identity_keys"
    then have "k \<noteq> fieldSubjects" "k \<noteq> fieldRoleRef" by (auto simp: identity_keys_def rbac_names)
    with assms(2) True show "x k = y k" unfolding rewritten_def by metis
  qed
next
  case False
  with assms show ?thesis by (simp add: rewritten_def same_identity_def)
qed

lemma RewriteRBAC_identities:
  assumes "k8s_lib_ok L" "RewriteRBACSubjects L cns xs = Inr ys"
  shows "list_all2 (same_identity L) xs ys"
proof -
  have "list_all2 (\<lambda>x y. rewrite_object L cns x = Inr y) xs ys"
    using assms(2) by (simp add: RewriteRBACSubjects_def traverse_Inr_iff)
  then show ?thesis
    by (rule list_all2_mono) (use rewrite_object_rewritten rewritten_identity [OF assms(1)] in blast)
qed

lemma admin_apply_id:
  assumes lib: "k8s_lib_ok L"
  shows "apply_id L (AdminClusterRoleBinding cn) = nul # kindClusterRoleBinding @ nul # ''capishim-admin''"
  by (simp add: apply_id_def applyKey_def AdminClusterRoleBinding_identity [OF lib] resourceFor_kinds)

lemma admin_fresh:
  assumes lib: "k8s_lib_ok L" and x: "resourceFor (GetKind L x) \<noteq> None" and nul: "nul \<notin> set (GetNamespace L x)"
    and name: "GetKind L x = kindClusterRoleBinding \<Longrightarrow> GetName L x \<noteq> ''capishim-admin''"
  shows "apply_id L x \<noteq> apply_id L (AdminClusterRoleBinding cn)"
proof
  assume eq: "apply_id L x = apply_id L (AdminClusterRoleBinding cn)"
  obtain r where r: "resourceFor (GetKind L x) = Some r" using x by auto
  let ?n = "if namespaced r then GetNamespace L x else []"
  have "nul \<notin> set ?n" "nul \<notin> set ([] :: string)" using nul by auto
  note first = nul_split [OF this]
  have "nul \<notin> set (GetKind L x)" "nul \<notin> set kindClusterRoleBinding"
    using x kinds_no_nul resourceFor_applied by (auto simp: kind_defs nul_def)
  note second = nul_split [OF this]
  have "?n @ nul # GetKind L x @ nul # GetName L x = [] @ nul # kindClusterRoleBinding @ nul # ''capishim-admin''"
    using eq unfolding admin_apply_id [OF lib] by (simp add: apply_id_def applyKey_def Let_def r)
  then show False unfolding first second using name by blast
qed

lemma pipeline_batches:
  assumes "k8s_lib_ok L" and "LoadDedupedObjects L read D paths = Inr loaded" and "clean_manifests L loaded"
    and "kept = keepObjects L (RestrictCAPIVersionsToV1Beta2 L loaded)"
    and "RewriteRBACSubjects L cns kept = Inr objs"
    and "\<forall>x \<in> set kept. GetKind L x = kindClusterRoleBinding \<longrightarrow> GetName L x \<noteq> ''capishim-admin''"
  shows "valid_batch L (WithoutRBACBindings L kept) \<and> valid_batch L (objs @ [AdminClusterRoleBinding cn])"
proof -
  have kept: "valid_batch L kept" using pipeline_kept_valid [OF assms(1-3)] assms(4) by simp
  have clean: "clean_manifests L kept"
    using clean_manifests_sub [OF assms(3)] restrict_sub [OF assms(1)] assms(4) by (auto simp: keepObjects_def)
  have same: "list_all2 (same_identity L) kept objs" using RewriteRBAC_identities [OF assms(1, 5)] .
  have rw: "valid_batch L objs" using kept valid_batch_cong [OF same] by simp
  have fresh: "apply_id L x \<noteq> apply_id L (AdminClusterRoleBinding cn)" if "x \<in> set kept" for x
    using that kept clean assms(6)
    by (intro admin_fresh [OF assms(1)]) (auto simp: valid_batch_def clean_manifests_def)
  have "map (apply_id L) kept = map (apply_id L) objs"
    using same by (induction rule: list_all2_induct) (auto simp: apply_id_cong)
  then have "apply_id L ` set kept = apply_id L ` set objs" by (metis list.set_map)
  with fresh have "apply_id L (AdminClusterRoleBinding cn) \<notin> apply_id L ` set objs" by force
  moreover have "resourceFor (GetKind L (AdminClusterRoleBinding cn)) \<noteq> None"
    by (simp add: AdminClusterRoleBinding_identity [OF assms(1)] resourceFor_kinds)
  ultimately have "valid_batch L (objs @ [AdminClusterRoleBinding cn])"
    using rw by (simp add: valid_batch_def)
  then show ?thesis
    using valid_batch_filter [OF kept] by (simp add: WithoutRBACBindings_def)
qed


section \<open>The third batch\<close>

text \<open>Converting an object, changing client configurations and converting back keeps the identity.\<close>

definition converter_ok :: "k8s_lib \<Rightarrow> ('r, 'm) converter \<Rightarrow> bool" where
  "converter_ok L V \<longleftrightarrow>
     (\<forall>x t g y. FromMutating V x = Inr t \<longrightarrow> ToUnstructured V (map_configs g (MutatingConfig t)) = Inr y \<longrightarrow>
        same_identity L x y) \<and>
     (\<forall>x t g y. FromValidating V x = Inr t \<longrightarrow> ToUnstructured V (map_configs g (ValidatingConfig t)) = Inr y \<longrightarrow>
        same_identity L x y) \<and>
     (\<forall>x t g y. FromCRD V x = Inr t \<longrightarrow> ToUnstructured V (map_configs g (CRD t)) = Inr y \<longrightarrow>
        same_identity L x y)"

definition carries_webhooks :: "k8s_lib \<Rightarrow> obj \<Rightarrow> bool" where
  "carries_webhooks L x \<longleftrightarrow> GetKind L x \<in> {kindMutatingWebhookConfiguration, kindValidatingWebhookConfiguration,
     kindCustomResourceDefinition}"

definition typed_as :: "('r, 'm) converter \<Rightarrow> obj \<Rightarrow> ('r, 'm) typed_object \<Rightarrow> bool" where
  "typed_as V x t \<longleftrightarrow>
     (case t of MutatingConfig c \<Rightarrow> FromMutating V x = Inr c | ValidatingConfig c \<Rightarrow> FromValidating V x = Inr c
      | CRD c \<Rightarrow> FromCRD V x = Inr c | OtherKind _ \<Rightarrow> False)"

lemma WebhookObjects_typed:
  "WebhookObjects L V xs = Inr ts \<Longrightarrow> list_all2 (typed_as V) (filter (carries_webhooks L) xs) ts"
  unfolding WebhookObjects_def
proof (induction xs arbitrary: ts)
  case Nil
  then show ?case by simp
next
  case (Cons x xs)
  then show ?case
    by (auto simp: Let_def result_simps carries_webhooks_def typed_as_def split: if_splits)
qed

lemma webhook_batch_identities:
  assumes V: "converter_ok L V" and typed: "WebhookObjects L V xs = Inr ts"
    and out: "UnstructuredObjects V (map (map_configs g) ts) = Inr ys"
  shows "list_all2 (same_identity L) (filter (carries_webhooks L) xs) ys"
proof -
  have conv: "list_all2 (\<lambda>t y. ToUnstructured V (map_configs g t) = Inr y) ts ys"
    using out by (simp add: UnstructuredObjects_def traverse_Inr_iff list_all2_map1)
  have "same_identity L x y" if "typed_as V x t" "ToUnstructured V (map_configs g t) = Inr y" for x t y
    using that V unfolding converter_ok_def typed_as_def by (cases t) auto
  with WebhookObjects_typed [OF typed] conv show ?thesis
    by (rule list_all2_trans [rotated 1]) blast
qed

lemma webhook_batch_valid:
  assumes "converter_ok L V" "WebhookObjects L V kept = Inr ts" "valid_batch L kept"
    and "RewriteAll ts ports ca opts = (None, ts')" "UnstructuredObjects V ts' = Inr ys"
  shows "valid_batch L ys"
proof -
  obtain g where "ts' = map (map_configs g) ts" using assms(4) unfolding RewriteAll_ok by blast
  with webhook_batch_identities [OF assms(1, 2)] assms(5)
  have "list_all2 (same_identity L) (filter (carries_webhooks L) kept) ys" by simp
  with valid_batch_cong valid_batch_filter [OF assms(3)] show ?thesis by blast
qed

section \<open>Namespace maps\<close>

lemma ManagerCN_lookup:
  "ManagerCNByNamespace ns = map_option ManagerCN
     (find (\<lambda>s. (ProviderNamespace s \<noteq> [] \<and> ManagerCN s \<noteq> []) \<and> ProviderNamespace s = ns) Components)"
  unfolding ManagerCNByNamespace_def
  by (subst table.namespace_map_lookup) (auto split: option.splits)

lemma WebhookPorts_lookup:
  "WebhookPortsByNamespace ns = map_option WebhookPort
     (find (\<lambda>s. (\<not> External s \<and> ProviderNamespace s \<noteq> [] \<and> WebhookPort s \<noteq> 0) \<and> ProviderNamespace s = ns) Components)"
  unfolding WebhookPortsByNamespace_def
  by (subst table.namespace_map_lookup) (auto split: option.splits)

lemma namespace_find:
  assumes "\<And>s. s \<in> set Components \<Longrightarrow> g s \<Longrightarrow> ProviderNamespace s \<noteq> []"
  shows "find (\<lambda>s. g s \<and> ProviderNamespace s = ns) Components = Some spec \<longleftrightarrow>
    spec \<in> set Components \<and> g spec \<and> ProviderNamespace spec = ns"
proof
  assume "find (\<lambda>s. g s \<and> ProviderNamespace s = ns) Components = Some spec"
  then show "spec \<in> set Components \<and> g spec \<and> ProviderNamespace spec = ns" by (auto simp: find_Some_iff)
next
  assume spec: "spec \<in> set Components \<and> g spec \<and> ProviderNamespace spec = ns"
  then obtain s where s: "find (\<lambda>s. g s \<and> ProviderNamespace s = ns) Components = Some s"
    by (cases "find (\<lambda>s. g s \<and> ProviderNamespace s = ns) Components") (auto simp: find_None_iff)
  then have "s \<in> set Components" "g s" "ProviderNamespace s = ns" by (auto simp: find_Some_iff)
  with spec assms have "s = spec" by (intro table.namespace_unique) auto
  with s show "find (\<lambda>s. g s \<and> ProviderNamespace s = ns) Components = Some spec" by simp
qed

text \<open>
  The maps are the component table read by namespace: a namespace has the manager CN, the
  in-pod webhook port or the rewrite port of the one component it belongs to, external
  components appear in the rewrite map only, and exactly the namespaces with a manager have a
  rewrite port.
\<close>

theorem namespace_maps:
  "(ManagerCNByNamespace ns = Some cn \<longleftrightarrow>
      (\<exists>s \<in> set Components. is_manager s \<and> ProviderNamespace s = ns \<and> ManagerCN s = cn)) \<and>
   (WebhookPortsByNamespace ns = Some p \<longleftrightarrow>
      (\<exists>s \<in> set Components. is_manager s \<and> \<not> External s \<and> ProviderNamespace s = ns \<and> WebhookPort s = p)) \<and>
   (RewriteWebhookPortsByNamespace ns = Some p \<longleftrightarrow>
      (\<exists>s \<in> set Components. is_manager s \<and> ProviderNamespace s = ns \<and> WebhookPort s = p))"
proof -
  have mgr: "ProviderNamespace s \<noteq> []" "WebhookPort s \<noteq> 0" if "s \<in> set Components" "is_manager s" for s
    using table.manager_complete [OF that] by simp_all
  have only: "is_manager s" if "s \<in> set Components" "ProviderNamespace s \<noteq> []" for s
    using table.only_managers [OF that(1)] that(2) by blast
  have cn: "ManagerCNByNamespace ns = Some cn \<longleftrightarrow>
      (\<exists>s \<in> set Components. is_manager s \<and> ProviderNamespace s = ns \<and> ManagerCN s = cn)"
    unfolding ManagerCN_lookup map_option_eq_Some
    by (subst namespace_find) (use mgr only in \<open>auto simp: is_manager_def\<close>)
  have wp: "WebhookPortsByNamespace ns = Some p \<longleftrightarrow>
      (\<exists>s \<in> set Components. is_manager s \<and> \<not> External s \<and> ProviderNamespace s = ns \<and> WebhookPort s = p)" for p
    unfolding WebhookPorts_lookup map_option_eq_Some
    by (subst namespace_find) (use mgr only in auto)
  let ?ext = "\<lambda>s. \<not> (\<not> External s \<or> ProviderNamespace s = [] \<or> WebhookPort s = 0)"
  have rp: "RewriteWebhookPortsByNamespace ns =
      (case find (\<lambda>s. ?ext s \<and> ProviderNamespace s = ns) Components of
         Some s \<Rightarrow> Some (WebhookPort s) | None \<Rightarrow> WebhookPortsByNamespace ns)"
    unfolding RewriteWebhookPortsByNamespace_def
    by (rule table.namespace_map_lookup) auto
  have "RewriteWebhookPortsByNamespace ns = Some p \<longleftrightarrow>
      (\<exists>s \<in> set Components. is_manager s \<and> ProviderNamespace s = ns \<and> WebhookPort s = p)"
  proof (cases "find (\<lambda>s. ?ext s \<and> ProviderNamespace s = ns) Components")
    case (Some s)
    then have s: "s \<in> set Components" "?ext s" "ProviderNamespace s = ns" by (auto simp: find_Some_iff)
    have uniq: "t = s" if "t \<in> set Components" "ProviderNamespace t = ns" for t
      by (rule table.namespace_unique [OF that(1) s(1)]) (use s that in auto)
    have mgr_s: "is_manager s" by (rule only [OF s(1)]) (use s in auto)
    have "RewriteWebhookPortsByNamespace ns = Some (WebhookPort s)" using rp Some by simp
    with uniq mgr_s s(1, 3) show ?thesis by (metis option.inject)
  next
    case None
    then have "\<not> External s" if "s \<in> set Components" "is_manager s" "ProviderNamespace s = ns" for s
      using mgr that by (auto simp: find_None_iff)
    moreover have "RewriteWebhookPortsByNamespace ns = WebhookPortsByNamespace ns" using rp None by simp
    ultimately show ?thesis using wp [of p] by (simp, blast)
  qed
  with cn wp [of p] show ?thesis by (intro conjI)
qed

section \<open>Witnesses\<close>

text \<open>A decoder that yields given documents, for files whose text does not matter.\<close>

definition list_decoder :: "obj list \<Rightarrow> obj list decoder" where
  "list_decoder docs =
     \<lparr>NewDecoder = (\<lambda>_. docs),
      Decode = (\<lambda>ds. case ds of [] \<Rightarrow> (EndOfStream, []) | d # rest \<Rightarrow> (Document (Some d), rest))\<rparr>"

lemma list_decoder_load:
  "Load (\<lambda>_. Inr ''xx'') (list_decoder [a, b]) [p] = Inr [a, b]"
  by (simp add: Load_def Parse_def list_decoder_def eval_nat_numeral)

definition sample_crd :: obj where
  "sample_crd =
     [''apiVersion'' \<mapsto> JStr ''apiextensions.k8s.io/v1'', ''kind'' \<mapsto> JStr ''CustomResourceDefinition'',
      ''metadata'' \<mapsto> JObj [''name'' \<mapsto> JStr ''clusters.cluster.x-k8s.io''],
      ''spec'' \<mapsto> JObj [''group'' \<mapsto> JStr ''cluster.x-k8s.io'',
        ''versions'' \<mapsto> JArr [JObj [''name'' \<mapsto> JStr ''v1beta1''], JObj [''name'' \<mapsto> JStr ''v1beta2'']],
        ''conversion'' \<mapsto> JStr ''Webhook'']]"

lemma sample_crd_accessors [simp]:
  "GetKind path_lib sample_crd = kindCustomResourceDefinition"
  "GetName path_lib sample_crd = ''clusters.cluster.x-k8s.io''"
  "GetNamespace path_lib sample_crd = []"
  "GetAPIVersion path_lib sample_crd = ''apiextensions.k8s.io/v1''"
  "GroupVersionKind path_lib sample_crd = WithKind apiextv1_gv kindCustomResourceDefinition"
  by (simp_all add: sample_crd_def go_eval WithKind_def apiextv1_gv_def)

lemma sample_namespace_accessors [simp]:
  "GetNamespace path_lib sample_namespace = []"
  "GetAPIVersion path_lib sample_namespace = ''v1''"
  "GroupVersionKind path_lib sample_namespace = WithKind corev1_gv kindNamespace"
  by (simp_all add: sample_namespace_def go_eval WithKind_def corev1_gv_def)

theorem LoadDedupedObjects_first_copies_witness:
  "LoadDedupedObjects path_lib (\<lambda>_. Inr ''xx'') (list_decoder [sample_crd, sample_crd]) [''p''] = Inr [sample_crd]"
  by (rule LoadDedupedObjects_first_copies [THEN iffD2])
    (simp add: list_decoder_load first_by_def)

lemma sample_capi: "capi_crd path_lib sample_crd"
  by (simp add: capi_crd_def crdSpecGroup_def capiServedGroups_def)
    (simp add: sample_crd_def fieldSpec_def go_eval)


lemma sample_kept:
  "keepObjects path_lib (RestrictCAPIVersionsToV1Beta2 path_lib [sample_namespace, sample_role]) =
     [sample_namespace, sample_role]"
proof -
  have "restrict_one path_lib sample_namespace = Some sample_namespace"
    "restrict_one path_lib sample_role = Some sample_role" by (simp_all add: restrict_one_def)
  moreover have "Keep path_lib (Some sample_namespace)" "Keep path_lib (Some sample_role)"
    by (simp_all add: Keep_def kept_gvks_def)
      (simp add: sample_role_def go_eval WithKind_def rbacv1_gv_def)
  ultimately show ?thesis
    by (simp add: RestrictCAPIVersionsToV1Beta2_def map_filter_simps keepObjects_def)
qed


end
