(* ===== verification/PkiGenerate.thy ===== *)
theory PkiGenerate
  imports Pki
begin

text \<open>
  What \<open>pki.Generate\<close> guarantees: the files it may change, that the trust anchor is never replaced,
  what a successful run leaves on disk, that a second run writes nothing, and that a run succeeds
  where nothing is in its way. The operations on the leaf pairs and on the service-account pair
  are instances of the interface \<open>ensured\<close>.
\<close>

section \<open>The interfaces\<close>

interpretation leaf_pairs: ensured
  "leaf_ok lib caKey"
  "\<lambda>spec. {CertPath (leaf_artifact spec), KeyPath (leaf_artifact spec)}"
  "\<lambda>spec fs. pair_on_disk lib fs (CertPath (leaf_artifact spec)) (KeyPath (leaf_artifact spec))"
  "ensureLeaf lib caCert caKey now"
  for lib caCert caKey now
proof unfold_locales
  show "pair_on_disk lib (w_files v) (CertPath (leaf_artifact spec)) (KeyPath (leaf_artifact spec))"
    if "leaf_ok lib caKey spec" "ensureLeaf lib caCert caKey now spec w = (Inr (), v)" for spec w v
    using ensureLeaf_cases [OF that] by (auto simp: same_disk_def dest: leaf_issued_pair)
  show "stays (within {CertPath (leaf_artifact spec), KeyPath (leaf_artifact spec)})
      (ensureLeaf lib caCert caKey now spec)" for spec
    by (rule ensureLeaf_within)
  show "pair_on_disk lib gs (CertPath (leaf_artifact spec)) (KeyPath (leaf_artifact spec))"
    if "pair_on_disk lib fs (CertPath (leaf_artifact spec)) (KeyPath (leaf_artifact spec))"
      "\<And>p. p \<in> {CertPath (leaf_artifact spec), KeyPath (leaf_artifact spec)} \<Longrightarrow> fs p \<noteq> None \<Longrightarrow> gs p = fs p"
    for spec fs gs
    using that on_disk_cong [of gs _ fs lib] on_disk_file
    by (auto simp: pair_on_disk_def split: option.splits) 
  show "\<exists>v. ensureLeaf lib caCert caKey now spec w = (Inr (), v) \<and> same_disk w v"
    if "calm w" "pair_on_disk lib (w_files w) (CertPath (leaf_artifact spec)) (KeyPath (leaf_artifact spec))"
    for spec w
  proof -
    from validPair_calm [OF that] obtain v
      where v: "validPair lib (CertPath (leaf_artifact spec)) (KeyPath (leaf_artifact spec)) w = (True, v)" ..
    then show ?thesis
      using validPair_same [OF v] by (simp add: ensureLeaf_def Let_def act_bind_def of_state_def)
  qed
qed

interpretation service_account: ensured
  "\<lambda>(c, k). pem_ok lib \<and> c \<noteq> k"
  "\<lambda>(c, k). {c, k}"
  "\<lambda>(c, k) fs. sa_on_disk lib fs c k"
  "\<lambda>(c, k). ensureServiceAccountPair lib c k"
  for lib
proof unfold_locales
  show "(case i of (c, k) \<Rightarrow> \<lambda>fs. sa_on_disk lib fs c k) (w_files v)"
    if "case i of (c, k) \<Rightarrow> pem_ok lib \<and> c \<noteq> k"
      "(case i of (c, k) \<Rightarrow> ensureServiceAccountPair lib c k) w = (Inr (), v)" for i w v
    using that ensureSA_cases [of lib "fst i" "snd i" w v] by (auto simp: same_disk_def split: prod.splits)
  show "stays (within (case i of (c, k) \<Rightarrow> {c, k})) (case i of (c, k) \<Rightarrow> ensureServiceAccountPair lib c k)" for i
    by (cases i) (simp add: ensureSA_within)
  show "(case i of (c, k) \<Rightarrow> \<lambda>fs. sa_on_disk lib fs c k) gs"
    if "(case i of (c, k) \<Rightarrow> \<lambda>fs. sa_on_disk lib fs c k) fs"
      "\<And>p. p \<in> (case i of (c, k) \<Rightarrow> {c, k}) \<Longrightarrow> fs p \<noteq> None \<Longrightarrow> gs p = fs p" for i fs gs
    using that on_disk_cong [of gs _ fs lib] on_disk_file
    by (cases i) (auto simp: sa_on_disk_def pair_on_disk_def split: option.splits)
  show "\<exists>v. (case i of (c, k) \<Rightarrow> ensureServiceAccountPair lib c k) w = (Inr (), v) \<and> same_disk w v"
    if "calm w" "(case i of (c, k) \<Rightarrow> \<lambda>fs. sa_on_disk lib fs c k) (w_files w)" for i w
  proof -
    obtain c k where i: "i = (c, k)" by fastforce
    with that obtain v where v: "validSAPair lib c k w = (True, v)" using validSAPair_calm by blast
    then show ?thesis
      using validSAPair_same [OF v] i
      by (simp add: ensureServiceAccountPair_def act_bind_def of_state_def)
  qed
qed

section \<open>Generate\<close>

definition pki_dir :: "pki_config \<Rightarrow> string" where
  "pki_dir cfg = PathJoin [PkiStateDir cfg, ''pki'']"

definition artifact_path :: "pki_config \<Rightarrow> string \<Rightarrow> string" where
  "artifact_path cfg name = dir_prefix (PkiStateDir cfg) @ name"

definition generated_inventory :: "pki_config \<Rightarrow> inventory" where
  "generated_inventory cfg =
     (newInventory (pki_dir cfg))\<lparr>SAPubPath := artifact_path cfg ''pki/sa.pub'',
       SAKeyPath := artifact_path cfg ''pki/sa.key''\<rparr>"

abbreviation ca_cert_path :: "pki_config \<Rightarrow> string" where
  "ca_cert_path cfg \<equiv> artifact_path cfg ''pki/ca.crt''"

abbreviation ca_key_path :: "pki_config \<Rightarrow> string" where
  "ca_key_path cfg \<equiv> artifact_path cfg ''pki/ca.key''"

definition generated_leaves :: "pki_config \<Rightarrow> string \<Rightarrow> leafSpec list" where
  "generated_leaves cfg host = leaf_specs (newInventory (pki_dir cfg)) host cfg"

definition issued_names :: "string list" where
  "issued_names = map fst leaf_names @ map snd leaf_names @ sa_names"

lemma ca_path_eqs:
  "PathJoin [pki_dir cfg, caCertName] = ca_cert_path cfg" "PathJoin [pki_dir cfg, caKeyName] = ca_key_path cfg"
  "PathJoin [pki_dir cfg, saCertName] = artifact_path cfg ''pki/sa.pub''"
  "PathJoin [pki_dir cfg, saKeyName] = artifact_path cfg ''pki/sa.key''"
  by (simp_all add: pki_dir_def artifact_path_def ca_paths sa_paths)

lemma artifact_path_inj [simp]: "artifact_path cfg a = artifact_path cfg b \<longleftrightarrow> a = b"
  by (simp add: artifact_path_def)

text \<open>\<open>Generate\<close> in these terms.\<close>

lemma Generate_eq:
  "Generate lib None cfg =
     act_bind (act_lift (wrap_err BindAddressError (bindHost (PkiBindAddress cfg)))) (\<lambda>host.
     act_bind (act_wrap (CreateDirectory (pki_dir cfg)) (MkdirAll (pki_dir cfg))) (\<lambda>_.
     act_bind (of_state Now) (\<lambda>now.
     act_bind (ensureCA lib (pki_dir cfg) now) (\<lambda>(caCert, caKey).
     act_bind (act_iter (ensureLeaf lib caCert caKey now) (generated_leaves cfg host)) (\<lambda>_.
     act_bind (ensureServiceAccountPair lib (artifact_path cfg ''pki/sa.pub'') (artifact_path cfg ''pki/sa.key'')) (\<lambda>_.
       act_return (generated_inventory cfg)))))))"
  by (simp add: Generate_def Let_def generated_leaves_def generated_inventory_def pki_dir_def [symmetric]
      ca_path_eqs)

lemma leaf_paths_image:
  "map spec_paths (generated_leaves cfg host) = map (map_prod (artifact_path cfg) (artifact_path cfg)) leaf_names"
  using leaf_spec_paths [of cfg host]
  by (simp add: generated_leaves_def pki_dir_def artifact_path_def [abs_def] map_prod_def)

lemma leaf_spec_in_names:
  assumes "spec \<in> set (generated_leaves cfg host)"
  shows "\<exists>n \<in> set leaf_names. CertPath (leaf_artifact spec) = artifact_path cfg (fst n) \<and>
    KeyPath (leaf_artifact spec) = artifact_path cfg (snd n)"
proof -
  from assms have "spec_paths spec \<in> set (map spec_paths (generated_leaves cfg host))" by simp
  then show ?thesis unfolding leaf_paths_image by (force simp: spec_paths_def)
qed

lemma leaf_names_distinct: "distinct (map fst leaf_names @ map snd leaf_names)"
  using names_distinct by (auto simp: all_names_def)

lemma leaf_names_disjoint:
  "sorted_wrt (\<lambda>m n. {fst m, snd m} \<inter> {fst n, snd n} = {}) leaf_names"
proof -
  have "sorted_wrt (\<lambda>m n. {fst m, snd m} \<inter> {fst n, snd n} = {}) ns"
    if "distinct (map fst ns @ map snd ns)" for ns :: "(string \<times> string) list"
    using that
  proof (induction ns)
    case Nil
    then show ?case by simp
  next
    case (Cons m ns)
    have "{fst m, snd m} \<inter> {fst n, snd n} = {}" if "n \<in> set ns" for n
    proof -
      have "fst m \<notin> fst ` set ns" "fst m \<notin> snd ` set ns" "snd m \<notin> fst ` set ns" "snd m \<notin> snd ` set ns"
        using Cons.prems by auto
      then have "fst m \<noteq> fst n \<and> fst m \<noteq> snd n \<and> snd m \<noteq> fst n \<and> snd m \<noteq> snd n"
        using that by (metis image_eqI)
      then show ?thesis by auto
    qed
    with Cons show ?case by simp
  qed
  then show ?thesis using leaf_names_distinct .
qed

lemma leaves_disjoint: "leaf_pairs.disjoint_paths (generated_leaves cfg host)"
proof -
  have "sorted_wrt (\<lambda>p q. {fst p, snd p} \<inter> {fst q, snd q} = {}) (map spec_paths (generated_leaves cfg host))"
    unfolding leaf_paths_image sorted_wrt_map
    using leaf_names_disjoint by (rule sorted_wrt_mono_rel [rotated]) auto
  then show ?thesis by (simp add: leaf_pairs.disjoint_paths_def sorted_wrt_map spec_paths_def)
qed

lemma leaves_ok:
  assumes "pem_ok lib" and "is_signer caKey"
  shows "list_all (leaf_ok lib caKey) (generated_leaves cfg host)"
proof -
  have "leaf_ok lib caKey spec" if spec: "spec \<in> set (generated_leaves cfg host)" for spec
  proof -
    obtain n where n: "n \<in> set leaf_names" and p: "CertPath (leaf_artifact spec) = artifact_path cfg (fst n)"
      "KeyPath (leaf_artifact spec) = artifact_path cfg (snd n)"
      using leaf_spec_in_names [OF spec] by blast
    have "fst n \<noteq> snd n" using n leaf_names_distinct by (auto simp: disjoint_iff)
    with p assms show ?thesis by (simp add: leaf_ok_def)
  qed
  then show ?thesis by (simp add: list_all_iff)
qed

lemma act_bind_of_state: "f w = (x, v) \<Longrightarrow> act_bind (of_state f) g w = g x v"
  by (simp add: act_bind_def of_state_def)

text \<open>What a successful run went through.\<close>

lemma Generate_run:
  assumes "Generate lib None cfg w = (Inr inven, v)"
  obtains host now caCert caKey w1 w2 w3 w4 where
    "bindHost (PkiBindAddress cfg) = Inr host" and "inven = generated_inventory cfg"
    and "MkdirAll (pki_dir cfg) w = (Inr (), w1)" and "Now w1 = (now, w2)"
    and "ensureCA lib (pki_dir cfg) now w2 = (Inr (caCert, caKey), w3)"
    and "act_iter (ensureLeaf lib caCert caKey now) (generated_leaves cfg host) w3 = (Inr (), w4)"
    and "ensureServiceAccountPair lib (artifact_path cfg ''pki/sa.pub'') (artifact_path cfg ''pki/sa.key'') w4 = (Inr (), v)"
proof -
  have now: "of_state Now x = (Inr now, y) \<longleftrightarrow> Now x = (now, y)" for x now y
    by (simp add: of_state_def split: prod.split)
  from assms obtain x va xa vaa a b vb vc where
    "bindHost (PkiBindAddress cfg) = Inr x" "inven = generated_inventory cfg"
    "MkdirAll (pki_dir cfg) w = (Inr (), va)" "Now va = (xa, vaa)"
    "ensureCA lib (pki_dir cfg) xa vaa = (Inr (a, b), vb)"
    "act_iter (ensureLeaf lib a b xa) (generated_leaves cfg x) vb = (Inr (), vc)"
    "ensureServiceAccountPair lib (artifact_path cfg ''pki/sa.pub'') (artifact_path cfg ''pki/sa.key'') vc = (Inr (), v)"
    unfolding Generate_eq act_bind_Inr_iff act_wrap_Inr_iff
    by (auto simp: act_bind_Inr_iff now split: prod.splits)
  then show ?thesis by (rule that)
qed

definition ca_paths_of :: "pki_config \<Rightarrow> string set" where
  "ca_paths_of cfg = {ca_cert_path cfg, ca_key_path cfg}"

definition issued_paths :: "pki_config \<Rightarrow> string set" where
  "issued_paths cfg = artifact_path cfg ` set issued_names"

lemma only_writes_data: "only_writes S fs gs \<Longrightarrow> p \<notin> S \<Longrightarrow> file_data gs p = file_data fs p"
  by (auto simp: only_writes_def file_data_def split: option.splits node.splits)

lemma ca_not_issued: "ca_paths_of cfg \<inter> issued_paths cfg = {}"
  using names_distinct
  by (simp add: ca_paths_of_def issued_paths_def all_names_def issued_names_def ca_names_def image_iff)

lemma leaves_within:
  "stays (within (issued_paths cfg)) (act_iter (ensureLeaf lib caCert caKey now) (generated_leaves cfg host))"
proof (rule stays_mono [OF leaf_pairs.loop_frame])
  show "(\<Union>spec \<in> set (generated_leaves cfg host). {CertPath (leaf_artifact spec), KeyPath (leaf_artifact spec)})
      \<subseteq> issued_paths cfg"
  proof
    fix p
    assume "p \<in> (\<Union>spec \<in> set (generated_leaves cfg host). {CertPath (leaf_artifact spec), KeyPath (leaf_artifact spec)})"
    then obtain spec where spec: "spec \<in> set (generated_leaves cfg host)"
      and p: "p = CertPath (leaf_artifact spec) \<or> p = KeyPath (leaf_artifact spec)" by blast
    obtain n where "n \<in> set leaf_names" "CertPath (leaf_artifact spec) = artifact_path cfg (fst n)"
      "KeyPath (leaf_artifact spec) = artifact_path cfg (snd n)" using leaf_spec_in_names [OF spec] by blast
    with p show "p \<in> issued_paths cfg" by (auto simp: issued_paths_def issued_names_def)
  qed
qed

lemma sa_within:
  "stays (within (issued_paths cfg))
     (ensureServiceAccountPair lib (artifact_path cfg ''pki/sa.pub'') (artifact_path cfg ''pki/sa.key''))"
  by (rule stays_mono [OF ensureSA_within]) (simp add: issued_paths_def issued_names_def sa_names_def)

lemma ca_within: "stays (within (ca_paths_of cfg)) (ensureCA lib (pki_dir cfg) now)"
  using ensureCA_within [of "pki_dir cfg" lib now] by (simp add: ca_path_eqs ca_paths_of_def)

text \<open>With a file at either path the authority is read, or refused, never written.\<close>

lemma ensureCA_guard:
  assumes present: "file_data (w_files w) (ca_cert_path cfg) \<noteq> None \<or> file_data (w_files w) (ca_key_path cfg) \<noteq> None"
    and run: "ensureCA lib (pki_dir cfg) now w = (res, v)"
  shows "same_disk w v"
    and "res = Inr ca \<Longrightarrow> authority_on_disk lib (w_files w) (ca_cert_path cfg) (ca_key_path cfg) = Some ca"
proof -
  let ?c = "ca_cert_path cfg" and ?k = "ca_key_path cfg"
  obtain r u where ce: "fileExists ?c w = (r, u)" by fastforce
  then have wu: "same_disk w u" by (rule stays_run [OF fileExists_reads])
  obtain r' x where ke: "fileExists ?k u = (r', x)" by fastforce
  then have "same_disk u x" by (rule stays_run [OF fileExists_reads])
  with wu have wx: "same_disk w x" by (rule same_disk_trans)
  obtain l y where ld: "loadCAPair lib ?c ?k x = (l, y)" by fastforce
  then have "same_disk x y" by (rule stays_run [OF loadCAPair_reads])
  with wx have wy: "same_disk w y" by (rule same_disk_trans)
  have loaded: "authority_on_disk lib (w_files w) ?c ?k = Some ca" if "l = Inr ca" for ca
    using loadCAPair_ok [of lib ?c ?k x "fst ca" "snd ca" y] ld that wx by (simp add: same_disk_def)
  have "same_disk w v \<and> (\<forall>ca. res = Inr ca \<longrightarrow> l = Inr ca)"
  proof (cases r)
    case (Inl e)
    with ce wu run show ?thesis by (auto simp: ensureCA_def ca_path_eqs Let_def act_bind_def act_wrap_def)
  next
    case (Inr a)
    note a = fileExists_ok [OF ce [unfolded Inr]]
    show ?thesis
    proof (cases r')
      case (Inl e)
      with ce \<open>r = Inr a\<close> ke wx run show ?thesis
        by (auto simp: ensureCA_def ca_path_eqs Let_def act_bind_def act_wrap_def)
    next
      case (Inr b)
      with fileExists_ok [of ?k u b x] ke wu
      have "b = (file_data (w_files w) ?k \<noteq> None)" by (simp add: same_disk_def)
      with a present have "a \<or> b" by blast
      with ce \<open>r = Inr a\<close> ke Inr have "ensureCA lib (pki_dir cfg) now w =
          (if a \<and> b then act_wrap InvalidCA (loadCAPair lib ?c ?k) x else (Inl IncompleteCA, x))"
        unfolding ensureCA_def ca_path_eqs Let_def by (simp add: act_bind_run act_wrap_run)
      with run ld wx wy show ?thesis by (cases "a \<and> b"; cases l) (auto simp: act_wrap_run)
    qed
  qed
  then show "same_disk w v"
    and "res = Inr ca \<Longrightarrow> authority_on_disk lib (w_files w) ?c ?k = Some ca"
    using loaded by auto
qed

lemma authority_cong:
  "file_data gs c = file_data fs c \<Longrightarrow> file_data gs k = file_data fs k \<Longrightarrow>
     authority_on_disk lib gs c k = authority_on_disk lib fs c k"
  by (simp add: authority_on_disk_def cert_on_disk_def key_on_disk_def)

section \<open>The trust anchor\<close>

lemma Generate_within: "stays (within (ca_paths_of cfg \<union> issued_paths cfg)) (Generate lib ctx cfg)"
proof (cases ctx)
  case None
  show ?thesis
    unfolding None Generate_eq
    by (intro io_frame stays_reads [OF Now_reads] stays_mono [OF ca_within] stays_mono [OF leaves_within]
        stays_mono [OF sa_within])
      (auto split: prod.splits intro!: io_frame stays_mono [OF leaves_within] stays_mono [OF sa_within])
next
  case (Some e)
  then show ?thesis by (simp add: stays_def Generate_def)
qed

text \<open>
  A run of Generate, failed or not, changes no file other than the pod's artifacts: the
  authority's two files and the files of the fifteen leaf pairs and of the service-account pair.
\<close>

theorem Generate_frame:
  "only_writes (ca_paths_of cfg \<union> issued_paths cfg) (w_files w) (w_files (snd (Generate lib ctx cfg w)))"
  using Generate_within [of cfg lib ctx] by (simp add: stays_def within_def)

lemma Generate_guarded:
  assumes present: "file_data (w_files w) (ca_cert_path cfg) \<noteq> None \<or> file_data (w_files w) (ca_key_path cfg) \<noteq> None"
    and run: "Generate lib None cfg w = (res, v)"
  shows "within (issued_paths cfg) w v \<and>
    (authority_on_disk lib (w_files w) (ca_cert_path cfg) (ca_key_path cfg) = None \<longrightarrow>
       within {} w v \<and> (\<exists>e. res = Inl e))"
proof -
  have small: "within {} w x \<Longrightarrow> within (issued_paths cfg) w x" for x by (erule within_mono) simp
  show ?thesis
  proof (cases "bindHost (PkiBindAddress cfg)")
    case (Inl e)
    with run show ?thesis by (auto simp: Generate_eq act_bind_def)
  next
    case host: (Inr host)
    obtain r w1 where mk: "MkdirAll (pki_dir cfg) w = (r, w1)" by fastforce
    have w1: "within {} w w1" by (rule stays_run [OF MkdirAll_within mk])
    show ?thesis
    proof (cases r)
      case (Inl e)
      with mk host w1 run small show ?thesis by (auto simp: Generate_eq act_bind_def act_wrap_def)
    next
      case made: (Inr u)
      define now where "now = fst (Now w1)"
      define w2 where "w2 = snd (Now w1)"
      have now: "Now w1 = (now, w2)" by (simp add: now_def w2_def)
      then have sd: "same_disk w1 w2" by (auto simp: Now_def same_disk_def same_env_def)
      have w2: "within {} w w2" using w1 same_disk_within [OF sd] by (rule within_trans)
      then have data: "file_data (w_files w2) p = file_data (w_files w) p" for p
        by (auto simp: within_def intro: only_writes_data)
      obtain r' w3 where ca: "ensureCA lib (pki_dir cfg) now w2 = (r', w3)" by fastforce
      note guard = ensureCA_guard [OF _ ca, unfolded data, OF present]
      have w3: "within {} w w3" using w2 same_disk_within [OF guard(1)] by (rule within_trans)
      show ?thesis
      proof (cases r')
        case (Inl e)
        with mk now ca made host w3 run small show ?thesis
          by (auto simp: Generate_eq act_bind_run act_wrap_run act_bind_of_state)
      next
        case found: (Inr p)
        obtain caCert caKey where p: "p = (caCert, caKey)" by fastforce
        have auth: "authority_on_disk lib (w_files w) (ca_cert_path cfg) (ca_key_path cfg) = Some p"
          using guard(2) [OF found] authority_cong [OF data data, of lib "ca_cert_path cfg" "ca_key_path cfg"] by simp
        define rest where "rest =
          act_bind (act_iter (ensureLeaf lib caCert caKey now) (generated_leaves cfg host)) (\<lambda>_.
           act_bind (ensureServiceAccountPair lib (artifact_path cfg ''pki/sa.pub'') (artifact_path cfg ''pki/sa.key'')) (\<lambda>_.
             act_return (generated_inventory cfg)))"
        have run_rest: "rest w3 = (res, v)"
          using mk now ca made host found p run unfolding Generate_eq rest_def
          by (simp add: act_bind_run act_wrap_run act_bind_of_state)
        have "stays (within (issued_paths cfg)) rest"
          unfolding rest_def by (intro io_frame leaves_within sa_within)
        from stays_run [OF this run_rest] have "within (issued_paths cfg) w3 v" .
        then have "within (issued_paths cfg) w v" using small [OF w3] by (blast intro: within_trans)
        with auth show ?thesis by simp
      qed
    qed
  qed
qed

text \<open>
  C13. The trust anchor is never replaced. When a file is at one of the two authority paths, a run,
  failed or not, changes neither of them. If what is there is not an authority (one file is
  missing, a file does not parse, the key does not fit, the certificate is not a CA), the run fails
  and writes no file at all.
\<close>

theorem Generate_keeps_authority:
  assumes "file_data (w_files w) (ca_cert_path cfg) \<noteq> None \<or> file_data (w_files w) (ca_key_path cfg) \<noteq> None"
    and "Generate lib None cfg w = (res, v)"
  shows "(\<forall>p \<in> ca_paths_of cfg. file_data (w_files v) p = file_data (w_files w) p) \<and>
    (authority_on_disk lib (w_files w) (ca_cert_path cfg) (ca_key_path cfg) = None \<longrightarrow>
       only_writes {} (w_files w) (w_files v) \<and> (\<exists>e. res = Inl e))"
proof -
  note guarded = Generate_guarded [OF assms]
  have "file_data (w_files v) p = file_data (w_files w) p" if "p \<in> ca_paths_of cfg" for p
    using guarded that ca_not_issued [of cfg]
    by (intro only_writes_data [of "issued_paths cfg"]) (auto simp: within_def)
  with guarded show ?thesis by (auto simp: within_def)
qed

section \<open>What a successful run leaves on disk\<close>

definition leaf_kept :: "pem \<Rightarrow> files \<Rightarrow> files \<Rightarrow> leafSpec \<Rightarrow> bool" where
  "leaf_kept lib fs gs spec \<longleftrightarrow>
     pair_on_disk lib fs (CertPath (leaf_artifact spec)) (KeyPath (leaf_artifact spec)) \<and>
     gs (CertPath (leaf_artifact spec)) = fs (CertPath (leaf_artifact spec)) \<and>
     gs (KeyPath (leaf_artifact spec)) = fs (KeyPath (leaf_artifact spec))"

lemma within_data:
  "within S w v \<Longrightarrow> p \<notin> S \<Longrightarrow> file_data (w_files v) p = file_data (w_files w) p"
  by (auto simp: within_def intro: only_writes_data)

lemma leaf_paths_apart:
  assumes "spec \<in> set (generated_leaves cfg host)"
  shows "{CertPath (leaf_artifact spec), KeyPath (leaf_artifact spec)} \<inter>
    (ca_paths_of cfg \<union> {artifact_path cfg ''pki/sa.pub'', artifact_path cfg ''pki/sa.key''}) = {}"
proof -
  obtain n where n: "n \<in> set leaf_names" and p: "CertPath (leaf_artifact spec) = artifact_path cfg (fst n)"
    "KeyPath (leaf_artifact spec) = artifact_path cfg (snd n)" using leaf_spec_in_names [OF assms] by blast
  have in_names: "fst n \<in> set (map fst leaf_names)" "snd n \<in> set (map snd leaf_names)" using n by auto
  have apart: "set ca_names \<inter> set (map fst leaf_names) = {}" "set ca_names \<inter> set (map snd leaf_names) = {}"
    "set sa_names \<inter> set (map fst leaf_names) = {}" "set sa_names \<inter> set (map snd leaf_names) = {}"
    using names_distinct unfolding all_names_def distinct_append by auto
  have "fst n \<notin> set (ca_names @ sa_names)" "snd n \<notin> set (ca_names @ sa_names)"
    using in_names apart by auto
  then show ?thesis by (simp add: p ca_paths_of_def ca_names_def sa_names_def)
qed

lemma sa_paths_apart: "{artifact_path cfg ''pki/sa.pub'', artifact_path cfg ''pki/sa.key''} \<inter> ca_paths_of cfg = {}"
  by (simp add: ca_paths_of_def)

lemma pair_files:
  assumes "pair_on_disk lib fs c k"
  shows "\<exists>m d m' d'. fs c = Some (FileNode m d) \<and> fs k = Some (FileNode m' d')"
proof -
  from assms have "cert_on_disk lib fs c \<noteq> None" "key_on_disk lib fs k \<noteq> None"
    by (auto simp: pair_on_disk_def split: option.splits)
  then have "file_data fs c \<noteq> None" "file_data fs k \<noteq> None"
    by (auto simp: cert_on_disk_def key_on_disk_def split: option.splits)
  then show ?thesis by (auto simp: file_data_Some)
qed

text \<open>One leaf of the loop: kept as it was before the run, or issued.\<close>

lemma leaf_outcome:
  assumes lib: "pem_ok lib" and key: "is_signer caKey"
    and loop: "act_iter (ensureLeaf lib caCert caKey now) (generated_leaves cfg host) w3 = (Inr (), w4)"
    and spec: "spec \<in> set (generated_leaves cfg host)"
    and before: "within (ca_paths_of cfg) w w3"
    and after: "within {artifact_path cfg ''pki/sa.pub'', artifact_path cfg ''pki/sa.key''} w4 v"
  shows "leaf_kept lib (w_files w) (w_files v) spec \<or> leaf_issued lib (w_files v) caCert caKey now spec"
proof -
  let ?c = "CertPath (leaf_artifact spec)" and ?k = "KeyPath (leaf_artifact spec)"
  let ?T = "{artifact_path cfg ''pki/sa.pub'', artifact_path cfg ''pki/sa.key''}"
  obtain S u u' where run: "ensureLeaf lib caCert caKey now spec u = (Inr (), u')"
    and pre: "within S w3 u" and post: "within S u' w4" and S: "S \<inter> {?c, ?k} = {}"
    using leaf_pairs.loop_each [OF leaves_disjoint loop spec] by blast
  from before pre have wu: "within (S \<union> ca_paths_of cfg) w u" by (blast intro: within_trans within_mono)
  from post after have uv: "within (S \<union> ?T) u' v" by (blast intro: within_trans within_mono)
  have apart: "p \<notin> S \<union> ca_paths_of cfg" "p \<notin> S \<union> ?T" if "p \<in> {?c, ?k}" for p
    using that S leaf_paths_apart [OF spec] by blast+
  have ok: "leaf_ok lib caKey spec"
    using leaves_ok [OF lib key, of cfg host] spec by (simp add: list_all_iff)
  from ensureLeaf_cases [OF ok run] show ?thesis
  proof
    assume kept: "pair_on_disk lib (w_files u) ?c ?k \<and> same_disk u u'"
    then obtain m d m' d' where files: "w_files u ?c = Some (FileNode m d)" "w_files u ?k = Some (FileNode m' d')"
      using pair_files by blast
    have at_w: "w_files w p = w_files u p" if p: "p \<in> {?c, ?k}" for p
    proof -
      obtain n e where "w_files u p = Some (FileNode n e)" using p files by blast
      with only_writes_file [of _ "w_files w" "w_files u" p n e] wu apart(1) [OF p] show ?thesis
        unfolding within_def by metis
    qed
    have at_v: "w_files v p = w_files u p" if p: "p \<in> {?c, ?k}" for p
    proof -
      obtain n e where "w_files u' p = Some (FileNode n e)" "w_files u' p = w_files u p"
        using p files kept by (auto simp: same_disk_def)
      with only_writes_kept [of _ "w_files u'" "w_files v" p] uv apart(2) [OF p] show ?thesis
        unfolding within_def by metis
    qed
    have "pair_on_disk lib (w_files w) ?c ?k"
      using kept at_w [of ?c] at_w [of ?k] on_disk_cong [of "w_files w" _ "w_files u" lib]
      by (simp add: pair_on_disk_def)
    then show ?thesis using at_w at_v by (simp add: leaf_kept_def)
  next
    assume "leaf_issued lib (w_files u') caCert caKey now spec"
    moreover have "w_files v p = w_files u' p" if "p \<in> {?c, ?k}" "w_files u' p \<noteq> None" for p
      using that uv apart(2) [of p] by (auto simp: within_def dest: only_writes_kept)
    ultimately show ?thesis unfolding leaf_issued_def by fastforce
  qed
qed

lemma Generate_outcome:
  assumes lib: "pem_ok lib" and run: "Generate lib None cfg w = (Inr inven, v)"
  shows "\<exists>host now caCert caKey.
    bindHost (PkiBindAddress cfg) = Inr host \<and> inven = generated_inventory cfg \<and>
    authority_on_disk lib (w_files v) (ca_cert_path cfg) (ca_key_path cfg) = Some (caCert, caKey) \<and>
    (authority_on_disk lib (w_files w) (ca_cert_path cfg) (ca_key_path cfg) = Some (caCert, caKey) \<or>
     authority_created lib (w_files v) (ca_cert_path cfg) (ca_key_path cfg) now caCert caKey) \<and>
    list_all (\<lambda>spec. leaf_kept lib (w_files w) (w_files v) spec \<or>
        leaf_issued lib (w_files v) caCert caKey now spec) (generated_leaves cfg host) \<and>
    sa_on_disk lib (w_files v) (artifact_path cfg ''pki/sa.pub'') (artifact_path cfg ''pki/sa.key'')"
proof -
  let ?c = "ca_cert_path cfg" and ?k = "ca_key_path cfg"
  let ?T = "{artifact_path cfg ''pki/sa.pub'', artifact_path cfg ''pki/sa.key''}"
  from run obtain host now caCert caKey w1 w2 w3 w4 where
    host: "bindHost (PkiBindAddress cfg) = Inr host" and inven: "inven = generated_inventory cfg"
    and mk: "MkdirAll (pki_dir cfg) w = (Inr (), w1)" and now: "Now w1 = (now, w2)"
    and ca: "ensureCA lib (pki_dir cfg) now w2 = (Inr (caCert, caKey), w3)"
    and loop: "act_iter (ensureLeaf lib caCert caKey now) (generated_leaves cfg host) w3 = (Inr (), w4)"
    and sa: "ensureServiceAccountPair lib (artifact_path cfg ''pki/sa.pub'') (artifact_path cfg ''pki/sa.key'') w4 = (Inr (), v)"
    by (rule Generate_run)
  have "within {} w w1" by (rule stays_run [OF MkdirAll_within mk])
  moreover have "same_disk w1 w2" using now by (auto simp: Now_def same_disk_def same_env_def)
  ultimately have w2: "within {} w w2" by (blast intro: within_trans same_disk_within)
  have w3: "within (ca_paths_of cfg) w w3"
    using stays_run [OF ca_within ca] w2 by (blast intro: within_trans within_mono)
  have v: "within ?T w4 v" by (rule stays_run [OF ensureSA_within sa])
  have w4: "within (issued_paths cfg) w3 w4" by (rule stays_run [OF leaves_within loop])
  have w3v: "within (issued_paths cfg) w3 v"
    using w4 stays_run [OF sa_within sa] by (rule within_trans)
  note cases = ensureCA_cases [OF lib _ ca_path_eqs(1) [symmetric] ca_path_eqs(2) [symmetric] ca, simplified]
  have same: "file_data (w_files v) p = file_data (w_files w3) p" if "p \<in> ca_paths_of cfg" for p
    using that w3v ca_not_issued [of cfg] by (auto intro: within_data)
  have at_v: "authority_on_disk lib (w_files v) ?c ?k = authority_on_disk lib (w_files w3) ?c ?k"
    by (rule authority_cong) (simp_all add: same ca_paths_of_def)
  have at_w: "authority_on_disk lib (w_files w2) ?c ?k = authority_on_disk lib (w_files w) ?c ?k"
    using within_data [OF w2] by (intro authority_cong) simp_all
  have auth: "authority_on_disk lib (w_files v) ?c ?k = Some (caCert, caKey)"
    using cases at_v by (auto simp: same_disk_def dest: authority_created_on_disk)
  have "authority_created lib (w_files v) ?c ?k now caCert caKey"
    if made: "authority_created lib (w_files w3) ?c ?k now caCert caKey"
  proof -
    have "w_files v p = w_files w3 p" if "p \<in> ca_paths_of cfg" "w_files w3 p \<noteq> None" for p
      using that w3v ca_not_issued [of cfg] by (auto simp: within_def dest: only_writes_kept)
    with made show ?thesis unfolding authority_created_def ca_paths_of_def by fastforce
  qed
  with cases at_w have origin: "authority_on_disk lib (w_files w) ?c ?k = Some (caCert, caKey) \<or>
    authority_created lib (w_files v) ?c ?k now caCert caKey" by auto
  have leaves: "list_all (\<lambda>spec. leaf_kept lib (w_files w) (w_files v) spec \<or>
      leaf_issued lib (w_files v) caCert caKey now spec) (generated_leaves cfg host)"
    using leaf_outcome [OF lib _ loop _ w3 v] cases by (auto simp: list_all_iff)
  have "sa_on_disk lib (w_files v) (artifact_path cfg ''pki/sa.pub'') (artifact_path cfg ''pki/sa.key'')"
    using ensureSA_cases [OF lib _ sa] by (auto simp: same_disk_def)
  with host inven auth origin leaves show ?thesis by blast
qed

text \<open>
  C12. What a successful run leaves on disk. There is an authority: the one that was there before,
  byte for byte, or a new self-signed one with a serial number in [1, 2^63 - 2], valid for 3650 days
  from the run's clock. Each of the fifteen leaf pairs is the pair that was there before, byte for
  byte, if that was a valid pair; otherwise it was issued in this run: the authority's key signed
  it, it does not outlive an authority of this run, it carries the leaf's name, usage and subject
  alternative names, its key is the one on disk, and the files have modes 0644 and 0600 whatever
  the umask. There is a valid service-account pair.
\<close>

theorem Generate_issues:
  assumes lib: "pem_ok lib" and run: "Generate lib None cfg w = (Inr inven, v)"
  shows "\<exists>host now caCert caKey.
    bindHost (PkiBindAddress cfg) = Inr host \<and> inven = generated_inventory cfg \<and>
    authority_on_disk lib (w_files v) (ca_cert_path cfg) (ca_key_path cfg) = Some (caCert, caKey) \<and>
    (authority_on_disk lib (w_files w) (ca_cert_path cfg) (ca_key_path cfg) = Some (caCert, caKey) \<or>
     authority_created lib (w_files v) (ca_cert_path cfg) (ca_key_path cfg) now caCert caKey) \<and>
    list_all (\<lambda>spec. leaf_kept lib (w_files w) (w_files v) spec \<or>
        leaf_issued lib (w_files v) caCert caKey now spec) (generated_leaves cfg host) \<and>
    sa_on_disk lib (w_files v) (artifact_path cfg ''pki/sa.pub'') (artifact_path cfg ''pki/sa.key'')"
  using assms by (rule Generate_outcome)

section \<open>A second run\<close>

definition complete :: "pem \<Rightarrow> pki_config \<Rightarrow> files \<Rightarrow> bool" where
  "complete lib cfg fs \<longleftrightarrow>
     is_dir fs (pki_dir cfg) \<and>
     authority_on_disk lib fs (ca_cert_path cfg) (ca_key_path cfg) \<noteq> None \<and>
     list_all (\<lambda>n. pair_on_disk lib fs (artifact_path cfg (fst n)) (artifact_path cfg (snd n))) leaf_names \<and>
     sa_on_disk lib fs (artifact_path cfg ''pki/sa.pub'') (artifact_path cfg ''pki/sa.key'')"

lemma leaf_pairs_names:
  "list_all (\<lambda>spec. pair_on_disk lib fs (CertPath (leaf_artifact spec)) (KeyPath (leaf_artifact spec)))
     (generated_leaves cfg host) \<longleftrightarrow>
   list_all (\<lambda>n. pair_on_disk lib fs (artifact_path cfg (fst n)) (artifact_path cfg (snd n))) leaf_names"
proof -
  have "list_all (\<lambda>p. pair_on_disk lib fs (fst p) (snd p)) (map spec_paths (generated_leaves cfg host)) \<longleftrightarrow>
    list_all (\<lambda>p. pair_on_disk lib fs (fst p) (snd p))
      (map (map_prod (artifact_path cfg) (artifact_path cfg)) leaf_names)"
    by (simp only: leaf_paths_image)
  then show ?thesis by (simp add: list.pred_map comp_def spec_paths_def)
qed

lemma pki_dir_eq: "pki_dir cfg = artifact_path cfg ''pki''"
  by (simp add: pki_dir_def artifact_path_def PathJoin_plain plain_rel_def plain_elem_def)

lemma all_paths: "ca_paths_of cfg \<union> issued_paths cfg = artifact_path cfg ` set all_names"
  by (simp add: ca_paths_of_def issued_paths_def issued_names_def all_names_def ca_names_def)

lemma dir_not_artifact:
  assumes "d \<in> set dir_names"
  shows "artifact_path cfg d \<notin> ca_paths_of cfg \<union> issued_paths cfg"
proof -
  have "d \<notin> set all_names"
    using names_not_above assms by (auto simp: list_all_iff)
  then show ?thesis unfolding all_paths by auto
qed

lemma pair_cong: "gs c = fs c \<Longrightarrow> gs k = fs k \<Longrightarrow> pair_on_disk lib gs c k = pair_on_disk lib fs c k"
  using on_disk_cong [of gs c fs lib] on_disk_cong [of gs k fs lib] by (simp add: pair_on_disk_def)

lemma Generate_complete:
  assumes lib: "pem_ok lib" and run: "Generate lib None cfg w = (Inr inven, v)"
  shows "complete lib cfg (w_files v)"
proof -
  from run obtain w1 where mk: "MkdirAll (pki_dir cfg) w = (Inr (), w1)"
    and rest: "within (ca_paths_of cfg \<union> issued_paths cfg) w1 v"
  proof (rule Generate_run)
    fix host now caCert caKey w1 w2 w3 w4
    assume mk: "MkdirAll (pki_dir cfg) w = (Inr (), w1)" and now: "Now w1 = (now, w2)"
      and ca: "ensureCA lib (pki_dir cfg) now w2 = (Inr (caCert, caKey), w3)"
      and loop: "act_iter (ensureLeaf lib caCert caKey now) (generated_leaves cfg host) w3 = (Inr (), w4)"
      and sa: "ensureServiceAccountPair lib (artifact_path cfg ''pki/sa.pub'') (artifact_path cfg ''pki/sa.key'') w4 = (Inr (), v)"
    have "same_disk w1 w2" using now by (auto simp: Now_def same_disk_def same_env_def)
    then have "within (ca_paths_of cfg) w1 w3"
      using stays_run [OF ca_within ca] by (blast intro: within_trans same_disk_within)
    moreover have "within (issued_paths cfg) w3 v"
      using stays_run [OF leaves_within loop] stays_run [OF sa_within sa] by (rule within_trans)
    ultimately have "within (ca_paths_of cfg \<union> issued_paths cfg) w1 v"
      by (blast intro: within_trans within_mono)
    with mk show thesis by (rule that)
  qed
  have ne: "pki_dir cfg \<noteq> []" by (simp add: pki_dir_eq artifact_path_def)
  have "is_dir (w_files v) (pki_dir cfg)"
    using within_is_dir [OF rest _ MkdirAll_made [OF mk ne]] dir_not_artifact [of "''pki''" cfg]
    by (simp add: pki_dir_eq dir_names_def)
  moreover obtain host now caCert caKey where
    auth: "authority_on_disk lib (w_files v) (ca_cert_path cfg) (ca_key_path cfg) = Some (caCert, caKey)"
    and leaves: "list_all (\<lambda>spec. leaf_kept lib (w_files w) (w_files v) spec \<or>
        leaf_issued lib (w_files v) caCert caKey now spec) (generated_leaves cfg host)"
    and sa: "sa_on_disk lib (w_files v) (artifact_path cfg ''pki/sa.pub'') (artifact_path cfg ''pki/sa.key'')"
    using Generate_outcome [OF lib run] by blast
  moreover have "pair_on_disk lib (w_files v) (CertPath (leaf_artifact spec)) (KeyPath (leaf_artifact spec))"
    if "leaf_kept lib (w_files w) (w_files v) spec \<or> leaf_issued lib (w_files v) caCert caKey now spec" for spec
    using that
  proof
    assume "leaf_kept lib (w_files w) (w_files v) spec"
    then show ?thesis unfolding leaf_kept_def by (metis pair_cong)
  qed (rule leaf_issued_pair)
  then have "list_all (\<lambda>spec. pair_on_disk lib (w_files v) (CertPath (leaf_artifact spec))
      (KeyPath (leaf_artifact spec))) (generated_leaves cfg host)"
    using leaves by (auto simp: list_all_iff)
  ultimately show ?thesis by (simp add: complete_def leaf_pairs_names)
qed

lemma complete_keeps:
  assumes lib: "pem_ok lib" and calm: "calm w" and full: "complete lib cfg (w_files w)"
    and host: "bindHost (PkiBindAddress cfg) = Inr host"
  shows "\<exists>v. Generate lib None cfg w = (Inr (generated_inventory cfg), v) \<and> same_disk w v"
proof -
  have tr: "calm x \<and> w_files x = w_files w" if "same_disk w x" for x
    using that calm by (auto simp: same_disk_def dest: same_env_calm)
  obtain w1 where mk: "MkdirAll (pki_dir cfg) w = (Inr (), w1)" and w1: "same_disk w w1"
    using MkdirAll_present [OF calm] full unfolding complete_def by blast
  define now where "now = fst (Now w1)"
  define w2 where "w2 = snd (Now w1)"
  have now: "Now w1 = (now, w2)" by (simp add: now_def w2_def)
  then have "same_disk w1 w2" by (auto simp: Now_def same_disk_def same_env_def)
  with w1 have w2: "same_disk w w2" by (rule same_disk_trans)
  from full obtain caCert caKey where
    auth: "authority_on_disk lib (w_files w) (ca_cert_path cfg) (ca_key_path cfg) = Some (caCert, caKey)"
    by (auto simp: complete_def)
  then have key: "is_signer caKey"
    by (auto simp: authority_on_disk_def key_on_disk_def split: option.splits if_splits)
  from auth obtain w3 where ca: "ensureCA lib (pki_dir cfg) now w2 = (Inr (caCert, caKey), w3)" and "same_disk w2 w3"
    using ensureCA_present [of w2 lib "pki_dir cfg" caCert caKey now] tr [OF w2] by (auto simp: ca_path_eqs)
  with w2 have w3: "same_disk w w3" by (blast intro: same_disk_trans)
  have "\<forall>spec \<in> set (generated_leaves cfg host).
      pair_on_disk lib (w_files w3) (CertPath (leaf_artifact spec)) (KeyPath (leaf_artifact spec))"
    using full leaf_pairs_names [of lib "w_files w" cfg host] tr [OF w3] by (simp add: complete_def list_all_iff)
  then obtain w4 where loop: "act_iter (ensureLeaf lib caCert caKey now) (generated_leaves cfg host) w3 = (Inr (), w4)"
    and "same_disk w3 w4"
    using leaf_pairs.loop_keeps [OF leaves_ok [OF lib key]] tr [OF w3] by blast
  with w3 have w4: "same_disk w w4" by (blast intro: same_disk_trans)
  obtain v where sa: "ensureServiceAccountPair lib (artifact_path cfg ''pki/sa.pub'') (artifact_path cfg ''pki/sa.key'') w4 = (Inr (), v)"
    and "same_disk w4 v"
    using service_account.ensure_keeps [of lib "(artifact_path cfg ''pki/sa.pub'', artifact_path cfg ''pki/sa.key'')" w4]
      lib full tr [OF w4] by (auto simp: complete_def)
  with w4 have "same_disk w v" by (blast intro: same_disk_trans)
  moreover have "Generate lib None cfg w = (Inr (generated_inventory cfg), v)"
    unfolding Generate_eq using host mk now ca loop sa
    by (simp add: act_bind_run act_wrap_run act_bind_of_state)
  ultimately show ?thesis by blast
qed

text \<open>
  C14. A second run changes nothing. After a successful run, a run with the same configuration from
  the files it left, on a machine where no call fails, succeeds with the same inventory and does
  not write once: neither a file nor a directory is touched, not even with the same contents.
\<close>

theorem Generate_again:
  assumes "pem_ok lib" and "Generate lib None cfg w = (Inr inven, v)"
    and "calm w'" and "w_files w' = w_files v"
  shows "\<exists>v'. Generate lib None cfg w' = (Inr inven, v') \<and> w_files v' = w_files w' \<and> w_history v' = w_history w'"
proof -
  obtain host where "bindHost (PkiBindAddress cfg) = Inr host" "inven = generated_inventory cfg"
    using Generate_outcome [OF assms(1,2)] by blast
  moreover have "complete lib cfg (w_files w')"
    using Generate_complete [OF assms(1,2)] assms(4) by simp
  ultimately show ?thesis
    using complete_keeps [OF assms(1,3)] by (auto simp: same_disk_def)
qed

section \<open>A run that nothing obstructs succeeds\<close>

text \<open>
  No artifact's path is a directory, no file is where an artifact's directory has to be; the clock
  shows a time that certificates of ten years can carry; the names in the certificates are ASCII
  and accepted by the certificate parser.
\<close>

definition unobstructed :: "pki_config \<Rightarrow> files \<Rightarrow> bool" where
  "unobstructed cfg fs \<longleftrightarrow>
     (\<forall>n \<in> set all_names. \<not> is_dir fs (artifact_path cfg n)) \<and>
     (\<forall>d \<in> set dir_names. \<forall>q \<in> set (path_chain (artifact_path cfg d)). file_data fs q = None)"

definition clock_ok :: "world \<Rightarrow> bool" where
  "clock_ok w \<longleftrightarrow> (\<forall>n. encodable_time (seconds (w_clock w n + w_slept w)) \<and>
     encodable_time (seconds (w_clock w n + w_slept w) + certValidity))"

definition names_ok :: "pem \<Rightarrow> string list \<Rightarrow> bool" where
  "names_ok lib ns = list_all (\<lambda>n. is_IA5 n \<and> san_ok lib n) ns"

lemma dir_names_plain: "list_all plain_rel dir_names"
  by (simp add: dir_names_def plain_rel_def plain_elem_def)

lemma artifact_dir:
  assumes "n \<in> set all_names"
  shows "\<exists>d \<in> set dir_names. Dir (artifact_path cfg n) = artifact_path cfg d"
proof -
  obtain d e where d: "d \<in> set dir_names" and e: "plain_elem e" "n = d @ slash # e"
    using name_dirs assms by (auto simp: list_all_iff)
  moreover have "plain_rel d" using dir_names_plain d by (simp add: list_all_iff)
  ultimately have "Dir (artifact_path cfg n) = artifact_path cfg d"
    by (simp add: artifact_path_def Dir_plain2)
  with d show ?thesis by blast
qed

lemma artifact_not_in_chain:
  assumes "n \<in> set all_names" and "d \<in> set dir_names"
  shows "artifact_path cfg n \<notin> set (path_chain (artifact_path cfg d))"
proof
  assume "artifact_path cfg n \<in> set (path_chain (artifact_path cfg d))"
  then have "prefix n d" by (auto simp: artifact_path_def dest: path_chain_prefix)
  with names_not_above assms show False by (auto simp: list_all_iff)
qed

lemma MkdirAll_unobstructed:
  assumes calm: "calm w" and un: "unobstructed cfg (w_files w)" and d: "d \<in> set dir_names"
  shows "\<exists>v. MkdirAll (artifact_path cfg d) w = (Inr (), v) \<and> unobstructed cfg (w_files v) \<and> same_env w v \<and>
    is_dir (w_files v) (artifact_path cfg d) \<and> (\<forall>p. file_data (w_files v) p = file_data (w_files w) p)"
proof -
  have "w_files w q \<noteq> Some (FileNode m x)" if "q \<in> set (path_chain (artifact_path cfg d))" for q m x
  proof -
    have "file_data (w_files w) q = None" using un d that by (simp add: unobstructed_def)
    then show ?thesis by (auto simp: file_data_def)
  qed
  from MkdirAll_calm [OF calm this] obtain v where v: "MkdirAll (artifact_path cfg d) w = (Inr (), v)" by auto
  have "d \<noteq> []" using d by (auto simp: dir_names_def)
  then have dir: "is_dir (w_files v) (artifact_path cfg d)"
    using MkdirAll_made [OF v] by (simp add: artifact_path_def)
  have env: "within {} w v" by (rule stays_run [OF MkdirAll_within v])
  then have data: "file_data (w_files v) p = file_data (w_files w) p" for p by (auto intro: within_data)
  have "\<not> is_dir (w_files v) (artifact_path cfg n)" if "n \<in> set all_names" for n
    using MkdirAll_value [OF v, of "artifact_path cfg n"] artifact_not_in_chain [OF that d] un that
    by (auto simp: unobstructed_def is_dir_def)
  with un data have "unobstructed cfg (w_files v)" by (simp add: unobstructed_def)
  with v env dir data show ?thesis by (auto simp: within_def)
qed

lemma writeFile_unobstructed:
  assumes calm: "calm w" and un: "unobstructed cfg (w_files w)" and n: "n \<in> set all_names"
  shows "\<exists>v. writeFile (artifact_path cfg n) x m w = (Inr (), v) \<and> unobstructed cfg (w_files v) \<and> same_env w v"
proof -
  let ?p = "artifact_path cfg n"
  obtain d where d: "d \<in> set dir_names" and dir: "Dir ?p = artifact_path cfg d" using artifact_dir [OF n] by blast
  obtain u where u: "MkdirAll (Dir ?p) w = (Inr (), u)" "unobstructed cfg (w_files u)" "same_env w u"
    "is_dir (w_files u) (Dir ?p)" using MkdirAll_unobstructed [OF calm un d] dir by auto
  have np: "\<not> is_dir (w_files u) ?p" using u(2) n by (simp add: unobstructed_def)
  have "calm u" using u(3) calm by (simp add: same_env_calm)
  with WriteFile_calm [of u ?p x m] np u(4) obtain u2 where wr: "WriteFile ?p x m u = (Inr (), u2)" by blast
  then have u2: "w_files u2 = put_file ?p (and m (not (w_umask u))) x (w_files u)" by (auto dest: WriteFile_ok)
  then obtain m' where f2: "w_files u2 = (w_files u)(?p \<mapsto> FileNode m' x)"
    by (auto simp: put_file_def split: option.splits node.splits)
  have env2: "within {?p} u u2" by (rule stays_run [OF WriteFile_within wr]) simp
  from within_calm [OF this \<open>calm u\<close>] have "calm u2" .
  with Chmod_calm [of u2 ?p m' x m] f2 obtain v where ch: "Chmod ?p m u2 = (Inr (), v)" by auto
  have env3: "within {?p} u2 v" by (rule stays_run [OF Chmod_within ch]) simp
  have fv: "w_files v = (w_files u)(?p \<mapsto> FileNode m x)" using Chmod_ok [OF ch, of m' x] f2 by simp
  have "unobstructed cfg (w_files v)"
    unfolding unobstructed_def
  proof (intro conjI ballI)
    fix a
    assume "a \<in> set all_names"
    with u(2) have "\<not> is_dir (w_files u) (artifact_path cfg a)" by (simp add: unobstructed_def)
    then show "\<not> is_dir (w_files v) (artifact_path cfg a)" by (auto simp: fv is_dir_def)
  next
    fix e q
    assume e: "e \<in> set dir_names" and q: "q \<in> set (path_chain (artifact_path cfg e))"
    then have "q \<noteq> ?p" using artifact_not_in_chain [OF n e] by blast
    with e q u(2) show "file_data (w_files v) q = None" by (simp add: unobstructed_def fv file_data_def)
  qed
  moreover have "same_env w v" using u(3) env2 env3 by (simp add: within_def same_env_def)
  moreover have "writeFile ?p x m w = (Inr (), v)"
    unfolding writeFile_def using u(1) wr ch by (simp add: act_bind_run act_wrap_run)
  ultimately show ?thesis by blast
qed

text \<open>\<open>ready\<close> collects what the steps need and keep.\<close>

definition ready :: "pki_config \<Rightarrow> world \<Rightarrow> bool" where
  "ready cfg w \<longleftrightarrow> calm w \<and> unobstructed cfg (w_files w) \<and> clock_ok w"

lemma ready_reads: "ready cfg w \<Longrightarrow> same_disk w v \<Longrightarrow> ready cfg v"
  by (auto simp: ready_def same_disk_def clock_ok_def calm_def same_env_def)

lemma ready_write:
  assumes "ready cfg w" and "n \<in> set all_names"
  shows "\<exists>v. writeFile (artifact_path cfg n) x m w = (Inr (), v) \<and> ready cfg v"
proof -
  from writeFile_unobstructed [of w cfg n x m] assms obtain v where
    "writeFile (artifact_path cfg n) x m w = (Inr (), v)" "unobstructed cfg (w_files v)" "same_env w v"
    by (auto simp: ready_def)
  with assms(1) show ?thesis by (auto simp: ready_def clock_ok_def calm_def same_env_def)
qed

lemma ready_write_cert:
  assumes "ready cfg w" and "n \<in> set all_names" and "pem_ok lib" and "SignedBy c \<noteq> NoKey"
  shows "\<exists>v. writeCertFile lib (artifact_path cfg n) c w = (Inr (), v) \<and> ready cfg v"
proof -
  from assms(3,4) obtain s where "EncodeCertificates lib c = Some s" unfolding pem_ok_def by blast
  then show ?thesis using ready_write [OF assms(1,2)] by (simp add: writeCertFile_def)
qed

lemma ready_write_key:
  assumes "ready cfg w" and "n \<in> set all_names" and "pem_ok lib" and "k \<in> {RSAKey i, ECKey i}"
  shows "\<exists>v. writeKeyFile lib (artifact_path cfg n) k w = (Inr (), v) \<and> ready cfg v"
proof -
  from assms(3,4) obtain s where "MarshalPrivateKeyToPEM lib k = Some s" unfolding pem_ok_def by blast
  then show ?thesis using ready_write [OF assms(1,2)] by (simp add: writeKeyFile_def)
qed

lemma createCertificate_succeeds:
  assumes "0 \<le> SerialNumber tmpl" and "IsCA tmpl \<Longrightarrow> BasicConstraintsValid tmpl"
    and "MarshalPKIXPublicKey pub \<noteq> None"
    and "encodable_time (NotBefore tmpl)" and "encodable_time (NotAfter tmpl)"
    and "names_ok lib (DNSNames tmpl)" and "PublicKey parent \<in> {NoKey, Public signer}"
  shows "createCertificate lib tmpl parent pub signer =
    Inr (tmpl\<lparr>Issuer := Subject parent, PublicKey := pub, SignedBy := Public signer\<rparr>)"
proof -
  have "filter (\<lambda>name. \<not> is_IA5 name) (DNSNames tmpl) = []" "filter (\<lambda>name. \<not> san_ok lib name) (DNSNames tmpl) = []"
    using assms(6) by (auto simp: names_ok_def list_all_iff filter_empty_conv)
  with assms show ?thesis
    by (auto simp: createCertificate_def x509_CreateCertificate_def x509_ParseCertificate_def)
qed

lemma randomSerial_run: "\<exists>s v. randomSerial w = (Inr s, v) \<and> 0 \<le> s \<and> same_disk w v"
  by (auto simp: randomSerial_def act_bind_def of_state_def draw_def Let_def same_disk_def same_env_def)

lemma draw_run: "\<exists>n v. draw w = (n, v) \<and> same_disk w v"
  by (auto simp: draw_def same_disk_def same_env_def)

lemma Generate_key_run:
  "draw u = (i, v) \<Longrightarrow> GenerateRSA u = (Inr (RSAKey i), v)"
  "draw u = (i, v) \<Longrightarrow> GenerateECDSA u = (Inr (ECKey i), v)"
  by (simp_all add: GenerateRSA_def GenerateECDSA_def act_bind_of_state)

text \<open>The three operations succeed from a ready state and leave a ready state.\<close>

lemma newSignedCert_succeeds:
  assumes "encodable_time (seconds now)" and "encodable_time (seconds now + certValidity)"
    and "names_ok lib (AltDNSNames cfg)" and "PublicKey caCert = Public caKey"
  shows "\<exists>c v. newSignedCert lib cfg now (ECKey n) caCert caKey w = (Inr c, v) \<and> SignedBy c = Public caKey \<and> same_disk w v"
proof -
  obtain s v where "randomSerial w = (Inr s :: x509_error + int, v)" "0 \<le> s" "same_disk w v" using randomSerial_run by blast
  with assms show ?thesis
    by (simp add: newSignedCert_def act_bind_run Let_def zero_certificate_def createCertificate_succeeds)
qed

lemma ensureLeaf_succeeds:
  assumes ready: "ready cfg w" and lib: "pem_ok lib"
    and now: "encodable_time (seconds now)" "encodable_time (seconds now + certValidity)"
    and dns: "names_ok lib (dnsNames spec)" and ca: "PublicKey caCert = Public caKey" "is_signer caKey"
    and c: "CertPath (leaf_artifact spec) = artifact_path cfg n" "n \<in> set all_names"
    and k: "KeyPath (leaf_artifact spec) = artifact_path cfg m" "m \<in> set all_names"
  shows "\<exists>v. ensureLeaf lib caCert caKey now spec w = (Inr (), v) \<and> ready cfg v"
proof -
  obtain b u where check: "validPair lib (artifact_path cfg n) (artifact_path cfg m) w = (b, u)" by fastforce
  then have ru: "ready cfg u" using ready validPair_same ready_reads by blast
  show ?thesis
  proof (cases b)
    case True
    with check ru show ?thesis by (simp add: ensureLeaf_def Let_def c k act_bind_of_state)
  next
    case False
    obtain i u1 where i: "draw u = (i, u1)" "same_disk u u1" using draw_run by blast
    let ?cfg = "\<lparr>CommonName = commonName spec, Organization = [], AltDNSNames = dnsNames spec,
      AltIPs = ipAddresses spec, Usages = usages spec\<rparr>"
    obtain crt u2 where crt: "newSignedCert lib ?cfg now (ECKey i) caCert caKey u1 = (Inr crt, u2)"
      "SignedBy crt = Public caKey" "same_disk u1 u2"
      using newSignedCert_succeeds [OF now, of lib ?cfg caCert caKey i u1] dns ca by auto
    have "ready cfg u2" using ru i(2) crt(3) by (blast intro: ready_reads)
    with ready_write_cert [of cfg u2 n lib crt] c(2) lib crt(2) ca(2) obtain u3
      where wc: "writeCertFile lib (artifact_path cfg n) crt u2 = (Inr (), u3)" "ready cfg u3"
      by (auto simp: Public_NoKey)
    obtain v where wk: "writeKeyFile lib (artifact_path cfg m) (ECKey i) u3 = (Inr (), v)" "ready cfg v"
      using ready_write_key [OF wc(2) k(2) lib, of "ECKey i" i] by auto
    have "ensureLeaf lib caCert caKey now spec w = (Inr (), v)"
      using check False i(1) crt(1) wc(1) wk(1)
      by (simp add: ensureLeaf_def Let_def c k act_bind_of_state act_bind_run act_wrap_run Generate_key_run)
    with wk(2) show ?thesis by blast
  qed
qed

lemma leaves_succeed:
  assumes "ready cfg w" and lib: "pem_ok lib"
    and now: "encodable_time (seconds now)" "encodable_time (seconds now + certValidity)"
    and ca: "PublicKey caCert = Public caKey" "is_signer caKey"
    and specs: "\<forall>spec \<in> set specs. names_ok lib (dnsNames spec) \<and>
      (\<exists>n \<in> set all_names. CertPath (leaf_artifact spec) = artifact_path cfg n) \<and>
      (\<exists>n \<in> set all_names. KeyPath (leaf_artifact spec) = artifact_path cfg n)"
  shows "\<exists>v. act_iter (ensureLeaf lib caCert caKey now) specs w = (Inr (), v) \<and> ready cfg v"
  using assms(1) specs
proof (induction specs arbitrary: w)
  case Nil
  then show ?case by simp
next
  case (Cons spec specs)
  then obtain n m where "n \<in> set all_names" "CertPath (leaf_artifact spec) = artifact_path cfg n"
    "m \<in> set all_names" "KeyPath (leaf_artifact spec) = artifact_path cfg m" "names_ok lib (dnsNames spec)"
    by auto
  with ensureLeaf_succeeds [OF Cons.prems(1) lib now _ ca] obtain u
    where u: "ensureLeaf lib caCert caKey now spec w = (Inr (), u)" "ready cfg u" by blast
  with Cons.IH [of u] Cons.prems(2) show ?case by (auto simp: act_bind_run)
qed

lemma ensureSA_succeeds:
  assumes ready: "ready cfg w" and lib: "pem_ok lib"
  shows "\<exists>v. ensureServiceAccountPair lib (artifact_path cfg ''pki/sa.pub'') (artifact_path cfg ''pki/sa.key'') w = (Inr (), v)"
proof -
  have names: "''pki/sa.pub'' \<in> set all_names" "''pki/sa.key'' \<in> set all_names"
    by (simp_all add: all_names_def sa_names_def)
  obtain b u where check: "validSAPair lib (artifact_path cfg ''pki/sa.pub'') (artifact_path cfg ''pki/sa.key'') w = (b, u)"
    by fastforce
  then have ru: "ready cfg u" using ready validSAPair_same ready_reads by blast
  show ?thesis
  proof (cases b)
    case True
    with check show ?thesis by (simp add: ensureServiceAccountPair_def act_bind_of_state)
  next
    case False
    obtain i u1 where i: "draw u = (i, u1)" "same_disk u u1" using draw_run by blast
    then have "ready cfg u1" using ru by (blast intro: ready_reads)
    from ready_write_key [OF this names(2) lib, of "RSAKey i" i] obtain u2
      where wk: "writeKeyFile lib (artifact_path cfg ''pki/sa.key'') (RSAKey i) u1 = (Inr (), u2)" "ready cfg u2" by auto
    obtain s u3 where s: "randomSerial u2 = (Inr s :: x509_error + int, u3)" "0 \<le> s" "same_disk u2 u3" using randomSerial_run by blast
    define t where "t = fst (Now u3)"
    define u4 where "u4 = snd (Now u3)"
    have t: "Now u3 = (t, u4)" by (simp add: t_def u4_def)
    then have "same_disk u3 u4" by (auto simp: Now_def same_disk_def same_env_def)
    then have r4: "ready cfg u4" using wk(2) s(3) by (blast intro: ready_reads)
    have "ready cfg u3" using wk(2) s(3) by (blast intro: ready_reads)
    then have enc: "encodable_time (seconds t)" "encodable_time (seconds t + certValidity)"
      using t by (auto simp: Now_def ready_def clock_ok_def)
    then obtain crt where crt: "publicKeyCert lib (RSAPub i) (RSAKey i) u2 = (Inr crt, u4)" "SignedBy crt = RSAPub i"
      using s t by (simp add: publicKeyCert_def act_bind_run act_bind_of_state Let_def zero_certificate_def
          createCertificate_succeeds names_ok_def)
    from ready_write_cert [OF r4 names(1) lib, of crt] crt(2) obtain v
      where wc: "writeCertFile lib (artifact_path cfg ''pki/sa.pub'') crt u4 = (Inr (), v)" by auto
    show ?thesis
      using check False i(1) wk(1) crt(1) wc
      by (simp add: ensureServiceAccountPair_def act_bind_of_state act_bind_run act_wrap_run Generate_key_run)
  qed
qed

lemma ensureCA_succeeds:
  assumes ready: "ready cfg w" and lib: "pem_ok lib"
    and now: "encodable_time (seconds now)" "encodable_time (seconds now + certValidity)"
    and start: "file_data (w_files w) (ca_cert_path cfg) = None \<and> file_data (w_files w) (ca_key_path cfg) = None \<or>
      authority_on_disk lib (w_files w) (ca_cert_path cfg) (ca_key_path cfg) \<noteq> None"
  shows "\<exists>crt key v. ensureCA lib (pki_dir cfg) now w = (Inr (crt, key), v) \<and> ready cfg v \<and>
    PublicKey crt = Public key \<and> is_signer key"
proof (cases "authority_on_disk lib (w_files w) (ca_cert_path cfg) (ca_key_path cfg)")
  case (Some p)
  obtain crt key where p: "p = (crt, key)" by fastforce
  have auth: "is_authority crt key" "is_signer key"
    using Some p by (auto simp: authority_on_disk_def key_on_disk_def split: option.splits if_splits)
  then have "PublicKey crt = Public key"
    by (cases key; cases "PublicKey crt") (simp_all add: is_authority_def publicKeysEqual_def)
  moreover obtain v where "ensureCA lib (pki_dir cfg) now w = (Inr (crt, key), v)" "same_disk w v"
    using ensureCA_present [of w lib "pki_dir cfg" crt key now] Some p ready by (auto simp: ca_path_eqs ready_def)
  ultimately show ?thesis using ready_reads [OF ready] auth(2) by blast
next
  case None
  with start have gone: "file_data (w_files w) (ca_cert_path cfg) = None" "file_data (w_files w) (ca_key_path cfg) = None"
    by auto
  have names: "''pki/ca.crt'' \<in> set all_names" "''pki/ca.key'' \<in> set all_names"
    by (simp_all add: all_names_def ca_names_def)
  have missing: "\<exists>u. fileExists (artifact_path cfg n) x = (Inr False, u) \<and> same_disk x u"
    if "ready cfg x" "n \<in> set all_names" "file_data (w_files x) (artifact_path cfg n) = None" for x n
  proof -
    have "\<not> is_dir (w_files x) (artifact_path cfg n)" using that by (simp add: ready_def unobstructed_def)
    with that(3) have "w_files x (artifact_path cfg n) = None"
      by (auto simp: file_data_def is_dir_def split: option.splits node.splits)
    with \<open>\<not> is_dir _ _\<close> Stat_calm [of x "artifact_path cfg n"] that(1) show ?thesis
      using next_fault_same [of x] by (cases "next_fault x") (auto simp: fileExists_def ready_def)
  qed
  obtain u1 where u1: "fileExists (ca_cert_path cfg) w = (Inr False, u1)" "same_disk w u1"
    using missing [OF ready names(1) gone(1)] by blast
  with gone(2) have r1: "ready cfg u1" "file_data (w_files u1) (ca_key_path cfg) = None"
    using ready_reads [OF ready] by (auto simp: same_disk_def)
  obtain u2 where u2: "fileExists (ca_key_path cfg) u1 = (Inr False, u2)" "same_disk u1 u2"
    using missing [OF r1(1) names(2) r1(2)] by blast
  obtain i u3 where i: "draw u2 = (i, u3)" "same_disk u2 u3" using draw_run by blast
  obtain s u4 where s: "randomSerial u3 = (Inr s :: x509_error + int, u4)" "0 \<le> s" "same_disk u3 u4"
    using randomSerial_run by blast
  have "same_disk u1 u4" using u2(2) i(2) s(3) by (blast intro: same_disk_trans)
  then have r4: "ready cfg u4" by (rule ready_reads [OF r1(1)])
  obtain crt where crt: "newCACert lib (RSAKey i) now u3 = (Inr crt, u4)" "SignedBy crt = RSAPub i" "PublicKey crt = RSAPub i"
    using s now by (simp add: newCACert_def act_bind_run Let_def zero_certificate_def
        createCertificate_succeeds names_ok_def)
  obtain u5 where wc: "writeCertFile lib (ca_cert_path cfg) crt u4 = (Inr (), u5)" "ready cfg u5"
    using ready_write_cert [OF r4 names(1) lib, of crt] crt(2) by auto
  obtain v where wk: "writeKeyFile lib (ca_key_path cfg) (RSAKey i) u5 = (Inr (), v)" "ready cfg v"
    using ready_write_key [OF wc(2) names(2) lib, of "RSAKey i" i] by auto
  have "ensureCA lib (pki_dir cfg) now w = (Inr (crt, RSAKey i), v)"
    unfolding ensureCA_def ca_path_eqs Let_def
    by (simp add: act_bind_def act_wrap_def u1(1) u2(1) Generate_key_run(1) [OF i(1)] crt(1) wc(1) wk(1))
  with crt(3) wk(2) show ?thesis by auto
qed

lemma Generate_ready:
  assumes lib: "pem_ok lib" and host: "bindHost (PkiBindAddress cfg) = Inr host"
    and names: "names_ok lib (fst (apiserverSANs host) @ fst (hypervisorWebhookSANs (PkiHypervisorWebhookHost cfg)))"
    and ready: "ready cfg w"
    and start: "file_data (w_files w) (ca_cert_path cfg) = None \<and> file_data (w_files w) (ca_key_path cfg) = None \<or>
      authority_on_disk lib (w_files w) (ca_cert_path cfg) (ca_key_path cfg) \<noteq> None"
  shows "\<exists>v. Generate lib None cfg w = (Inr (generated_inventory cfg), v)"
proof -
  have pd: "''pki'' \<in> set dir_names" by (simp add: dir_names_def)
  obtain w1 where mk: "MkdirAll (pki_dir cfg) w = (Inr (), w1)" and un: "unobstructed cfg (w_files w1)"
    and env: "same_env w w1" and data: "\<forall>p. file_data (w_files w1) p = file_data (w_files w) p"
    using MkdirAll_unobstructed [of w cfg "''pki''", OF _ _ pd] ready by (auto simp: ready_def pki_dir_eq)
  have r1: "ready cfg w1" using un env ready by (auto simp: ready_def clock_ok_def calm_def same_env_def)
  define now where "now = fst (Now w1)"
  define w2 where "w2 = snd (Now w1)"
  have now: "Now w1 = (now, w2)" by (simp add: now_def w2_def)
  then have sd: "same_disk w1 w2" by (auto simp: Now_def same_disk_def same_env_def)
  then have r2: "ready cfg w2" by (rule ready_reads [OF r1])
  have enc: "encodable_time (seconds now)" "encodable_time (seconds now + certValidity)"
    using now r1 by (auto simp: Now_def ready_def clock_ok_def)
  have "file_data (w_files w2) p = file_data (w_files w) p" for p using data sd by (simp add: same_disk_def)
  with start authority_cong [of "w_files w2" "ca_cert_path cfg" "w_files w" "ca_key_path cfg" lib]
  obtain crt key w3 where ca: "ensureCA lib (pki_dir cfg) now w2 = (Inr (crt, key), w3)" "ready cfg w3"
    "PublicKey crt = Public key" "is_signer key"
    using ensureCA_succeeds [OF r2 lib enc] by auto
  have lo: "names_ok lib [''localhost'']" "names_ok lib []" "names_ok lib (fst (apiserverSANs host))"
    "names_ok lib (fst (hypervisorWebhookSANs (PkiHypervisorWebhookHost cfg)))"
    using lib names by (simp_all add: names_ok_def pem_ok_def is_IA5_def byte_val_def)
  have "names_ok lib (dnsNames spec)" if "spec \<in> set (generated_leaves cfg host)" for spec
    using that lo
    by (cases "apiserverSANs host"; cases "hypervisorWebhookSANs (PkiHypervisorWebhookHost cfg)")
      (auto simp: generated_leaves_def leaf_specs_def Let_def leaf_spec_def split: prod.splits)
  moreover have "fst n \<in> set all_names" "snd n \<in> set all_names" if "n \<in> set leaf_names" for n
    using that by (auto simp: all_names_def)
  ultimately have "\<forall>spec \<in> set (generated_leaves cfg host). names_ok lib (dnsNames spec) \<and>
      (\<exists>n \<in> set all_names. CertPath (leaf_artifact spec) = artifact_path cfg n) \<and>
      (\<exists>n \<in> set all_names. KeyPath (leaf_artifact spec) = artifact_path cfg n)"
    using leaf_spec_in_names by blast
  from leaves_succeed [OF ca(2) lib enc ca(3,4) this] obtain w4
    where loop: "act_iter (ensureLeaf lib crt key now) (generated_leaves cfg host) w3 = (Inr (), w4)" "ready cfg w4"
    by blast
  from ensureSA_succeeds [OF loop(2) lib] obtain v
    where "ensureServiceAccountPair lib (artifact_path cfg ''pki/sa.pub'') (artifact_path cfg ''pki/sa.key'') w4 = (Inr (), v)" ..
  with host mk now ca(1) loop(1) show ?thesis
    unfolding Generate_eq by (simp add: act_bind_run act_wrap_run act_bind_of_state)
qed

text \<open>
  A run succeeds wherever nothing is in its way: no call fails, no directory is at an
  artifact's path and no file where a directory must be, the clock shows a year a certificate of
  ten years can carry, the bind address splits, the subject alternative names are ASCII and
  accepted by the parser, and the authority is either missing altogether or valid. Files of leaf
  pairs may be missing, broken or of another authority.
\<close>

theorem Generate_succeeds:
  assumes "pem_ok lib" and "bindHost (PkiBindAddress cfg) = Inr host"
    and "names_ok lib (fst (apiserverSANs host) @ fst (hypervisorWebhookSANs (PkiHypervisorWebhookHost cfg)))"
    and "calm w" and "unobstructed cfg (w_files w)" and "clock_ok w"
    and "file_data (w_files w) (ca_cert_path cfg) = None \<and> file_data (w_files w) (ca_key_path cfg) = None \<or>
      authority_on_disk lib (w_files w) (ca_cert_path cfg) (ca_key_path cfg) \<noteq> None"
  shows "\<exists>v. Generate lib None cfg w = (Inr (generated_inventory cfg), v)"
  using Generate_ready [OF assms(1-3) _ assms(7)] assms(4-6) by (simp add: ready_def)


section \<open>Valid leaves are kept, whoever signed them\<close>

lemma within_kept: "within S w v \<Longrightarrow> p \<notin> S \<Longrightarrow> w_files w p = Some n \<Longrightarrow> w_files v p = Some n"
  unfolding within_def by (blast dest: only_writes_kept)

lemma Generate_leaf_loop:
  assumes lib: "pem_ok lib" and run: "Generate lib None cfg w = (Inr inven, v)"
  obtains host now caCert caKey w3 w4 where
    "is_signer caKey" and "within (ca_paths_of cfg) w w3"
    and "act_iter (ensureLeaf lib caCert caKey now) (generated_leaves cfg host) w3 = (Inr (), w4)"
    and "within {artifact_path cfg ''pki/sa.pub'', artifact_path cfg ''pki/sa.key''} w4 v"
proof (rule Generate_run [OF run])
  fix host now caCert caKey w1 w2 w3 w4
  assume mk: "MkdirAll (pki_dir cfg) w = (Inr (), w1)" and now: "Now w1 = (now, w2)"
    and ca: "ensureCA lib (pki_dir cfg) now w2 = (Inr (caCert, caKey), w3)"
    and loop: "act_iter (ensureLeaf lib caCert caKey now) (generated_leaves cfg host) w3 = (Inr (), w4)"
    and sa: "ensureServiceAccountPair lib (artifact_path cfg ''pki/sa.pub'') (artifact_path cfg ''pki/sa.key'') w4 = (Inr (), v)"
  have "within {} w w1" by (rule stays_run [OF MkdirAll_within mk])
  moreover have "same_disk w1 w2" using now by (auto simp: Now_def same_disk_def same_env_def)
  ultimately have "within (ca_paths_of cfg) w w2"
    by (blast intro: within_trans same_disk_within within_mono)
  then have "within (ca_paths_of cfg) w w3" using stays_run [OF ca_within ca] by (blast intro: within_trans)
  moreover have "is_signer caKey"
    using ensureCA_cases [OF lib _ ca_path_eqs(1) [symmetric] ca_path_eqs(2) [symmetric] ca] by simp
  ultimately show thesis using that loop stays_run [OF ensureSA_within sa] by blast
qed


section \<open>Serial numbers and stored pairs\<close>

text \<open>
  A serial number is any number from 1 to MaxInt64 - 1, and no other: never zero, and it always
  fits a signed 64-bit integer.
\<close>

theorem randomSerial_range:
  "(\<exists>w v. (randomSerial w :: (pki_error + int) \<times> world) = (Inr s, v)) \<longleftrightarrow> 1 \<le> s \<and> s \<le> 2 ^ 63 - 2"
proof
  assume "\<exists>w v. (randomSerial w :: (pki_error + int) \<times> world) = (Inr s, v)"
  then show "1 \<le> s \<and> s \<le> 2 ^ 63 - 2" by (auto dest: randomSerial_ok)
next
  assume s: "1 \<le> s \<and> s \<le> 2 ^ 63 - 2"
  let ?w = "\<lparr>w_files = Map.empty, w_umask = 0, w_faults = (\<lambda>_. NoFault), w_calls = 0, w_history = [],
      w_entropy = (\<lambda>_. nat (s - 1)), w_drawn = 0, w_clock = (\<lambda>_. 0), w_looked = 0, w_slept = 0,
      w_cancel = (\<lambda>_. None), w_selects = 0\<rparr>"
  have "nat (s - 1) mod maxSerialBytes = nat (s - 1)"
    using s by (intro mod_less) (simp add: maxSerialBytes_def nat_less_iff)
  then have "(randomSerial ?w :: (pki_error + int) \<times> world) = (Inr s, snd (draw ?w))"
    using s by (simp add: randomSerial_def act_bind_def of_state_def draw_def Let_def)
  then show "\<exists>w v. (randomSerial w :: (pki_error + int) \<times> world) = (Inr s, v)" by blast
qed

text \<open>
  C36. What is stored reads back: a certificate written to one path and a key written to another can
  be read from them afterwards, with the mode of their kind, and the pair is valid exactly when
  the certificate is for that key.
\<close>

theorem stored_pair_reads_back:
  assumes lib: "pem_ok lib" and signed: "SignedBy c \<noteq> NoKey" and k: "k \<in> {RSAKey n, ECKey n}" and pq: "p \<noteq> q"
    and wc: "writeCertFile lib p c w = (Inr (), u)" and wk: "writeKeyFile lib q k u = (Inr (), v)" and calm: "calm v"
  shows "fst (readSingleCert lib p v) = Inr c \<and> fst (readSigner lib q v) = Inr k \<and>
    fst (validPair lib p q v) = (PublicKey c = Public k) \<and>
    (\<exists>d e. w_files v p = Some (FileNode 0x1A4 d) \<and> w_files v q = Some (FileNode 0x180 e))"
proof -
  from writeCertFile_ok [OF wc] obtain d where d: "EncodeCertificates lib c = Some d"
    "w_files u p = Some (FileNode certFileMode d)" by blast
  from writeKeyFile_ok [OF wk] obtain e where e: "MarshalPrivateKeyToPEM lib k = Some e"
    "w_files v q = Some (FileNode keyFileMode e)" by blast
  have "within {q} u v" by (rule stays_run [OF write_pem_within(2) wk]) simp
  with d(2) pq have p: "w_files v p = Some (FileNode certFileMode d)" by (auto intro: within_kept)
  have "is_signer k" using k by auto
  have crt: "cert_on_disk lib (w_files v) p = Some c"
    using pem_ok_cert [OF lib signed d(1)] p by (simp add: cert_on_disk_def file_data_def)
  have key: "key_on_disk lib (w_files v) q = Some k"
    using pem_ok_key [OF lib k e(1)] e(2) \<open>is_signer k\<close> by (simp add: key_on_disk_def file_data_def)
  obtain v1 where r1: "readSingleCert lib p v = (Inr c, v1)" using readSingleCert_calm [OF calm crt] by blast
  obtain v2 where r2: "readSigner lib q v = (Inr k, v2)" using readSigner_calm [OF calm key] by blast
  have eq: "publicKeysEqual (Public k) (PublicKey c) = (PublicKey c = Public k)"
    using k by (cases "PublicKey c") (auto simp: publicKeysEqual_def)
  have "same_disk v v1" using r1 by (rule stays_run [OF read_pem_reads(1)])
  with calm key have "calm v1" "key_on_disk lib (w_files v1) q = Some k"
    by (auto simp: same_disk_def dest: same_env_calm)
  then obtain v3 where "readSigner lib q v1 = (Inr k, v3)" using readSigner_calm by blast
  with r1 r2 eq p e(2) show ?thesis by (simp add: validPair_def certFileMode_def keyFileMode_def)
qed

end
