(* ===== verification/Kubeconfig.thy ===== *)
theory Kubeconfig
  imports PkiGenerate Config
begin

text \<open>
  The files that setup writes beside the certificates: \<open>BuildKubeconfig\<close>, \<open>WriteKubeconfigFile\<close>,
  \<open>WriteFileAtomic\<close> and \<open>ManagerArtifact\<close> of \<open>src/cmd/capishim/setup.go\<close>. The serialisation of a
  kubeconfig is client-go's \<open>clientcmd.Write\<close>, a parameter.
\<close>

section \<open>Kubeconfigs\<close>

definition kubeconfigContextName :: string where "kubeconfigContextName = ''default''"
definition kubeconfigFileMode :: file_mode where "kubeconfigFileMode = 0x180"

record kc_cluster =
  kc_Server :: string
  kc_CertificateAuthority :: string
  kc_CertificateAuthorityData :: string

record kc_auth =
  kc_ClientCertificate :: string
  kc_ClientKey :: string

record kc_context =
  kc_Cluster :: string
  kc_AuthInfo :: string

record kubeconfig =
  kc_Clusters :: "string \<rightharpoonup> kc_cluster"
  kc_AuthInfos :: "string \<rightharpoonup> kc_auth"
  kc_Contexts :: "string \<rightharpoonup> kc_context"
  kc_CurrentContext :: string

definition BuildKubeconfig :: "string \<Rightarrow> string \<Rightarrow> string \<Rightarrow> string \<Rightarrow> kubeconfig" where
  "BuildKubeconfig server caPath certPath keyPath =
     \<lparr>kc_Clusters = [kubeconfigContextName \<mapsto>
        \<lparr>kc_Server = server, kc_CertificateAuthority = caPath, kc_CertificateAuthorityData = []\<rparr>],
      kc_AuthInfos = [kubeconfigContextName \<mapsto> \<lparr>kc_ClientCertificate = certPath, kc_ClientKey = keyPath\<rparr>],
      kc_Contexts = [kubeconfigContextName \<mapsto>
        \<lparr>kc_Cluster = kubeconfigContextName, kc_AuthInfo = kubeconfigContextName\<rparr>],
      kc_CurrentContext = kubeconfigContextName\<rparr>"

fun ManagerArtifact :: "ComponentID \<Rightarrow> inventory \<Rightarrow> artifact option" where
  "ManagerArtifact i inven =
     (if i = ComponentCore then Some (CoreManager inven)
      else if i = ComponentCABPK then Some (CABPKManager inven)
      else if i = ComponentKCP then Some (KCPManager inven)
      else if i = ComponentCAPD then Some (CAPDManager inven)
      else if i = ComponentHypervisor then Some (HypervisorManager inven)
      else None)"

section \<open>Writing a file atomically\<close>

datatype atomic_error =
  AtomicDir string io_error | AtomicTemp io_error | AtomicWrite io_error | AtomicChmod io_error | AtomicRename string io_error

text \<open>
  The deferred function closes the handle, which the model does not keep, and removes the temporary
  file; its errors are printed and dropped. \<open>tmp.Write\<close> writes to the new, empty file.
\<close>

definition atomic_body :: "string \<Rightarrow> string \<Rightarrow> string \<Rightarrow> file_mode \<Rightarrow> (world, atomic_error, unit) action" where
  "atomic_body tmpPath path data mode =
     act_bind (act_wrap AtomicWrite (WriteFile tmpPath data mode)) (\<lambda>_.
     act_bind (act_wrap AtomicChmod (Chmod tmpPath mode)) (\<lambda>_.
       act_wrap (AtomicRename path) (Rename tmpPath path)))"

definition WriteFileAtomic :: "string \<Rightarrow> string \<Rightarrow> file_mode \<Rightarrow> (world, atomic_error, unit) action" where
  "WriteFileAtomic path data mode =
     (let dir = Dir path
      in act_bind (act_wrap (AtomicDir dir) (MkdirAll dir)) (\<lambda>_.
         act_bind (act_wrap AtomicTemp (CreateTemp dir)) (\<lambda>tmpPath w.
           case atomic_body tmpPath path data mode w of
             (r, u) \<Rightarrow> (case Remove tmpPath u of (_, v) \<Rightarrow> (r, v)))))"

datatype kubeconfig_error = SerializeKubeconfig string | WriteKubeconfig string atomic_error

definition WriteKubeconfigFile ::
  "(kubeconfig \<Rightarrow> string + string) \<Rightarrow> kubeconfig \<Rightarrow> string \<Rightarrow> (world, kubeconfig_error, unit) action" where
  "WriteKubeconfigFile serialize kc path =
     act_bind (act_lift (wrap_err SerializeKubeconfig (serialize kc))) (\<lambda>data.
       act_wrap (WriteKubeconfig path) (WriteFileAtomic path data kubeconfigFileMode))"

section \<open>All or nothing\<close>

text \<open>
  \<open>steady p\<close>: the name \<open>p\<close> means the same before, after, and in every state in between.
\<close>

definition steady :: "string \<Rightarrow> world \<Rightarrow> world \<Rightarrow> bool" where
  "steady p w v \<longleftrightarrow> w_files v p = w_files w p \<and>
     (\<exists>hs. w_history v = hs @ w_history w \<and> list_all (\<lambda>fs. fs p = w_files w p) hs)"

lemma steady_refl [simp]: "steady p w w"
  by (simp add: steady_def)

lemma steady_trans:
  assumes "steady p u v" and "steady p v w"
  shows "steady p u w"
proof -
  from assms obtain hs gs where "w_history v = hs @ w_history u" "list_all (\<lambda>fs. fs p = w_files u p) hs"
    "w_history w = gs @ w_history v" "list_all (\<lambda>fs. fs p = w_files v p) gs"
    by (auto simp: steady_def)
  with assms show ?thesis by (auto simp: steady_def intro!: exI [of _ "gs @ hs"])
qed

lemma steady_disk: "same_disk w v \<Longrightarrow> steady p w v"
  by (simp add: steady_def same_disk_def)

lemma steady_set: "same_disk w v \<Longrightarrow> fs p = w_files v p \<Longrightarrow> steady p w (set_files fs v)"
  by (simp add: steady_def same_disk_def)

lemma stays_steady_bind [io_frame]:
  "stays (steady p) m \<Longrightarrow> (\<And>x. stays (steady p) (f x)) \<Longrightarrow> stays (steady p) (act_bind m f)"
  by (rule stays_bind) (blast intro: steady_trans)+

lemma WriteFile_steady [io_frame]: "p \<noteq> q \<Longrightarrow> stays (steady p) (WriteFile q d m)"
  by (auto simp: stays_def WriteFile_def Let_def put_file_def split: prod.split fault.split option.split node.split
      dest: next_fault_same intro!: steady_set intro: steady_disk)

lemma Chmod_steady [io_frame]: "p \<noteq> q \<Longrightarrow> stays (steady p) (Chmod q m)"
  by (auto simp: stays_def Chmod_def split: prod.split fault.split option.split node.split
      dest: next_fault_same intro!: steady_set intro: steady_disk)

lemma Remove_steady [io_frame]: "p \<noteq> q \<Longrightarrow> stays (steady p) (Remove q)"
  by (auto simp: stays_def Remove_def split: prod.split fault.split
      dest: next_fault_same intro!: steady_set intro: steady_disk)

lemma MkdirAll_steady [io_frame]: "p \<notin> set (path_chain q) \<Longrightarrow> stays (steady p) (MkdirAll q)"
proof -
  assume p: "p \<notin> set (path_chain q)"
  have keep: "make_dirs qs fs p = fs p" if "set qs \<subseteq> set (path_chain q)" for qs fs
    using make_dirs_value [of qs fs p] that p by blast
  have "steady p w (snd (MkdirAll q w))" for w
  proof -
    obtain f v where nf: "next_fault w = (f, v)" by fastforce
    then have sd: "same_disk w v" by (rule next_fault_same)
    have st: "steady p w (set_files (make_dirs qs (w_files v)) v)" if "set qs \<subseteq> set (path_chain q)" for qs
      by (rule steady_set [OF sd]) (rule keep [OF that])
    show ?thesis
      using nf steady_disk [OF sd] st [OF subset_refl] st [OF set_take_subset]
      unfolding MkdirAll_def by (auto split: fault.split)
  qed
  then show ?thesis by (simp add: stays_def)
qed

lemma create_temp_steady:
  "(\<And>n. temp_name dir n \<noteq> p) \<Longrightarrow> steady p w (snd (create_temp k dir w))"
proof (induction k dir w rule: create_temp.induct)
  case (1 dir w)
  then show ?case by simp
next
  case (2 k dir w)
  obtain n u where n: "draw w = (n, u)" by fastforce
  obtain f v where f: "next_fault u = (f, v)" by fastforce
  have "same_disk w u" using n by (auto simp: draw_def same_disk_def same_env_def)
  then have wv: "same_disk w v" using next_fault_same [OF f] by (rule same_disk_trans)
  show ?case
  proof (cases "f = NoFault \<and> w_files v (temp_name dir n) \<noteq> None")
    case True
    with 2 n f have "steady p v (snd (create_temp k dir v))" by auto
    with True n f steady_disk [OF wv] show ?thesis by (auto simp: Let_def intro: steady_trans)
  next
    case False
    with n f steady_disk [OF wv] steady_set [OF wv] "2.prems" [of n] show ?thesis
      by (cases f) (auto simp: Let_def)
  qed
qed

lemma CreateTemp_steady [io_frame]: "(\<And>n. temp_name dir n \<noteq> p) \<Longrightarrow> stays (steady p) (CreateTemp dir)"
  by (simp add: stays_def CreateTemp_def create_temp_steady)

lemma create_temp_fresh:
  "create_temp k dir w = (Inr t, v) \<Longrightarrow> \<exists>n. t = temp_name dir n \<and> w_files w t = None \<and> (\<exists>m. w_files v t = Some (FileNode m []))"
proof (induction k dir w rule: create_temp.induct)
  case (1 dir w)
  then show ?case by simp
next
  case (2 k dir w)
  obtain n u where n: "draw w = (n, u)" by fastforce
  obtain f x where f: "next_fault u = (f, x)" by fastforce
  have "same_disk w u" using n by (auto simp: draw_def same_disk_def same_env_def)
  then have files: "w_files x = w_files w" using next_fault_same [OF f] by (simp add: same_disk_def)
  show ?case
  proof (cases "w_files x (temp_name dir n) = None")
    case True
    with 2 n f files show ?thesis by (cases f) (auto simp: Let_def split: if_splits)
  next
    case False
    with 2 n f files show ?thesis by (cases f) (auto simp: Let_def)
  qed
qed


lemma create_temp_outcome:
  "create_temp k dir w = (r, v) \<Longrightarrow> (case r of Inl _ \<Rightarrow> same_disk w v | Inr t \<Rightarrow> within {t} w v)"
proof (induction k dir w rule: create_temp.induct)
  case (1 dir w)
  then show ?case by auto
next
  case (2 k dir w)
  obtain n u where n: "draw w = (n, u)" by fastforce
  obtain f x where f: "next_fault u = (f, x)" by fastforce
  have "same_disk w u" using n by (auto simp: draw_def same_disk_def same_env_def)
  then have sd: "same_disk w x" using next_fault_same [OF f] by (rule same_disk_trans)
  consider (again) "f = NoFault" "w_files x (temp_name dir n) \<noteq> None"
    | (new) "f = NoFault" "w_files x (temp_name dir n) = None" | (failed) "f \<noteq> NoFault" by blast
  then show ?case
  proof cases
    case again
    with 2 n f have "case r of Inl _ \<Rightarrow> same_disk x v | Inr t \<Rightarrow> within {t} x v" by auto
    then show ?thesis
      using sd by (cases r) (auto intro: same_disk_trans within_trans same_disk_within)
  next
    case new
    with 2 n f sd show ?thesis by (auto simp: Let_def intro!: set_files_within split: if_splits)
  next
    case failed
    with 2 n f sd show ?thesis by (cases f) auto
  qed
qed

text \<open>The part with the temporary file: either the name keeps its meaning, or it gets the new one.\<close>

lemma atomic_body_outcome:
  assumes run: "atomic_body t path data mode w = (r, v)" and t: "t \<noteq> path" and new: "\<exists>m. w_files w t = Some (FileNode m [])"
  shows "case r of Inl _ \<Rightarrow> steady path w v
    | Inr _ \<Rightarrow> \<exists>u. steady path w u \<and> v = set_files ((w_files u)(t := None, path \<mapsto> FileNode mode data)) u"
proof -
  obtain r1 w1 where wr: "WriteFile t data mode w = (r1, w1)" by fastforce
  have s1: "steady path w w1" by (rule stays_run [OF WriteFile_steady wr]) (use t in simp)
  show ?thesis
  proof (cases r1)
    case (Inl e)
    with run wr s1 show ?thesis by (auto simp: atomic_body_def act_bind_def act_wrap_def)
  next
    case ok1: (Inr x)
    with wr have "w_files w1 = put_file t (and mode (not (w_umask w))) data (w_files w)" by (auto dest: WriteFile_ok)
    with new have f1: "\<exists>m. w_files w1 t = Some (FileNode m data)" by (auto simp: put_file_def)
    obtain r2 w2 where ch: "Chmod t mode w1 = (r2, w2)" by fastforce
    have "steady path w1 w2" by (rule stays_run [OF Chmod_steady ch]) (use t in simp)
    with s1 have s2: "steady path w w2" by (rule steady_trans)
    show ?thesis
    proof (cases r2)
      case (Inl e)
      with run wr ok1 ch s2 show ?thesis by (auto simp: atomic_body_def act_bind_def act_wrap_def)
    next
      case ok2: (Inr y)
      with ch f1 have f2: "w_files w2 t = Some (FileNode mode data)" by (auto dest: Chmod_ok)
      obtain f u where nf: "next_fault w2 = (f, u)" by fastforce
      have u: "same_disk w2 u" by (rule next_fault_same [OF nf])
      with s2 have s3: "steady path w u" by (blast intro: steady_trans steady_disk)
      have rn: "atomic_body t path data mode w = act_wrap (AtomicRename path) (Rename t path) w2"
        using wr ok1 ch ok2 by (simp add: atomic_body_def act_bind_def act_wrap_def)
      show ?thesis
        using run [unfolded rn] nf f2 u s3
        by (auto simp: act_wrap_def Rename_def same_disk_def split: prod.splits fault.splits if_splits
            intro!: exI [of _ u])
    qed
  qed
qed

lemma atomic_body_within: "stays (within {t, path}) (atomic_body t path data mode)"
  unfolding atomic_body_def by (intro io_frame) simp_all

text \<open>A file system history in which one path had its old content up to a point and the new one from there on.\<close>

definition old_then_new :: "string \<Rightarrow> node option \<Rightarrow> world \<Rightarrow> world \<Rightarrow> bool" where
  "old_then_new path new w v \<longleftrightarrow> (\<exists>news olds. w_history v = news @ olds @ w_history w \<and>
     list_all (\<lambda>fs. fs path = new) news \<and> list_all (\<lambda>fs. fs path = w_files w path) olds)"

lemma steady_old:
  assumes "steady path w v"
  shows "w_files v path = w_files w path \<and> old_then_new path new w v"
proof -
  obtain hs where "w_history v = [] @ hs @ w_history w" "list_all (\<lambda>fs. fs path = w_files w path) hs"
    using assms by (auto simp: steady_def)
  then have "old_then_new path new w v" unfolding old_then_new_def by (intro exI [of _ "[]"] exI [of _ hs]) simp
  with assms show ?thesis by (simp add: steady_def)
qed

lemma renamed_new:
  assumes "steady path w u" and w3: "w3 = set_files ((w_files u)(t := None, path \<mapsto> n)) u" and after: "steady path w3 v"
  shows "w_files v path = Some n \<and> old_then_new path (Some n) w v"
proof -
  obtain hs where hs: "w_history u = hs @ w_history w" "list_all (\<lambda>fs. fs path = w_files w path) hs"
    using assms(1) by (auto simp: steady_def)
  obtain gs where gs: "w_history v = gs @ w_history w3" "list_all (\<lambda>fs. fs path = w_files w3 path) gs"
    using after by (auto simp: steady_def)
  have at: "w_files w3 path = Some n" "w_files v path = Some n" using w3 after by (auto simp: steady_def)
  have "w_history v = (gs @ [w_files w3]) @ hs @ w_history w" using gs hs w3 by simp
  moreover have "list_all (\<lambda>fs. fs path = Some n) (gs @ [w_files w3])"
    using gs(2) at(1) by (auto simp: list_all_iff)
  ultimately show ?thesis unfolding old_then_new_def using hs(2) at(2) by blast
qed

lemma fresh_kept:
  assumes "within S w v" and "\<forall>q \<in> S. q \<noteq> path \<longrightarrow> w_files w q = None"
  shows "\<forall>q n. q \<noteq> path \<longrightarrow> w_files w q = Some n \<longrightarrow> w_files v q = Some n"
proof (intro allI impI)
  fix q n assume q: "q \<noteq> path" "w_files w q = Some n"
  then have "q \<notin> S" using assms(2) by auto
  then show "w_files v q = Some n" using within_kept [OF assms(1)] q(2) by blast
qed

text \<open>The run once the directory is there and the temporary file is made.\<close>

lemma atomic_body_run:
  assumes body: "atomic_body t path data mode w2 = (r, w3)" and rm: "Remove t w3 = (r4, v)"
    and t: "t \<noteq> path" "w_files w t = None" "\<exists>m. w_files w2 t = Some (FileNode m [])"
    and before: "steady path w w2" "within {t} w w2"
  shows "(case r of Inr _ \<Rightarrow> w_files v path = Some (FileNode mode data) | Inl _ \<Rightarrow> w_files v path = w_files w path) \<and>
    old_then_new path (Some (FileNode mode data)) w v \<and>
    (\<forall>q n. q \<noteq> path \<longrightarrow> w_files w q = Some n \<longrightarrow> w_files v q = Some n)"
proof -
  have after: "steady path w3 v" by (rule stays_run [OF Remove_steady rm]) (use t(1) in simp)
  have "within {t, path} w2 w3" by (rule stays_run [OF atomic_body_within body])
  moreover have "within {t} w3 v" by (rule stays_run [OF Remove_within rm]) simp
  ultimately have "within {t, path} w v" using before(2) by (blast intro: within_trans within_mono)
  from fresh_kept [OF this] t(2) have kept: "\<forall>q n. q \<noteq> path \<longrightarrow> w_files w q = Some n \<longrightarrow> w_files v q = Some n" by auto
  show ?thesis
  proof (cases r)
    case (Inl e)
    with atomic_body_outcome [OF body t(1,3)] have "steady path w2 w3" by simp
    with before(1) after have "steady path w v" by (blast intro: steady_trans)
    from steady_old [OF this] kept Inl show ?thesis by simp
  next
    case (Inr y)
    with atomic_body_outcome [OF body t(1,3)] obtain u where u: "steady path w2 u"
      and w3: "w3 = set_files ((w_files u)(t := None, path \<mapsto> FileNode mode data)) u" by auto
    from renamed_new [OF steady_trans [OF before(1) u] w3 after] kept Inr show ?thesis by simp
  qed
qed

lemma WriteFileAtomic_outcome:
  assumes run: "WriteFileAtomic path data mode w = (r, v)"
    and temp: "\<And>n. temp_name (Dir path) n \<noteq> path" and chain: "path \<notin> set (path_chain (Dir path))"
  shows "(case r of Inr _ \<Rightarrow> w_files v path = Some (FileNode mode data) | Inl _ \<Rightarrow> w_files v path = w_files w path) \<and>
    old_then_new path (Some (FileNode mode data)) w v \<and>
    (\<forall>q n. q \<noteq> path \<longrightarrow> w_files w q = Some n \<longrightarrow> w_files v q = Some n)"
proof -
  obtain r1 w1 where mk: "MkdirAll (Dir path) w = (r1, w1)" by fastforce
  have s1: "steady path w w1" using chain by (rule stays_run [OF MkdirAll_steady mk])
  have i1: "within {} w w1" by (rule stays_run [OF MkdirAll_within mk])
  obtain r2 w2 where ct: "CreateTemp (Dir path) w1 = (r2, w2)" by fastforce
  have s2: "steady path w w2" using temp by (rule steady_trans [OF s1 stays_run [OF CreateTemp_steady ct]])
  have i2: "case r2 of Inl _ \<Rightarrow> within {} w w2 | Inr t \<Rightarrow> within {t} w w2"
    using create_temp_outcome [OF ct [unfolded CreateTemp_def]] i1
    by (auto split: sum.splits intro: within_trans same_disk_within within_mono)
  consider (no_dir) e where "r1 = Inl e" | (no_temp) x e where "r1 = Inr x" "r2 = Inl e" | (made) x t where "r1 = Inr x" "r2 = Inr t"
    by (cases r1; cases r2) auto
  then show ?thesis
  proof cases
    case no_dir
    with run mk have "r = Inl (AtomicDir (Dir path) e)" "v = w1"
      by (auto simp: WriteFileAtomic_def act_bind_def act_wrap_def Let_def)
    with steady_old [OF s1] fresh_kept [OF i1] show ?thesis by simp
  next
    case no_temp
    with run mk ct have "r = Inl (AtomicTemp e)" "v = w2"
      by (auto simp: WriteFileAtomic_def act_bind_def act_wrap_def Let_def)
    with steady_old [OF s2] fresh_kept [of "{}" w w2] i2 no_temp(2) show ?thesis by simp
  next
    case made
    from create_temp_fresh [of 10000 "Dir path" w1 t w2] ct made(2) obtain n where
      t: "t = temp_name (Dir path) n" and "w_files w1 t = None" and new: "\<exists>m. w_files w2 t = Some (FileNode m [])"
      by (auto simp: CreateTemp_def)
    from this(1,2) have tp: "t \<noteq> path" and fresh: "w_files w t = None"
      using temp i1 by (auto simp: within_def only_writes_def, metis option.distinct(1))
    obtain r3 w3 where body: "atomic_body t path data mode w2 = (r3, w3)" by fastforce
    obtain r4 w4 where rm: "Remove t w3 = (r4, w4)" by fastforce
    have fin: "r = r3" "v = w4"
      using run mk made ct body rm by (auto simp: WriteFileAtomic_def act_bind_def act_wrap_def Let_def)
    have "within {t} w w2" using i2 made(2) by simp
    from atomic_body_run [OF body rm tp fresh new s2 this] show ?thesis unfolding fin .
  qed
qed

lemma temp_names:
  assumes "plain_rel f" and "plain_elem e" and "\<not> prefix ''.capishim-'' e"
  shows "temp_name (Dir (dir_prefix d @ f @ slash # e)) n \<noteq> dir_prefix d @ f @ slash # e"
    and "dir_prefix d @ f @ slash # e \<notin> set (path_chain (Dir (dir_prefix d @ f @ slash # e)))"
proof -
  have dir: "Dir (dir_prefix d @ f @ slash # e) = dir_prefix d @ f" using assms(1,2) by (rule Dir_plain2)
  have "slash \<notin> set (Itoa (int n))"
    using Itoa_digits [of "int n"] by (auto simp: list_all_iff is_digit_def byte_val_def)
  then have "plain_elem (''.capishim-'' @ Itoa (int n) @ ''.tmp'')" by (auto simp: plain_elem_def)
  then have "temp_name (dir_prefix d @ f) n = dir_prefix d @ f @ slash # ''.capishim-'' @ Itoa (int n) @ ''.tmp''"
    by (simp add: temp_name_def PathJoin_plain plain_elem_rel dir_prefix_plain assms(1))
  moreover have "prefix ''.capishim-'' (''.capishim-'' @ Itoa (int n) @ ''.tmp'')" by (rule prefixI) simp
  ultimately show "temp_name (Dir (dir_prefix d @ f @ slash # e)) n \<noteq> dir_prefix d @ f @ slash # e"
    unfolding dir using assms(3) by auto
  show "dir_prefix d @ f @ slash # e \<notin> set (path_chain (Dir (dir_prefix d @ f @ slash # e)))"
  proof
    assume "dir_prefix d @ f @ slash # e \<in> set (path_chain (Dir (dir_prefix d @ f @ slash # e)))"
    then have "prefix (dir_prefix d @ f @ slash # e) (dir_prefix d @ f)" unfolding dir by (auto dest: path_chain_prefix)
    then show False by (auto dest: prefix_length_le)
  qed
qed

definition kubeconfig_names :: "string list" where
  "kubeconfig_names = [''core.kubeconfig'', ''cabpk.kubeconfig'', ''kcp.kubeconfig'', ''capd.kubeconfig'',
     ''hypervisor.kubeconfig'', ''admin.kubeconfig'']"

lemma kubeconfig_names_plain: "list_all (\<lambda>e. plain_elem e \<and> \<not> prefix ''.capishim-'' e) kubeconfig_names"
  by (simp add: kubeconfig_names_def plain_elem_def)

lemma manager_kubeconfigs:
  assumes "spec \<in> set Components" and "is_manager spec"
  shows "\<exists>e \<in> set kubeconfig_names. Kubeconfig spec = ''kubeconfigs'' @ slash # e"
  using assms
  by (auto simp: Components_def plain_component_def is_manager_def kubeconfigsDir_def kubeconfig_names_def)

lemma kubeconfig_path_shape:
  assumes "KubeconfigPath c i = Some path \<or> path = AdminKubeconfigPath c"
  shows "\<exists>e. path = dir_prefix (StateDir c) @ ''kubeconfigs'' @ slash # e \<and> plain_elem e \<and> \<not> prefix ''.capishim-'' e"
proof -
  have "\<exists>e \<in> set kubeconfig_names. path = dir_prefix (StateDir c) @ ''kubeconfigs'' @ slash # e"
    using assms
  proof
    assume "KubeconfigPath c i = Some path"
    then obtain spec where "spec \<in> set Components" "is_manager spec" "path = dir_prefix (StateDir c) @ Kubeconfig spec"
      unfolding KubeconfigPath_eq by blast
    then show ?thesis using manager_kubeconfigs [of spec] by auto
  next
    assume "path = AdminKubeconfigPath c"
    then show ?thesis by (simp add: AdminKubeconfigPath_eq kubeconfig_names_def)
  qed
  then show ?thesis using kubeconfig_names_plain by (auto simp: list_all_iff)
qed

lemma WriteKubeconfigFile_outcome:
  assumes "KubeconfigPath c i = Some path \<or> path = AdminKubeconfigPath c"
    and "serialize kc = Inr data" and "WriteKubeconfigFile serialize kc path w = (r, v)"
  shows "(case r of Inr _ \<Rightarrow> w_files v path = Some (FileNode 0x180 data) | Inl _ \<Rightarrow> w_files v path = w_files w path) \<and>
    (\<exists>news olds. w_history v = news @ olds @ w_history w \<and>
       list_all (\<lambda>fs. fs path = Some (FileNode 0x180 data)) news \<and>
       list_all (\<lambda>fs. fs path = w_files w path) olds) \<and>
    (\<forall>q n. q \<noteq> path \<longrightarrow> w_files w q = Some n \<longrightarrow> w_files v q = Some n)"
proof -
  obtain e where path: "path = dir_prefix (StateDir c) @ ''kubeconfigs'' @ slash # e"
    and e: "plain_elem e" "\<not> prefix ''.capishim-'' e"
    using kubeconfig_path_shape [OF assms(1)] by blast
  have f: "plain_rel ''kubeconfigs''" by (simp add: plain_rel_def plain_elem_def)
  obtain r' where run: "WriteFileAtomic path data 0x180 w = (r', v)" and r: "r = wrap_err (WriteKubeconfig path) r'"
    using assms(2,3) by (auto simp: WriteKubeconfigFile_def act_bind_def act_wrap_def kubeconfigFileMode_def split: prod.splits)
  from WriteFileAtomic_outcome [OF run] temp_names [OF f e, of "StateDir c"] path
  show ?thesis unfolding r old_then_new_def by (cases r') auto
qed

text \<open>The names a run may touch: the target and temporary names beside it.\<close>

lemma CreateTemp_within: "CreateTemp dir w = (r, v) \<Longrightarrow> within (range (temp_name dir)) w v"
  using create_temp_outcome [of 10000 dir w r v] create_temp_fresh [of 10000 dir w _ v]
  by (cases r) (auto simp: CreateTemp_def intro: same_disk_within within_mono)

definition atomic_names :: "string \<Rightarrow> string set" where
  "atomic_names path = insert path (range (temp_name (Dir path)))"

lemma WriteFileAtomic_within: "stays (within (atomic_names path)) (WriteFileAtomic path data mode)"
proof -
  have "within (atomic_names path) w v" if run: "WriteFileAtomic path data mode w = (r, v)" for w r v
  proof -
    obtain r1 w1 where mk: "MkdirAll (Dir path) w = (r1, w1)" by fastforce
    have i1: "within (atomic_names path) w w1" by (rule stays_run [OF MkdirAll_within mk])
    obtain r2 w2 where ct: "CreateTemp (Dir path) w1 = (r2, w2)" by fastforce
    have i2: "within (atomic_names path) w1 w2"
      using CreateTemp_within [OF ct] by (rule within_mono) (auto simp: atomic_names_def)
    show ?thesis
    proof (cases "is_ok r1 \<and> is_ok r2")
      case False
      then have "v = w1 \<or> v = w2"
        using run mk ct by (cases r1; cases r2) (auto simp: WriteFileAtomic_def act_bind_def act_wrap_def Let_def)
      with i1 i2 show ?thesis by (auto intro: within_trans)
    next
      case True
      then obtain x t where ok: "r1 = Inr x" "r2 = Inr t" by (auto simp: is_ok_iff)
      with ct obtain n where t: "t = temp_name (Dir path) n"
        using create_temp_fresh [of 10000 "Dir path" w1 t w2] by (auto simp: CreateTemp_def)
      then have sub: "{t, path} \<subseteq> atomic_names path" by (auto simp: atomic_names_def)
      obtain r3 w3 where body: "atomic_body t path data mode w2 = (r3, w3)" by fastforce
      obtain r4 w4 where rm: "Remove t w3 = (r4, w4)" by fastforce
      have "v = w4" using run mk ok ct body rm by (auto simp: WriteFileAtomic_def act_bind_def act_wrap_def Let_def)
      moreover have "within (atomic_names path) w2 w3"
        using stays_run [OF atomic_body_within body] sub by (rule within_mono)
      moreover have "within (atomic_names path) w3 w4"
        by (rule stays_run [OF Remove_within rm]) (use sub in simp)
      ultimately show ?thesis using i1 i2 by (blast intro: within_trans)
    qed
  qed
  then show ?thesis unfolding stays_def by (metis prod.collapse)
qed

lemma WriteKubeconfigFile_within: "stays (within (atomic_names path)) (WriteKubeconfigFile ser kc path)"
  unfolding WriteKubeconfigFile_def by (intro io_frame WriteFileAtomic_within)

text \<open>A kubeconfig's names do not meet another kubeconfig.\<close>

lemma kubeconfig_names_apart:
  assumes "KubeconfigPath c i = Some p \<or> p = AdminKubeconfigPath c"
    and "KubeconfigPath c j = Some q \<or> q = AdminKubeconfigPath c" and "p \<noteq> q"
  shows "q \<notin> atomic_names p"
proof -
  from kubeconfig_path_shape [OF assms(1)] kubeconfig_path_shape [OF assms(2)] obtain e f
    where p: "p = dir_prefix (StateDir c) @ ''kubeconfigs'' @ slash # e" and e: "plain_elem e"
    and q: "q = dir_prefix (StateDir c) @ ''kubeconfigs'' @ slash # f" and f: "plain_elem f" "\<not> prefix ''.capishim-'' f"
    by blast
  have pr: "plain_rel ''kubeconfigs''" by (simp add: plain_rel_def plain_elem_def)
  have dir: "Dir p = Dir q" unfolding p q by (simp only: Dir_plain2 [OF pr e] Dir_plain2 [OF pr f(1)])
  have temp: "temp_name (Dir q) n \<noteq> q" for n unfolding q by (rule temp_names(1) [OF pr f])
  show ?thesis unfolding atomic_names_def dir using temp assms(3) by (metis insertE rangeE)
qed

text \<open>
  C25. A kubeconfig is replaced in one step. Whatever call fails and wherever a crash cuts the run
  off, the file at the target path is seen as it was before, or complete with mode 0600: the states
  of the disk during the run are first states with the old file, then states with the new one. The
  new one is there at the end exactly when the run reports success, and no other file that existed
  is touched.
\<close>

theorem WriteKubeconfigFile_atomic:
  assumes "KubeconfigPath c i = Some path \<or> path = AdminKubeconfigPath c"
    and "serialize kc = Inr data" and "WriteKubeconfigFile serialize kc path w = (r, v)"
  shows "(case r of Inr _ \<Rightarrow> w_files v path = Some (FileNode 0x180 data) | Inl _ \<Rightarrow> w_files v path = w_files w path) \<and>
    (\<exists>news olds. w_history v = news @ olds @ w_history w \<and>
       list_all (\<lambda>fs. fs path = Some (FileNode 0x180 data)) news \<and>
       list_all (\<lambda>fs. fs path = w_files w path) olds) \<and>
    (\<forall>q n. q \<noteq> path \<longrightarrow> w_files w q = Some n \<longrightarrow> w_files v q = Some n)"
  using assms by (rule WriteKubeconfigFile_outcome)

end
