(* ===== verification/Poll.thy ===== *)
theory Poll
  imports GoFs GoUrl GoStrings
begin

text \<open>
  Waiting: \<open>WaitForAPIServer\<close> of \<open>src/cmd/capishim/setup.go\<close> and \<open>WaitForCRDEstablished\<close> of
  \<open>src/internal/manifests/apply.go\<close>. The two
  waits are one loop: ask; if the answer is not final, give up when the deadline has passed,
  otherwise wait for the interval or the end of the context, and ask again. The loop is a
  \<open>partial_function\<close>: that it returns is a theorem. The state is the machine and, beside it, the
  outside \<open>'c\<close> that answers: the API server and the network.
\<close>

type_synonym 'c site = "world \<times> 'c"

section \<open>The loop\<close>

definition on_machine :: "(world, 'e, 'a) action \<Rightarrow> ('c site, 'e, 'a) action" where
  "on_machine m s = (case m (fst s) of (r, w) \<Rightarrow> (r, (w, snd s)))"

definition on_cluster :: "('c, 'e, 'a) action \<Rightarrow> ('c site, 'e, 'a) action" where
  "on_cluster m s = (case m (snd s) of (r, c) \<Rightarrow> (r, (fst s, c)))"

definition read_clock :: "'c site \<Rightarrow> int \<times> 'c site" where
  "read_clock s = (case Now (fst s) of (t, w) \<Rightarrow> (t, (w, snd s)))"

definition wait_after :: "int \<Rightarrow> 'c site \<Rightarrow> string option \<times> 'c site" where
  "wait_after d s = (case SelectAfter d (fst s) of (e, w) \<Rightarrow> (e, (w, snd s)))"

text \<open>A check answers with nothing when it is done, and otherwise with what is still missing.\<close>

partial_function (option) poll ::
  "('c site, 'e, 'p option) action \<Rightarrow> ('p \<Rightarrow> 'e) \<Rightarrow> (string \<Rightarrow> 'e) \<Rightarrow> int \<Rightarrow> int \<Rightarrow> 'c site \<Rightarrow>
   (('e + unit) \<times> 'c site) option" where
  "poll check timed_out cancelled interval deadline s =
     (case check s of
        (r, s1) \<Rightarrow>
          (case r of
             Inl e \<Rightarrow> Some (Inl e, s1)
           | Inr None \<Rightarrow> Some (Inr (), s1)
           | Inr (Some p) \<Rightarrow>
               (case read_clock s1 of
                  (now, s2) \<Rightarrow>
                    if now > deadline then Some (Inl (timed_out p), s2)
                    else (case wait_after interval s2 of
                            (e, s3) \<Rightarrow>
                              (case e of
                                 Some c \<Rightarrow> Some (Inl (cancelled c), s3)
                               | None \<Rightarrow> poll check timed_out cancelled interval deadline s3)))))"

declare poll.simps [code]

section \<open>The API server\<close>

definition apiserverPollInterval :: int where "apiserverPollInterval = 500 * 1000000"

text \<open>
  What the two functions of the standard library make of PEM bytes, and the network. A request
  answers with an error, or with a response and the error of closing its body.
\<close>

record 'c prober =
  AppendCertsFromPEM :: "string \<Rightarrow> bool"
  X509KeyPair :: "string \<Rightarrow> string \<Rightarrow> string + unit"
  Do :: "string \<Rightarrow> ('c, string, string option) action"

datatype wait_error =
  ReadCA io_error | NoCertificates | ReadProbeCert io_error | ReadProbeKey io_error | BadProbePair string
| BuildProbe string | CloseResponse string | NotReady int string | WaitCancelled string

definition LoadX509KeyPair :: "'c prober \<Rightarrow> string \<Rightarrow> string \<Rightarrow> (world, wait_error, unit) action" where
  "LoadX509KeyPair P certPath keyPath =
     act_bind (act_wrap ReadProbeCert (ReadFile certPath)) (\<lambda>certPEM.
     act_bind (act_wrap ReadProbeKey (ReadFile keyPath)) (\<lambda>keyPEM.
       act_lift (wrap_err BadProbePair (X509KeyPair P certPEM keyPEM))))"

text \<open>One round of the loop: build the request, send it, close the answer's body.\<close>

definition probe_healthz :: "'c prober \<Rightarrow> string \<Rightarrow> ('c site, wait_error, string option) action" where
  "probe_healthz P healthzURL =
     (case url_Parse healthzURL of
        None \<Rightarrow> act_throw (BuildProbe healthzURL)
      | Some _ \<Rightarrow>
          (\<lambda>s. case Do P healthzURL (snd s) of
                 (Inl lastErr, c) \<Rightarrow> (Inr (Some lastErr), (fst s, c))
               | (Inr (Some e), c) \<Rightarrow> (Inl (CloseResponse e), (fst s, c))
               | (Inr None, c) \<Rightarrow> (Inr None, (fst s, c))))"

text \<open>What is read before the first request: the pod CA and the admin pair.\<close>

definition probe_setup :: "'c prober \<Rightarrow> string \<Rightarrow> string \<Rightarrow> string \<Rightarrow> (world, wait_error, unit) action" where
  "probe_setup P caPath certPath keyPath =
     act_bind (act_wrap ReadCA (ReadFile caPath)) (\<lambda>caPEM.
       if \<not> AppendCertsFromPEM P caPEM then act_throw NoCertificates
       else LoadX509KeyPair P certPath keyPath)"

definition WaitForAPIServer ::
  "'c prober \<Rightarrow> string \<Rightarrow> string \<Rightarrow> string \<Rightarrow> string \<Rightarrow> int \<Rightarrow> 'c site \<Rightarrow> ((wait_error + unit) \<times> 'c site) option" where
  "WaitForAPIServer P healthzURL caPath certPath keyPath timeout s =
     (case on_machine (probe_setup P caPath certPath keyPath) s of
        (Inl e, s1) \<Rightarrow> Some (Inl e, s1)
      | (Inr _, s1) \<Rightarrow>
          (case read_clock s1 of
             (now, s2) \<Rightarrow>
               poll (probe_healthz P healthzURL) (NotReady timeout) WaitCancelled apiserverPollInterval
                 (now + timeout) s2))"

section \<open>The CRDs\<close>

definition crdPollInterval :: int where "crdPollInterval = 50 * 1000000"

text \<open>A condition of a CRD's status: its type and its status.\<close>

type_synonym crd_status = "(string \<times> string) list"

definition crdEstablished :: "crd_status \<Rightarrow> bool" where
  "crdEstablished conditions = list_ex (\<lambda>(ty, st). ty = ''Established'' \<and> st = ''True'') conditions"

datatype crd_wait_error = GetCRD string string | NotEstablished string int | CRDWaitCancelled string

fun firstUnestablishedCRD ::
  "(string \<Rightarrow> ('c, string, crd_status) action) \<Rightarrow> string list \<Rightarrow> ('c, crd_wait_error, string) action" where
  "firstUnestablishedCRD get [] = act_return []"
| "firstUnestablishedCRD get (name # names) =
     act_bind (act_wrap (GetCRD name) (get name)) (\<lambda>crd.
       if \<not> crdEstablished crd then act_return name else firstUnestablishedCRD get names)"

text \<open>The empty string is the answer for "all established".\<close>

definition check_crds ::
  "(string \<Rightarrow> ('c, string, crd_status) action) \<Rightarrow> string list \<Rightarrow> ('c site, crd_wait_error, string option) action" where
  "check_crds get names =
     act_bind (on_cluster (firstUnestablishedCRD get names)) (\<lambda>unestablished.
       act_return (if unestablished = [] then None else Some unestablished))"

definition WaitForCRDEstablished ::
  "(string \<Rightarrow> ('c, string, crd_status) action) \<Rightarrow> string list \<Rightarrow> int \<Rightarrow> 'c site \<Rightarrow>
   ((crd_wait_error + unit) \<times> 'c site) option" where
  "WaitForCRDEstablished get names timeout s =
     (if length names = 0 then Some (Inr (), s)
      else (case read_clock s of
              (now, s1) \<Rightarrow>
                poll (check_crds get names) (\<lambda>name. NotEstablished name timeout) CRDWaitCancelled crdPollInterval
                  (now + timeout) s1))"

section \<open>The loop returns\<close>

text \<open>The clock does not run backwards.\<close>

definition clock_mono :: "world \<Rightarrow> bool" where
  "clock_mono w \<longleftrightarrow> mono (w_clock w)"

text \<open>What a check may do to the machine: nothing to the clock but read it.\<close>

definition later :: "world \<Rightarrow> world \<Rightarrow> bool" where
  "later w v \<longleftrightarrow> w_clock v = w_clock w \<and> w_slept w \<le> w_slept v \<and> w_looked w \<le> w_looked v \<and> w_files v = w_files w \<and>
     w_history v = w_history w \<and> w_faults v = w_faults w \<and> w_umask v = w_umask w \<and> w_entropy v = w_entropy w \<and>
     w_cancel v = w_cancel w"

definition time_at :: "world \<Rightarrow> int" where
  "time_at w = w_clock w (w_looked w) + w_slept w"

lemma later_refl [simp]: "later w w"
  by (simp add: later_def)

lemma later_trans: "later u v \<Longrightarrow> later v w \<Longrightarrow> later u w"
  by (simp add: later_def)

lemma later_time: "clock_mono w \<Longrightarrow> later w v \<Longrightarrow> time_at w \<le> time_at v"
  unfolding clock_mono_def later_def time_at_def by (metis add_mono monoD)

lemma later_mono: "clock_mono w \<Longrightarrow> later w v \<Longrightarrow> clock_mono v"
  by (simp add: clock_mono_def later_def)

lemma same_disk_later: "same_disk w v \<Longrightarrow> later w v"
  by (simp add: same_disk_def same_env_def later_def)

lemma read_clock_eq: "read_clock s = (t, u) \<longleftrightarrow> t = time_at (fst s) \<and> u = ((fst s)\<lparr>w_looked := Suc (w_looked (fst s))\<rparr>, snd s)"
  by (auto simp: read_clock_def Now_def time_at_def)

lemma read_clock_later: "read_clock s = (t, u) \<Longrightarrow> later (fst s) (fst u) \<and> t = time_at (fst s)"
  by (auto simp: read_clock_eq later_def)

lemma wait_after_later: "wait_after d s = (e, u) \<Longrightarrow> later (fst s) (fst u)"
  by (auto simp: wait_after_def SelectAfter_def Let_def later_def split: option.splits)

lemma wait_after_slept:
  assumes "wait_after d s = (None, u)" and "clock_mono (fst s)"
  shows "time_at (fst s) + d \<le> time_at (fst u)"
  using assms by (auto simp: wait_after_def SelectAfter_def Let_def time_at_def split: option.splits)

text \<open>A check that does nothing to the machine but let time pass.\<close>

definition quiet :: "('c site, 'e, 'a) action \<Rightarrow> bool" where
  "quiet check \<longleftrightarrow> (\<forall>s. later (fst s) (fst (snd (check s))))"

lemma quiet_later: "quiet check \<Longrightarrow> check s = (r, t) \<Longrightarrow> later (fst s) (fst t)"
  unfolding quiet_def by (metis snd_conv)

section \<open>The loop as a relation\<close>

text \<open>
  \<open>poll_run s u\<close>: some rounds, each with an answer that is not final, a clock before the deadline and a
  timer that fired, lead from \<open>s\<close> to \<open>u\<close>. \<open>poll_ends u y\<close>: the round that starts in \<open>u\<close> is the last
  one and its result is \<open>y\<close>.
\<close>

inductive poll_run ::
  "('c site, 'e, 'p option) action \<Rightarrow> int \<Rightarrow> int \<Rightarrow> 'c site \<Rightarrow> 'c site \<Rightarrow> bool"
  for check interval deadline where
  start: "poll_run check interval deadline s s"
| round: "check s = (Inr (Some p), s1) \<Longrightarrow> read_clock s1 = (now, s2) \<Longrightarrow> now \<le> deadline \<Longrightarrow>
    wait_after interval s2 = (None, s3) \<Longrightarrow> poll_run check interval deadline s3 u \<Longrightarrow>
    poll_run check interval deadline s u"

definition poll_ends ::
  "('c site, 'e, 'p option) action \<Rightarrow> ('p \<Rightarrow> 'e) \<Rightarrow> (string \<Rightarrow> 'e) \<Rightarrow> int \<Rightarrow> int \<Rightarrow> 'c site \<Rightarrow> ('e + unit) \<times> 'c site \<Rightarrow> bool" where
  "poll_ends check timed_out cancelled interval deadline u y \<longleftrightarrow>
     (case check u of
        (Inl e, v) \<Rightarrow> y = (Inl e, v)
      | (Inr None, v) \<Rightarrow> y = (Inr (), v)
      | (Inr (Some p), v) \<Rightarrow>
          (case read_clock v of
             (now, x) \<Rightarrow>
               deadline < now \<and> y = (Inl (timed_out p), x) \<or>
               now \<le> deadline \<and> (\<exists>c z. wait_after interval x = (Some c, z) \<and> y = (Inl (cancelled c), z))))"

lemma poll_of_run:
  "poll_run check interval deadline s u \<Longrightarrow> poll_ends check timed_out cancelled interval deadline u y \<Longrightarrow>
     poll check timed_out cancelled interval deadline s = Some y"
proof (induction rule: poll_run.induct)
  case (start s)
  then show ?case
    by (subst poll.simps) (auto simp: poll_ends_def split: prod.splits sum.splits option.splits)
next
  case (round s p s1 now s2 s3 u)
  then show ?case by (subst poll.simps) simp
qed

lemma run_of_poll:
  assumes "poll check timed_out cancelled interval deadline s = Some y"
  shows "\<exists>u. poll_run check interval deadline s u \<and> poll_ends check timed_out cancelled interval deadline u y"
  using assms
proof (induction rule: poll.raw_induct [rotated, consumes 1, case_names step])
  case (step rec check timed_out cancelled interval deadline s y)
  obtain r s1 where r: "check s = (r, s1)" by (cases "check s") blast
  obtain now s2 where now: "read_clock s1 = (now, s2)" by (cases "read_clock s1") blast
  obtain e s3 where e: "wait_after interval s2 = (e, s3)" by (cases "wait_after interval s2") blast
  show ?case
  proof (cases "(\<exists>p. r = Inr (Some p)) \<and> now \<le> deadline \<and> e = None")
    case True
    then obtain p where p: "r = Inr (Some p)" "now \<le> deadline" "e = None" by blast
    with step(2) r now e have "rec check timed_out cancelled interval deadline s3 = Some y" by simp
    from step(1) [OF this] r now e p show ?thesis by (blast intro: poll_run.round)
  next
    case False
    with step(2) r now e have "poll_ends check timed_out cancelled interval deadline s y"
      by (auto simp: poll_ends_def not_le split: sum.splits option.splits if_splits)
    then show ?thesis by (blast intro: poll_run.start)
  qed
qed

section \<open>What every wait relies on\<close>

text \<open>
  The contract of a check: it lets time pass on the machine and does nothing else to it, and the
  loop sleeps between two checks. A wait on such a check returns, because every round that does not end
  the loop brings the clock closer to the deadline.
\<close>

locale waiting =
  fixes check :: "('c site, 'e, 'p option) action" and interval :: int
  assumes check_quiet: "quiet check" and interval_pos: "0 < interval"
begin

lemma check_later: "check s = (r, t) \<Longrightarrow> later (fst s) (fst t)"
  using check_quiet by (rule quiet_later)

lemma returns:
  assumes mono: "clock_mono (fst s)"
  shows "\<exists>y. poll check timed_out cancelled interval deadline s = Some y"
  using mono
proof (induction "nat (deadline + 1 - time_at (fst s))" arbitrary: s rule: less_induct)
  case less
  obtain r s1 where r: "check s = (r, s1)" by (cases "check s") blast
  note l1 = check_later [OF r]
  show ?case
  proof (cases r)
    case (Inl e)
    with r show ?thesis by (subst poll.simps) simp
  next
    case answer: (Inr m)
    show ?thesis
    proof (cases m)
      case None
      with r answer show ?thesis by (subst poll.simps) simp
    next
      case (Some p)
      obtain now s2 where now: "read_clock s1 = (now, s2)" by (cases "read_clock s1") blast
      note l2 = read_clock_later [OF now]
      obtain e s3 where e: "wait_after interval s2 = (e, s3)" by (cases "wait_after interval s2") blast
      show ?thesis
      proof (cases "now > deadline \<or> e \<noteq> None")
        case True
        with r answer Some now e show ?thesis by (subst poll.simps) auto
      next
        case False
        have m2: "clock_mono (fst s2)" using less.prems l1 l2 by (blast intro: later_mono later_trans)
        have "time_at (fst s) \<le> now" using less.prems l1 l2 by (simp add: later_time)
        moreover have "now \<le> time_at (fst s2)"
          using later_time [OF later_mono [OF less.prems l1]] l2 by simp
        moreover have "time_at (fst s2) + interval \<le> time_at (fst s3)"
          using wait_after_slept [of interval s2 s3] e False m2 by simp
        ultimately have "nat (deadline + 1 - time_at (fst s3)) < nat (deadline + 1 - time_at (fst s))"
          using interval_pos False by auto
        moreover have "clock_mono (fst s3)" using later_mono [OF m2 wait_after_later [OF e]] .
        ultimately obtain y where "poll check timed_out cancelled interval deadline s3 = Some y"
          using less.hyps by blast
        moreover have "poll check timed_out cancelled interval deadline s =
            poll check timed_out cancelled interval deadline s3"
          using r answer Some now e False by (subst poll.simps) simp
        ultimately show ?thesis by metis
      qed
    qed
  qed
qed

lemma run_later: "poll_run check interval deadline s u \<Longrightarrow> later (fst s) (fst u)"
proof (induction rule: poll_run.induct)
  case (start s)
  then show ?case by simp
next
  case (round s p s1 now s2 s3 u)
  then have "later (fst s) (fst s1)" "later (fst s1) (fst s2)" "later (fst s2) (fst s3)"
    by (auto dest: check_later read_clock_later wait_after_later)
  with round.IH show ?case by (blast intro: later_trans)
qed

text \<open>
  The loop returns, and its result is that of the last check: the check's own when it is final, a
  timeout when the clock has passed the deadline, the context's error when it ended.
\<close>

lemma outcome:
  assumes mono: "clock_mono (fst s)"
  obtains y u q v where "poll check timed_out cancelled interval deadline s = Some y"
    and "later (fst s) (fst (snd y))" and "later (fst s) (fst u)" and "check u = (q, v)"
    and "(case q of
        Inl e \<Rightarrow> y = (Inl e, v)
      | Inr None \<Rightarrow> y = (Inr (), v)
      | Inr (Some p) \<Rightarrow> snd (snd y) = snd v \<and>
          (fst y = Inl (timed_out p) \<and> deadline < time_at (fst (snd y)) \<or>
           (\<exists>c k. fst y = Inl (cancelled c) \<and> w_cancel (fst s) k = Some c)))"
proof -
  obtain y where y: "poll check timed_out cancelled interval deadline s = Some y"
    using returns [OF mono] by blast
  from run_of_poll [OF y] obtain u where run: "poll_run check interval deadline s u"
    and ends: "poll_ends check timed_out cancelled interval deadline u y" by blast
  obtain q v where q: "check u = (q, v)" by (cases "check u") blast
  obtain now x where now: "read_clock v = (now, x)" by (cases "read_clock v") blast
  note lu = run_later [OF run]
  have lv: "later (fst s) (fst v)" using lu check_later [OF q] by (rule later_trans)
  have lx: "later (fst s) (fst x)" "now = time_at (fst v)" "later (fst v) (fst x)" "snd x = snd v"
    using lv read_clock_later [OF now] now by (auto intro: later_trans simp: read_clock_eq)
  show thesis
  proof (cases "\<exists>p. q = Inr (Some p)")
    case False
    with ends q have "case q of Inl e \<Rightarrow> y = (Inl e, v) | Inr None \<Rightarrow> y = (Inr (), v) | Inr (Some p) \<Rightarrow> False"
      by (auto simp: poll_ends_def split: sum.splits option.splits)
    then show thesis
      using lv by (intro that [OF y _ lu q]) (auto split: sum.splits option.splits)
  next
    case True
    then obtain p where p: "q = Inr (Some p)" by blast
    from ends q p now consider
      (late) "deadline < now" "y = (Inl (timed_out p), x)"
      | (cut) c z where "wait_after interval x = (Some c, z)" "y = (Inl (cancelled c), z)"
      by (auto simp: poll_ends_def)
    then show thesis
    proof cases
      case late
      have "now \<le> time_at (fst x)" using later_time [OF later_mono [OF mono lv] lx(3)] lx(2) by simp
      with late lx p show thesis by (intro that [OF y _ lu q]) auto
    next
      case cut
      have "w_cancel (fst x) (w_selects (fst x)) = Some c" "snd z = snd x"
        using cut(1) by (auto simp: wait_after_def SelectAfter_def Let_def split: option.splits)
      then have "\<exists>k. w_cancel (fst s) k = Some c" "snd z = snd v" using lx by (auto simp: later_def)
      moreover have "later (fst s) (fst z)"
        using lx(1) wait_after_later [OF cut(1)] by (rule later_trans)
      ultimately show thesis using cut p by (intro that [OF y _ lu q]) auto
    qed
  qed
qed

end

section \<open>The two waits\<close>

fun seen_established :: "(string \<Rightarrow> ('c, string, crd_status) action) \<Rightarrow> string list \<Rightarrow> 'c \<Rightarrow> bool" where
  "seen_established get [] c = True"
| "seen_established get (name # names) c =
     (case get name c of
        (Inr st, d) \<Rightarrow> crdEstablished st \<and> seen_established get names d
      | (Inl _, _) \<Rightarrow> False)"

lemma first_unestablished:
  assumes "[] \<notin> set names" and "firstUnestablishedCRD get names c = (r, d)"
  shows "case r of
      Inr n \<Rightarrow> if n = [] then seen_established get names c
               else n \<in> set names \<and> (\<exists>c st d. get n c = (Inr st, d) \<and> \<not> crdEstablished st)
    | Inl e \<Rightarrow> \<exists>n x c d. e = GetCRD n x \<and> n \<in> set names \<and> get n c = (Inl x, d)"
  using assms
proof (induction names arbitrary: c)
  case Nil
  then show ?case by auto
next
  case (Cons name names)
  obtain g c1 where g: "get name c = (g, c1)" by (cases "get name c") blast
  show ?case
  proof (cases g)
    case (Inl x)
    with Cons.prems g have "r = Inl (GetCRD name x)" by (auto simp: act_bind_def act_wrap_def)
    with Inl g show ?thesis by auto
  next
    case (Inr st)
    show ?thesis
    proof (cases "crdEstablished st")
      case True
      with Cons.prems g Inr have "firstUnestablishedCRD get names c1 = (r, d)" "[] \<notin> set names"
        by (auto simp: act_bind_def act_wrap_def)
      from Cons.IH [OF this(2,1)] True g Inr show ?thesis by (auto split: sum.splits if_splits)
    next
      case False
      with Cons.prems g Inr have "r = Inr name" "name \<noteq> []" by (auto simp: act_bind_def act_wrap_def)
      with False g Inr show ?thesis by auto
    qed
  qed
qed

lemma crd_interval: "0 < crdPollInterval"
  by (simp add: crdPollInterval_def)

lemma check_crds_machine: "check_crds get names s = (r, t) \<Longrightarrow> fst t = fst s"
  by (auto simp: check_crds_def act_bind_def on_cluster_def split: prod.splits sum.splits)

lemma check_crds_quiet: "quiet (check_crds get names)"
  unfolding quiet_def by (metis check_crds_machine later_refl prod.collapse)

lemma check_crds_answer:
  assumes "check_crds get names s = (r, t)"
  shows "\<exists>q. firstUnestablishedCRD get names (snd s) = (q, snd t) \<and>
    (case q of Inl e \<Rightarrow> r = Inl e | Inr n \<Rightarrow> r = Inr (if n = [] then None else Some n))"
  using assms by (auto simp: check_crds_def act_bind_def on_cluster_def split: prod.splits sum.splits)

interpretation crds: waiting "check_crds get names" crdPollInterval for get names
  by unfold_locales (rule check_crds_quiet, rule crd_interval)

lemma WaitForCRDEstablished_outcome:
  assumes mono: "clock_mono (fst s)" and names: "[] \<notin> set names"
  shows "\<exists>r t. WaitForCRDEstablished get names timeout s = Some (r, t) \<and> later (fst s) (fst t) \<and>
    (case r of
       Inr _ \<Rightarrow> names = [] \<or>
         (\<exists>c. seen_established get names c \<and> firstUnestablishedCRD get names c = (Inr [], snd t))
     | Inl (GetCRD n x) \<Rightarrow> n \<in> set names \<and> (\<exists>c d. get n c = (Inl x, d))
     | Inl (NotEstablished n d) \<Rightarrow> n \<in> set names \<and> d = timeout \<and> time_at (fst s) + timeout < time_at (fst t)
     | Inl (CRDWaitCancelled x) \<Rightarrow> \<exists>k. w_cancel (fst s) k = Some x)"
proof (cases "names = []")
  case True
  then show ?thesis by (auto simp: WaitForCRDEstablished_def)
next
  case False
  obtain now s1 where now: "read_clock s = (now, s1)" by (cases "read_clock s") blast
  note start = read_clock_later [OF now]
  have mono1: "clock_mono (fst s1)" using mono start by (blast intro: later_mono)
  obtain y u q v where y: "poll (check_crds get names) (\<lambda>name. NotEstablished name timeout) CRDWaitCancelled
      crdPollInterval (now + timeout) s1 = Some y"
    and lat: "later (fst s1) (fst (snd y))" and q: "check_crds get names u = (q, v)"
    and res: "(case q of
        Inl e \<Rightarrow> y = (Inl e, v)
      | Inr None \<Rightarrow> y = (Inr (), v)
      | Inr (Some p) \<Rightarrow> snd (snd y) = snd v \<and>
          (fst y = Inl (NotEstablished p timeout) \<and> now + timeout < time_at (fst (snd y)) \<or>
           (\<exists>c k. fst y = Inl (CRDWaitCancelled c) \<and> w_cancel (fst s1) k = Some c)))"
    by (rule crds.outcome [OF mono1])
  have run: "WaitForCRDEstablished get names timeout s = Some y"
    using False now y by (simp add: WaitForCRDEstablished_def)
  have files: "later (fst s) (fst (snd y))" using start lat by (blast intro: later_trans)
  have cancel: "w_cancel (fst s1) = w_cancel (fst s)" using start by (simp add: later_def)
  from check_crds_answer [OF q] obtain a where a: "firstUnestablishedCRD get names (snd u) = (a, snd v)"
    and qa: "case a of Inl e \<Rightarrow> q = Inl e | Inr n \<Rightarrow> q = Inr (if n = [] then None else Some n)" by blast
  note seen = first_unestablished [OF names a]
  show ?thesis
  proof (intro exI conjI)
    show "WaitForCRDEstablished get names timeout s = Some (fst y, snd y)" using run by simp
    show "later (fst s) (fst (snd y))" by (rule files)
    show "case fst y of
       Inr _ \<Rightarrow> names = [] \<or>
         (\<exists>c. seen_established get names c \<and> firstUnestablishedCRD get names c = (Inr [], snd (snd y)))
     | Inl (GetCRD n x) \<Rightarrow> n \<in> set names \<and> (\<exists>c d. get n c = (Inl x, d))
     | Inl (NotEstablished n d) \<Rightarrow> n \<in> set names \<and> d = timeout \<and> time_at (fst s) + timeout < time_at (fst (snd y))
     | Inl (CRDWaitCancelled x) \<Rightarrow> \<exists>k. w_cancel (fst s) k = Some x"
    proof (cases a)
      case (Inl e)
      with seen obtain n x c d where "e = GetCRD n x" "n \<in> set names" "get n c = (Inl x, d)" by auto
      with Inl qa res show ?thesis by (simp, blast)
    next
      case (Inr n)
      show ?thesis
      proof (cases "n = []")
        case True
        with Inr qa res have "y = (Inr (), v)" by simp
        moreover from True Inr seen have "seen_established get names (snd u)" by simp
        ultimately show ?thesis using a Inr True by auto
      next
        case False
        with Inr qa res seen start cancel show ?thesis by auto
      qed
    qed
  qed
qed

text \<open>
  C24. The wait for the CRDs always returns, whatever the server answers, and never touches a file.
  Success means that there is nothing to wait for, or that one pass over the names, which ends in
  the returned state, found every CRD established. It gives up on a CRD only after the timeout,
  and a read error names the CRD that could not be read.
\<close>

theorem WaitForCRDEstablished_correct:
  assumes mono: "clock_mono (fst s)" and names: "[] \<notin> set names"
  shows "\<exists>r t. WaitForCRDEstablished get names timeout s = Some (r, t) \<and> w_files (fst t) = w_files (fst s) \<and>
    (case r of
       Inr _ \<Rightarrow> names = [] \<or>
         (\<exists>c. seen_established get names c \<and> firstUnestablishedCRD get names c = (Inr [], snd t))
     | Inl (GetCRD n x) \<Rightarrow> n \<in> set names \<and> (\<exists>c d. get n c = (Inl x, d))
     | Inl (NotEstablished n d) \<Rightarrow> n \<in> set names \<and> d = timeout \<and> time_at (fst s) + timeout < time_at (fst t)
     | Inl (CRDWaitCancelled x) \<Rightarrow> \<exists>k. w_cancel (fst s) k = Some x)"
  using WaitForCRDEstablished_outcome [OF mono names, of get timeout]
  by (elim exE conjE) (intro exI conjI, assumption, simp add: later_def, assumption)

section \<open>The API server answers\<close>

lemma probe_healthz_quiet: "quiet (probe_healthz P healthzURL)"
proof -
  have "fst (snd (probe_healthz P healthzURL s)) = fst s" for s
    by (auto simp: probe_healthz_def split: option.splits prod.splits sum.splits)
  then show ?thesis by (simp add: quiet_def)
qed

interpretation healthz: waiting "probe_healthz P healthzURL" apiserverPollInterval for P healthzURL
  by unfold_locales (rule probe_healthz_quiet, simp add: apiserverPollInterval_def)

lemma probe_healthz_answer:
  assumes "probe_healthz P healthzURL u = (q, v)"
  shows "case q of
      Inr None \<Rightarrow> Do P healthzURL (snd u) = (Inr None, snd v)
    | Inr (Some e) \<Rightarrow> Do P healthzURL (snd u) = (Inl e, snd v)
    | Inl (BuildProbe x) \<Rightarrow> x = healthzURL \<and> url_Parse healthzURL = None
    | Inl (CloseResponse e) \<Rightarrow> Do P healthzURL (snd u) = (Inr (Some e), snd v)
    | Inl _ \<Rightarrow> False"
  using assms by (auto simp: probe_healthz_def split: option.splits prod.splits sum.splits)

lemma probe_setup_reads: "stays same_disk (probe_setup P caPath certPath keyPath)"
  unfolding probe_setup_def LoadX509KeyPair_def by (auto intro!: io_frame)

lemma probe_setup_later: "probe_setup P caPath certPath keyPath w = (r, v) \<Longrightarrow> later w v"
  by (rule same_disk_later) (rule stays_run [OF probe_setup_reads])

lemma probe_setup_error:
  "probe_setup P caPath certPath keyPath w = (Inl e, v) \<Longrightarrow>
     e = NoCertificates \<or> (\<exists>x. e = ReadCA x \<or> e = ReadProbeCert x \<or> e = ReadProbeKey x) \<or> (\<exists>x. e = BadProbePair x)"
  unfolding probe_setup_def LoadX509KeyPair_def
  by (auto simp: act_simps act_wrap_def wrap_err_Inl_iff split: if_splits prod.splits)

lemma WaitForAPIServer_outcome:
  assumes mono: "clock_mono (fst s)"
  shows "\<exists>r t. WaitForAPIServer P healthzURL caPath certPath keyPath timeout s = Some (r, t) \<and>
    later (fst s) (fst t) \<and>
    (case r of
       Inr _ \<Rightarrow> \<exists>c. Do P healthzURL c = (Inr None, snd t)
     | Inl (NotReady d e) \<Rightarrow> d = timeout \<and> time_at (fst s) + timeout < time_at (fst t) \<and>
         (\<exists>c. Do P healthzURL c = (Inl e, snd t))
     | Inl (WaitCancelled x) \<Rightarrow> \<exists>k. w_cancel (fst s) k = Some x
     | Inl (CloseResponse e) \<Rightarrow> \<exists>c. Do P healthzURL c = (Inr (Some e), snd t)
     | Inl (BuildProbe x) \<Rightarrow> url_Parse healthzURL = None
     | Inl _ \<Rightarrow> snd t = snd s)"
proof -
  obtain r w where init: "probe_setup P caPath certPath keyPath (fst s) = (r, w)"
    by (cases "probe_setup P caPath certPath keyPath (fst s)") blast
  note early = probe_setup_later [OF init]
  show ?thesis
  proof (cases r)
    case (Inl e)
    then have "WaitForAPIServer P healthzURL caPath certPath keyPath timeout s = Some (Inl e, (w, snd s))"
      using init by (simp add: WaitForAPIServer_def on_machine_def)
    moreover note probe_setup_error [OF init [unfolded Inl]]
    ultimately show ?thesis using early by auto
  next
    case (Inr i)
    obtain now s1 where now: "read_clock (w, snd s) = (now, s1)" by (cases "read_clock (w, snd s)") blast
    note start = read_clock_later [OF now, unfolded fst_conv]
    have l1: "later (fst s) (fst s1)" using early start by (blast intro: later_trans)
    have le: "time_at (fst s) \<le> now" using later_time [OF mono early] start by simp
    obtain y u q v where y: "poll (probe_healthz P healthzURL) (NotReady timeout) WaitCancelled
        apiserverPollInterval (now + timeout) s1 = Some y"
      and lat: "later (fst s1) (fst (snd y))" and q: "probe_healthz P healthzURL u = (q, v)"
      and res: "(case q of
          Inl e \<Rightarrow> y = (Inl e, v)
        | Inr None \<Rightarrow> y = (Inr (), v)
        | Inr (Some p) \<Rightarrow> snd (snd y) = snd v \<and>
            (fst y = Inl (NotReady timeout p) \<and> now + timeout < time_at (fst (snd y)) \<or>
             (\<exists>c k. fst y = Inl (WaitCancelled c) \<and> w_cancel (fst s1) k = Some c)))"
      by (rule healthz.outcome [OF later_mono [OF mono l1]])
    have cancel: "w_cancel (fst s1) = w_cancel (fst s)" using l1 by (simp add: later_def)
    have "WaitForAPIServer P healthzURL caPath certPath keyPath timeout s = Some (fst y, snd y)"
      using init Inr now y by (simp add: WaitForAPIServer_def on_machine_def)
    moreover have "later (fst s) (fst (snd y))" using l1 lat by (rule later_trans)
    moreover note probe_healthz_answer [OF q] res le cancel
    ultimately show ?thesis
      by (intro exI [of _ "fst y"] exI [of _ "snd y"]) (auto split: sum.splits option.splits wait_error.splits)
  qed
qed

text \<open>
  C23. The wait for the API server always returns, however the requests fail, and never touches a
  file. Success means that one request was answered, whatever the status; a timeout carries the error of
  the last request and comes only after the clock has passed the deadline; the wait stops early only
  when the context ends.
\<close>

theorem WaitForAPIServer_correct:
  assumes mono: "clock_mono (fst s)"
  shows "\<exists>r t. WaitForAPIServer P healthzURL caPath certPath keyPath timeout s = Some (r, t) \<and>
    w_files (fst t) = w_files (fst s) \<and>
    (case r of
       Inr _ \<Rightarrow> \<exists>c. Do P healthzURL c = (Inr None, snd t)
     | Inl (NotReady d e) \<Rightarrow> d = timeout \<and> time_at (fst s) + timeout < time_at (fst t) \<and>
         (\<exists>c. Do P healthzURL c = (Inl e, snd t))
     | Inl (WaitCancelled x) \<Rightarrow> \<exists>k. w_cancel (fst s) k = Some x
     | Inl (CloseResponse e) \<Rightarrow> \<exists>c. Do P healthzURL c = (Inr (Some e), snd t)
     | Inl (BuildProbe x) \<Rightarrow> url_Parse healthzURL = None
     | Inl _ \<Rightarrow> snd t = snd s)"
  using WaitForAPIServer_outcome [OF mono, of P healthzURL caPath certPath keyPath timeout]
  by (elim exE conjE) (intro exI conjI, assumption, simp add: later_def, assumption)

end
