(* ===== verification/GoTime.thy ===== *)
theory GoTime
  imports GoStrings
begin

text \<open>
  \<open>time.ParseDuration\<close> of Go's standard library, which \<open>APIServerTimeout\<close> calls. The accumulator is
  a \<open>uint64\<close> and wraps. A fraction of a unit is computed in floating point: that product is the
  argument \<open>fr\<close> (\<open>fr f unit k\<close> is \<open>f * (unit / 10^k)\<close> in \<open>float64\<close>, truncated).
\<close>

datatype duration_error = InvalidDuration | MissingUnit | UnknownUnit string

definition numeric :: "char \<Rightarrow> bool" where
  "numeric c \<longleftrightarrow> c = CHR ''.'' \<or> is_digit c"

fun leadingInt :: "nat \<Rightarrow> string \<Rightarrow> (nat \<times> string) option" where
  "leadingInt x [] = Some (x, [])"
| "leadingInt x (c # s) =
     (if \<not> is_digit c then Some (x, c # s)
      else if x > 2 ^ 63 div 10 then None
      else (let y = x * 10 + digit_val c in if y > 2 ^ 63 then None else leadingInt y s))"

fun leadingFraction :: "nat \<Rightarrow> nat \<Rightarrow> bool \<Rightarrow> string \<Rightarrow> nat \<times> nat \<times> string" where
  "leadingFraction x k overflow [] = (x, k, [])"
| "leadingFraction x k overflow (c # s) =
     (if \<not> is_digit c then (x, k, c # s)
      else if overflow then leadingFraction x k overflow s
      else if x > (2 ^ 63 - 1) div 10 then leadingFraction x k True s
      else (let y = x * 10 + digit_val c
            in if y > 2 ^ 63 then leadingFraction x k True s else leadingFraction y (Suc k) False s))"

text \<open>\<open>unitMap\<close>; the two spellings of the micro sign are U+00B5 and U+03BC.\<close>

definition unitMap :: "string \<rightharpoonup> nat" where
  "unitMap u =
     (if u = ''ns'' then Some 1
      else if u = ''us'' \<or> u = [CHR 0xC2, CHR 0xB5, CHR ''s''] \<or> u = [CHR 0xCE, CHR 0xBC, CHR ''s''] then Some (10 ^ 3)
      else if u = ''ms'' then Some (10 ^ 6)
      else if u = ''s'' then Some (10 ^ 9)
      else if u = ''m'' then Some (60 * 10 ^ 9)
      else if u = ''h'' then Some (3600 * 10 ^ 9)
      else None)"

text \<open>The part behind the digits: fraction, its digit count, whether it had digits, what is left.\<close>

definition take_fraction :: "string \<Rightarrow> nat \<times> nat \<times> bool \<times> string" where
  "take_fraction s =
     (if s \<noteq> [] \<and> hd s = CHR ''.'' then
        (case leadingFraction 0 0 False (tl s) of (f, k, r) \<Rightarrow> (f, k, length r \<noteq> length (tl s), r))
      else (0, 0, False, s))"

definition take_unit :: "string \<Rightarrow> string \<times> string" where
  "take_unit s = (takeWhile (\<lambda>c. \<not> numeric c) s, dropWhile (\<lambda>c. \<not> numeric c) s)"

type_synonym fraction = "nat \<Rightarrow> nat \<Rightarrow> nat \<Rightarrow> nat"

text \<open>One term: its value and what is left of the string.\<close>

definition duration_term :: "fraction \<Rightarrow> string \<Rightarrow> duration_error + nat \<times> string" where
  "duration_term fr s =
     (if s = [] \<or> \<not> numeric (hd s) then Inl InvalidDuration
      else (case leadingInt 0 s of
              None \<Rightarrow> Inl InvalidDuration
            | Some (v, s1) \<Rightarrow>
                (case take_fraction s1 of
                   (f, k, post, s2) \<Rightarrow>
                     if length s1 = length s \<and> \<not> post then Inl InvalidDuration
                     else (case take_unit s2 of
                             (u, s3) \<Rightarrow>
                               if u = [] then Inl MissingUnit
                               else (case unitMap u of
                                       None \<Rightarrow> Inl (UnknownUnit u)
                                     | Some unit \<Rightarrow>
                                         if v > 2 ^ 63 div unit then Inl InvalidDuration
                                         else if 0 < f \<and> (v * unit + fr f unit k) mod 2 ^ 64 > 2 ^ 63
                                           then Inl InvalidDuration
                                         else Inr (if 0 < f then (v * unit + fr f unit k) mod 2 ^ 64 else v * unit, s3))))))"

lemma leadingInt_length: "leadingInt x s = Some (v, r) \<Longrightarrow> length r \<le> length s"
  by (induction x s rule: leadingInt.induct) (auto simp: Let_def split: if_splits)

lemma leadingFraction_length: "leadingFraction x k b s = (f, k', r) \<Longrightarrow> length r \<le> length s"
  by (induction x k b s rule: leadingFraction.induct) (auto simp: Let_def split: if_splits)

lemma take_fraction_length: "take_fraction s = (f, k, b, r) \<Longrightarrow> length r \<le> length s"
  by (auto simp: take_fraction_def split: if_splits prod.splits dest!: leadingFraction_length)

lemma take_unit_length: "take_unit s = (u, r) \<Longrightarrow> u \<noteq> [] \<Longrightarrow> length r < length s"
  unfolding take_unit_def
  by (metis Pair_inject length_append length_greater_0_conv less_add_same_cancel2 takeWhile_dropWhile_id)

text \<open>A term uses up input: the loop over the terms ends.\<close>

lemma duration_term_shorter: "duration_term fr s = Inr (v, r) \<Longrightarrow> length r < length s"
  by (auto simp: duration_term_def split: if_splits option.splits prod.splits
      dest!: leadingInt_length take_fraction_length take_unit_length)

function duration_loop :: "fraction \<Rightarrow> nat \<Rightarrow> string \<Rightarrow> duration_error + nat" where
  "duration_loop fr d s =
     (if s = [] then Inr d
      else (case duration_term fr s of
              Inl e \<Rightarrow> Inl e
            | Inr (v, r) \<Rightarrow>
                if (d + v) mod 2 ^ 64 > 2 ^ 63 then Inl InvalidDuration
                else duration_loop fr ((d + v) mod 2 ^ 64) r))"
  by pat_completeness auto
termination
  by (relation "measure (\<lambda>(fr, d, s). length s)") (auto dest: duration_term_shorter)

declare duration_loop.simps [simp del]

definition ParseDuration :: "fraction \<Rightarrow> string \<Rightarrow> duration_error + int" where
  "ParseDuration fr orig =
     (case sign_split orig of
        (neg, s) \<Rightarrow>
          if s = ''0'' then Inr 0
          else if s = [] then Inl InvalidDuration
          else bind_result (duration_loop fr 0 s) (\<lambda>d.
                 if neg then Inr (- int d)
                 else if d > 2 ^ 63 - 1 then Inl InvalidDuration
                 else Inr (int d)))"

section \<open>Bounds\<close>

lemma duration_loop_bound: "duration_loop fr d s = Inr v \<Longrightarrow> d \<le> 2 ^ 63 \<Longrightarrow> v \<le> 2 ^ 63"
proof (induction fr d s rule: duration_loop.induct)
  case (1 fr d s)
  show ?case
  proof (cases "s = []")
    case True
    with 1 show ?thesis by (simp add: duration_loop.simps)
  next
    case False
    with "1.prems"(1) obtain t r where t: "duration_term fr s = Inr (t, r)"
      and ok: "\<not> (d + t) mod 2 ^ 64 > 2 ^ 63" and rest: "duration_loop fr ((d + t) mod 2 ^ 64) r = Inr v"
      by (subst (asm) duration_loop.simps) (auto split: sum.splits prod.splits if_splits)
    from ok have "(d + t) mod 2 ^ 64 \<le> 2 ^ 63" by (simp only: not_less)
    from "1.IH" [OF False t _ ok rest this] show ?thesis by simp
  qed
qed

lemma ParseDuration_bound:
  assumes "ParseDuration fr s = Inr d"
  shows "- (2 ^ 63) \<le> d \<and> d < 2 ^ 63"
proof -
  obtain neg b where b: "sign_split s = (neg, b)" by fastforce
  show ?thesis
  proof (cases "b = ''0''")
    case True
    with assms b show ?thesis by (simp add: ParseDuration_def)
  next
    case False
    with assms b obtain n where n: "duration_loop fr 0 b = Inr n"
      and d: "if neg then d = - int n else n \<le> 2 ^ 63 - 1 \<and> d = int n"
      by (auto simp: ParseDuration_def bind_result_Inr_iff split: if_splits)
    from duration_loop_bound [OF n] have "n \<le> 2 ^ 63" by simp
    with d show ?thesis by (cases neg) auto
  qed
qed

section \<open>Sums of whole units\<close>

text \<open>A duration as it is written: numbers with units.\<close>

type_synonym duration_terms = "(nat \<times> string) list"

definition print_terms :: "duration_terms \<Rightarrow> string" where
  "print_terms ts = concat (map (\<lambda>(n, u). decimal n @ u) ts)"

definition terms_value :: "duration_terms \<Rightarrow> nat" where
  "terms_value ts = sum_list (map (\<lambda>(n, u). n * the (unitMap u)) ts)"

definition units_known :: "duration_terms \<Rightarrow> bool" where
  "units_known ts = list_all (\<lambda>(n, u). unitMap u \<noteq> None) ts"

lemma digits_grow: "x \<le> foldl (\<lambda>a c. a * 10 + digit_val c) x ds"
proof (induction ds arbitrary: x)
  case Nil
  then show ?case by simp
next
  case (Cons c ds)
  have "x \<le> x * 10 + digit_val c" by simp
  also have "\<dots> \<le> foldl (\<lambda>a c. a * 10 + digit_val c) (x * 10 + digit_val c) ds" by (rule Cons.IH)
  finally show ?case by simp
qed

lemma leadingInt_digits:
  assumes "list_all is_digit ds" and "r = [] \<or> \<not> is_digit (hd r)"
    and "foldl (\<lambda>a c. a * 10 + digit_val c) x ds \<le> 2 ^ 63"
  shows "leadingInt x (ds @ r) = Some (foldl (\<lambda>a c. a * 10 + digit_val c) x ds, r)"
  using assms
proof (induction ds arbitrary: x)
  case Nil
  then show ?case by (cases r) auto
next
  case (Cons c ds)
  have le: "x * 10 + digit_val c \<le> 2 ^ 63"
    using digits_grow [of "x * 10 + digit_val c" ds] Cons.prems(3) by simp
  then have "x \<le> 2 ^ 63 div 10" by simp
  with le Cons show ?case by (simp add: Let_def)
qed

lemma unitMap_positive: "unitMap u = Some k \<Longrightarrow> 0 < k"
  by (auto simp: unitMap_def split: if_splits)

lemma unitMap_chars: "unitMap u = Some k \<Longrightarrow> u \<noteq> [] \<and> list_all (\<lambda>c. \<not> numeric c) u"
  by (auto simp: unitMap_def numeric_def is_digit_def byte_val_def split: if_splits)

lemma term_whole:
  assumes u: "unitMap u = Some k" and r: "r = [] \<or> is_digit (hd r)" and le: "n * k \<le> 2 ^ 63"
  shows "duration_term fr (decimal n @ u @ r) = Inr (n * k, r)"
proof -
  note u' = unitMap_chars [OF u]
  then obtain c u1 where cu: "u = c # u1" and c: "\<not> numeric c" by (cases u) auto
  then have cd: "\<not> is_digit c" "c \<noteq> CHR ''.''" by (simp_all add: numeric_def)
  note dec = decimal_props [of n]
  have k: "0 < k" using u by (rule unitMap_positive)
  then have "n \<le> n * k" by simp
  with le have n: "n \<le> 2 ^ 63" by linarith
  have int: "leadingInt 0 (decimal n @ u @ r) = Some (n, u @ r)"
    using leadingInt_digits [of "decimal n" "u @ r" 0] dec cu cd n by (simp add: digits_val_def)
  have frac: "take_fraction (u @ r) = (0, 0, False, u @ r)" using cu cd by (simp add: take_fraction_def)
  have unit: "take_unit (u @ r) = (u, r)"
  proof -
    have "takeWhile (\<lambda>c. \<not> numeric c) r = []" "dropWhile (\<lambda>c. \<not> numeric c) r = r"
      using r by (cases r; simp add: numeric_def)+
    moreover have "\<And>x. x \<in> set u \<Longrightarrow> \<not> numeric x" using u' by (simp add: list_all_iff)
    ultimately show ?thesis by (simp add: take_unit_def takeWhile_append dropWhile_append)
  qed
  have hd: "numeric (hd (decimal n @ u @ r))"
    using dec by (cases "decimal n") (auto simp: numeric_def)
  have small: "\<not> 2 ^ 63 div k < n"
    using le k by (simp add: not_less less_eq_div_iff_mult_less_eq)
  show ?thesis
    using int frac unit hd u u' dec small by (auto simp: duration_term_def)
qed

lemma loop_terms:
  assumes "units_known ts" and "d + terms_value ts \<le> 2 ^ 63"
  shows "duration_loop fr d (print_terms ts) = Inr (d + terms_value ts)"
  using assms
proof (induction ts arbitrary: d)
  case Nil
  then show ?case by (simp add: duration_loop.simps print_terms_def terms_value_def)
next
  case (Cons t ts)
  obtain n u where t: "t = (n, u)" by fastforce
  from Cons.prems(1) t obtain k where k: "unitMap u = Some k" and known: "units_known ts"
    by (auto simp: units_known_def)
  from Cons.prems(2) t k have le: "d + n * k + terms_value ts \<le> 2 ^ 63" by (simp add: terms_value_def add.assoc)
  have str: "print_terms (t # ts) = decimal n @ u @ print_terms ts" by (simp add: print_terms_def t)
  have "print_terms ts = [] \<or> is_digit (hd (print_terms ts))"
  proof (cases ts)
    case Nil
    then show ?thesis by (simp add: print_terms_def)
  next
    case (Cons a as)
    with decimal_props [of "fst a"] decimal_hd_digit [of "fst a"] show ?thesis
      by (auto simp: print_terms_def split: prod.splits)
  qed
  from term_whole [OF k this] le have one: "duration_term fr (print_terms (t # ts)) = Inr (n * k, print_terms ts)"
    by (simp add: str)
  have "(d + n * k) mod 2 ^ 64 = d + n * k" using le by (intro mod_less) simp
  moreover have "print_terms (t # ts) \<noteq> []" using decimal_props [of n] by (simp add: str)
  ultimately have "duration_loop fr d (print_terms (t # ts)) = duration_loop fr (d + n * k) (print_terms ts)"
    using one le by (subst duration_loop.simps) simp
  also have "\<dots> = Inr (d + terms_value (t # ts))"
    using Cons.IH [OF known, of "d + n * k"] le by (simp add: t k terms_value_def add.assoc)
  finally show ?case .
qed

lemma ParseDuration_whole:
  assumes "units_known ts" and "ts \<noteq> []" and "terms_value ts < 2 ^ 63"
  shows "ParseDuration fr (print_terms ts) = Inr (int (terms_value ts))"
    and "ParseDuration fr (CHR ''-'' # print_terms ts) = Inr (- int (terms_value ts))"
proof -
  obtain n u us where ts: "ts = (n, u) # us" using assms(2) by (cases ts) auto
  with assms(1) obtain k where "unitMap u = Some k" by (auto simp: units_known_def)
  then obtain c u1 where u: "u = c # u1" "\<not> numeric c" using unitMap_chars by (cases u) fastforce+
  have str: "print_terms ts = decimal n @ c # u1 @ print_terms us" by (simp add: print_terms_def ts u)
  have hd: "is_digit (hd (print_terms ts))" "print_terms ts \<noteq> []"
    using decimal_props [of n] decimal_hd_digit [of n] str by auto
  then have sign: "sign_split (print_terms ts) = (False, print_terms ts)"
    using digit_not_sign by (cases "print_terms ts") (auto simp: sign_split_def)
  have "print_terms ts \<noteq> ''0''"
  proof
    assume "print_terms ts = ''0''"
    then have "c \<in> set ''0''" using str by (metis in_set_conv_decomp)
    then show False using u by (simp add: numeric_def is_digit_def byte_val_def)
  qed
  moreover have "duration_loop fr 0 (print_terms ts) = Inr (terms_value ts)"
    using loop_terms [OF assms(1), of 0] assms(3) by simp
  ultimately show "ParseDuration fr (print_terms ts) = Inr (int (terms_value ts))"
    and "ParseDuration fr (CHR ''-'' # print_terms ts) = Inr (- int (terms_value ts))"
    using sign hd assms(3) by (auto simp: ParseDuration_def sign_split_minus)
qed

text \<open>
  The accumulator wraps: two terms of half the range cancel out, and the sum is accepted as
  nothing at all.
\<close>

lemma wrapped_sum:
  "ParseDuration fr (print_terms [(2 ^ 63, ''ns''), (2 ^ 63, ''ns'')]) = Inr 0"
proof -
  have u: "unitMap ''ns'' = Some 1" by (simp add: unitMap_def)
  have hd: "is_digit (hd (decimal n @ r))" "decimal n @ r \<noteq> []" for n r
    using decimal_props [of n] decimal_hd_digit [of n] by auto
  have one: "duration_term fr (decimal (2 ^ 63) @ ''ns'' @ r) = Inr (2 ^ 63, r)" if "r = [] \<or> is_digit (hd r)" for r
    using term_whole [OF u that, of "2 ^ 63"] by simp
  have two: "duration_loop fr (2 ^ 63) (decimal (2 ^ 63) @ ''ns'') = Inr 0"
    using one [of "[]"] hd by (subst duration_loop.simps) (simp add: duration_loop.simps)
  have loop: "duration_loop fr 0 (decimal (2 ^ 63) @ ''ns'' @ decimal (2 ^ 63) @ ''ns'') = Inr 0"
    using one [of "decimal (2 ^ 63) @ ''ns''"] two hd by (subst duration_loop.simps) simp
  have sign: "sign_split (decimal (2 ^ 63) @ s) = (False, decimal (2 ^ 63) @ s)" for s
    using hd [of "2 ^ 63" s] digit_not_sign by (cases "decimal (2 ^ 63) @ s") (auto simp: sign_split_def)
  have "decimal (2 ^ 63) @ ''ns'' @ s \<noteq> ''0''" for s
    using decimal_props [of "2 ^ 63"] by (cases "decimal (2 ^ 63)") auto
  then show ?thesis using sign loop hd by (simp add: ParseDuration_def print_terms_def)
qed

end
