(* ===== verification/Settings.thy ===== *)
theory Settings
  imports Config GoUrl GoTime Pki
begin

text \<open>
  What the setup command takes from the environment besides \<open>config.Load\<close> (\<open>ManifestsDir\<close>,
  \<open>APIServerTimeout\<close>), the URL it derives from the bind address (\<open>APIServerURL\<close>), and its
  constants: \<open>src/cmd/capishim/setup.go\<close>. Durations are nanoseconds.
\<close>

section \<open>Constants\<close>

definition EnvManifestsDir :: string where "EnvManifestsDir = ''CAPISHIM_MANIFESTS_DIR''"
definition EnvAPIServerTimeout :: string where "EnvAPIServerTimeout = ''CAPISHIM_APISERVER_TIMEOUT''"
definition defaultManifestsDir :: string where "defaultManifestsDir = ''/templates/manifests''"
definition defaultAPIServerTimeout :: int where "defaultAPIServerTimeout = 5 * (60 * 10 ^ 9)"
definition crdWaitTimeout :: int where "crdWaitTimeout = 2 * (60 * 10 ^ 9)"
definition adminCN :: string where "adminCN = ''capishim:admin''"
definition apiserverSchemeHost :: string where "apiserverSchemeHost = ''https://127.0.0.1:''"
definition defaultAPIServerPort :: string where "defaultAPIServerPort = ''6443''"
definition hypervisorWebhookPort :: int where "hypervisorWebhookPort = 9443"

section \<open>From the environment\<close>

datatype settings_error = BlankManifestsDir | BadTimeout string duration_error

definition ManifestsDir :: "environment \<Rightarrow> settings_error + string" where
  "ManifestsDir env =
     (case env EnvManifestsDir of
        None \<Rightarrow> Inr defaultManifestsDir
      | Some raw \<Rightarrow> (let dir = TrimSpace raw in if dir = [] then Inl BlankManifestsDir else Inr dir))"

definition APIServerTimeout :: "fraction \<Rightarrow> environment \<Rightarrow> settings_error + int" where
  "APIServerTimeout fr env =
     (case env EnvAPIServerTimeout of
        None \<Rightarrow> Inr defaultAPIServerTimeout
      | Some raw \<Rightarrow> wrap_err (BadTimeout raw) (ParseDuration fr (TrimSpace raw)))"

definition APIServerURL :: "string \<Rightarrow> string" where
  "APIServerURL bindAddress =
     (case SplitHostPort bindAddress of
        Inr (_, port) \<Rightarrow> apiserverSchemeHost @ port
      | Inl _ \<Rightarrow> apiserverSchemeHost @ defaultAPIServerPort)"



section \<open>The URL of the API server\<close>

lemma APIServerURL_valid:
  "valid_bind b \<Longrightarrow> SplitHostPort b = Inr (h, p) \<Longrightarrow> APIServerURL b = apiserverSchemeHost @ p"
  by (simp add: APIServerURL_def)

lemma loopback_authority:
  assumes "list_all is_digit p"
  shows "url_Parse (apiserverSchemeHost @ p @ ''/healthz'') =
    Some (empty_url\<lparr>url_Scheme := ''https'', url_Host := ''127.0.0.1:'' @ p, url_Path := ''/healthz''\<rparr>)"
proof -
  have digit: "byte_val c < 58 \<and> 48 \<le> byte_val c" if "c \<in> set p" for c
    using assms that by (auto simp: list_all_iff is_digit_def)
  then have chars: "CHR ''#'' \<notin> set p" "question_mark \<notin> set p" "CHR ''/'' \<notin> set p" "CHR ''@'' \<notin> set p"
    by (fastforce simp: byte_val_def question_mark_def)+
  define a where "a = ''127.0.0.1:'' @ p"
  define raw where "raw = ''https'' @ colon # ''//'' @ a @ ''/healthz''"
  have raw: "apiserverSchemeHost @ p @ ''/healthz'' = raw"
    by (simp add: apiserverSchemeHost_def raw_def a_def)
  have cut: "Cut raw (CHR ''#'') = (raw, [], False)"
    by (rule Cut_absent) (use chars in \<open>simp add: raw_def a_def\<close>)
  have ctl: "\<not> list_ex control raw"
    using digit by (fastforce simp: raw_def a_def list_ex_iff control_def byte_val_def)
  have scheme: "getScheme raw = Some (''https'', ''//'' @ a @ ''/healthz'')"
    unfolding raw_def by (rule getScheme_letters) (simp_all add: letter_def byte_val_def Let_def)
  have "question_mark \<notin> set (''//'' @ a @ ''/healthz'')"
    using chars by (simp add: a_def question_mark_def)
  then have query: "cut_query (''//'' @ a @ ''/healthz'') = (False, ''//'' @ a @ ''/healthz'', [])"
    by (auto simp: cut_query_def HasSuffix_iff count_list_0_iff)
  have auth: "takeWhile (\<lambda>c. c \<noteq> CHR ''/'') (a @ ''/healthz'') = a"
    "dropWhile (\<lambda>c. c \<noteq> CHR ''/'') (a @ ''/healthz'') = ''/healthz''"
    using chars by (simp_all add: a_def takeWhile_append dropWhile_append takeWhile_neq_id)
  have host: "parseHost a = Some a"
    using parseHost_plain [of "''127.0.0.1''" p] assms
    by (simp add: a_def plain_host_def host_char_def alnum_def byte_val_def)
  have "parseAuthority a = Some (None, a)"
    using chars host by (simp add: parseAuthority_def cut_last_def a_def)
  moreover have "setPath ''/healthz'' u = Some (u\<lparr>url_Path := ''/healthz'', url_RawPath := []\<rparr>)" for u
    by (simp add: setPath_def escape_def escape_char_def shouldEscape_def alnum_def byte_val_def)
  moreover have "to_lower ''https'' = ''https''" by (simp add: to_lower_def byte_val_def)
  moreover have "raw \<noteq> ''*''" by (simp add: raw_def)
  ultimately have "parse_no_fragment raw =
      Some (empty_url\<lparr>url_Scheme := ''https'', url_Host := a, url_Path := ''/healthz''\<rparr>)"
    using ctl scheme query auth
    by (simp add: parse_no_fragment_def parse_rest_def HasPrefix_def empty_url_def)
  then show ?thesis by (simp add: raw cut url_Parse_def a_def)
qed


lemma loaded_bind:
  assumes "Load env = Inr c"
  obtains h p n where "SplitHostPort (BindAddress c) = Inr (h, p)" "h \<noteq> []" "Atoi p = Some n" "1 \<le> n" "n \<le> 65535"
  using assms bindAddress_valid unfolding Load_Inr_iff by (metis valid_bind_split)

lemma loaded_bind_url:
  assumes "Load env = Inr c" and "SplitHostPort (BindAddress c) = Inr (h, p)"
  shows "APIServerURL (BindAddress c) = ''https://127.0.0.1:'' @ p \<and> bindHost (BindAddress c) = Inr h"
proof -
  from assms(1) obtain h' p' n where "SplitHostPort (BindAddress c) = Inr (h', p')" "h' \<noteq> []"
    by (rule loaded_bind) blast
  with assms(2) have "h \<noteq> []" by simp
  moreover have "BindAddress c \<noteq> []"
    using assms(2) by (auto simp: SplitHostPort_def cut_last_def)
  ultimately show ?thesis using assms(2) by (simp add: APIServerURL_def apiserverSchemeHost_def bindHost_def)
qed



text \<open>
  The digits are not guaranteed: \<open>strconv.Atoi\<close> takes a sign, so \<open>Load\<close> accepts a port such as
  +6443, and then the probe's URL does not parse.
\<close>

lemma signed_port_refused:
  "\<exists>c. Load [EnvStateDir \<mapsto> ''/s'', EnvBindAddress \<mapsto> ''127.0.0.1:+6443''] = Inr c \<and>
     url_Parse (APIServerURL (BindAddress c) @ ''/healthz'') = None"
proof -
  let ?c = "\<lparr>StateDir = ''/s'', BindAddress = ''127.0.0.1:+6443'', HypervisorWebhookHost = ''host.containers.internal''\<rparr>"
  have trim: "TrimSpace ''/s'' = ''/s''" "TrimSpace ''127.0.0.1:+6443'' = ''127.0.0.1:+6443''"
    by (rule TrimSpace_id, simp add: trimmed_def leading_rune_def space_runes_def)+
  have split: "SplitHostPort ''127.0.0.1:+6443'' = Inr (''127.0.0.1'', ''+6443'')"
    using SplitHostPort_plain [of "''127.0.0.1''" "''+6443''"] by simp
  have "valid_bind ''127.0.0.1:+6443''"
    using split by (simp add: valid_bind_iff Atoi_def sign_split_def parse_digits_def digits_val_def
        is_digit_def digit_val_def byte_val_def)
  then have load: "Load [EnvStateDir \<mapsto> ''/s'', EnvBindAddress \<mapsto> ''127.0.0.1:+6443''] = Inr ?c"
    using trim by (simp add: Load_Inr_iff stateDirFromEnv_def bindAddressFromEnv_def valid_bind_def
        hypervisorWebhookHostFromEnv_def env_get_def EnvStateDir_def EnvBindAddress_def
        EnvHypervisorWebhookHost_def defaultHypervisorWebhookHost_def)
  have "url_Parse (APIServerURL ''127.0.0.1:+6443'' @ ''/healthz'') = None"
    unfolding APIServerURL_def split apiserverSchemeHost_def by code_simp
  with load show ?thesis by (intro exI [of _ ?c]) simp
qed

end
