(* ===== verification/Setup.thy ===== *)
theory Setup
  imports Pipeline Kubeconfig Poll Settings
begin

text \<open>
  The setup command, \<open>setup\<close> of \<open>src/cmd/capishim/setup.go\<close>: the phases in the order the code has
  them, over a state of two parts, the machine and the outside that its requests reach. A step is a
  computation over that state that may fail and, because it may wait, may in principle not return:
  \<open>None\<close> would be a wait without end. What setup calls in client-go, apimachinery and the standard library
  is one record, the \<open>platform\<close>.
\<close>

section \<open>Steps\<close>

type_synonym ('c, 'e, 'a) step = "'c site \<Rightarrow> (('e + 'a) \<times> 'c site) option"

definition st_act :: "('c site, 'e, 'a) action \<Rightarrow> ('c, 'e, 'a) step" where
  "st_act m s = Some (m s)"

definition st_bind :: "('c, 'e, 'a) step \<Rightarrow> ('a \<Rightarrow> ('c, 'e, 'b) step) \<Rightarrow> ('c, 'e, 'b) step" where
  "st_bind m f s =
     (case m s of
        None \<Rightarrow> None
      | Some (r, t) \<Rightarrow> (case r of Inl e \<Rightarrow> Some (Inl e, t) | Inr x \<Rightarrow> f x t))"

definition st_wrap :: "('e \<Rightarrow> 'f) \<Rightarrow> ('c, 'e, 'a) step \<Rightarrow> ('c, 'f, 'a) step" where
  "st_wrap c m s = (case m s of None \<Rightarrow> None | Some (r, t) \<Rightarrow> Some (wrap_err c r, t))"

section \<open>What setup calls\<close>

text \<open>\<open>rest.Config\<close> with the fields that setup sets.\<close>

record rest_config =
  rc_Host :: string
  rc_CAFile :: string
  rc_CertFile :: string
  rc_KeyFile :: string

record ('c, 's, 'r, 'm) platform =
  pf_lib :: k8s_lib
  pf_pem :: pem
  pf_fraction :: fraction
  pf_prober :: "'c prober"
  pf_decoder :: "'s decoder"
  pf_converter :: "('r, 'm) converter"
  NewDynamic :: "rest_config \<Rightarrow> string + 'c dynamic_client"
  NewApiext :: "rest_config \<Rightarrow> string + (string \<Rightarrow> ('c, string, crd_status) action)"
  SerializeKC :: "kubeconfig \<Rightarrow> string + string"

datatype setup_error =
  LoadConfig config_error
| ManifestsDirError settings_error
| TimeoutError settings_error
| GenerateCertificates pki_error
| WaitAPIServer wait_error
| BuildDynamicClient string
| BuildApiextClient string
| LoadProviders "io_error dedupe_error"
| ApplyProviders apply_error
| WaitCRDs crd_wait_error
| RewriteRBAC rbac_error
| ApplyRBAC apply_error
| ReadPodCA io_error
| ConvertWebhooks convert_error
| RewriteWebhooks rewrite_error
| ConvertBack convert_error
| ApplyWebhooks apply_error
| NoManagerCertificate ComponentID
| NoKubeconfigPath ComponentID
| WriteManagerKubeconfig ComponentID kubeconfig_error
| WriteAdminKubeconfig kubeconfig_error

section \<open>The phases\<close>

text \<open>Configuration and certificates.\<close>

definition pki_of :: "config \<Rightarrow> pki_config" where
  "pki_of cfg =
     \<lparr>PkiStateDir = StateDir cfg, PkiBindAddress = BindAddress cfg,
      PkiHypervisorWebhookHost = HypervisorWebhookHost cfg\<rparr>"

definition setup_begin ::
  "('c, 's, 'r, 'm) platform \<Rightarrow> string option \<Rightarrow> environment \<Rightarrow>
   (world, setup_error, config \<times> string \<times> int \<times> inventory) action" where
  "setup_begin P ctx env =
     act_bind (act_lift (wrap_err LoadConfig (Config.Load env))) (\<lambda>cfg.
     act_bind (act_lift (wrap_err ManifestsDirError (ManifestsDir env))) (\<lambda>root.
     act_bind (act_lift (wrap_err TimeoutError (APIServerTimeout (pf_fraction P) env))) (\<lambda>timeout.
     act_bind (act_wrap GenerateCertificates (Generate (pf_pem P) ctx (pki_of cfg))) (\<lambda>inven.
       act_return (cfg, root, timeout, inven)))))"

text \<open>The API server answers; the two clients are built from the admin certificate.\<close>

definition setup_clients ::
  "('c, 's, 'r, 'm) platform \<Rightarrow> string \<Rightarrow> int \<Rightarrow> inventory \<Rightarrow>
   ('c, setup_error, 'c dynamic_client \<times> (string \<Rightarrow> ('c, string, crd_status) action)) step" where
  "setup_clients P server timeout inven =
     st_bind (st_wrap WaitAPIServer (WaitForAPIServer (pf_prober P) (server @ ''/healthz'') (CertPath (CA inven))
        (CertPath (Admin inven)) (KeyPath (Admin inven)) timeout)) (\<lambda>_.
     let rc = \<lparr>rc_Host = server, rc_CAFile = CertPath (CA inven), rc_CertFile = CertPath (Admin inven),
               rc_KeyFile = KeyPath (Admin inven)\<rparr>
     in st_act (act_lift (bind_result (wrap_err BuildDynamicClient (NewDynamic P rc)) (\<lambda>dyn.
                bind_result (wrap_err BuildApiextClient (NewApiext P rc)) (\<lambda>apiext. Inr (dyn, apiext))))))"

text \<open>\<open>LoadDedupedObjects\<close> with the files read from the machine, one by one.\<close>

fun dedupe_read ::
  "k8s_lib \<Rightarrow> 's decoder \<Rightarrow> string list \<Rightarrow> dedupe_state \<Rightarrow> (world, io_error dedupe_error, dedupe_state) action" where
  "dedupe_read L D [] s = act_return s"
| "dedupe_read L D (path # paths) s =
     act_bind (act_wrap (\<lambda>e. LoadFailed (ReadFailed path e)) (ReadFile path)) (\<lambda>data.
     act_bind (act_lift (wrap_err (\<lambda>e. LoadFailed (ParseFailed path e)) (Parse D data))) (\<lambda>parsed.
     act_bind (act_lift (wrap_err Conflict (dedupe_docs L path parsed s))) (dedupe_read L D paths)))"

definition load_deduped :: "k8s_lib \<Rightarrow> 's decoder \<Rightarrow> string list \<Rightarrow> (world, io_error dedupe_error, obj list) action" where
  "load_deduped L D paths =
     act_bind (dedupe_read L D paths \<lparr>dd_objs = [], dd_sources = [], dd_first = (\<lambda>_. None)\<rparr>)
       (\<lambda>s. act_return (dd_objs s))"

text \<open>The CRDs, and everything else that is not a binding; the phase answers with the kept objects.\<close>

definition setup_crds ::
  "('c, 's, 'r, 'm) platform \<Rightarrow> 'c dynamic_client \<Rightarrow> (string \<Rightarrow> ('c, string, crd_status) action) \<Rightarrow> string \<Rightarrow>
   ('c, setup_error, obj list) step" where
  "setup_crds P dyn apiext root =
     st_bind (st_act (act_wrap LoadProviders
        (on_machine (load_deduped (pf_lib P) (pf_decoder P) (ProviderManifestFiles root))))) (\<lambda>loaded.
     let kept = keepObjects (pf_lib P) (RestrictCAPIVersionsToV1Beta2 (pf_lib P) loaded)
     in st_bind (st_act (act_wrap ApplyProviders
           (on_cluster (Apply (pf_lib P) dyn (WithoutRBACBindings (pf_lib P) kept))))) (\<lambda>_.
        st_bind (st_wrap WaitCRDs (WaitForCRDEstablished apiext (CrdNamesFrom (pf_lib P) kept) crdWaitTimeout)) (\<lambda>_.
          st_act (act_return kept))))"

definition setup_rbac ::
  "('c, 's, 'r, 'm) platform \<Rightarrow> 'c dynamic_client \<Rightarrow> obj list \<Rightarrow> ('c, setup_error, unit) action" where
  "setup_rbac P dyn kept =
     act_bind (act_lift (wrap_err RewriteRBAC (RewriteRBACSubjects (pf_lib P) ManagerCNByNamespace kept))) (\<lambda>rewritten.
       act_wrap ApplyRBAC (Apply (pf_lib P) dyn (rewritten @ [AdminClusterRoleBinding adminCN])))"

text \<open>The webhook rewrite of the typed objects; \<open>RewriteAll\<close> works in place.\<close>

definition webhook_batch ::
  "('c, 's, 'r, 'm) platform \<Rightarrow> config \<Rightarrow> string \<Rightarrow> obj list \<Rightarrow> setup_error + obj list" where
  "webhook_batch P cfg caPEM kept =
     bind_result (wrap_err ConvertWebhooks (WebhookObjects (pf_lib P) (pf_converter P) kept)) (\<lambda>webhookObjects.
     bind_result (case RewriteAll webhookObjects RewriteWebhookPortsByNamespace caPEM
                    [Some (WithExternalWebhookHost (HypervisorWebhookHost cfg) [hypervisorWebhookPort])] of
                    (Some e, _) \<Rightarrow> Inl (RewriteWebhooks e) | (None, objs) \<Rightarrow> Inr objs) (\<lambda>objs.
       wrap_err ConvertBack (UnstructuredObjects (pf_converter P) objs)))"

definition setup_webhooks ::
  "('c, 's, 'r, 'm) platform \<Rightarrow> 'c dynamic_client \<Rightarrow> config \<Rightarrow> inventory \<Rightarrow> obj list \<Rightarrow>
   ('c site, setup_error, unit) action" where
  "setup_webhooks P dyn cfg inven kept =
     act_bind (act_wrap ReadPodCA (on_machine (ReadFile (CertPath (CA inven))))) (\<lambda>caPEM.
     act_bind (act_lift (webhook_batch P cfg caPEM kept)) (\<lambda>rewritten.
       act_wrap ApplyWebhooks (on_cluster (Apply (pf_lib P) dyn rewritten))))"

text \<open>One turn of the loop over the components.\<close>

definition manager_kubeconfig ::
  "(kubeconfig \<Rightarrow> string + string) \<Rightarrow> config \<Rightarrow> string \<Rightarrow> inventory \<Rightarrow> component_spec \<Rightarrow> (world, setup_error, unit) action" where
  "manager_kubeconfig ser cfg server inven spec =
     (if ManagerCN spec = [] then act_return ()
      else (case ManagerArtifact (ID spec) inven of
              None \<Rightarrow> act_throw (NoManagerCertificate (ID spec))
            | Some artifact \<Rightarrow>
                (case KubeconfigPath cfg (ID spec) of
                   None \<Rightarrow> act_throw (NoKubeconfigPath (ID spec))
                 | Some kubeconfigPath \<Rightarrow>
                     act_wrap (WriteManagerKubeconfig (ID spec))
                       (WriteKubeconfigFile ser (BuildKubeconfig server (CertPath (CA inven)) (CertPath artifact)
                          (KeyPath artifact)) kubeconfigPath))))"

definition setup_kubeconfigs ::
  "(kubeconfig \<Rightarrow> string + string) \<Rightarrow> config \<Rightarrow> string \<Rightarrow> inventory \<Rightarrow> (world, setup_error, unit) action" where
  "setup_kubeconfigs ser cfg server inven =
     act_bind (act_iter (manager_kubeconfig ser cfg server inven) Components) (\<lambda>_.
       act_wrap WriteAdminKubeconfig
         (WriteKubeconfigFile ser (BuildKubeconfig server (CertPath (CA inven)) (CertPath (Admin inven))
            (KeyPath (Admin inven))) (AdminKubeconfigPath cfg)))"

section \<open>The command\<close>

definition setup_cmd ::
  "('c, 's, 'r, 'm) platform \<Rightarrow> string option \<Rightarrow> environment \<Rightarrow> ('c, setup_error, unit) step" where
  "setup_cmd P ctx env =
     st_bind (st_act (on_machine (setup_begin P ctx env))) (\<lambda>(cfg, manifestsRoot, apiserverTimeout, inven).
     let server = APIServerURL (BindAddress cfg)
     in st_bind (setup_clients P server apiserverTimeout inven) (\<lambda>(dyn, apiext).
        st_bind (setup_crds P dyn apiext manifestsRoot) (\<lambda>kept.
        st_bind (st_act (on_cluster (setup_rbac P dyn kept))) (\<lambda>_.
        st_bind (st_act (setup_webhooks P dyn cfg inven kept)) (\<lambda>_.
          st_act (on_machine (setup_kubeconfigs (SerializeKC P) cfg server inven)))))))"

section \<open>Setup returns\<close>

text \<open>
  What a step is shown to do: when the clock does not run backwards it returns, and the machine
  after it is related by \<open>R\<close> to the machine before. The phases that wait and ask do nothing to the
  machine but let time pass (\<open>later\<close>); the others keep the clock as it is.
\<close>

definition returns :: "(world \<Rightarrow> world \<Rightarrow> bool) \<Rightarrow> ('c, 'e, 'a) step \<Rightarrow> bool" where
  "returns R m \<longleftrightarrow> (\<forall>s. clock_mono (fst s) \<longrightarrow> (\<exists>r t. m s = Some (r, t) \<and> R (fst s) (fst t)))"

definition same_clock :: "world \<Rightarrow> world \<Rightarrow> bool" where
  "same_clock w v \<longleftrightarrow> w_clock v = w_clock w"

lemma same_clock_trans: "same_clock u v \<Longrightarrow> same_clock v w \<Longrightarrow> same_clock u w"
  by (simp add: same_clock_def)

lemma later_clock: "later w v \<Longrightarrow> same_clock w v"
  by (simp add: later_def same_clock_def)

lemma returns_run: "returns R m \<Longrightarrow> m s = Some (r, t) \<Longrightarrow> clock_mono (fst s) \<Longrightarrow> R (fst s) (fst t)"
  unfolding returns_def by (metis Pair_inject option.inject)

lemma returns_weaken: "returns later m \<Longrightarrow> returns same_clock m"
  unfolding returns_def by (blast intro: later_clock)

lemma returns_bind_any:
  assumes trans: "\<And>u v w. R u v \<Longrightarrow> R v w \<Longrightarrow> R u w" and clock: "\<And>u v. R u v \<Longrightarrow> same_clock u v"
    and m: "returns R m" and f: "\<And>x. returns R (f x)"
  shows "returns R (st_bind m f)"
proof -
  have "\<exists>r t. st_bind m f s = Some (r, t) \<and> R (fst s) (fst t)" if mono: "clock_mono (fst s)" for s
  proof -
    obtain r t where t: "m s = Some (r, t)" "R (fst s) (fst t)"
      using m mono unfolding returns_def by blast
    show ?thesis
    proof (cases r)
      case (Inl e)
      with t show ?thesis by (simp add: st_bind_def)
    next
      case (Inr x)
      have "clock_mono (fst t)" using mono clock [OF t(2)] by (simp add: clock_mono_def same_clock_def)
      with f [of x] obtain q u where "f x t = Some (q, u)" "R (fst t) (fst u)"
        unfolding returns_def by blast
      with Inr t show ?thesis by (auto simp: st_bind_def intro: trans)
    qed
  qed
  then show ?thesis by (simp add: returns_def)
qed

lemma returns_bind:
  "returns later m \<Longrightarrow> (\<And>x. returns later (f x)) \<Longrightarrow> returns later (st_bind m f)"
  by (rule returns_bind_any) (blast intro: later_trans later_clock)+

lemma returns_bind_clock:
  "returns same_clock m \<Longrightarrow> (\<And>x. returns same_clock (f x)) \<Longrightarrow> returns same_clock (st_bind m f)"
  by (rule returns_bind_any) (blast intro: same_clock_trans)+

lemma returns_wrap: "returns R m \<Longrightarrow> returns R (st_wrap c m)"
  unfolding returns_def st_wrap_def by (fastforce split: option.splits prod.splits)

lemma returns_act: "(\<And>s. R (fst s) (fst (snd (m s)))) \<Longrightarrow> returns R (st_act m)"
  unfolding returns_def st_act_def by (metis prod.collapse)

lemma on_machine_stays: "stays R m \<Longrightarrow> R (fst s) (fst (snd (on_machine m s)))"
  by (simp add: on_machine_def stays_def split: prod.split) (metis snd_conv)

lemma returns_disk: "stays same_disk m \<Longrightarrow> returns later (st_act (on_machine m))"
  by (rule returns_act) (blast intro: same_disk_later on_machine_stays)

lemma returns_machine: "stays (within UNIV) m \<Longrightarrow> returns same_clock (st_act (on_machine m))"
  by (rule returns_act) (drule on_machine_stays, auto simp: within_def same_env_def same_clock_def)

lemma on_cluster_machine [simp]: "fst (snd (on_cluster m s)) = fst s"
  by (simp add: on_cluster_def split: prod.splits)

lemma returns_cluster: "returns later (st_act (on_cluster m))"
  by (rule returns_act) simp

lemma returns_lift: "returns later (st_act (act_lift r))"
  by (rule returns_act) simp

lemma returns_pair: "(\<And>a b. returns R (f a b)) \<Longrightarrow> returns R (case p of (a, b) \<Rightarrow> f a b)"
  by (cases p) simp

lemma act_wrap_machine: "act_wrap c (on_machine m) = on_machine (act_wrap c m)"
  by (rule ext) (simp add: act_wrap_def on_machine_def split: prod.splits)

lemma act_wrap_cluster: "act_wrap c (on_cluster m) = on_cluster (act_wrap c m)"
  by (rule ext) (simp add: act_wrap_def on_cluster_def split: prod.splits)

lemma dedupe_read_reads: "stays same_disk (dedupe_read L D paths s)"
  by (induction paths arbitrary: s) (auto intro!: io_frame)

lemma load_deduped_reads: "stays same_disk (load_deduped L D paths)"
  unfolding load_deduped_def by (intro io_frame dedupe_read_reads)

lemma act_bind_lift: "act_bind (act_lift (Inr x)) f = f x"
  by (rule ext) (simp add: act_bind_def)

lemma setup_begin_within:
  assumes "Config.Load env = Inr cfg"
  shows "stays (within (ca_paths_of (pki_of cfg) \<union> issued_paths (pki_of cfg))) (setup_begin P ctx env)"
  unfolding setup_begin_def assms wrap_err_simps act_bind_lift by (intro io_frame Generate_within)

lemma setup_begin_any: "stays (within UNIV) (setup_begin P ctx env)"
  unfolding setup_begin_def by (intro io_frame stays_mono [OF Generate_within]) simp

lemma manager_kubeconfig_within: "stays (within UNIV) (manager_kubeconfig ser cfg server inven spec)"
  unfolding manager_kubeconfig_def
  by (auto simp del: ManagerArtifact.simps split: option.split
      intro!: io_frame intro: stays_mono [OF WriteKubeconfigFile_within])

lemma setup_kubeconfigs_within: "stays (within UNIV) (setup_kubeconfigs ser cfg server inven)"
  unfolding setup_kubeconfigs_def
  by (intro io_frame manager_kubeconfig_within stays_mono [OF WriteKubeconfigFile_within]) simp

lemma wait_apiserver_returns: "returns later (WaitForAPIServer P url ca cert key timeout)"
  unfolding returns_def
proof (intro allI impI)
  fix s :: "'a site" assume "clock_mono (fst s)"
  from WaitForAPIServer_outcome [OF this, of P url ca cert key timeout]
  show "\<exists>r t. WaitForAPIServer P url ca cert key timeout s = Some (r, t) \<and> later (fst s) (fst t)"
    by blast
qed

lemma wait_crds_returns: "returns later (WaitForCRDEstablished get names timeout)"
  unfolding returns_def
proof (intro allI impI)
  fix s :: "'a site" assume mono: "clock_mono (fst s)"
  show "\<exists>r t. WaitForCRDEstablished get names timeout s = Some (r, t) \<and> later (fst s) (fst t)"
  proof (cases "names = []")
    case True
    then show ?thesis by (simp add: WaitForCRDEstablished_def)
  next
    case False
    obtain now s1 where now: "read_clock s = (now, s1)" by (cases "read_clock s") blast
    note start = read_clock_later [OF now]
    have "clock_mono (fst s1)" using mono start by (blast intro: later_mono)
    then obtain y where y: "poll (check_crds get names) (\<lambda>name. NotEstablished name timeout) CRDWaitCancelled
        crdPollInterval (now + timeout) s1 = Some y" and "later (fst s1) (fst (snd y))"
      by (rule crds.outcome)
    then have "later (fst s) (fst (snd y))" using start by (blast intro: later_trans)
    with False now y show ?thesis by (cases y) (simp add: WaitForCRDEstablished_def)
  qed
qed

lemma setup_clients_returns: "returns later (setup_clients P server timeout inven)"
  unfolding setup_clients_def Let_def by (intro returns_bind returns_wrap wait_apiserver_returns returns_lift)

lemma setup_crds_returns: "returns later (setup_crds P dyn apiext root)"
  unfolding setup_crds_def Let_def act_wrap_machine act_wrap_cluster
  by (intro returns_bind returns_wrap wait_crds_returns returns_cluster returns_disk io_frame
      load_deduped_reads) (simp add: returns_def st_act_def)

lemma setup_webhooks_returns: "returns later (st_act (setup_webhooks P dyn cfg inven kept))"
proof (rule returns_act)
  fix s :: "'a site"
  obtain r w where "ReadFile (CertPath (CA inven)) (fst s) = (r, w)" by fastforce
  with same_disk_later [OF stays_run [OF ReadFile_reads this]]
  show "later (fst s) (fst (snd (setup_webhooks P dyn cfg inven kept s)))"
    by (cases r) (auto simp: setup_webhooks_def act_bind_def act_wrap_def on_machine_def on_cluster_def
        split: sum.split prod.split)
qed

lemmas phases_return =
  returns_bind_clock returns_pair returns_machine [OF setup_begin_any] returns_weaken [OF setup_clients_returns]
  returns_weaken [OF setup_crds_returns] returns_weaken [OF returns_cluster]
  returns_weaken [OF setup_webhooks_returns] returns_machine [OF setup_kubeconfigs_within]

lemma setup_always: "clock_mono (fst s) \<Longrightarrow> \<exists>r t. setup_cmd P ctx env s = Some (r, t)"
proof -
  have "returns same_clock (setup_cmd P ctx env)"
    unfolding setup_cmd_def Let_def by (intro phases_return)
  then show "clock_mono (fst s) \<Longrightarrow> \<exists>r t. setup_cmd P ctx env s = Some (r, t)"
    unfolding returns_def by blast
qed


end
