(* ===== verification/Halting.thy ===== *)
theory Halting
  imports PkiGenerate
begin

text \<open>
  Programs that are killed. A process that dies in the middle of its calls leaves the disk as a process leaves it
  whose calls all fail from there on, the call it dies in being cut off at any point. The machine is then
  \<open>halting\<close>: its calls succeed up to one that does not, and after that nothing happens any more. Shown is that
  \<open>Generate\<close> on a complete inventory writes nothing even then.
\<close>

section \<open>Machines that stop\<close>

definition halting :: "world \<Rightarrow> bool" where
  "halting w \<longleftrightarrow> (\<forall>k \<ge> w_calls w. w_faults w k = NoFault \<or> (\<forall>j > k. w_faults w j = Fail))"

definition dead :: "world \<Rightarrow> bool" where
  "dead w \<longleftrightarrow> (\<forall>k \<ge> w_calls w. w_faults w k = Fail)"

text \<open>The oracle of a process that is killed in its \<open>n\<close>-th call, with \<open>e\<close> for what that call still does.\<close>

definition cut :: "nat \<Rightarrow> fault \<Rightarrow> (nat \<Rightarrow> fault) \<Rightarrow> nat \<Rightarrow> fault" where
  "cut n e faults k = (if k < n then faults k else if k = n then e else Fail)"

lemma calm_halting: "calm w \<Longrightarrow> halting w"
  by (simp add: calm_def halting_def)

lemma cut_halting: "calm w \<Longrightarrow> halting (w\<lparr>w_faults := cut n e (w_faults w)\<rparr>)"
  by (auto simp: calm_def halting_def cut_def)

lemma dead_halting: "dead w \<Longrightarrow> halting w"
  by (auto simp: dead_def halting_def)

lemma halting_call: "next_fault w = (f, v) \<Longrightarrow> halting w \<Longrightarrow> w_files v = w_files w \<and> halting v \<and> (f = NoFault \<or> dead v)"
proof -
  assume "next_fault w = (f, v)" and h: "halting w"
  then have v: "f = w_faults w (w_calls w)" "v = w\<lparr>w_calls := Suc (w_calls w)\<rparr>" by (simp_all add: next_fault_def)
  have "w_faults w k = NoFault \<or> (\<forall>j > k. w_faults w j = Fail)" if "Suc (w_calls w) \<le> k" for k
    using h Suc_leD [OF that] unfolding halting_def by blast
  then have "halting v" by (simp add: v halting_def)
  moreover have "dead v" if "f \<noteq> NoFault" using h that by (auto simp: v halting_def dead_def)
  ultimately show "w_files v = w_files w \<and> halting v \<and> (f = NoFault \<or> dead v)" by (auto simp: v)
qed

lemma dead_call: "next_fault w = (f, v) \<Longrightarrow> dead w \<Longrightarrow> f = Fail \<and> w_files v = w_files w \<and> dead v"
  by (auto simp: next_fault_def dead_def)

section \<open>After death\<close>

definition frozen :: "world \<Rightarrow> world \<Rightarrow> bool" where
  "frozen w v \<longleftrightarrow> (dead w \<longrightarrow> dead v \<and> w_files v = w_files w)"

lemma frozen_return [io_frame]: "stays frozen (act_return x)" "stays frozen (act_throw e)" "stays frozen (act_lift r)"
  by (simp_all add: stays_def frozen_def)

lemma frozen_bind [io_frame]:
  "stays frozen m \<Longrightarrow> (\<And>x. stays frozen (f x)) \<Longrightarrow> stays frozen (act_bind m f)"
  by (rule stays_bind) (auto simp: frozen_def)

lemma frozen_iter [io_frame]: "(\<And>x. stays frozen (f x)) \<Longrightarrow> stays frozen (act_iter f xs)"
  by (induction xs) (auto intro: io_frame)

lemma frozen_calls [io_frame]:
  "stays frozen (Stat p)" "stays frozen (ReadFile p)" "stays frozen (WriteFile p d m)" "stays frozen (Chmod p m)"
  "stays frozen (MkdirAll p)"
  by (auto simp: stays_def frozen_def Stat_def ReadFile_def WriteFile_def Chmod_def MkdirAll_def
      dest: dead_call split: prod.split fault.split option.split node.split)

lemma frozen_state [io_frame]: "stays frozen (of_state draw)" "stays frozen (of_state Now)"
  by (auto simp: stays_def frozen_def of_state_def draw_def Now_def dead_def)

lemma frozen_keys [io_frame]: "stays frozen GenerateRSA" "stays frozen GenerateECDSA" "stays frozen randomSerial"
  unfolding GenerateRSA_def GenerateECDSA_def randomSerial_def Let_def by (intro io_frame)+

lemma frozen_certs [io_frame]:
  "stays frozen (newCACert lib key now)" "stays frozen (newSignedCert lib c now key caCert caKey)"
  "stays frozen (publicKeyCert lib pub key)"
  unfolding newCACert_def newSignedCert_def publicKeyCert_def Let_def by (intro io_frame)+

lemma frozen_reads [io_frame]: "stays frozen (fileExists p)" "stays frozen (readSingleCert lib p)" "stays frozen (readSigner lib p)"
proof -
  show "stays frozen (fileExists p)"
    using stays_run [OF frozen_calls(1) [of p]]
    by (simp add: stays_def fileExists_def split: prod.split sum.split node.split)
  show "stays frozen (readSingleCert lib p)" "stays frozen (readSigner lib p)"
    unfolding readSingleCert_def readSigner_def by (intro io_frame; simp add: io_frame split: option.split)+
qed

lemma frozen_writes [io_frame]: "stays frozen (writeCertFile lib p c)" "stays frozen (writeKeyFile lib p k)"
  unfolding writeCertFile_def writeKeyFile_def writeFile_def by (auto split: option.split intro!: io_frame)

text \<open>The checks answer no on an error.\<close>

definition caught :: "(world, 'e, bool) action \<Rightarrow> (world, 'f, bool) action" where
  "caught m w = (case m w of (Inl _, v) \<Rightarrow> (Inr False, v) | (Inr b, v) \<Rightarrow> (Inr b, v))"

lemma validPair_caught:
  "of_state (validPair lib c k) = caught (act_bind (readSingleCert lib c) (\<lambda>crt. act_bind (readSigner lib k) (\<lambda>key.
     act_return (publicKeysEqual (Public key) (PublicKey crt)))))"
  by (rule ext) (simp add: of_state_def validPair_def caught_def act_bind_def split: prod.split sum.split)

lemma validSAPair_caught:
  "of_state (validSAPair lib c k) = act_bind (of_state (validPair lib c k)) (\<lambda>b.
     if b then caught (act_bind (ReadFile k) (\<lambda>d. act_return (case ParsePrivateKeyPEM lib d of Some (RSAKey _) \<Rightarrow> True | _ \<Rightarrow> False)))
     else act_return False)"
  by (rule ext) (simp add: of_state_def validSAPair_def caught_def act_bind_def split: prod.split sum.split bool.split
      option.split private_key.split)

lemma frozen_caught: "stays frozen m \<Longrightarrow> stays frozen (caught m)"
  by (auto simp: stays_def caught_def split: prod.split sum.split) (metis snd_conv)+

lemma frozen_checks [io_frame]: "stays frozen (of_state (validPair lib c k))" "stays frozen (of_state (validSAPair lib c k))"
proof -
  show pair: "stays frozen (of_state (validPair lib c k))"
    unfolding validPair_caught by (intro frozen_caught io_frame)
  show "stays frozen (of_state (validSAPair lib c k))"
    unfolding validSAPair_caught by (intro io_frame pair) (simp add: frozen_caught io_frame)
qed

lemma frozen_ensure [io_frame]:
  "stays frozen (ensureLeaf lib caCert caKey now spec)" "stays frozen (ensureServiceAccountPair lib c k)"
  "stays frozen (loadCAPair lib c k)" "stays frozen (ensureCA lib dir now)"
proof -
  show "stays frozen (ensureLeaf lib caCert caKey now spec)" "stays frozen (ensureServiceAccountPair lib c k)"
    unfolding ensureLeaf_def ensureServiceAccountPair_def Let_def by (intro io_frame; simp add: io_frame)+
  show ca: "stays frozen (loadCAPair lib c k)" for c k
    unfolding loadCAPair_def by (intro io_frame; simp add: io_frame)
  show "stays frozen (ensureCA lib dir now)"
    unfolding ensureCA_def Let_def by (intro io_frame; simp add: io_frame ca)
qed

section \<open>Until death\<close>

text \<open>On the files \<open>fs\<close> the computation writes nothing, and gives a result in \<open>X\<close> unless it dies.\<close>

definition until_dead :: "files \<Rightarrow> (world, 'e, 'a) action \<Rightarrow> ('a \<Rightarrow> bool) \<Rightarrow> bool" where
  "until_dead fs m X \<longleftrightarrow> (\<forall>w. halting w \<and> w_files w = fs \<longrightarrow>
     (case m w of (r, v) \<Rightarrow> w_files v = fs \<and> halting v \<and> (dead v \<or> (\<exists>x. r = Inr x \<and> X x))))"

lemma until_deadD: "until_dead fs m X \<Longrightarrow> m w = (r, v) \<Longrightarrow> halting w \<Longrightarrow> w_files w = fs \<Longrightarrow>
    w_files v = fs \<and> halting v \<and> (dead v \<or> (\<exists>x. r = Inr x \<and> X x))"
  by (force simp: until_dead_def)

lemma until_dead_bind:
  assumes m: "until_dead fs m X" and f: "\<And>x. X x \<Longrightarrow> until_dead fs (f x) Y" and frozen: "\<And>x. stays frozen (f x)"
  shows "until_dead fs (act_bind m f) Y"
  unfolding until_dead_def
proof (intro allI impI)
  fix w assume w: "halting w \<and> w_files w = fs"
  obtain r v where run: "m w = (r, v)" by fastforce
  with until_deadD [OF m] w have v: "w_files v = fs" "halting v" "dead v \<or> (\<exists>x. r = Inr x \<and> X x)" by blast+
  show "case act_bind m f w of (r, v) \<Rightarrow> w_files v = fs \<and> halting v \<and> (dead v \<or> (\<exists>x. r = Inr x \<and> Y x))"
  proof (cases r)
    case (Inl e)
    with run v show ?thesis by (simp add: act_bind_def)
  next
    case (Inr x)
    obtain r' u where rest: "f x v = (r', u)" by fastforce
    then have frz: "frozen v u" by (rule stays_run [OF frozen])
    show ?thesis
    proof (cases "dead v")
      case True
      with frz v run Inr rest show ?thesis by (simp add: act_bind_def frozen_def dead_halting)
    next
      case False
      with v Inr have "X x" by simp
      from until_deadD [OF f [OF this] rest] v run Inr rest show ?thesis by (simp add: act_bind_def)
    qed
  qed
qed

lemma until_dead_return: "X x \<Longrightarrow> until_dead fs (act_return x) X"
  by (simp add: until_dead_def)

lemma until_dead_wrap: "until_dead fs m X \<Longrightarrow> until_dead fs (act_wrap c m) X"
  unfolding until_dead_def
proof (intro allI impI)
  fix w assume m: "\<forall>w. halting w \<and> w_files w = fs \<longrightarrow>
      (case m w of (r, v) \<Rightarrow> w_files v = fs \<and> halting v \<and> (dead v \<or> (\<exists>x. r = Inr x \<and> X x)))" and w: "halting w \<and> w_files w = fs"
  obtain r v where run: "m w = (r, v)" by fastforce
  with m w have "w_files v = fs \<and> halting v \<and> (dead v \<or> (\<exists>x. r = Inr x \<and> X x))" by fastforce
  with run show "case act_wrap c m w of (r, v) \<Rightarrow> w_files v = fs \<and> halting v \<and> (dead v \<or> (\<exists>x. r = Inr x \<and> X x))"
    by (auto simp: act_wrap_def wrap_err_def)
qed

lemma until_dead_iter:
  "(\<And>x. x \<in> set xs \<Longrightarrow> until_dead fs (f x) (\<lambda>_. True)) \<Longrightarrow> (\<And>x. stays frozen (f x)) \<Longrightarrow>
     until_dead fs (act_iter f xs) (\<lambda>_. True)"
  by (induction xs) (auto intro!: until_dead_return until_dead_bind frozen_iter)

lemma until_dead_caught:
  assumes m: "until_dead fs m (\<lambda>b. b)"
  shows "until_dead fs (caught m) (\<lambda>b. b)"
  unfolding until_dead_def
proof (intro allI impI)
  fix w assume w: "halting w \<and> w_files w = fs"
  obtain r v where run: "m w = (r, v)" by fastforce
  with until_deadD [OF m] w have "w_files v = fs \<and> halting v \<and> (dead v \<or> r = Inr True)" by fastforce
  with run show "case caught m w of (r, v) \<Rightarrow> w_files v = fs \<and> halting v \<and> (dead v \<or> (\<exists>b. r = Inr b \<and> b))"
    by (cases r) (auto simp: caught_def)
qed

lemma until_dead_now: "until_dead fs (of_state Now) (\<lambda>_. True)"
  by (simp add: until_dead_def of_state_def Now_def halting_def)

lemma until_dead_read: "fs p = Some (FileNode m d) \<Longrightarrow> until_dead fs (ReadFile p) (\<lambda>x. x = d)"
  by (auto simp: until_dead_def ReadFile_def dest: halting_call split: prod.split fault.split)

lemma until_dead_exists: "file_data fs p \<noteq> None \<Longrightarrow> until_dead fs (fileExists p) (\<lambda>b. b)"
  by (auto simp: until_dead_def fileExists_def Stat_def file_data_def dest: halting_call
      split: prod.split fault.split option.splits node.splits sum.split)

lemma until_dead_mkdir: "is_dir fs p \<Longrightarrow> until_dead fs (MkdirAll p) (\<lambda>_. True)"
  by (auto simp: until_dead_def MkdirAll_def dest: halting_call split: prod.split fault.split)

lemma until_dead_cert:
  assumes "cert_on_disk lib fs p = Some c"
  shows "until_dead fs (readSingleCert lib p) (\<lambda>x. x = c)"
proof -
  obtain d cs m where d: "fs p = Some (FileNode m d)" "ParseCertsPEM lib d = Some cs" "c = cs ! 0"
    using assms by (auto simp: cert_on_disk_def file_data_Some split: option.splits)
  show ?thesis
    unfolding readSingleCert_def
    by (rule until_dead_bind [OF until_dead_wrap [OF until_dead_read [of fs, OF d(1)]]])
      (auto simp: d until_dead_return io_frame split: option.split)
qed

lemma until_dead_key:
  assumes "key_on_disk lib fs p = Some k"
  shows "until_dead fs (readSigner lib p) (\<lambda>x. x = k)"
proof -
  obtain d m where d: "fs p = Some (FileNode m d)" "ParsePrivateKeyPEM lib d = Some k" "is_signer k"
    using assms by (auto simp: key_on_disk_def file_data_Some split: option.splits if_splits)
  show ?thesis
    unfolding readSigner_def
    by (rule until_dead_bind [OF until_dead_wrap [OF until_dead_read [of fs, OF d(1)]]])
      (auto simp: d until_dead_return io_frame split: option.split)
qed

lemma until_dead_pair:
  assumes "pair_on_disk lib fs c k"
  shows "until_dead fs (of_state (validPair lib c k)) (\<lambda>b. b)"
proof -
  obtain crt key where ck: "cert_on_disk lib fs c = Some crt" "key_on_disk lib fs k = Some key"
    and eq: "publicKeysEqual (Public key) (PublicKey crt)"
    using assms by (auto simp: pair_on_disk_def split: option.splits)
  show ?thesis
    unfolding validPair_caught
    by (intro until_dead_caught until_dead_bind [OF until_dead_cert [OF ck(1)]] until_dead_bind [OF until_dead_key [OF ck(2)]] io_frame)
      (simp add: until_dead_return eq)
qed

lemma until_dead_sa:
  assumes "sa_on_disk lib fs c k"
  shows "until_dead fs (of_state (validSAPair lib c k)) (\<lambda>b. b)"
proof -
  obtain n where pair: "pair_on_disk lib fs c k" and "key_on_disk lib fs k = Some (RSAKey n)"
    using assms by (auto simp: sa_on_disk_def split: option.splits private_key.splits)
  then obtain d m where d: "fs k = Some (FileNode m d)" "ParsePrivateKeyPEM lib d = Some (RSAKey n)"
    by (auto simp: key_on_disk_def file_data_Some split: option.splits if_splits)
  have "until_dead fs (caught (act_bind (ReadFile k) (\<lambda>d. act_return (case ParsePrivateKeyPEM lib d of Some (RSAKey _) \<Rightarrow> True | _ \<Rightarrow> False)))) (\<lambda>b. b)"
    by (intro until_dead_caught until_dead_bind [OF until_dead_read [of fs, OF d(1)]] io_frame) (simp add: d until_dead_return)
  then show ?thesis
    unfolding validSAPair_caught
    by (intro until_dead_bind [OF until_dead_pair [OF pair]]) (simp_all add: frozen_caught io_frame)
qed

section \<open>A complete inventory\<close>

lemma until_dead_authority:
  assumes auth: "authority_on_disk lib fs (PathJoin [dir, caCertName]) (PathJoin [dir, caKeyName]) = Some (crt, key)"
  shows "until_dead fs (ensureCA lib dir now) (\<lambda>_. True)"
proof -
  let ?c = "PathJoin [dir, caCertName]" and ?k = "PathJoin [dir, caKeyName]"
  have disk: "cert_on_disk lib fs ?c = Some crt" "key_on_disk lib fs ?k = Some key" "is_authority crt key"
    using auth by (auto simp: authority_on_disk_def split: option.splits if_splits)
  then have present: "file_data fs ?c \<noteq> None" "file_data fs ?k \<noteq> None"
    by (auto simp: cert_on_disk_def key_on_disk_def split: option.splits)
  have load: "until_dead fs (loadCAPair lib ?c ?k) (\<lambda>_. True)"
    unfolding loadCAPair_def
    by (rule until_dead_bind [OF until_dead_wrap [OF until_dead_cert [OF disk(1)]]],
        rule until_dead_bind [OF until_dead_wrap [OF until_dead_key [OF disk(2)]]])
      (use disk(3) in \<open>auto simp: is_authority_def until_dead_return intro!: io_frame\<close>)
  show ?thesis
    unfolding ensureCA_def Let_def
    by (rule until_dead_bind [OF until_dead_wrap [OF until_dead_exists [OF present(1)]]],
        rule until_dead_bind [OF until_dead_wrap [OF until_dead_exists [OF present(2)]]])
      (simp_all add: until_dead_wrap load io_frame)
qed

lemma Generate_until_dead:
  assumes full: "complete lib cfg fs" and host: "bindHost (PkiBindAddress cfg) = Inr host"
  shows "until_dead fs (Generate lib None cfg) (\<lambda>_. True)"
proof -
  obtain crt key where auth: "authority_on_disk lib fs (PathJoin [pki_dir cfg, caCertName]) (PathJoin [pki_dir cfg, caKeyName]) = Some (crt, key)"
    using full by (auto simp: complete_def ca_path_eqs)
  have leaf: "until_dead fs (ensureLeaf lib caCert caKey now spec) (\<lambda>_. True)" if "spec \<in> set (generated_leaves cfg host)" for caCert caKey now spec
  proof -
    have "pair_on_disk lib fs (CertPath (leaf_artifact spec)) (KeyPath (leaf_artifact spec))"
      using full leaf_pairs_names [of lib fs cfg host] that by (simp add: complete_def list_all_iff)
    then show ?thesis
      unfolding ensureLeaf_def Let_def
      by (rule until_dead_bind [OF until_dead_pair]) (simp_all add: until_dead_return io_frame)
  qed
  have sa: "until_dead fs (ensureServiceAccountPair lib (artifact_path cfg ''pki/sa.pub'') (artifact_path cfg ''pki/sa.key'')) (\<lambda>_. True)"
    unfolding ensureServiceAccountPair_def
    by (rule until_dead_bind [OF until_dead_sa]) (use full in \<open>simp_all add: complete_def until_dead_return io_frame\<close>)
  show ?thesis
    unfolding Generate_eq
    by (rule until_dead_bind [where X = "\<lambda>h. h = host"], simp add: host until_dead_def wrap_err_def)
      (auto intro!: until_dead_bind [OF until_dead_wrap [OF until_dead_mkdir]] until_dead_bind [OF until_dead_now]
        until_dead_bind [OF until_dead_authority [OF auth]] until_dead_bind [OF until_dead_iter [OF leaf]] until_dead_bind [OF sa]
        until_dead_return io_frame simp: full [unfolded complete_def] split: prod.split)
qed

end
