(* ===== verification/SetupFiles.thy ===== *)
theory SetupFiles
  imports Setup Halting
begin

text \<open>
  What setup does to the files of the pod: the loop over the kubeconfigs, what a successful run leaves,
  what a failed one leaves, and what a second run changes. The locale \<open>placing\<close> is the contract of
  an operation that puts a file in place; its interpretation is the step that writes one kubeconfig.
\<close>

section \<open>Placing files\<close>

text \<open>The regular file at a name.\<close>

definition file_at :: "files \<Rightarrow> string \<Rightarrow> (file_mode \<times> string) option" where
  "file_at fs p = (case fs p of Some (FileNode m d) \<Rightarrow> Some (m, d) | _ \<Rightarrow> None)"

lemma file_at_Some [simp]: "file_at fs p = Some (m, d) \<longleftrightarrow> fs p = Some (FileNode m d)"
  by (auto simp: file_at_def split: option.splits node.splits)

lemma file_at_within: "within S w v \<Longrightarrow> p \<notin> S \<Longrightarrow> file_at (w_files v) p = file_at (w_files w) p"
  by (auto simp: within_def only_writes_def file_at_def)

lemma file_at_same: "w_files v p = w_files w p \<Longrightarrow> file_at (w_files v) p = file_at (w_files w) p"
  by (simp add: file_at_def)

text \<open>
  The contract of an operation that puts a file in place: success leaves the content at the target,
  failure leaves what was there, and nothing but the operation's own names is touched, which are
  never another operation's target. A loop of such operations leaves every target old or new, and
  all of them new when it succeeds.
\<close>

locale placing =
  fixes target :: "'i \<Rightarrow> string option" and content :: "'i \<Rightarrow> string option"
    and names :: "'i \<Rightarrow> string set" and place :: "'i \<Rightarrow> (world, 'e, unit) action"
  assumes place_new: "place i w = (Inr (), v) \<Longrightarrow> target i = Some p \<Longrightarrow>
      \<exists>d. content i = Some d \<and> file_at (w_files v) p = Some (kubeconfigFileMode, d)"
    and place_old: "place i w = (Inl e, v) \<Longrightarrow> target i = Some p \<Longrightarrow> file_at (w_files v) p = file_at (w_files w) p"
    and place_frame: "stays (within (names i)) (place i)"
    and names_apart: "target i \<noteq> Some q \<Longrightarrow> target j = Some q \<Longrightarrow> q \<notin> names i"
begin

definition in_place :: "files \<Rightarrow> 'i \<Rightarrow> bool" where
  "in_place fs i \<longleftrightarrow> (\<forall>p. target i = Some p \<longrightarrow>
     (\<exists>d. content i = Some d \<and> file_at fs p = Some (kubeconfigFileMode, d)))"

definition untouched :: "files \<Rightarrow> files \<Rightarrow> 'i \<Rightarrow> bool" where
  "untouched fs gs i \<longleftrightarrow> (\<forall>p. target i = Some p \<longrightarrow> file_at gs p = file_at fs p)"

definition separate :: "'i list \<Rightarrow> bool" where
  "separate is \<longleftrightarrow> sorted_wrt (\<lambda>i j. target i = None \<or> target i \<noteq> target j) is"

lemma loop_within: "stays (within (\<Union> (names ` set is))) (act_iter place is)"
  by (intro stays_iter stays_mono [OF place_frame]) blast

lemma step_untouched:
  "place i w = (r, v) \<Longrightarrow> target i = None \<or> target i \<noteq> target j \<Longrightarrow> untouched (w_files w) (w_files v) j"
proof -
  assume run: "place i w = (r, v)" and apart: "target i = None \<or> target i \<noteq> target j"
  have "file_at (w_files v) p = file_at (w_files w) p" if "target j = Some p" for p
    by (rule file_at_within [OF stays_run [OF place_frame run] names_apart [OF _ that]]) (use apart that in auto)
  then show ?thesis by (simp add: untouched_def)
qed

lemma loop_placed:
  assumes "separate is" and "act_iter place is w = (r, v)"
  shows "\<forall>i \<in> set is. in_place (w_files v) i \<or> r \<noteq> Inr () \<and> untouched (w_files w) (w_files v) i"
  using assms
proof (induction "is" arbitrary: w)
  case Nil
  then show ?case by simp
next
  case (Cons j "is")
  have sep: "separate is" and apart: "\<And>i. i \<in> set is \<Longrightarrow> target j = None \<or> target j \<noteq> target i"
    using Cons.prems(1) by (auto simp: separate_def)
  obtain q u where head: "place j w = (q, u)" by fastforce
  have others: "untouched (w_files w) (w_files u) i" if "i \<in> set is" for i
    using step_untouched [OF head apart [OF that]] .
  show ?case
  proof (cases q)
    case (Inl e)
    with Cons.prems(2) head have fin: "r = Inl e" "v = u" by (auto simp: act_bind_def)
    have "untouched (w_files w) (w_files u) j"
      using place_old [OF head [unfolded Inl]] by (simp add: untouched_def)
    with others fin show ?thesis by auto
  next
    case (Inr x)
    with Cons.prems(2) head have rest: "act_iter place is u = (r, v)" by (simp add: act_bind_def)
    have "in_place (w_files u) j"
      using place_new [of j w u] head Inr by (simp add: in_place_def)
    moreover have "file_at (w_files v) p = file_at (w_files u) p" if "target j = Some p" for p
    proof (rule file_at_within [OF stays_run [OF loop_within rest]])
      show "p \<notin> \<Union> (names ` set is)"
        using apart names_apart [of _ p j] that by fastforce
    qed
    ultimately have "in_place (w_files v) j" by (simp add: in_place_def)
    moreover have "in_place (w_files v) i \<or> r \<noteq> Inr () \<and> untouched (w_files w) (w_files v) i" if "i \<in> set is" for i
      using Cons.IH [OF sep rest] others that by (auto simp: untouched_def)
    ultimately show ?thesis by auto
  qed
qed

end

section \<open>The kubeconfigs of setup\<close>

text \<open>The owner of a kubeconfig: a component, or nobody for the admin's.\<close>

type_synonym owner = "component_spec option"

definition owner_artifact :: "inventory \<Rightarrow> owner \<Rightarrow> artifact option" where
  "owner_artifact inven x = (case x of None \<Rightarrow> Some (Admin inven) | Some spec \<Rightarrow> ManagerArtifact (ID spec) inven)"

definition owner_path :: "config \<Rightarrow> owner \<Rightarrow> string option" where
  "owner_path cfg x =
     (case x of
        None \<Rightarrow> Some (AdminKubeconfigPath cfg)
      | Some spec \<Rightarrow> if ManagerCN spec = [] then None else KubeconfigPath cfg (ID spec))"

definition owner_content ::
  "(kubeconfig \<Rightarrow> string + string) \<Rightarrow> string \<Rightarrow> inventory \<Rightarrow> owner \<Rightarrow> string option" where
  "owner_content ser server inven x =
     (case owner_artifact inven x of
        None \<Rightarrow> None
      | Some a \<Rightarrow>
          (case ser (BuildKubeconfig server (CertPath (CA inven)) (CertPath a) (KeyPath a)) of
             Inl _ \<Rightarrow> None | Inr d \<Rightarrow> Some d))"

definition owner_step ::
  "(kubeconfig \<Rightarrow> string + string) \<Rightarrow> config \<Rightarrow> string \<Rightarrow> inventory \<Rightarrow> owner \<Rightarrow> (world, setup_error, unit) action" where
  "owner_step ser cfg server inven x =
     (case x of
        None \<Rightarrow> act_wrap WriteAdminKubeconfig
          (WriteKubeconfigFile ser (BuildKubeconfig server (CertPath (CA inven)) (CertPath (Admin inven))
             (KeyPath (Admin inven))) (AdminKubeconfigPath cfg))
      | Some spec \<Rightarrow> manager_kubeconfig ser cfg server inven spec)"

definition owners :: "owner list" where
  "owners = map Some Components @ [None]"

definition owner_names :: "config \<Rightarrow> owner \<Rightarrow> string set" where
  "owner_names cfg x = (case owner_path cfg x of None \<Rightarrow> {} | Some p \<Rightarrow> atomic_names p)"

lemma act_iter_append: "act_iter f (xs @ ys) = act_bind (act_iter f xs) (\<lambda>_. act_iter f ys)"
proof (rule ext)
  show "act_iter f (xs @ ys) w = act_bind (act_iter f xs) (\<lambda>_. act_iter f ys) w" for w
    by (induction xs arbitrary: w) (auto simp: act_bind_def split: prod.splits sum.splits)
qed

lemma act_iter_map: "act_iter f (map g xs) = act_iter (\<lambda>x. f (g x)) xs"
  by (induction xs) simp_all

lemma act_bind_return: "act_bind m act_return = m"
  by (rule ext) (auto simp: act_bind_def split: prod.splits sum.splits)

lemma setup_kubeconfigs_owners:
  "setup_kubeconfigs ser cfg server inven = act_iter (owner_step ser cfg server inven) owners"
  by (simp add: setup_kubeconfigs_def owners_def act_iter_append act_iter_map owner_step_def act_bind_return)

lemma owner_path_kubeconfig:
  "owner_path cfg x = Some p \<Longrightarrow> (\<exists>i. KubeconfigPath cfg i = Some p) \<or> p = AdminKubeconfigPath cfg"
  by (auto simp: owner_path_def split: option.splits if_splits)

lemma WriteKubeconfigFile_file:
  assumes "(\<exists>i. KubeconfigPath cfg i = Some p) \<or> p = AdminKubeconfigPath cfg"
    and "WriteKubeconfigFile ser kc p w = (r, v)"
  shows "case r of
      Inr _ \<Rightarrow> \<exists>d. ser kc = Inr d \<and> file_at (w_files v) p = Some (kubeconfigFileMode, d)
    | Inl _ \<Rightarrow> file_at (w_files v) p = file_at (w_files w) p"
proof (cases "ser kc")
  case (Inl e)
  with assms(2) show ?thesis by (auto simp: WriteKubeconfigFile_def act_bind_def)
next
  case (Inr d)
  obtain i where "KubeconfigPath cfg i = Some p \<or> p = AdminKubeconfigPath cfg" using assms(1) by blast
  from WriteKubeconfigFile_outcome [where serialize = ser, OF this Inr assms(2)] Inr show ?thesis
    by (cases r) (auto simp: kubeconfigFileMode_def intro: file_at_same)
qed

interpretation kubeconfigs: placing "owner_path cfg" "owner_content ser server inven" "owner_names cfg"
    "owner_step ser cfg server inven" for ser cfg server inven
proof
  fix i w v p assume run: "owner_step ser cfg server inven i w = (Inr (), v)" and p: "owner_path cfg i = Some p"
  note target = WriteKubeconfigFile_file [OF owner_path_kubeconfig [OF p], where ser = ser and w = w and v = v]
  show "\<exists>d. owner_content ser server inven i = Some d \<and> file_at (w_files v) p = Some (kubeconfigFileMode, d)"
  proof (cases i)
    case None
    with run p have "WriteKubeconfigFile ser (BuildKubeconfig server (CertPath (CA inven)) (CertPath (Admin inven))
        (KeyPath (Admin inven))) p w = (Inr (), v)"
      by (simp add: owner_step_def owner_path_def act_wrap_Inr_iff)
    from target [OF this] None show ?thesis by (auto simp: owner_content_def owner_artifact_def)
  next
    case (Some spec)
    with run p obtain a where "ManagerArtifact (ID spec) inven = Some a"
      "WriteKubeconfigFile ser (BuildKubeconfig server (CertPath (CA inven)) (CertPath a) (KeyPath a)) p w = (Inr (), v)"
      by (auto simp: owner_step_def owner_path_def manager_kubeconfig_def act_wrap_Inr_iff
          simp del: ManagerArtifact.simps split: if_splits option.splits)
    with target [OF this(2)] Some show ?thesis
      by (auto simp: owner_content_def owner_artifact_def simp del: ManagerArtifact.simps)
  qed
next
  fix i w e v p assume run: "owner_step ser cfg server inven i w = (Inl e, v)" and p: "owner_path cfg i = Some p"
  note target = WriteKubeconfigFile_file [OF owner_path_kubeconfig [OF p], where ser = ser and w = w and v = v]
  show "file_at (w_files v) p = file_at (w_files w) p"
  proof (cases i)
    case None
    with run p obtain d where "WriteKubeconfigFile ser (BuildKubeconfig server (CertPath (CA inven)) (CertPath (Admin inven))
        (KeyPath (Admin inven))) p w = (Inl d, v)"
      by (auto simp: owner_step_def owner_path_def act_wrap_def wrap_err_Inl_iff split: prod.splits)
    from target [OF this] show ?thesis by simp
  next
    case (Some spec)
    show ?thesis
    proof (cases "ManagerArtifact (ID spec) inven")
      case None
      with run p Some show ?thesis
        by (auto simp: owner_step_def owner_path_def manager_kubeconfig_def simp del: ManagerArtifact.simps split: if_splits)
    next
      case a: (Some a)
      with run p Some obtain d where
        "WriteKubeconfigFile ser (BuildKubeconfig server (CertPath (CA inven)) (CertPath a) (KeyPath a)) p w = (Inl d, v)"
        by (auto simp: owner_step_def owner_path_def manager_kubeconfig_def act_wrap_def wrap_err_Inl_iff
            simp del: ManagerArtifact.simps split: if_splits option.splits prod.splits)
      from target [OF this] show ?thesis by simp
    qed
  qed
next
  show "stays (within (owner_names cfg i)) (owner_step ser cfg server inven i)" for i
    by (auto simp: owner_step_def owner_names_def owner_path_def manager_kubeconfig_def simp del: ManagerArtifact.simps
        split: option.split intro!: io_frame WriteKubeconfigFile_within)
next
  fix i q j assume "owner_path cfg i \<noteq> Some q" "owner_path cfg j = Some q"
  then show "q \<notin> owner_names cfg i"
    using owner_path_kubeconfig [of cfg j q] owner_path_kubeconfig [of cfg i] kubeconfig_names_apart [of cfg _ _ _ q]
    by (cases "owner_path cfg i") (auto simp: owner_names_def)
qed

lemma sorted_wrt_distinct:
  "distinct xs \<Longrightarrow> (\<And>x y. x \<in> set xs \<Longrightarrow> y \<in> set xs \<Longrightarrow> x \<noteq> y \<Longrightarrow> R x y) \<Longrightarrow> sorted_wrt R xs"
  by (induction xs) auto

lemma owners_separate: "kubeconfigs.separate cfg owners"
  unfolding kubeconfigs.separate_def
proof (rule sorted_wrt_distinct)
  have "distinct Components" using table.ids_distinct by (simp add: distinct_map)
  then show "distinct owners" by (simp add: owners_def distinct_map inj_on_def image_iff)
next
  fix x y assume xy: "x \<in> set owners" "y \<in> set owners" "x \<noteq> y"
  show "owner_path cfg x = None \<or> owner_path cfg x \<noteq> owner_path cfg y"
  proof (cases "owner_path cfg x")
    case None
    then show ?thesis by simp
  next
    case px: (Some p)
    have "owner_path cfg y \<noteq> Some p"
    proof
      assume py: "owner_path cfg y = Some p"
      show False
      proof (cases "\<exists>s t. x = Some s \<and> y = Some t")
        case True
        then obtain s t where st: "x = Some s" "y = Some t" by blast
        with px py have "KubeconfigPath cfg (ID s) = Some p" "KubeconfigPath cfg (ID t) = Some p"
          by (auto simp: owner_path_def split: if_splits)
        from KubeconfigPath_unique [OF this] have "ID s = ID t" by simp
        moreover from xy st have "s \<in> set Components" "t \<in> set Components" "s \<noteq> t" by (auto simp: owners_def)
        ultimately show False using table.ids_distinct by (auto simp: distinct_map dest: inj_onD)
      next
        case False
        with xy(3) px py KubeconfigPath_unique [of cfg] show False
          by (cases x; cases y) (auto simp: owner_path_def split: if_splits)
      qed
    qed
    with px show ?thesis by simp
  qed
qed

section \<open>The phases of a run\<close>

lemma st_bind_Inr: "st_bind m f s = Some (Inr y, t) \<longleftrightarrow> (\<exists>x u. m s = Some (Inr x, u) \<and> f x u = Some (Inr y, t))"
  by (auto simp: st_bind_def split: option.splits sum.splits)

lemma st_wrap_Inr: "st_wrap c m s = Some (Inr y, t) \<longleftrightarrow> m s = Some (Inr y, t)"
  by (auto simp: st_wrap_def split: option.splits prod.splits)

lemma st_act_Some: "st_act m s = Some y \<longleftrightarrow> m s = y"
  by (simp add: st_act_def)

lemma on_machine_iff: "on_machine m s = (r, t) \<longleftrightarrow> m (fst s) = (r, fst t) \<and> snd t = snd s"
  by (cases t) (auto simp: on_machine_def split: prod.splits)

lemma on_cluster_iff: "on_cluster m s = (r, t) \<longleftrightarrow> m (snd s) = (r, snd t) \<and> fst t = fst s"
  by (cases t) (auto simp: on_cluster_def split: prod.splits)

text \<open>The intermediate states of a run of setup that succeeded.\<close>

lemma setup_run:
  assumes run: "setup_cmd P ctx env s = Some (Inr (), t)" and mono: "clock_mono (fst s)"
  obtains cfg root timeout inven w1 dyn apiext kept s2 s3 c4 s5 where
    "setup_begin P ctx env (fst s) = (Inr (cfg, root, timeout, inven), w1)"
    "setup_clients P (APIServerURL (BindAddress cfg)) timeout inven (w1, snd s) = Some (Inr (dyn, apiext), s2)"
    "setup_crds P dyn apiext root s2 = Some (Inr kept, s3)"
    "setup_rbac P dyn kept (snd s3) = (Inr (), c4)"
    "setup_webhooks P dyn cfg inven kept (fst s3, c4) = (Inr (), s5)"
    "setup_kubeconfigs (SerializeKC P) cfg (APIServerURL (BindAddress cfg)) inven (fst s5) = (Inr (), fst t)"
    "snd t = snd s5" "later w1 (fst s2)" "later (fst s2) (fst s3)" "later (fst s3) (fst s5)" "same_clock (fst s) w1"
proof -
  obtain cfg root timeout inven w1 dyn apiext kept s2 s3 s4 s5 where
    a: "setup_begin P ctx env (fst s) = (Inr (cfg, root, timeout, inven), w1)" and
    b: "setup_clients P (APIServerURL (BindAddress cfg)) timeout inven (w1, snd s) = Some (Inr (dyn, apiext), s2)" and
    c: "setup_crds P dyn apiext root s2 = Some (Inr kept, s3)" and
    d: "setup_rbac P dyn kept (snd s3) = (Inr (), snd s4)" "fst s4 = fst s3" and
    e: "setup_webhooks P dyn cfg inven kept s4 = (Inr (), s5)" and
    f: "setup_kubeconfigs (SerializeKC P) cfg (APIServerURL (BindAddress cfg)) inven (fst s5) = (Inr (), fst t)"
    "snd t = snd s5"
    using run unfolding setup_cmd_def
    by (auto simp: Let_def st_bind_Inr st_act_Some on_machine_iff on_cluster_iff)
  have clk: "same_clock (fst s) w1"
    using stays_run [OF setup_begin_any a] by (simp add: within_def same_env_def same_clock_def)
  then have m1: "clock_mono w1" using mono by (simp add: clock_mono_def same_clock_def)
  have l2: "later w1 (fst s2)" using returns_run [OF setup_clients_returns b] m1 by simp
  have m2: "clock_mono (fst s2)" using m1 l2 by (rule later_mono)
  have l3: "later (fst s2) (fst s3)" using returns_run [OF setup_crds_returns c m2] .
  have "clock_mono (fst s4)" using later_mono [OF m2 l3] d(2) by simp
  then have "later (fst s4) (fst s5)"
    using returns_run [OF setup_webhooks_returns, of P dyn cfg inven kept s4 "Inr ()" s5] e by (simp add: st_act_def)
  with d(2) have l5: "later (fst s3) (fst s5)" by simp
  have e': "setup_webhooks P dyn cfg inven kept (fst s3, snd s4) = (Inr (), s5)" using e d(2) by (metis prod.collapse)
  from a b c d(1) e' f l2 l3 l5 clk show thesis by (rule that)
qed

lemma setup_begin_run:
  assumes "setup_begin P ctx env w = (Inr (cfg, root, timeout, inven), w1)"
  shows "Config.Load env = Inr cfg" "ManifestsDir env = Inr root" "APIServerTimeout (pf_fraction P) env = Inr timeout"
    "Generate (pf_pem P) ctx (pki_of cfg) w = (Inr inven, w1)"
  using assms by (auto simp: setup_begin_def act_simps wrap_err_Inr_iff)

section \<open>What a successful run leaves\<close>

lemma names_outside: "list_all (\<lambda>n. \<not> prefix ''kubeconfigs'' n) all_names"
  by (simp add: all_names_def ca_names_def leaf_names_def sa_names_def)

lemma owner_names_below:
  assumes "q \<in> owner_names cfg x"
  shows "\<exists>e. q = dir_prefix (StateDir cfg) @ ''kubeconfigs'' @ slash # e"
proof -
  from assms obtain p where p: "owner_path cfg x = Some p" and q: "q \<in> atomic_names p"
    by (auto simp: owner_names_def split: option.splits)
  from owner_path_kubeconfig [OF p] kubeconfig_path_shape [of cfg _ p] obtain e
    where pe: "p = dir_prefix (StateDir cfg) @ ''kubeconfigs'' @ slash # e" and e: "plain_elem e" by blast
  have pr: "plain_rel ''kubeconfigs''" by (simp add: plain_rel_def plain_elem_def)
  have dir: "Dir p = dir_prefix (StateDir cfg) @ ''kubeconfigs''" unfolding pe by (rule Dir_plain2 [OF pr e])
  have "slash \<notin> set (Itoa (int n))" for n
    using Itoa_digits [of "int n"] by (auto simp: list_all_iff is_digit_def byte_val_def)
  then have "plain_elem (''.capishim-'' @ Itoa (int n) @ ''.tmp'')" for n by (auto simp: plain_elem_def)
  then have temp: "temp_name (Dir p) n =
      dir_prefix (StateDir cfg) @ ''kubeconfigs'' @ slash # ''.capishim-'' @ Itoa (int n) @ ''.tmp''" for n
    unfolding dir by (simp add: temp_name_def PathJoin_plain plain_elem_rel dir_prefix_plain pr)
  from q have "q = p \<or> (\<exists>n. q = temp_name (Dir p) n)" by (auto simp: atomic_names_def)
  then show ?thesis using pe temp by metis
qed

lemma owner_names_shape: "q \<in> owner_names cfg x \<Longrightarrow> \<exists>e. q = dir_prefix (StateDir cfg) @ ''kubeconfigs'' @ e"
  using owner_names_below by blast

lemma artifact_apart:
  assumes "n \<in> set all_names"
  shows "artifact_path (pki_of cfg) n \<notin> owner_names cfg x"
proof
  assume "artifact_path (pki_of cfg) n \<in> owner_names cfg x"
  then obtain e where "artifact_path (pki_of cfg) n = dir_prefix (StateDir cfg) @ ''kubeconfigs'' @ e"
    using owner_names_shape by blast
  then have "prefix ''kubeconfigs'' n" by (simp add: artifact_path_def pki_of_def)
  with names_outside assms show False by (simp add: list_all_iff)
qed

lemma kubeconfig_not_artifact:
  assumes "owner_path cfg x = Some p"
  shows "p \<notin> ca_paths_of (pki_of cfg) \<union> issued_paths (pki_of cfg)"
proof -
  have "p \<in> owner_names cfg x" using assms by (simp add: owner_names_def atomic_names_def)
  with artifact_apart show ?thesis unfolding all_paths by blast
qed

lemma leaf_names_all: "n \<in> set leaf_names \<Longrightarrow> fst n \<in> set all_names \<and> snd n \<in> set all_names"
  by (simp add: all_names_def)

definition client_names :: "string list" where
  "client_names = [''core-manager'', ''cabpk-manager'', ''kcp-manager'', ''capd-manager'', ''hypervisor-manager'', ''admin'']"

lemma client_names_leaves:
  "list_all (\<lambda>c. (''pki/'' @ c @ ''.crt'', ''pki/'' @ c @ ''.key'') \<in> set leaf_names \<and> plain_elem (c @ ''.crt'') \<and>
     plain_elem (c @ ''.key'')) client_names"
  by (simp add: client_names_def leaf_names_def plain_elem_def)

lemma owner_artifacts:
  assumes "x \<in> set owners" and "owner_path cfg x \<noteq> None"
  shows "\<exists>a n. owner_artifact (generated_inventory (pki_of cfg)) x = Some a \<and> n \<in> set leaf_names \<and>
    CertPath a = artifact_path (pki_of cfg) (fst n) \<and> KeyPath a = artifact_path (pki_of cfg) (snd n)"
proof -
  have path: "PathJoin [pki_dir (pki_of cfg), f] = artifact_path (pki_of cfg) (''pki/'' @ f)" if "plain_rel f" for f
    using that by (simp add: pki_dir_def artifact_path_def pki_path)
  have plain: "plain_rel (c @ e)" if "plain_elem (c @ e)" for c e using that by (rule plain_elem_rel)
  let ?i = "generated_inventory (pki_of cfg)"
  have named: "\<exists>n. n \<in> set leaf_names \<and> CertPath a = artifact_path (pki_of cfg) (fst n) \<and>
      KeyPath a = artifact_path (pki_of cfg) (snd n)"
    if "a \<in> {CoreManager ?i, CABPKManager ?i, KCPManager ?i, CAPDManager ?i, HypervisorManager ?i, Admin ?i}" for a
  proof -
    have eqs: "a = inventory_artifact (pki_dir (pki_of cfg)) c (c @ ''.crt'') (c @ ''.key'') \<Longrightarrow>
        plain_elem (c @ ''.crt'') \<Longrightarrow> plain_elem (c @ ''.key'') \<Longrightarrow>
        CertPath a = artifact_path (pki_of cfg) (''pki/'' @ c @ ''.crt'') \<and>
        KeyPath a = artifact_path (pki_of cfg) (''pki/'' @ c @ ''.key'')" for c
      by (simp add: inventory_artifact_def path plain)
    have "\<exists>c \<in> set client_names. a = inventory_artifact (pki_dir (pki_of cfg)) c (c @ ''.crt'') (c @ ''.key'')"
      using that by (simp add: generated_inventory_def newInventory_def client_names_def)
    then obtain c where c: "a = inventory_artifact (pki_dir (pki_of cfg)) c (c @ ''.crt'') (c @ ''.key'')"
      "c \<in> set client_names" by blast
    with client_names_leaves have "(''pki/'' @ c @ ''.crt'', ''pki/'' @ c @ ''.key'') \<in> set leaf_names"
      "plain_elem (c @ ''.crt'')" "plain_elem (c @ ''.key'')" by (simp_all add: list_all_iff)
    then show ?thesis using eqs [OF c(1)] by (intro exI [of _ "(''pki/'' @ c @ ''.crt'', ''pki/'' @ c @ ''.key'')"]) simp
  qed
  have "\<exists>a. owner_artifact ?i x = Some a \<and>
      a \<in> {CoreManager ?i, CABPKManager ?i, KCPManager ?i, CAPDManager ?i, HypervisorManager ?i, Admin ?i}"
  proof (cases x)
    case None
    then show ?thesis by (simp add: owner_artifact_def)
  next
    case (Some spec)
    with assms have "spec \<in> set (filter is_manager Components)"
      by (auto simp: owners_def owner_path_def is_manager_def split: if_splits)
    then have "ID spec \<in> {ComponentCore, ComponentCABPK, ComponentKCP, ComponentCAPD, ComponentHypervisor}"
      by (simp add: Components_def plain_component_def is_manager_def) auto
    with Some show ?thesis by (auto simp: owner_artifact_def component_ids)
  qed
  with named show ?thesis by blast
qed

lemma within_file_data: "within S w v \<Longrightarrow> p \<notin> S \<Longrightarrow> file_data (w_files v) p = file_data (w_files w) p"
  by (auto simp: within_def intro: only_writes_data)

lemma pair_data:
  "file_data gs c = file_data fs c \<Longrightarrow> file_data gs k = file_data fs k \<Longrightarrow>
     pair_on_disk lib gs c k = pair_on_disk lib fs c k"
  by (simp add: pair_on_disk_def cert_on_disk_def key_on_disk_def)

text \<open>A kubeconfig that works: serialised, readable by its owner only, and its certificate pair is there.\<close>

definition kubeconfig_ready ::
  "pem \<Rightarrow> (kubeconfig \<Rightarrow> string + string) \<Rightarrow> config \<Rightarrow> files \<Rightarrow> artifact \<Rightarrow> string \<Rightarrow> bool" where
  "kubeconfig_ready lib ser cfg fs a path \<longleftrightarrow>
     (\<exists>data. ser (BuildKubeconfig (APIServerURL (BindAddress cfg)) (CertPath (CA (generated_inventory (pki_of cfg))))
          (CertPath a) (KeyPath a)) = Inr data \<and>
        fs path = Some (FileNode 0x180 data)) \<and>
     pair_on_disk lib fs (CertPath a) (KeyPath a)"

lemma setup_certificates:
  assumes lib: "pem_ok (pf_pem P)" and run: "setup_cmd P ctx env s = Some (Inr (), t)" and mono: "clock_mono (fst s)"
  obtains cfg w where "Config.Load env = Inr cfg" "complete (pf_pem P) (pki_of cfg) (w_files w)"
    "setup_kubeconfigs (SerializeKC P) cfg (APIServerURL (BindAddress cfg)) (generated_inventory (pki_of cfg)) w =
       (Inr (), fst t)"
proof (rule setup_run [OF run mono])
  fix cfg root timeout inven w1 dyn apiext kept s2 s3 c4 s5
  assume a: "setup_begin P ctx env (fst s) = (Inr (cfg, root, timeout, inven), w1)"
    and f: "setup_kubeconfigs (SerializeKC P) cfg (APIServerURL (BindAddress cfg)) inven (fst s5) = (Inr (), fst t)"
    and l: "later w1 (fst s2)" "later (fst s2) (fst s3)" "later (fst s3) (fst s5)"
  note first = setup_begin_run [OF a]
  have "ctx = None" using first(4) by (cases ctx) (auto simp: Generate_def)
  with first have gen: "Generate (pf_pem P) None (pki_of cfg) (fst s) = (Inr inven, w1)" by simp
  have "complete (pf_pem P) (pki_of cfg) (w_files w1)" using lib gen by (rule Generate_complete)
  moreover have "w_files (fst s5) = w_files w1" using l by (simp add: later_def)
  moreover have "inven = generated_inventory (pki_of cfg)" using Generate_outcome [OF lib gen] by blast
  ultimately show thesis using first(1) f by (intro that [of cfg "fst s5"]) simp_all
qed

lemma setup_owner_ready:
  assumes lib: "pem_ok (pf_pem P)" and full: "complete (pf_pem P) (pki_of cfg) (w_files w)"
    and run: "setup_kubeconfigs (SerializeKC P) cfg (APIServerURL (BindAddress cfg)) (generated_inventory (pki_of cfg)) w = (Inr (), v)"
    and x: "x \<in> set owners" "owner_path cfg x = Some p"
  shows "\<exists>a. owner_artifact (generated_inventory (pki_of cfg)) x = Some a \<and>
    kubeconfig_ready (pf_pem P) (SerializeKC P) cfg (w_files v) a p"
proof -
  note loop = run [unfolded setup_kubeconfigs_owners]
  have fr: "within (\<Union> (owner_names cfg ` set owners)) w v"
    by (rule stays_run [OF kubeconfigs.loop_within loop])
  obtain a n where a: "owner_artifact (generated_inventory (pki_of cfg)) x = Some a" and n: "n \<in> set leaf_names"
    and paths: "CertPath a = artifact_path (pki_of cfg) (fst n)" "KeyPath a = artifact_path (pki_of cfg) (snd n)"
    using owner_artifacts [OF x(1)] x(2) by blast
  have "pair_on_disk (pf_pem P) (w_files w) (CertPath a) (KeyPath a)"
    using full n paths by (auto simp: complete_def list_all_iff)
  moreover have "file_data (w_files v) q = file_data (w_files w) q" if q: "q \<in> {CertPath a, KeyPath a}" for q
  proof (rule within_file_data [OF fr])
    obtain m where "q = artifact_path (pki_of cfg) m" "m \<in> set all_names"
      using q paths leaf_names_all [OF n] by blast
    with artifact_apart show "q \<notin> \<Union> (owner_names cfg ` set owners)" by blast
  qed
  ultimately have "pair_on_disk (pf_pem P) (w_files v) (CertPath a) (KeyPath a)"
    using pair_data [of "w_files v" "CertPath a" "w_files w" "KeyPath a" "pf_pem P"] by simp
  moreover have "kubeconfigs.in_place cfg (SerializeKC P) (APIServerURL (BindAddress cfg)) (generated_inventory (pki_of cfg)) (w_files v) x"
    using kubeconfigs.loop_placed [OF owners_separate loop] x(1) by auto
  then obtain d where "owner_content (SerializeKC P) (APIServerURL (BindAddress cfg)) (generated_inventory (pki_of cfg)) x = Some d"
    and "w_files v p = Some (FileNode 0x180 d)"
    using x(2) by (auto simp: kubeconfigs.in_place_def kubeconfigFileMode_def)
  moreover from this(1) a have "SerializeKC P (BuildKubeconfig (APIServerURL (BindAddress cfg))
      (CertPath (CA (generated_inventory (pki_of cfg)))) (CertPath a) (KeyPath a)) = Inr d"
    by (simp add: owner_content_def split: sum.splits)
  ultimately show ?thesis using a by (simp add: kubeconfig_ready_def)
qed

lemma setup_leaves_ready:
  assumes lib: "pem_ok (pf_pem P)" and mono: "clock_mono (fst s)"
    and run: "setup_cmd P ctx env s = Some (Inr (), t)"
  shows "\<exists>cfg. Config.Load env = Inr cfg \<and>
    (\<forall>spec \<in> set (filter is_manager Components). \<exists>a p.
       ManagerArtifact (ID spec) (generated_inventory (pki_of cfg)) = Some a \<and> KubeconfigPath cfg (ID spec) = Some p \<and>
       kubeconfig_ready (pf_pem P) (SerializeKC P) cfg (w_files (fst t)) a p) \<and>
    kubeconfig_ready (pf_pem P) (SerializeKC P) cfg (w_files (fst t)) (Admin (generated_inventory (pki_of cfg)))
      (AdminKubeconfigPath cfg)"
proof -
  obtain cfg w where cfg: "Config.Load env = Inr cfg" and full: "complete (pf_pem P) (pki_of cfg) (w_files w)"
    and kc: "setup_kubeconfigs (SerializeKC P) cfg (APIServerURL (BindAddress cfg)) (generated_inventory (pki_of cfg)) w =
       (Inr (), fst t)"
    by (rule setup_certificates [OF lib run mono])
  note owner = setup_owner_ready [OF lib full kc]
  have "\<exists>a p. ManagerArtifact (ID spec) (generated_inventory (pki_of cfg)) = Some a \<and> KubeconfigPath cfg (ID spec) = Some p \<and>
       kubeconfig_ready (pf_pem P) (SerializeKC P) cfg (w_files (fst t)) a p"
    if "spec \<in> set (filter is_manager Components)" for spec
  proof -
    from that have spec: "spec \<in> set Components" "is_manager spec" by simp_all
    then have "KubeconfigPath cfg (ID spec) = Some (dir_prefix (StateDir cfg) @ Kubeconfig spec)"
      unfolding KubeconfigPath_eq by blast
    moreover from this have "owner_path cfg (Some spec) = Some (dir_prefix (StateDir cfg) @ Kubeconfig spec)"
      using spec by (simp add: owner_path_def is_manager_def)
    moreover have "Some spec \<in> set owners" using spec by (simp add: owners_def)
    ultimately show ?thesis using owner [of "Some spec"] by (simp add: owner_artifact_def del: ManagerArtifact.simps)
  qed
  moreover have "None \<in> set owners" by (simp add: owners_def)
  then have "kubeconfig_ready (pf_pem P) (SerializeKC P) cfg (w_files (fst t)) (Admin (generated_inventory (pki_of cfg)))
      (AdminKubeconfigPath cfg)"
    using owner [of None "AdminKubeconfigPath cfg"] by (simp add: owner_path_def owner_artifact_def)
  ultimately show ?thesis using cfg by blast
qed

text \<open>
  C1. What setup leaves when it succeeds. The configuration loaded; for each of the five managers
  and for the admin there is a kubeconfig at the path the configuration names, with mode 0600, which
  is the serialisation of the loopback server with the configured port, the pod CA and the owner's
  own certificate; and that certificate and its key are on disk and belong together.
\<close>

theorem setup_ready:
  assumes lib: "pem_ok (pf_pem P)" and mono: "clock_mono (fst s)"
    and run: "setup_cmd P ctx env s = Some (Inr (), t)"
  shows "\<exists>cfg. Config.Load env = Inr cfg \<and>
    (\<forall>spec \<in> set (filter is_manager Components). \<exists>a p.
       ManagerArtifact (ID spec) (generated_inventory (pki_of cfg)) = Some a \<and> KubeconfigPath cfg (ID spec) = Some p \<and>
       kubeconfig_ready (pf_pem P) (SerializeKC P) cfg (w_files (fst t)) a p) \<and>
    kubeconfig_ready (pf_pem P) (SerializeKC P) cfg (w_files (fst t)) (Admin (generated_inventory (pki_of cfg)))
      (AdminKubeconfigPath cfg)"
  using assms by (rule setup_leaves_ready)

section \<open>Which errors, and what a failed run leaves\<close>

text \<open>\<open>errors Q m\<close>: every error of \<open>m\<close> satisfies \<open>Q\<close>.\<close>

named_theorems error_rules "which errors a computation can have"

definition errors :: "('e \<Rightarrow> bool) \<Rightarrow> ('w, 'e, 'a) action \<Rightarrow> bool" where
  "errors Q m \<longleftrightarrow> (\<forall>w e v. m w = (Inl e, v) \<longrightarrow> Q e)"

definition st_errors :: "('e \<Rightarrow> bool) \<Rightarrow> ('c, 'e, 'a) step \<Rightarrow> bool" where
  "st_errors Q m \<longleftrightarrow> (\<forall>s e t. m s = Some (Inl e, t) \<longrightarrow> Q e)"

lemma errorsD: "errors Q m \<Longrightarrow> m w = (Inl e, v) \<Longrightarrow> Q e"
  by (auto simp: errors_def)

lemma st_errorsD: "st_errors Q n \<Longrightarrow> n s = Some (Inl e, t) \<Longrightarrow> Q e"
  unfolding st_errors_def by blast

lemma errors_rules [error_rules]:
  "errors Q m \<Longrightarrow> (\<And>x. errors Q (f x)) \<Longrightarrow> errors Q (act_bind m f)"
  "errors (\<lambda>d. Q (c d)) m2 \<Longrightarrow> errors Q (act_wrap c m2)"
  "(\<And>e. r3 = Inl e \<Longrightarrow> Q e) \<Longrightarrow> errors Q (act_lift r3)"
  "errors Q (act_return x4)"
  "Q e \<Longrightarrow> errors Q (act_throw e)"
  "errors Q m6 \<Longrightarrow> errors Q (on_machine m6)"
  "errors Q m7 \<Longrightarrow> errors Q (on_cluster m7)"
proof -
  show "errors Q m \<Longrightarrow> (\<And>x. errors Q (f x)) \<Longrightarrow> errors Q (act_bind m f)"
    unfolding errors_def act_bind_Inl_iff by blast
qed (fastforce simp: errors_def act_wrap_def wrap_err_Inl_iff on_machine_iff on_cluster_iff split: prod.splits)+

lemma errors_any: "(\<And>e. Q e) \<Longrightarrow> errors Q m" "(\<And>e. Q e) \<Longrightarrow> st_errors Q n"
  by (simp_all add: errors_def st_errors_def)

lemma errors_True [simp]: "errors (\<lambda>_. True) m"
  by (simp add: errors_def)

lemma errors_iter [error_rules]:
  "(\<And>x. x \<in> set xs \<Longrightarrow> errors Q (f x)) \<Longrightarrow> errors Q (act_iter f xs)"
  by (induction xs) (auto intro: errors_rules)

lemma st_errors_rules [error_rules]:
  "st_errors Q m \<Longrightarrow> (\<And>x. st_errors Q (f x)) \<Longrightarrow> st_errors Q (st_bind m f)"
  "st_errors (\<lambda>d. Q (c d)) m2 \<Longrightarrow> st_errors Q (st_wrap c m2)"
  "errors Q m3 \<Longrightarrow> st_errors Q (st_act m3)"
  unfolding st_errors_def errors_def
  by (fastforce simp: st_bind_def st_wrap_def st_act_def wrap_err_Inl_iff split: option.splits sum.splits)+

fun last_phase :: "setup_error \<Rightarrow> bool" where
  "last_phase (NoManagerCertificate _) = True"
| "last_phase (NoKubeconfigPath _) = True"
| "last_phase (WriteManagerKubeconfig _ _) = True"
| "last_phase (WriteAdminKubeconfig _) = True"
| "last_phase _ = False"

lemma webhook_batch_errors: "webhook_batch P cfg ca kept = Inl e \<Longrightarrow> \<not> last_phase e"
  unfolding webhook_batch_def bind_result_def wrap_err_def
  by (auto split: sum.splits prod.splits option.splits)

lemma early_errors:
  "errors (\<lambda>e. \<not> last_phase e) (setup_begin P ctx env)"
  "st_errors (\<lambda>e. \<not> last_phase e) (setup_clients P server timeout inven)"
  "st_errors (\<lambda>e. \<not> last_phase e) (setup_crds P dyn apiext root)"
  "errors (\<lambda>e. \<not> last_phase e) (setup_rbac P dyn kept)"
  "errors (\<lambda>e. \<not> last_phase e) (setup_webhooks P dyn cfg inven kept)"
  unfolding setup_begin_def setup_clients_def setup_crds_def setup_rbac_def setup_webhooks_def Let_def
  by (rule error_rules | (rule errors_any, simp)
      | (erule webhook_batch_errors) | (auto simp: wrap_err_Inl_iff bind_result_Inl_iff; fail))+

lemma last_errors: "errors last_phase (setup_kubeconfigs ser cfg server inven)"
  unfolding setup_kubeconfigs_def manager_kubeconfig_def
  by (auto simp del: ManagerArtifact.simps split: option.split intro!: error_rules intro: errors_any)

lemma st_bind_cases:
  "st_bind m f s = Some (r, t) \<longleftrightarrow>
     (\<exists>e. m s = Some (Inl e, t) \<and> r = Inl e) \<or> (\<exists>x u. m s = Some (Inr x, u) \<and> f x u = Some (r, t))"
  by (auto simp: st_bind_def split: option.splits sum.splits)

text \<open>A run ends before the last phase, or reaches it with the certificates in place.\<close>

text \<open>The phases after the definitions are established: an error of one of them, or the kubeconfigs.\<close>

lemma setup_tail_cases:
  assumes run: "st_bind (st_act (on_cluster (setup_rbac P dyn kept))) (\<lambda>_. st_bind (st_act (setup_webhooks P dyn cfg inven kept)) (\<lambda>_.
      st_act (on_machine (setup_kubeconfigs ser cfg server inven)))) s = Some (r, t)" and mono: "clock_mono (fst s)"
  obtains (failed) e where "r = Inl e" "\<not> last_phase e" "later (fst s) (fst t)"
  | (written) w5 where "later (fst s) w5" "setup_kubeconfigs ser cfg server inven w5 = (r, fst t)"
proof -
  obtain q4 s4 where d: "on_cluster (setup_rbac P dyn kept) s = (q4, s4)"
    by (cases "on_cluster (setup_rbac P dyn kept) s") blast
  then have l4: "later (fst s) (fst s4)" by (simp add: on_cluster_iff)
  obtain q5 s5 where e: "setup_webhooks P dyn cfg inven kept s4 = (q5, s5)"
    by (cases "setup_webhooks P dyn cfg inven kept s4") blast
  have l5: "later (fst s) (fst s5)"
    using l4 returns_run [OF setup_webhooks_returns _ later_mono [OF mono l4]] e
    by (metis later_trans st_act_def)
  consider (e4) e where "q4 = Inl e" | (e5) y e where "q4 = Inr y" "q5 = Inl e" | (fin) y z where "q4 = Inr y" "q5 = Inr z"
    by (cases q4; cases q5) auto
  then show thesis
  proof cases
    case e4
    with d have "setup_rbac P dyn kept (snd s) = (Inl e, snd s4)" by (simp add: on_cluster_iff)
    from errorsD [OF early_errors(4) this] have "\<not> last_phase e" .
    with e4 run d l4 show thesis by (intro failed) (auto simp: st_bind_def st_act_def)
  next
    case e5
    with e have "setup_webhooks P dyn cfg inven kept s4 = (Inl e, s5)" by simp
    from errorsD [OF early_errors(5) this] have "\<not> last_phase e" .
    with e5 run d e l5 show thesis by (intro failed) (auto simp: st_bind_def st_act_def)
  next
    case fin
    with run d e have "on_machine (setup_kubeconfigs ser cfg server inven) s5 = (r, t)"
      by (auto simp: st_bind_def st_act_def)
    with l5 show thesis by (intro written) (auto simp: on_machine_iff)
  qed
qed

lemma setup_cases:
  assumes run: "setup_cmd P ctx env s = Some (r, t)" and mono: "clock_mono (fst s)" and cfg: "Config.Load env = Inr cfg"
  obtains (early) e q w1 where "r = Inl e" "\<not> last_phase e" "setup_begin P ctx env (fst s) = (q, w1)"
      "within (ca_paths_of (pki_of cfg) \<union> issued_paths (pki_of cfg)) (fst s) w1" "later w1 (fst t)"
  | (late) root timeout inven w1 w5 where
      "setup_begin P ctx env (fst s) = (Inr (cfg, root, timeout, inven), w1)"
      "within (ca_paths_of (pki_of cfg) \<union> issued_paths (pki_of cfg)) (fst s) w1" "later w1 w5"
      "setup_kubeconfigs (SerializeKC P) cfg (APIServerURL (BindAddress cfg)) inven w5 = (r, fst t)"
proof -
  let ?A = "ca_paths_of (pki_of cfg) \<union> issued_paths (pki_of cfg)"
  obtain q w1 where a: "setup_begin P ctx env (fst s) = (q, w1)" by fastforce
  have wa: "within ?A (fst s) w1" by (rule stays_run [OF setup_begin_within [OF cfg] a])
  then have m1: "clock_mono w1" using mono by (simp add: within_def same_env_def clock_mono_def)
  have am: "on_machine (setup_begin P ctx env) s = (q, (w1, snd s))" using a by (simp add: on_machine_def)
  show thesis
  proof (cases q)
    case (Inl e)
    with run am have "r = Inl e" "t = (w1, snd s)" by (auto simp: setup_cmd_def st_bind_def st_act_def)
    with wa errorsD [OF early_errors(1) a [unfolded Inl]] show thesis using a by (intro early [of e q w1]) simp_all
  next
    case (Inr x)
    obtain cfg' root timeout inven where x: "x = (cfg', root, timeout, inven)" by (cases x) auto
    with a Inr have ok: "setup_begin P ctx env (fst s) = (Inr (cfg', root, timeout, inven), w1)" by simp
    with cfg have "cfg' = cfg" using setup_begin_run(1) [OF ok] by simp
    note ok = ok [unfolded this] and x = x [unfolded this]
    let ?server = "APIServerURL (BindAddress cfg)"
    let ?rest = "\<lambda>kept dyn. st_bind (st_act (on_cluster (setup_rbac P dyn kept))) (\<lambda>_.
        st_bind (st_act (setup_webhooks P dyn cfg inven kept)) (\<lambda>_.
          st_act (on_machine (setup_kubeconfigs (SerializeKC P) cfg ?server inven))))"
    from run am Inr x have "st_bind (setup_clients P ?server timeout inven) (\<lambda>(dyn, apiext).
        st_bind (setup_crds P dyn apiext root) (\<lambda>kept. ?rest kept dyn)) (w1, snd s) = Some (r, t)"
      by (simp add: setup_cmd_def st_bind_def [of "st_act _"] st_act_def Let_def)
    then consider (c1) e where "setup_clients P ?server timeout inven (w1, snd s) = Some (Inl e, t)" "r = Inl e"
      | (c2) dyn apiext s2 e where "setup_clients P ?server timeout inven (w1, snd s) = Some (Inr (dyn, apiext), s2)"
          "setup_crds P dyn apiext root s2 = Some (Inl e, t)" "r = Inl e"
      | (c3) dyn apiext s2 kept s3 where "setup_clients P ?server timeout inven (w1, snd s) = Some (Inr (dyn, apiext), s2)"
          "setup_crds P dyn apiext root s2 = Some (Inr kept, s3)" "?rest kept dyn s3 = Some (r, t)"
      unfolding st_bind_cases [of "setup_clients P ?server timeout inven"] by (auto simp: st_bind_cases [of "setup_crds P _ _ root"])
    then show thesis
    proof cases
      case c1
      have "\<not> last_phase e" using st_errorsD [OF early_errors(2) c1(1)] .
      with c1 a returns_run [OF setup_clients_returns c1(1)] m1 wa show thesis by (intro early) auto
    next
      case c2
      have l2: "later w1 (fst s2)" using returns_run [OF setup_clients_returns c2(1)] m1 by simp
      have "\<not> last_phase e" using st_errorsD [OF early_errors(3) c2(2)] .
      moreover have "later w1 (fst t)"
        using l2 returns_run [OF setup_crds_returns c2(2) later_mono [OF m1 l2]] by (rule later_trans)
      ultimately show thesis using c2(3) wa a by (intro early) auto
    next
      case c3
      have l2: "later w1 (fst s2)" using returns_run [OF setup_clients_returns c3(1)] m1 by simp
      then have l3: "later w1 (fst s3)"
        using returns_run [OF setup_crds_returns c3(2) later_mono [OF m1 l2]] by (rule later_trans)
      from c3(3) later_mono [OF m1 l3] show thesis
      proof (cases rule: setup_tail_cases)
        case (failed e)
        show thesis by (rule early [OF failed(1,2) a wa later_trans [OF l3 failed(3)]])
      next
        case (written w5)
        show thesis by (rule late [OF ok wa later_trans [OF l3 written(1)] written(2)])
      qed
    qed
  qed
qed

lemma kubeconfig_owner:
  assumes "KubeconfigPath cfg i = Some p \<or> p = AdminKubeconfigPath cfg"
  shows "\<exists>x \<in> set owners. owner_path cfg x = Some p"
  using assms
proof
  assume p: "KubeconfigPath cfg i = Some p"
  then obtain spec where spec: "spec \<in> set Components" "ID spec = i" "is_manager spec"
    unfolding KubeconfigPath_eq by blast
  with p have "owner_path cfg (Some spec) = Some p" by (simp add: owner_path_def is_manager_def)
  moreover from spec have "Some spec \<in> set owners" by (simp add: owners_def)
  ultimately show ?thesis by blast
next
  assume "p = AdminKubeconfigPath cfg"
  then show ?thesis by (intro bexI [of _ None]) (simp_all add: owner_path_def owners_def)
qed

text \<open>
  C4. Setup never damages a kubeconfig. However the run ends and whatever call fails, each kubeconfig
  path holds afterwards what it held before, or the complete new content with mode 0600; and a run
  that fails in an earlier phase has changed none of them.
\<close>

theorem setup_kubeconfigs_old_or_new:
  assumes mono: "clock_mono (fst s)" and cfg: "Config.Load env = Inr cfg"
    and path: "KubeconfigPath cfg i = Some p \<or> p = AdminKubeconfigPath cfg"
    and run: "setup_cmd P ctx env s = Some (r, t)"
  shows "file_at (w_files (fst t)) p = file_at (w_files (fst s)) p \<or>
    (case r of Inl e \<Rightarrow> last_phase e | Inr _ \<Rightarrow> True) \<and>
    (\<exists>server ca cert key data. SerializeKC P (BuildKubeconfig server ca cert key) = Inr data \<and>
       server = APIServerURL (BindAddress cfg) \<and> file_at (w_files (fst t)) p = Some (0x180, data))"
proof -
  obtain x where x: "x \<in> set owners" "owner_path cfg x = Some p" using kubeconfig_owner [OF path] by blast
  note apart = kubeconfig_not_artifact [OF x(2)]
  show ?thesis
  proof (rule setup_cases [OF run mono cfg])
    fix e q w1 assume "within (ca_paths_of (pki_of cfg) \<union> issued_paths (pki_of cfg)) (fst s) w1" "later w1 (fst t)"
    with file_at_within [OF _ apart, of "fst s" w1] show ?thesis by (simp add: later_def)
  next
    fix root timeout inven w1 w5
    assume w1: "within (ca_paths_of (pki_of cfg) \<union> issued_paths (pki_of cfg)) (fst s) w1" and l: "later w1 w5"
      and kc: "setup_kubeconfigs (SerializeKC P) cfg (APIServerURL (BindAddress cfg)) inven w5 = (r, fst t)"
    have same: "file_at (w_files w5) p = file_at (w_files (fst s)) p"
      using file_at_within [OF w1 apart] l by (simp add: later_def)
    note loop = kc [unfolded setup_kubeconfigs_owners]
    have phase: "last_phase e" if "r = Inl e" for e
      using errorsD [OF last_errors kc [unfolded that]] .
    from kubeconfigs.loop_placed [OF owners_separate loop] x(1)
    consider "kubeconfigs.in_place cfg (SerializeKC P) (APIServerURL (BindAddress cfg)) inven (w_files (fst t)) x"
      | "kubeconfigs.untouched cfg (w_files w5) (w_files (fst t)) x" by blast
    then show ?thesis
    proof cases
      case 1
      then obtain d where d: "owner_content (SerializeKC P) (APIServerURL (BindAddress cfg)) inven x = Some d"
        and at: "file_at (w_files (fst t)) p = Some (0x180, d)"
        using x(2) unfolding kubeconfigs.in_place_def kubeconfigFileMode_def by blast
      from d obtain a :: artifact where ser: "SerializeKC P (BuildKubeconfig (APIServerURL (BindAddress cfg)) (CertPath (CA inven))
          (CertPath a) (KeyPath a)) = Inr d"
        by (auto simp: owner_content_def split: option.splits sum.splits)
      have "case r of Inl e \<Rightarrow> last_phase e | Inr _ \<Rightarrow> True" using phase by (simp split: sum.split)
      with at ser show ?thesis by (intro disjI2 conjI exI) (assumption | rule refl)+
    next
      case 2
      with x(2) same show ?thesis by (simp add: kubeconfigs.untouched_def)
    qed
  qed
qed

section \<open>A second run\<close>

lemma dir_apart: "pki_dir (pki_of cfg) \<notin> owner_names cfg x"
proof
  assume "pki_dir (pki_of cfg) \<in> owner_names cfg x"
  then obtain e where "artifact_path (pki_of cfg) ''pki'' = dir_prefix (StateDir cfg) @ ''kubeconfigs'' @ e"
    using owner_names_shape unfolding pki_dir_eq by blast
  then show False by (simp add: artifact_path_def pki_of_def)
qed

lemma complete_cong:
  assumes full: "complete lib cfg fs" and dir: "is_dir gs (pki_dir cfg)"
    and data: "\<And>n. n \<in> set all_names \<Longrightarrow> file_data gs (artifact_path cfg n) = file_data fs (artifact_path cfg n)"
  shows "complete lib cfg gs"
proof -
  have "authority_on_disk lib gs (ca_cert_path cfg) (ca_key_path cfg) = authority_on_disk lib fs (ca_cert_path cfg) (ca_key_path cfg)"
    by (rule authority_cong; rule data; simp add: all_names_def ca_names_def)
  moreover have "pair_on_disk lib gs (artifact_path cfg (fst n)) (artifact_path cfg (snd n)) =
      pair_on_disk lib fs (artifact_path cfg (fst n)) (artifact_path cfg (snd n))" if "n \<in> set leaf_names" for n
    using leaf_names_all [OF that] by (intro pair_data data) simp_all
  moreover have "sa_on_disk lib gs (artifact_path cfg ''pki/sa.pub'') (artifact_path cfg ''pki/sa.key'') =
      sa_on_disk lib fs (artifact_path cfg ''pki/sa.pub'') (artifact_path cfg ''pki/sa.key'')"
  proof -
    have "''pki/sa.pub'' \<in> set all_names" "''pki/sa.key'' \<in> set all_names" by (simp_all add: all_names_def sa_names_def)
    from data [OF this(1)] data [OF this(2)] show ?thesis
      by (simp add: sa_on_disk_def pair_on_disk_def cert_on_disk_def key_on_disk_def)
  qed
  ultimately show ?thesis using full dir by (simp add: complete_def list_all_iff)
qed

lemma complete_after:
  assumes full: "complete lib (pki_of cfg) (w_files w)" and fr: "within (\<Union> (owner_names cfg ` set owners)) w v"
  shows "complete lib (pki_of cfg) (w_files v)"
proof (rule complete_cong [OF full])
  show "is_dir (w_files v) (pki_dir (pki_of cfg))"
    using full dir_apart [of cfg] by (intro within_is_dir [OF fr]) (auto simp: complete_def)
  show "file_data (w_files v) (artifact_path (pki_of cfg) n) = file_data (w_files w) (artifact_path (pki_of cfg) n)"
    if "n \<in> set all_names" for n
    using artifact_apart [OF that, of cfg] by (intro within_file_data [OF fr]) blast
qed

lemma setup_begin_again:
  assumes lib: "pem_ok (pf_pem P)" and halting: "halting w" and cfg: "Config.Load env = Inr cfg"
    and full: "complete (pf_pem P) (pki_of cfg) (w_files w)" and run: "setup_begin P ctx env w = (q, v)"
  shows "w_files v = w_files w \<and> (\<forall>c root timeout inven. q = Inr (c, root, timeout, inven) \<longrightarrow> inven = generated_inventory (pki_of cfg))"
proof (cases ctx)
  case None
  obtain h p n where b: "SplitHostPort (BindAddress cfg) = Inr (h, p)" by (rule loaded_bind [OF cfg]) blast
  have "bindHost (PkiBindAddress (pki_of cfg)) = Inr h"
    using loaded_bind_url [OF cfg b] by (simp add: pki_of_def)
  note quiet = Generate_until_dead [OF full this]
  obtain r v1 where gen: "Generate (pf_pem P) None (pki_of cfg) w = (r, v1)" by fastforce
  from until_deadD [OF quiet this halting] have "w_files v1 = w_files w" by simp
  moreover have "inven = generated_inventory (pki_of cfg)" if "r = Inr inven" for inven
    using Generate_outcome [OF lib gen [unfolded that]] by blast
  ultimately show ?thesis using run gen None
    by (cases "ManifestsDir env"; cases "APIServerTimeout (pf_fraction P) env"; cases r)
      (auto simp: setup_begin_def cfg act_bind_def act_wrap_def)
next
  case (Some e)
  with run show ?thesis
    by (cases "ManifestsDir env"; cases "APIServerTimeout (pf_fraction P) env")
      (auto simp: setup_begin_def cfg act_bind_def act_wrap_def Generate_def)
qed

text \<open>A run on a complete state directory, whatever becomes of it, keeps it complete.\<close>

lemma setup_keeps_complete:
  assumes lib: "pem_ok (pf_pem P)" and halting: "halting (fst s)" and mono: "clock_mono (fst s)" and cfg: "Config.Load env = Inr cfg"
    and full: "complete (pf_pem P) (pki_of cfg) (w_files (fst s))" and run: "setup_cmd P ctx env s = Some (r, t)"
  shows "complete (pf_pem P) (pki_of cfg) (w_files (fst t))"
proof -
  note again = setup_begin_again [OF lib halting cfg full]
  show ?thesis
  proof (rule setup_cases [OF run mono cfg])
    fix e q w1 assume "setup_begin P ctx env (fst s) = (q, w1)" and "later w1 (fst t)"
    with again full show ?thesis by (auto simp: same_disk_def later_def)
  next
    fix root timeout inven w1 w5
    assume b: "setup_begin P ctx env (fst s) = (Inr (cfg, root, timeout, inven), w1)" and l: "later w1 w5"
      and kc: "setup_kubeconfigs (SerializeKC P) cfg (APIServerURL (BindAddress cfg)) inven w5 = (r, fst t)"
    have "complete (pf_pem P) (pki_of cfg) (w_files w5)"
      using again [OF b] l full by (simp add: same_disk_def later_def)
    then show ?thesis
      by (rule complete_after) (rule stays_run [OF kubeconfigs.loop_within kc [unfolded setup_kubeconfigs_owners]])
  qed
qed

lemma kubeconfigs_again:
  assumes placed: "\<And>x. x \<in> set owners \<Longrightarrow> kubeconfigs.in_place cfg ser server inven (w_files w) x"
    and run: "act_iter (owner_step ser cfg server inven) owners w = (r, v)"
    and p: "p \<in> ca_paths_of (pki_of cfg) \<union> issued_paths (pki_of cfg) \<union> {q. \<exists>i. KubeconfigPath cfg i = Some q} \<union>
      {AdminKubeconfigPath cfg}"
  shows "file_at (w_files v) p = file_at (w_files w) p"
proof (cases "p \<in> ca_paths_of (pki_of cfg) \<union> issued_paths (pki_of cfg)")
  case True
  then obtain n where "n \<in> set all_names" "p = artifact_path (pki_of cfg) n" unfolding all_paths by blast
  with artifact_apart have "p \<notin> \<Union> (owner_names cfg ` set owners)" by blast
  then show ?thesis by (rule file_at_within [OF stays_run [OF kubeconfigs.loop_within run]])
next
  case False
  with p have "\<exists>i. KubeconfigPath cfg i = Some p \<or> p = AdminKubeconfigPath cfg" by blast
  then obtain x where x: "x \<in> set owners" "owner_path cfg x = Some p" using kubeconfig_owner by blast
  from kubeconfigs.loop_placed [OF owners_separate run] x(1) consider
    "kubeconfigs.in_place cfg ser server inven (w_files v) x" | "kubeconfigs.untouched cfg (w_files w) (w_files v) x" by blast
  then show ?thesis
  proof cases
    case 1
    with placed [OF x(1)] x(2) show ?thesis unfolding kubeconfigs.in_place_def by (metis option.inject)
  next
    case 2
    with x(2) show ?thesis by (simp add: kubeconfigs.untouched_def)
  qed
qed

text \<open>A run on a complete state directory keeps its certificates, and its kubeconfigs when they were in place.\<close>

lemma setup_keeps_files:
  assumes lib: "pem_ok (pf_pem P)" and machine: "halting (fst s)" "clock_mono (fst s)" and cfg: "Config.Load env = Inr cfg"
    and full: "complete (pf_pem P) (pki_of cfg) (w_files (fst s))" and run: "setup_cmd P ctx env s = Some (r, t)"
  shows "p \<in> ca_paths_of (pki_of cfg) \<union> issued_paths (pki_of cfg) \<Longrightarrow>
      file_at (w_files (fst t)) p = file_at (w_files (fst s)) p"
    and "(\<And>x. x \<in> set owners \<Longrightarrow> kubeconfigs.in_place cfg (SerializeKC P) (APIServerURL (BindAddress cfg))
        (generated_inventory (pki_of cfg)) (w_files (fst s)) x) \<Longrightarrow> (\<exists>i. KubeconfigPath cfg i = Some p) \<or> p = AdminKubeconfigPath cfg \<Longrightarrow>
      file_at (w_files (fst t)) p = file_at (w_files (fst s)) p"
proof -
  note again = setup_begin_again [OF lib machine(1) cfg full]
  consider (early) "w_files (fst t) = w_files (fst s)"
    | (late) w5 where "w_files w5 = w_files (fst s)" "act_iter (owner_step (SerializeKC P) cfg (APIServerURL (BindAddress cfg))
        (generated_inventory (pki_of cfg))) owners w5 = (r, fst t)"
  proof (rule setup_cases [OF run machine(2) cfg])
    fix e q w1 assume "setup_begin P ctx env (fst s) = (q, w1)" and "later w1 (fst t)"
    with again show thesis by (intro early) (simp add: same_disk_def later_def)
  next
    fix root timeout inven w1 w5
    assume b: "setup_begin P ctx env (fst s) = (Inr (cfg, root, timeout, inven), w1)" and l: "later w1 w5"
      and "setup_kubeconfigs (SerializeKC P) cfg (APIServerURL (BindAddress cfg)) inven w5 = (r, fst t)"
    with again [OF b] show thesis by (intro late [of w5]) (simp_all add: setup_kubeconfigs_owners same_disk_def later_def)
  qed
  note cases = this
  show "file_at (w_files (fst t)) p = file_at (w_files (fst s)) p" if mem: "p \<in> ca_paths_of (pki_of cfg) \<union> issued_paths (pki_of cfg)"
  proof (cases rule: cases)
    case early
    then show ?thesis by (simp add: file_at_def)
  next
    case (late w5)
    obtain n where "n \<in> set all_names" "p = artifact_path (pki_of cfg) n" using mem unfolding all_paths by blast
    with artifact_apart have "p \<notin> \<Union> (owner_names cfg ` set owners)" by blast
    from file_at_within [OF stays_run [OF kubeconfigs.loop_within late(2)] this] show ?thesis
      using late(1) by (simp add: file_at_def)
  qed
  show "file_at (w_files (fst t)) p = file_at (w_files (fst s)) p"
    if "\<And>x. x \<in> set owners \<Longrightarrow> kubeconfigs.in_place cfg (SerializeKC P) (APIServerURL (BindAddress cfg))
        (generated_inventory (pki_of cfg)) (w_files (fst s)) x" and "(\<exists>i. KubeconfigPath cfg i = Some p) \<or> p = AdminKubeconfigPath cfg"
  proof (cases rule: cases)
    case early
    then show ?thesis by (simp add: file_at_def)
  next
    case (late w5)
    with kubeconfigs_again [OF _ late(2), of p] that show ?thesis by auto
  qed
qed

text \<open>
  C3. A second run is harmless and changes nothing that matters, whatever becomes of it. After a
  successful run, run setup again on a machine where no call fails, or where the process is killed in any
  of its calls, against an API server in any state: succeed, fail or die, every certificate, every key and every
  kubeconfig is afterwards, byte for byte and with its mode, what the first run left.
\<close>

theorem setup_again:
  assumes lib: "pem_ok (pf_pem P)" and mono: "clock_mono (fst s)"
    and first: "setup_cmd P ctx env s = Some (Inr (), t)" and cfg: "Config.Load env = Inr cfg"
    and files: "w_files (fst s') = w_files (fst t)" and halting: "halting (fst s')" and mono': "clock_mono (fst s')"
    and second: "setup_cmd P ctx' env s' = Some (r, t')"
    and p: "p \<in> ca_paths_of (pki_of cfg) \<union> issued_paths (pki_of cfg) \<union> {q. \<exists>i. KubeconfigPath cfg i = Some q} \<union>
      {AdminKubeconfigPath cfg}"
  shows "file_at (w_files (fst t')) p = file_at (w_files (fst t)) p"
proof -
  obtain cfg' w where cfg': "Config.Load env = Inr cfg'" and full: "complete (pf_pem P) (pki_of cfg') (w_files w)"
    and kc: "setup_kubeconfigs (SerializeKC P) cfg' (APIServerURL (BindAddress cfg')) (generated_inventory (pki_of cfg')) w =
       (Inr (), fst t)"
    by (rule setup_certificates [OF lib first mono])
  with cfg have "cfg' = cfg" by simp
  note full = full [unfolded this] and kc = kc [unfolded this, unfolded setup_kubeconfigs_owners]
  have "complete (pf_pem P) (pki_of cfg) (w_files (fst t))"
    by (rule complete_after [OF full]) (rule stays_run [OF kubeconfigs.loop_within kc])
  then have full': "complete (pf_pem P) (pki_of cfg) (w_files (fst s'))" using files by simp
  have placed: "kubeconfigs.in_place cfg (SerializeKC P) (APIServerURL (BindAddress cfg)) (generated_inventory (pki_of cfg)) (w_files (fst t)) x"
    if "x \<in> set owners" for x
    using kubeconfigs.loop_placed [OF owners_separate kc] that by auto
  with setup_keeps_files [OF lib halting mono' cfg full' second] p files show ?thesis by auto
qed

end
