(* ===== verification/Pod.thy ===== *)
theory Pod
  imports Quadlet SetupFiles
begin

text \<open>
  The pod as a whole: the command lines and volumes of the rendered units against the files that the pki
  and setup containers write. The words of an \<open>Exec\<close> line are separated by spaces; nothing is quoted.
\<close>

section \<open>Command lines\<close>

definition word_flag :: "string list \<Rightarrow> string \<Rightarrow> string option" where
  "word_flag ws name =
     (case filter (\<lambda>w. HasPrefix w (''--'' @ name @ ''='')) ws of
        [] \<Rightarrow> None
      | w # _ \<Rightarrow> Some (TrimPrefix w (''--'' @ name @ ''='')))"

definition exec_flag :: "string \<Rightarrow> string \<Rightarrow> string option" where
  "exec_flag line name = word_flag (Split line CHR '' '') name"

lemma norm_elems_set: "set (norm_elems r st es) \<subseteq> set st \<union> set es"
  by (induction r st es rule: norm_elems.induct) (auto split: if_splits list.splits)

lemma Split_chars: "w \<in> set (Split s c) \<Longrightarrow> set w \<subseteq> set s"
proof (induction s c arbitrary: w rule: Split.induct)
  case (1 c)
  then show ?case by simp
next
  case (2 x xs c)
  then show ?case by (cases "Split xs c") (force split: if_splits)+
qed

lemma dir_prefix_chars: "set (dir_prefix d) \<subseteq> insert slash (set d)"
proof -
  have "set e \<subseteq> set d" if "e \<in> set (path_elems d)" for e
    using that norm_elems_set Split_chars unfolding path_elems_def by fastforce
  then show ?thesis by (auto simp: dir_prefix_def)
qed

lemma exec_flags:
  assumes "\<exists>ws. line = Join ws '' '' \<and> ws \<noteq> [] \<and> (\<forall>w \<in> set ws. CHR '' '' \<notin> set w) \<and> list_all (\<lambda>(f, p). word_flag ws f = Some p) fs"
  shows "list_all (\<lambda>(f, p). exec_flag line f = Some p) fs"
  using assms Split_Join [of _ "CHR '' ''"] by (auto simp: exec_flag_def)

lemma exec_path: "plain_elem f \<Longrightarrow> PathJoin [StateDir cfg, ''pki'', f] = artifact_path (pki_of cfg) (''pki/'' @ f)"
  by (simp add: PathJoin_plain2 plain_elem_rel plain_elem_def artifact_path_def pki_of_def)

lemma inventory_paths:
  "CertPath (CA (generated_inventory c)) = artifact_path c ''pki/ca.crt''"
  "CertPath (EtcdServer (generated_inventory c)) = artifact_path c ''pki/etcd-server.crt''"
  "KeyPath (EtcdServer (generated_inventory c)) = artifact_path c ''pki/etcd-server.key''"
  "CertPath (APIServer (generated_inventory c)) = artifact_path c ''pki/apiserver.crt''"
  "KeyPath (APIServer (generated_inventory c)) = artifact_path c ''pki/apiserver.key''"
  "CertPath (APIServerClient (generated_inventory c)) = artifact_path c ''pki/apiserver-client.crt''"
  "KeyPath (APIServerClient (generated_inventory c)) = artifact_path c ''pki/apiserver-client.key''"
  "SAPubPath (generated_inventory c) = artifact_path c ''pki/sa.pub''"
  "SAKeyPath (generated_inventory c) = artifact_path c ''pki/sa.key''"
  by (simp_all add: generated_inventory_def newInventory_def inventory_artifact_def pki_dir_def artifact_path_def
      ca_path_eqs pki_path plain_elem_def plain_elem_rel caCertName_def)

lemma no_space: "CHR '' '' \<notin> set d \<Longrightarrow> CHR '' '' \<notin> set (dir_prefix d)"
  using dir_prefix_chars [of d] by auto

text \<open>The flags of the two servers, with the artifacts they are to be.\<close>

definition etcd_files :: "inventory \<Rightarrow> (string \<times> string) list" where
  "etcd_files inven =
     [(''cert-file'', CertPath (EtcdServer inven)), (''key-file'', KeyPath (EtcdServer inven)),
      (''trusted-ca-file'', CertPath (CA inven)), (''peer-cert-file'', CertPath (EtcdServer inven)),
      (''peer-key-file'', KeyPath (EtcdServer inven)), (''peer-trusted-ca-file'', CertPath (CA inven))]"

definition apiserver_files :: "inventory \<Rightarrow> (string \<times> string) list" where
  "apiserver_files inven =
     [(''etcd-cafile'', CertPath (CA inven)), (''etcd-certfile'', CertPath (APIServerClient inven)),
      (''etcd-keyfile'', KeyPath (APIServerClient inven)), (''client-ca-file'', CertPath (CA inven)),
      (''tls-cert-file'', CertPath (APIServer inven)), (''tls-private-key-file'', KeyPath (APIServer inven)),
      (''service-account-key-file'', SAPubPath inven), (''service-account-signing-key-file'', SAKeyPath inven)]"

lemma etcd_flag_list:
  assumes "CHR '' '' \<notin> set (StateDir cfg)"
    and "set fs \<subseteq> set ((''listen-client-urls'', ''https://127.0.0.1:2379'') # etcd_files (generated_inventory (pki_of cfg)))"
  shows "list_all (\<lambda>(f, p). exec_flag (etcdExec (StateDir cfg)) f = Some p) fs"
proof -
  have sp: "CHR '' '' \<notin> set (artifact_path (pki_of cfg) n)" if "CHR '' '' \<notin> set n" for n
    using no_space [OF assms(1)] that by (simp add: artifact_path_def pki_of_def)
  have dd: "CHR '' '' \<notin> set (PathJoin [StateDir cfg, ''etcd''])"
    using no_space [OF assms(1)] by (simp add: PathJoin_plain plain_elem_rel plain_elem_def)
  have "list_all (\<lambda>(f, p). exec_flag (etcdExec (StateDir cfg)) f = Some p)
      ((''listen-client-urls'', ''https://127.0.0.1:2379'') # etcd_files (generated_inventory (pki_of cfg)))"
    unfolding etcdExec_def etcd_files_def
    by (rule exec_flags, intro exI conjI, rule refl)
      (use sp dd in \<open>simp_all add: word_flag_def exec_path plain_elem_def inventory_paths HasPrefix_def etcdClientPort_def etcdPeerPort_def TrimPrefix_def\<close>)
  then show ?thesis using assms(2) by (auto simp only: list_all_iff)
qed

lemma etcd_flags:
  assumes "CHR '' '' \<notin> set (StateDir cfg)"
  shows "list_all (\<lambda>(f, p). exec_flag (etcdExec (StateDir cfg)) f = Some p) (etcd_files (generated_inventory (pki_of cfg)))"
  by (rule etcd_flag_list [OF assms]) auto

lemma apiserver_flag_list:
  assumes "CHR '' '' \<notin> set (StateDir cfg)" and "set fs \<subseteq> set ((''secure-port'', ''6443'') # (''etcd-servers'', ''https://127.0.0.1:2379'') #
      apiserver_files (generated_inventory (pki_of cfg)))"
  shows "list_all (\<lambda>(f, p). exec_flag (apiserverExec (StateDir cfg)) f = Some p) fs"
proof -
  have sp: "CHR '' '' \<notin> set (artifact_path (pki_of cfg) n)" if "CHR '' '' \<notin> set n" for n
    using no_space [OF assms(1)] that by (simp add: artifact_path_def pki_of_def)
  have dd: "CHR '' '' \<notin> set (PathJoin [StateDir cfg, ''abac'', ''policy.json''])"
    using no_space [OF assms(1)] by (simp add: PathJoin_plain2 plain_elem_rel plain_elem_def)
  have "list_all (\<lambda>(f, p). exec_flag (apiserverExec (StateDir cfg)) f = Some p)
      ((''secure-port'', ''6443'') # (''etcd-servers'', ''https://127.0.0.1:2379'') # apiserver_files (generated_inventory (pki_of cfg)))"
    unfolding apiserverExec_def apiserver_files_def
    by (rule exec_flags, intro exI conjI, rule refl)
      (use sp dd in \<open>simp_all add: word_flag_def exec_path plain_elem_def inventory_paths HasPrefix_def etcdClientPort_def containerPort_def TrimPrefix_def\<close>)
  then show ?thesis using assms(2) by (auto simp only: list_all_iff)
qed

lemma apiserver_flags:
  assumes "CHR '' '' \<notin> set (StateDir cfg)"
  shows "list_all (\<lambda>(f, p). exec_flag (apiserverExec (StateDir cfg)) f = Some p) (apiserver_files (generated_inventory (pki_of cfg)))"
  by (rule apiserver_flag_list [OF assms]) auto

text \<open>The webhook serving pair of a manager: the fields that \<open>All\<close> lists for the four managers of the pod.\<close>

definition webhook_artifact :: "inventory \<Rightarrow> ComponentID \<Rightarrow> artifact option" where
  "webhook_artifact inven = map_of
     [(ComponentCore, CoreWebhook inven), (ComponentCABPK, CABPKWebhook inven),
      (ComponentKCP, KCPWebhook inven), (ComponentCAPD, CAPDWebhook inven)]"

lemma pod_managers:
  "map ID (filter is_manager pod_components) = [ComponentCore, ComponentCABPK, ComponentKCP, ComponentCAPD]"
  by (simp add: pod_components_def is_manager_def Components_def plain_component_def)

lemma manager_ids:
  "spec \<in> set pod_components \<Longrightarrow> is_manager spec \<Longrightarrow> ID spec \<in> {ComponentCore, ComponentCABPK, ComponentKCP, ComponentCAPD}"
proof -
  assume "spec \<in> set pod_components" "is_manager spec"
  then have "ID spec \<in> set (map ID (filter is_manager pod_components))" by simp
  then show ?thesis unfolding pod_managers by simp
qed

lemma manager_plain:
  "list_all (\<lambda>spec. CHR '' '' \<notin> set (Kubeconfig spec) \<and> CHR '' '' \<notin> set (ID spec) \<and> 0 \<le> WebhookPort spec \<and> 0 \<le> HealthPort spec \<and>
     0 \<le> DiagnosticsPort spec) (filter is_manager pod_components)"
  by (simp add: pod_components_def is_manager_def Components_def plain_component_def kubeconfigsDir_def component_ports component_ids)

lemma webhook_file_paths:
  assumes "plain_elem (i @ ''-webhook'')"
  shows "CertPath (inventory_webhook (pki_dir c) i) = artifact_path c (''pki/'' @ i @ ''-webhook/tls.crt'')"
    and "KeyPath (inventory_webhook (pki_dir c) i) = artifact_path c (''pki/'' @ i @ ''-webhook/tls.key'')"
proof -
  have pl: "plain_rel (i @ ''-webhook'')" using assms by (rule plain_elem_rel)
  have "plain_rel ((i @ ''-webhook'') @ slash # ''tls.crt'')" "plain_rel ((i @ ''-webhook'') @ slash # ''tls.key'')"
    by (intro plain_rel_append pl, simp add: plain_elem_rel plain_elem_def)+
  then show "CertPath (inventory_webhook (pki_dir c) i) = artifact_path c (''pki/'' @ i @ ''-webhook/tls.crt'')"
    and "KeyPath (inventory_webhook (pki_dir c) i) = artifact_path c (''pki/'' @ i @ ''-webhook/tls.key'')"
    using webhook_file_names [OF pl] by (simp_all add: inventory_webhook_def inventory_artifact_def pki_dir_def pki_path artifact_path_def)
qed

lemma webhook_artifacts:
  assumes "spec \<in> set pod_components" and "is_manager spec"
  shows "\<exists>a. webhook_artifact (generated_inventory c) (ID spec) = Some a \<and>
    CertPath a = artifact_path c (''pki/'' @ ID spec @ ''-webhook'') @ ''/tls.crt'' \<and>
    KeyPath a = artifact_path c (''pki/'' @ ID spec @ ''-webhook'') @ ''/tls.key''"
proof -
  have eqs: "CoreWebhook (generated_inventory c) = inventory_webhook (pki_dir c) ComponentCore"
    "CABPKWebhook (generated_inventory c) = inventory_webhook (pki_dir c) ComponentCABPK"
    "KCPWebhook (generated_inventory c) = inventory_webhook (pki_dir c) ComponentKCP"
    "CAPDWebhook (generated_inventory c) = inventory_webhook (pki_dir c) ComponentCAPD"
    by (simp_all add: generated_inventory_def newInventory_def component_ids)
  have pl: "plain_elem (i @ ''-webhook'')" if "i \<in> {ComponentCore, ComponentCABPK, ComponentKCP, ComponentCAPD}" for i
    using that by (auto simp: component_ids plain_elem_def)
  have "webhook_artifact (generated_inventory c) i = Some (inventory_webhook (pki_dir c) i)"
    if "i \<in> {ComponentCore, ComponentCABPK, ComponentKCP, ComponentCAPD}" for i
    using that unfolding webhook_artifact_def eqs by (auto simp: component_ids)
  with manager_ids [OF assms] webhook_file_paths [OF pl [OF manager_ids [OF assms]]] show ?thesis
    by (simp add: artifact_path_def)
qed

lemma Itoa_no_space: "0 \<le> i \<Longrightarrow> CHR '' '' \<notin> set (Itoa i)"
proof
  assume "0 \<le> i" "CHR '' '' \<in> set (Itoa i)"
  then have "is_digit (CHR '' '')" using Itoa_digits [of i] by (simp add: list_all_iff)
  then show False by (simp add: is_digit_def byte_val_def)
qed

lemma manager_flags:
  assumes sd: "CHR '' '' \<notin> set (StateDir cfg)" and spec: "spec \<in> set pod_components" "is_manager spec"
  shows "list_all (\<lambda>(f, p). exec_flag (managerExec spec (StateDir cfg)) f = Some p)
    [(''kubeconfig'', artifact_path (pki_of cfg) (Kubeconfig spec)), (''webhook-port'', Itoa (WebhookPort spec)),
     (''webhook-cert-dir'', artifact_path (pki_of cfg) (''pki/'' @ ID spec @ ''-webhook''))]"
proof -
  have sp: "CHR '' '' \<notin> set (artifact_path (pki_of cfg) n)" if "CHR '' '' \<notin> set n" for n
    using no_space [OF sd] that by (simp add: artifact_path_def pki_of_def)
  have mem: "spec \<in> set Components" using spec(1) by (simp add: pod_components_def)
  from spec manager_plain have pl: "CHR '' '' \<notin> set (Kubeconfig spec)" "CHR '' '' \<notin> set (ID spec)" "0 \<le> WebhookPort spec"
    "0 \<le> HealthPort spec" "0 \<le> DiagnosticsPort spec" by (auto simp: list_all_iff)
  have kc: "PathJoin [StateDir cfg, Kubeconfig spec] = artifact_path (pki_of cfg) (Kubeconfig spec)"
    using plain_kubeconfig [OF mem] table.manager_complete [OF mem spec(2)] by (simp add: PathJoin_plain artifact_path_def pki_of_def)
  have "plain_elem (ID spec @ ''-webhook'')" using manager_ids [OF spec] by (auto simp: component_ids plain_elem_def)
  then have wd: "PathJoin [StateDir cfg, ''pki'', ID spec @ ''-webhook''] = artifact_path (pki_of cfg) (''pki/'' @ ID spec @ ''-webhook'')"
    by (rule exec_path)
  show ?thesis
    unfolding managerExec_def kc wd
    by (rule exec_flags, intro exI conjI, rule refl)
      (use sp pl Itoa_no_space in \<open>simp_all add: word_flag_def HasPrefix_def TrimPrefix_def\<close>)
qed

text \<open>The value of a flag on the \<open>Exec\<close> line of a unit.\<close>

definition unit_flag :: "quadlet_input \<Rightarrow> ComponentID \<Rightarrow> string \<Rightarrow> string option" where
  "unit_flag input i name =
     (case Component i of None \<Rightarrow> None | Some spec \<Rightarrow> exec_flag (Exec (unitDataFor spec input)) name)"

lemma server_specs:
  "\<exists>e a. Component ComponentEtcd = Some e \<and> ID e = ComponentEtcd \<and> Component ComponentAPIServer = Some a \<and> ID a = ComponentAPIServer"
  by (simp add: Component_def Components_def plain_component_def component_ids)

lemma unit_flag_servers:
  "unit_flag input ComponentEtcd = exec_flag (etcdExec (StateDir (in_Config input)))"
  "unit_flag input ComponentAPIServer = exec_flag (apiserverExec (StateDir (in_Config input)))"
  using server_specs by (auto simp: unit_flag_def unitDataFor_def exec_for_def component_ids fun_eq_iff)

lemma unit_flag_manager:
  assumes "spec \<in> set pod_components" and "is_manager spec"
  shows "unit_flag input (ID spec) = exec_flag (managerExec spec (StateDir (in_Config input)))"
proof -
  have "Component (ID spec) = Some spec" using assms(1) by (simp add: Component_Some_iff pod_components_def)
  then show ?thesis
    using manager_ids [OF assms] by (auto simp: unit_flag_def unitDataFor_def exec_for_def component_ids fun_eq_iff)
qed

text \<open>
  C21. The command lines agree with the files. With no space in the state directory, etcd and the apiserver
  are started with exactly the certificates, keys and CA of the inventory that \<open>Generate\<close> returns; every
  manager of the pod is started with the kubeconfig that setup writes for it, with the webhook port that
  setup rewrites its namespace to, and with the directory of the serving pair that the inventory holds for it.
\<close>

theorem exec_lines_agree:
  assumes "CHR '' '' \<notin> set (StateDir (in_Config input))"
  shows "list_all (\<lambda>(f, p). unit_flag input ComponentEtcd f = Some p) (etcd_files (generated_inventory (pki_of (in_Config input)))) \<and>
    list_all (\<lambda>(f, p). unit_flag input ComponentAPIServer f = Some p) (apiserver_files (generated_inventory (pki_of (in_Config input)))) \<and>
    (\<forall>spec \<in> set pod_components. is_manager spec \<longrightarrow>
       unit_flag input (ID spec) ''kubeconfig'' = KubeconfigPath (in_Config input) (ID spec) \<and>
       KubeconfigPath (in_Config input) (ID spec) \<noteq> None \<and>
       unit_flag input (ID spec) ''webhook-port'' = map_option Itoa (RewriteWebhookPortsByNamespace (ProviderNamespace spec)) \<and>
       RewriteWebhookPortsByNamespace (ProviderNamespace spec) \<noteq> None \<and>
       (\<exists>a d. webhook_artifact (generated_inventory (pki_of (in_Config input))) (ID spec) = Some a \<and>
          unit_flag input (ID spec) ''webhook-cert-dir'' = Some d \<and> CertPath a = d @ ''/tls.crt'' \<and> KeyPath a = d @ ''/tls.key''))"
proof (intro conjI ballI impI)
  let ?cfg = "in_Config input"
  show "list_all (\<lambda>(f, p). unit_flag input ComponentEtcd f = Some p) (etcd_files (generated_inventory (pki_of ?cfg)))"
    unfolding unit_flag_servers by (rule etcd_flags) (rule assms)
  show "list_all (\<lambda>(f, p). unit_flag input ComponentAPIServer f = Some p) (apiserver_files (generated_inventory (pki_of ?cfg)))"
    unfolding unit_flag_servers by (rule apiserver_flags) (rule assms)
  fix spec assume spec: "spec \<in> set pod_components" "is_manager spec"
  have mem: "spec \<in> set Components" using spec(1) by (simp add: pod_components_def)
  note flags = manager_flags [OF assms spec, simplified]
  have kc: "KubeconfigPath ?cfg (ID spec) = Some (artifact_path (pki_of ?cfg) (Kubeconfig spec))"
    unfolding KubeconfigPath_eq using mem spec(2) by (auto simp: artifact_path_def pki_of_def)
  have port: "RewriteWebhookPortsByNamespace (ProviderNamespace spec) = Some (WebhookPort spec)"
    using namespace_maps [of "ProviderNamespace spec" undefined "WebhookPort spec"] mem spec(2) by blast
  show "unit_flag input (ID spec) ''kubeconfig'' = KubeconfigPath ?cfg (ID spec)" "KubeconfigPath ?cfg (ID spec) \<noteq> None"
    "unit_flag input (ID spec) ''webhook-port'' = map_option Itoa (RewriteWebhookPortsByNamespace (ProviderNamespace spec))"
    "RewriteWebhookPortsByNamespace (ProviderNamespace spec) \<noteq> None"
    unfolding kc port unit_flag_manager [OF spec] using flags by simp_all
  show "\<exists>a d. webhook_artifact (generated_inventory (pki_of ?cfg)) (ID spec) = Some a \<and>
      unit_flag input (ID spec) ''webhook-cert-dir'' = Some d \<and> CertPath a = d @ ''/tls.crt'' \<and> KeyPath a = d @ ''/tls.key''"
    unfolding unit_flag_manager [OF spec] using flags webhook_artifacts [OF spec, of "pki_of ?cfg"] by auto
qed

definition sample_unit_input :: quadlet_input where
  "sample_unit_input =
     \<lparr>in_Config = \<lparr>StateDir = ''/s'', BindAddress = ''127.0.0.1:6443'', HypervisorWebhookHost = ''host.containers.internal''\<rparr>,
      in_Version = []\<rparr>"

theorem exec_lines_agree_witness:
  "unit_flag sample_unit_input ComponentEtcd ''key-file'' = Some ''/s/pki/etcd-server.key'' \<and>
   unit_flag sample_unit_input ComponentKCP ''webhook-port'' = Some ''9445'' \<and>
   unit_flag sample_unit_input ComponentKCP ''kubeconfig'' = Some ''/s/kubeconfigs/kcp.kubeconfig''"
proof -
  have sd: "CHR '' '' \<notin> set (StateDir (in_Config sample_unit_input))" by (simp add: sample_unit_input_def)
  have dp: "dir_prefix ''/s'' = ''/s/''" by code_simp
  have kcp: "Components ! 6 \<in> set pod_components" "is_manager (Components ! 6)" "ID (Components ! 6) = ComponentKCP"
    "ProviderNamespace (Components ! 6) = ''capi-kubeadm-control-plane-system''" "WebhookPort (Components ! 6) = 9445"
    "Kubeconfig (Components ! 6) = ''kubeconfigs/kcp.kubeconfig''"
    by (simp_all add: pod_components_def Components_def plain_component_def is_manager_def webhookPortKCP_def kubeconfigsDir_def)
  have mem: "Components ! 6 \<in> set Components" by (simp add: Components_def)
  have port: "RewriteWebhookPortsByNamespace (ProviderNamespace (Components ! 6)) = Some 9445"
    using namespace_maps [of "ProviderNamespace (Components ! 6)" undefined 9445] kcp mem by auto
  have kc: "KubeconfigPath (in_Config sample_unit_input) ComponentKCP = Some ''/s/kubeconfigs/kcp.kubeconfig''"
    unfolding KubeconfigPath_eq using kcp mem by (auto simp: sample_unit_input_def dp intro!: bexI [of _ "Components ! 6"])
  have it: "Itoa 9445 = ''9445''" by (simp add: Itoa_eval digit_char_def)
  have files: "list_all (\<lambda>(f, p). unit_flag sample_unit_input ComponentEtcd f = Some p)
      (etcd_files (generated_inventory (pki_of (in_Config sample_unit_input))))"
    by (rule exec_lines_agree [OF sd, THEN conjunct1])
  have flags: "unit_flag sample_unit_input ComponentKCP ''kubeconfig'' = Some ''/s/kubeconfigs/kcp.kubeconfig''"
    "unit_flag sample_unit_input ComponentKCP ''webhook-port'' = Some ''9445''"
    using exec_lines_agree [OF sd, THEN conjunct2, THEN conjunct2, rule_format, OF kcp(1,2)] unfolding kcp(3) kc port
    by (simp_all add: it)
  from files have "unit_flag sample_unit_input ComponentEtcd ''key-file'' = Some (KeyPath (EtcdServer (generated_inventory (pki_of (in_Config sample_unit_input)))))"
    by (simp add: etcd_files_def)
  with flags show ?thesis by (simp add: inventory_paths artifact_path_def pki_of_def sample_unit_input_def dp)
qed


section \<open>Volumes\<close>

text \<open>
  A file lies in a volume of a unit when its path is below the volume's directory; the templates mount
  every volume at the path it has on the host, and the renderer's specification lists them with their modes.
\<close>

definition mounted :: "config \<Rightarrow> ComponentID \<Rightarrow> string \<Rightarrow> string \<Rightarrow> bool" where
  "mounted cfg i mode p \<longleftrightarrow>
     list_ex (\<lambda>(m, md). md = mode \<and> HasPrefix p (PathJoin [StateDir cfg, m] @ ''/'')) (us_mounts (unit_spec_of i))"

lemma mounted_artifact:
  assumes "(m, mode) \<in> set (us_mounts (unit_spec_of i))" and "plain_rel m"
  shows "mounted cfg i mode (dir_prefix (StateDir cfg) @ m @ slash # e)"
proof -
  have "HasPrefix ((dir_prefix (StateDir cfg) @ m @ ''/'') @ e) (dir_prefix (StateDir cfg) @ m @ ''/'')"
    by (rule HasPrefix_append)
  then show ?thesis using assms unfolding mounted_def list_ex_iff by (force simp: PathJoin_plain)
qed

lemma names_below: "list_all (\<lambda>n. HasPrefix n ''pki/'' \<or> HasPrefix n ''webhook-certs/'') all_names"
  by (simp add: all_names_def ca_names_def sa_names_def leaf_names_def HasPrefix_def)

lemma pki_mounts_artifacts:
  assumes "n \<in> set all_names"
  shows "mounted cfg ComponentPKI ''rw'' (artifact_path (pki_of cfg) n)"
proof -
  have "HasPrefix n ''pki/'' \<or> HasPrefix n ''webhook-certs/''" using names_below assms by (simp add: list_all_iff)
  then obtain e where "n = ''pki/'' @ e \<or> n = ''webhook-certs/'' @ e" unfolding HasPrefix_iff by blast
  then have "n = ''pki'' @ slash # e \<or> n = ''webhook-certs'' @ slash # e" by simp
  then obtain m where me: "n = m @ slash # e" "m \<in> {''pki'', ''webhook-certs''}" by blast
  have "(m, ''rw'') \<in> set (us_mounts (unit_spec_of ComponentPKI))" "plain_rel m"
    using me(2) by (auto simp: unit_spec_of_def plain_rel_def plain_elem_def)
  from mounted_artifact [OF this] show ?thesis by (simp add: me(1) artifact_path_def pki_of_def)
qed

lemma complete_state_dir:
  "PkiStateDir c = PkiStateDir d \<Longrightarrow> complete lib c fs = complete lib d fs"
  by (simp add: complete_def pki_dir_def artifact_path_def)

text \<open>
  C22. The two oneshot containers write only where their units let them. Whatever becomes of a run of
  \<open>Generate\<close> in the pki container, every file it changes is in a volume that the pki unit mounts
  writable. After a run that succeeded, a run of setup with the same state directory, on a machine where
  no call fails (or the process is killed in one) and whatever the API server answers, changes files only in the writable volumes of the
  setup unit, although it runs \<open>Generate\<close> too, with its own environment, over a read-only pki volume.
\<close>

theorem containers_respect_mounts:
  assumes lib: "pem_ok (pf_pem P)" and cfg: "Config.Load env = Inr cfg"
    and pki: "Generate (pf_pem P) None pcfg w = (Inr inven, v)" and same: "PkiStateDir pcfg = StateDir cfg"
    and start: "w_files (fst s) = w_files v" and halting: "halting (fst s)" and mono: "clock_mono (fst s)"
    and run: "setup_cmd P ctx env s = Some (r, t)"
  shows "(file_at (w_files (snd (Generate (pf_pem P) c pcfg u))) p \<noteq> file_at (w_files u) p \<longrightarrow> mounted cfg ComponentPKI ''rw'' p) \<and>
    (file_at (w_files (fst t)) p \<noteq> file_at (w_files (fst s)) p \<longrightarrow> mounted cfg ComponentSetup ''rw'' p)"
proof (intro conjI impI)
  have art: "artifact_path pcfg n = artifact_path (pki_of cfg) n" for n
    by (simp add: artifact_path_def pki_of_def same)
  show "mounted cfg ComponentPKI ''rw'' p" if ch: "file_at (w_files (snd (Generate (pf_pem P) c pcfg u))) p \<noteq> file_at (w_files u) p"
  proof -
    have "within (ca_paths_of pcfg \<union> issued_paths pcfg) u (snd (Generate (pf_pem P) c pcfg u))"
      using Generate_within unfolding stays_def by blast
    with ch have "p \<in> ca_paths_of pcfg \<union> issued_paths pcfg" using file_at_within by blast
    then obtain n where "n \<in> set all_names" "p = artifact_path (pki_of cfg) n" unfolding all_paths art by blast
    then show ?thesis using pki_mounts_artifacts by simp
  qed
  have full: "complete (pf_pem P) (pki_of cfg) (w_files (fst s))"
    using Generate_complete [OF lib pki] complete_state_dir [of pcfg "pki_of cfg"] same start by (simp add: pki_of_def)
  note again = setup_begin_again [OF lib halting cfg full]
  show "mounted cfg ComponentSetup ''rw'' p" if ch: "file_at (w_files (fst t)) p \<noteq> file_at (w_files (fst s)) p"
  proof (rule setup_cases [OF run mono cfg])
    fix e q w1 assume "setup_begin P ctx env (fst s) = (q, w1)" and "later w1 (fst t)"
    with again ch show ?thesis by (auto simp: same_disk_def later_def file_at_def)
  next
    fix root timeout inven' w1 w5
    assume b: "setup_begin P ctx env (fst s) = (Inr (cfg, root, timeout, inven'), w1)" and l: "later w1 w5"
      and kc: "setup_kubeconfigs (SerializeKC P) cfg (APIServerURL (BindAddress cfg)) inven' w5 = (r, fst t)"
    have fs: "w_files w5 = w_files (fst s)" using again [OF b] l by (simp add: same_disk_def later_def)
    have "p \<in> \<Union> (owner_names cfg ` set owners)"
      using ch file_at_within [OF stays_run [OF kubeconfigs.loop_within kc [unfolded setup_kubeconfigs_owners]]] fs by metis
    then obtain e where e: "p = dir_prefix (StateDir cfg) @ ''kubeconfigs'' @ slash # e"
      using owner_names_below by blast
    then show ?thesis
      using mounted_artifact [of "''kubeconfigs''" "''rw''" ComponentSetup cfg e]
      by (simp add: unit_spec_of_def component_ids plain_rel_def plain_elem_def)
  qed
qed

section \<open>The port of the API server\<close>

text \<open>
  C26. The API server listens on the port that the pod publishes, whatever the bind address; setup, which runs in the
  same pod, connects to the port of the bind address. The two are the same exactly when the bind port is 6443.
\<close>

theorem setup_connects_iff:
  assumes "CHR '' '' \<notin> set (StateDir (in_Config input))"
    and "Config.Load env = Inr (in_Config input)" and "SplitHostPort (BindAddress (in_Config input)) = Inr (host, port)"
  shows "\<exists>secure. unit_flag input ComponentAPIServer ''secure-port'' = Some secure \<and>
    (APIServerURL (BindAddress (in_Config input)) = ''https://127.0.0.1:'' @ secure \<longleftrightarrow> port = ''6443'')"
proof -
  have "list_all (\<lambda>(f, p). exec_flag (apiserverExec (StateDir (in_Config input))) f = Some p) [(''secure-port'', ''6443'')]"
    by (rule apiserver_flag_list [OF assms(1)]) simp
  then have "unit_flag input ComponentAPIServer ''secure-port'' = Some ''6443''" by (simp add: unit_flag_servers)
  with loaded_bind_url [OF assms(2,3)] show ?thesis by simp
qed

theorem setup_connects_iff_witness:
  "\<exists>secure. unit_flag sample_unit_input ComponentAPIServer ''secure-port'' = Some secure \<and>
     APIServerURL ''127.0.0.1:6443'' = ''https://127.0.0.1:'' @ secure"
proof -
  have trim: "TrimSpace ''/s'' = ''/s''" by (rule TrimSpace_id) (simp add: trimmed_def leading_rune_def space_runes_def)
  have load: "Config.Load [EnvStateDir \<mapsto> ''/s''] = Inr (in_Config sample_unit_input)"
    by (simp add: Load_Inr_iff stateDirFromEnv_def bindAddressFromEnv_def hypervisorWebhookHostFromEnv_def sample_unit_input_def trim
        EnvStateDir_def EnvBindAddress_def EnvHypervisorWebhookHost_def defaultBindAddress_def defaultHypervisorWebhookHost_def)
  have split: "SplitHostPort (BindAddress (in_Config sample_unit_input)) = Inr (''127.0.0.1'', ''6443'')"
    using SplitHostPort_plain [of "''127.0.0.1''" "''6443''"] by (simp add: sample_unit_input_def)
  have sd: "CHR '' '' \<notin> set (StateDir (in_Config sample_unit_input))" by (simp add: sample_unit_input_def)
  from setup_connects_iff [OF sd load split] show ?thesis by (simp add: sample_unit_input_def)
qed

end
