(* ===== verification/Cli.thy ===== *)
theory Cli
  imports Pod "HOL-Library.Char_ord" "HOL-Library.List_Lexorder"
begin

text \<open>
  The command line: \<open>main.go\<close>, \<open>pki.go\<close>, \<open>quadlet_render.go\<close> and \<open>runSetup\<close> of \<open>setup.go\<close>, all under
  \<open>src/cmd/capishim\<close>, with the part of the standard package \<open>flag\<close> that they use. A run yields the exit
  code, the text on standard output and, for standard error, what is reported there; it acts on the machine
  and, for setup, on the API server. The version that the linker recorded in the binary is a parameter.
\<close>

section \<open>Flags\<close>

text \<open>A flag set maps the names of the defined flags to their current values; boolean flags need no argument.\<close>

datatype flag_value = BoolFlag bool | StringFlag string

type_synonym flag_set = "string \<rightharpoonup> flag_value"

datatype flag_error =
  ErrHelp | BadSyntax string | NotDefined string | NeedsArgument string | InvalidBool string string

definition ParseBool :: "string \<Rightarrow> bool option" where
  "ParseBool s =
     (if s \<in> {''1'', ''t'', ''T'', ''TRUE'', ''true'', ''True''} then Some True
      else if s \<in> {''0'', ''f'', ''F'', ''FALSE'', ''false'', ''False''} then Some False
      else None)"

text \<open>
  The name and the value of an argument that starts with a dash: the first \<open>=\<close> that is not the first
  character separates them.
\<close>

definition flag_parts :: "string \<Rightarrow> string \<times> string option" where
  "flag_parts body =
     (case cut_at ''='' (tl body) of
        None \<Rightarrow> (body, None)
      | Some (n, v) \<Rightarrow> (hd body # n, Some v))"

text \<open>One flag, \<open>FlagSet.parseOne\<close>: nothing more to parse, or the flags and arguments that remain.\<close>

definition set_flag :: "flag_set \<Rightarrow> string \<Rightarrow> string option \<Rightarrow> string list \<Rightarrow> flag_error + flag_set \<times> string list" where
  "set_flag fs name value rest =
     (case fs name of
        None \<Rightarrow> Inl (if name = ''help'' \<or> name = ''h'' then ErrHelp else NotDefined name)
      | Some (BoolFlag _) \<Rightarrow>
          (case value of
             None \<Rightarrow> Inr (fs(name \<mapsto> BoolFlag True), rest)
           | Some v \<Rightarrow> (case ParseBool v of
                          None \<Rightarrow> Inl (InvalidBool v name)
                        | Some b \<Rightarrow> Inr (fs(name \<mapsto> BoolFlag b), rest)))
      | Some (StringFlag _) \<Rightarrow>
          (case value of
             Some v \<Rightarrow> Inr (fs(name \<mapsto> StringFlag v), rest)
           | None \<Rightarrow> (case rest of
                        [] \<Rightarrow> Inl (NeedsArgument name)
                      | v # rest' \<Rightarrow> Inr (fs(name \<mapsto> StringFlag v), rest'))))"

datatype flag_step = Stop "string list" | Step flag_set "string list"

definition parseOne :: "flag_set \<Rightarrow> string list \<Rightarrow> flag_error + flag_step" where
  "parseOne fs args =
     (case args of
        [] \<Rightarrow> Inr (Stop [])
      | s # rest \<Rightarrow>
          if length s < 2 \<or> hd s \<noteq> CHR ''-'' then Inr (Stop args)
          else if s = ''--'' then Inr (Stop rest)
          else (let name = (if s ! 1 = CHR ''-'' then drop 2 s else drop 1 s)
                in if name = [] \<or> hd name = CHR ''-'' \<or> hd name = CHR ''='' then Inl (BadSyntax s)
                   else (case flag_parts name of
                           (n, v) \<Rightarrow> map_sum id (\<lambda>(fs', args'). Step fs' args') (set_flag fs n v rest))))"

lemma set_flag_length: "set_flag fs n v rest = Inr (fs', args') \<Longrightarrow> length args' \<le> length rest"
  by (auto simp: set_flag_def split: option.splits flag_value.splits list.splits if_splits)

lemma map_sum_Inr: "map_sum f g r = Inr y \<longleftrightarrow> (\<exists>x. r = Inr x \<and> y = g x)"
  by (cases r) auto

lemma parseOne_length: "parseOne fs args = Inr (Step fs' args') \<Longrightarrow> length args' < length args"
  by (auto simp: parseOne_def Let_def map_sum_Inr less_Suc_eq_le dest!: set_flag_length split: list.splits if_splits prod.splits)

text \<open>\<open>FlagSet.Parse\<close>: the values of the flags and the arguments after them.\<close>

function parse_flags :: "flag_set \<Rightarrow> string list \<Rightarrow> flag_error + flag_set \<times> string list" where
  "parse_flags fs args =
     (case parseOne fs args of
        Inl e \<Rightarrow> Inl e
      | Inr (Stop rest) \<Rightarrow> Inr (fs, rest)
      | Inr (Step fs' args') \<Rightarrow> parse_flags fs' args')"
  by pat_completeness auto
termination
  by (relation "measure (\<lambda>(_, args). length args)") (auto dest: parseOne_length)

declare parse_flags.simps [simp del]

section \<open>The environment and the version\<close>

definition environMap :: "string list \<Rightarrow> environment" where
  "environMap kvs =
     foldl (\<lambda>env kv. case cut_at ''='' kv of None \<Rightarrow> env | Some (k, v) \<Rightarrow> env(k \<mapsto> v)) Map.empty kvs"

text \<open>\<open>debug.ReadBuildInfo\<close>: the main module's version, when the binary carries the information.\<close>

type_synonym build_info = "string option"

definition moduleVersion :: "build_info \<Rightarrow> string" where
  "moduleVersion info =
     (case info of
        Some v \<Rightarrow> if v \<noteq> [] \<and> v \<noteq> ''(devel)'' then v else ''dev''
      | None \<Rightarrow> ''dev'')"

section \<open>Rendering to a directory\<close>

definition EnvImageVersion :: string where "EnvImageVersion = ''CAPISHIM_VERSION''"
definition unitFileMode :: file_mode where "unitFileMode = 0x1A4"

datatype render_error =
  RenderLoadConfig config_error
| RenderUnits quadlet_error
| CreateOutputDirectory io_error
| WriteUnit string io_error

definition imageVersion :: "environment \<Rightarrow> string" where
  "imageVersion env = TrimSpace (env_get env EnvImageVersion)"

definition unit_text :: "(string \<rightharpoonup> string) \<Rightarrow> string \<Rightarrow> string" where
  "unit_text units name = (case units name of Some s \<Rightarrow> s | None \<Rightarrow> [])"

definition write_unit :: "string \<Rightarrow> (string \<rightharpoonup> string) \<Rightarrow> string \<Rightarrow> (world, render_error, unit) action" where
  "write_unit dir units name = act_wrap (WriteUnit name) (WriteFile (PathJoin [dir, name]) (unit_text units name) unitFileMode)"

definition renderQuadlet :: "string \<Rightarrow> environment \<Rightarrow> (world, render_error, string \<rightharpoonup> string) action" where
  "renderQuadlet dir env =
     act_bind (act_lift (wrap_err RenderLoadConfig (Config.Load env))) (\<lambda>cfg.
     act_bind (act_lift (wrap_err RenderUnits (Render \<lparr>in_Config = cfg, in_Version = imageVersion env\<rparr>))) (\<lambda>units.
     act_bind (act_wrap CreateOutputDirectory (MkdirAll dir)) (\<lambda>_.
     act_bind (act_iter (write_unit dir units) (sorted_list_of_set (dom units))) (\<lambda>_.
       act_return units))))"

section \<open>The subcommands\<close>

definition exitOK :: int where "exitOK = 0"
definition exitError :: int where "exitError = 1"
definition exitUsage :: int where "exitUsage = 2"

text \<open>What a run reports on standard error; the text of an error is its value.\<close>

datatype report =
  FlagReport flag_error
| PkiLoadConfig config_error
| PkiGenerate pki_error
| SetupFailed setup_error
| UnexpectedArguments "string list"
| DirRequired
| RenderFailure render_error

record outcome =
  exit_code :: int
  stdout :: string
  stderr :: "report list"

definition line :: "string \<Rightarrow> string" where
  "line s = s @ [CHR 0x0A]"

definition succeed :: "string \<Rightarrow> outcome" where
  "succeed s = \<lparr>exit_code = exitOK, stdout = s, stderr = []\<rparr>"

definition fail_with :: "int \<Rightarrow> report \<Rightarrow> outcome" where
  "fail_with c e = \<lparr>exit_code = c, stdout = [], stderr = [e]\<rparr>"

definition runVersion :: "build_info \<Rightarrow> outcome" where
  "runVersion info = succeed (line (''capishim '' @ moduleVersion info))"

definition pki_listing :: "inventory \<Rightarrow> string" where
  "pki_listing inven =
     line (''certificate inventory ready under '' @ Dir (CertPath (CA inven)) @ '':'') @
     concat (map (\<lambda>a. line (''  '' @ Name a @ '': '' @ CertPath a @ '' / '' @ KeyPath a)) (All inven)) @
     line (''  service-account keypair: '' @ SAPubPath inven @ '' / '' @ SAKeyPath inven)"

definition runPKI :: "pem \<Rightarrow> environment \<Rightarrow> world \<Rightarrow> outcome \<times> world" where
  "runPKI lib env w =
     (case Config.Load env of
        Inl e \<Rightarrow> (fail_with exitError (PkiLoadConfig e), w)
      | Inr cfg \<Rightarrow>
          (case Generate lib None
                  \<lparr>PkiStateDir = StateDir cfg, PkiBindAddress = BindAddress cfg,
                   PkiHypervisorWebhookHost = HypervisorWebhookHost cfg\<rparr> w of
             (Inl e, v) \<Rightarrow> (fail_with exitError (PkiGenerate e), v)
           | (Inr inven, v) \<Rightarrow> (succeed (pki_listing inven), v)))"

definition runSetup :: "('c, 's, 'r, 'm) platform \<Rightarrow> environment \<Rightarrow> 'c site \<Rightarrow> (outcome \<times> 'c site) option" where
  "runSetup P env s =
     (case setup_cmd P None env s of
        None \<Rightarrow> None
      | Some (Inl e, t) \<Rightarrow> Some (fail_with exitError (SetupFailed e), t)
      | Some (Inr _, t) \<Rightarrow> Some (succeed (line ''capishim setup: ready''), t))"

definition flag_failure :: "flag_error \<Rightarrow> outcome" where
  "flag_failure e = fail_with (if e = ErrHelp then exitOK else exitUsage) (FlagReport e)"

definition string_flag :: "flag_set \<Rightarrow> string \<Rightarrow> string" where
  "string_flag fs name = (case fs name of Some (StringFlag v) \<Rightarrow> v | _ \<Rightarrow> [])"

definition runRenderQuadlet :: "environment \<Rightarrow> string list \<Rightarrow> world \<Rightarrow> outcome \<times> world" where
  "runRenderQuadlet env args w =
     (case parse_flags [''dir'' \<mapsto> StringFlag []] args of
        Inl e \<Rightarrow> (flag_failure e, w)
      | Inr (fs, rest) \<Rightarrow>
          if rest \<noteq> [] then (fail_with exitUsage (UnexpectedArguments rest), w)
          else (let outDir = string_flag fs ''dir''
                in if outDir = [] then (fail_with exitUsage DirRequired, w)
                   else (case renderQuadlet outDir env w of
                           (Inl e, v) \<Rightarrow> (fail_with exitError (RenderFailure e), v)
                         | (Inr units, v) \<Rightarrow>
                             (succeed (line (''rendered '' @ Itoa (int (card (dom units))) @ '' quadlet units into '' @ outDir)), v))))"

text \<open>A subcommand that acts on the machine only, as a run over machine and API server.\<close>

definition only_machine :: "(world \<Rightarrow> outcome \<times> world) \<Rightarrow> 'c site \<Rightarrow> (outcome \<times> 'c site) option" where
  "only_machine m s = (case m (fst s) of (x, v) \<Rightarrow> Some (x, (v, snd s)))"

definition run_flags :: "build_info \<Rightarrow> string list \<Rightarrow> outcome" where
  "run_flags info args =
     (case parse_flags [''version'' \<mapsto> BoolFlag False] args of
        Inl e \<Rightarrow> flag_failure e
      | Inr (fs, _) \<Rightarrow> if fs ''version'' = Some (BoolFlag True) then runVersion info else succeed [])"

definition run ::
  "('c, 's, 'r, 'm) platform \<Rightarrow> build_info \<Rightarrow> environment \<Rightarrow> string list \<Rightarrow> 'c site \<Rightarrow> (outcome \<times> 'c site) option" where
  "run P info env args s =
     (case args of
        [] \<Rightarrow> Some (run_flags info args, s)
      | a # rest \<Rightarrow>
          if a = ''pki'' then only_machine (runPKI (pf_pem P) env) s
          else if a = ''setup'' then runSetup P env s
          else if a = ''render-quadlet'' then only_machine (runRenderQuadlet env rest) s
          else if a = ''version'' then Some (runVersion info, s)
          else Some (run_flags info args, s))"

text \<open>The process: its arguments after the program name, and its environment as the list of \<open>KEY=VALUE\<close>.\<close>

definition main_cmd ::
  "('c, 's, 'r, 'm) platform \<Rightarrow> build_info \<Rightarrow> string list \<Rightarrow> string list \<Rightarrow> 'c site \<Rightarrow> (outcome \<times> 'c site) option" where
  "main_cmd P info args environ = run P info (environMap environ) args"

section \<open>What render-quadlet writes\<close>

definition unit_names :: "string list" where
  "unit_names = podUnitName # map (\<lambda>spec. unitFileName (ID spec)) pod_components"

lemma unit_names_values:
  "unit_names = [''capishim.pod'', ''capishim-pki.container'', ''capishim-etcd.container'', ''capishim-apiserver.container'',
     ''capishim-setup.container'', ''capishim-core.container'', ''capishim-cabpk.container'', ''capishim-kcp.container'',
     ''capishim-capd.container'']"
  by (simp add: unit_names_def pod_components_def Components_def plain_component_def component_ids podUnitName_def
      unitFileName_def unitPrefix_def containerSuffix_def)

lemma unit_names_simple: "list_all plain_elem unit_names"
  by (simp add: unit_names_values plain_elem_def)

lemma expected_names: "map fst (expected_units input) = unit_names"
  by (simp add: expected_units_def unit_names_def comp_def)

lemma unit_names_distinct: "distinct unit_names"
  by (simp add: unit_names_values)

lemma expected_dom: "dom (map_of (expected_units input)) = set unit_names"
  by (metis dom_map_of_conv_image_fst expected_names list.set_map)

lemma unit_path: "name \<in> set unit_names \<Longrightarrow> PathJoin [dir, name] = dir_prefix dir @ name \<and> Dir (PathJoin [dir, name]) = Clean dir"
proof -
  assume "name \<in> set unit_names"
  then have "plain_elem name" using unit_names_simple by (simp add: list_all_iff)
  then show ?thesis by (simp add: PathJoin_plain plain_elem_rel Dir_plain)
qed

lemma unit_paths_inj: "inj_on (\<lambda>name. PathJoin [dir, name]) (set unit_names)"
  by (rule inj_onI) (simp add: unit_path)

text \<open>Rendering cannot fail on a loaded configuration.\<close>

lemma Render_loaded:
  assumes "Config.Load env = Inr cfg"
  shows "Render \<lparr>in_Config = cfg, in_Version = v\<rparr> = Inr (map_of (expected_units \<lparr>in_Config = cfg, in_Version = v\<rparr>))"
proof -
  have wf: "stateDirFromEnv env = Inr (StateDir cfg)" "bindAddressFromEnv env = Inr (BindAddress cfg)"
    using assms by (simp_all add: Load_Inr_iff)
  have "TrimSpace (BindAddress cfg) = BindAddress cfg" using bindAddress_valid [OF wf(2)] by (simp add: TrimSpace_id)
  moreover have "BindAddress cfg \<noteq> []" using wf(2)
    by (auto simp: bindAddressFromEnv_def Let_def defaultBindAddress_def split: option.splits if_splits sum.splits)
  ultimately show ?thesis using stateDir_not_blank [OF wf(1)] by (simp add: Render_is_exact validateInput_def)
qed

definition written_mode :: "world \<Rightarrow> string \<Rightarrow> file_mode" where
  "written_mode w p = (case file_at (w_files w) p of Some (m, _) \<Rightarrow> m | None \<Rightarrow> and unitFileMode (not (w_umask w)))"

lemma write_unit_ok:
  assumes "write_unit dir units name w = (Inr (), v)"
  shows "file_at (w_files v) (PathJoin [dir, name]) = Some (written_mode w (PathJoin [dir, name]), unit_text units name)"
proof -
  from assms have "w_files v = put_file (PathJoin [dir, name]) (and unitFileMode (not (w_umask w))) (unit_text units name) (w_files w)"
    and "\<not> is_dir (w_files w) (PathJoin [dir, name])"
    by (auto simp: write_unit_def act_wrap_Inr_iff dest!: WriteFile_ok)
  then show ?thesis
    by (auto simp: put_file_def written_mode_def file_at_def is_dir_def split: option.split node.split)
qed

lemma write_unit_within: "stays (within {PathJoin [dir, name]}) (write_unit dir units name)"
  unfolding write_unit_def by (intro io_frame) simp

lemma write_units_within: "stays (within ((\<lambda>n. PathJoin [dir, n]) ` set names)) (act_iter (write_unit dir units) names)"
  by (intro stays_iter stays_mono [OF write_unit_within]) auto

lemma written_mode_within: "within S w v \<Longrightarrow> p \<notin> S \<Longrightarrow> written_mode v p = written_mode w p"
proof -
  assume fr: "within S w v" and p: "p \<notin> S"
  then have "w_umask v = w_umask w" by (simp add: within_def same_env_def)
  with file_at_within [OF fr p] show ?thesis by (simp only: written_mode_def)
qed

lemma write_units_ok:
  assumes "act_iter (write_unit dir units) names w = (Inr (), v)" and "distinct names" and "inj_on (\<lambda>n. PathJoin [dir, n]) (set names)"
  shows "\<forall>n \<in> set names. file_at (w_files v) (PathJoin [dir, n]) = Some (written_mode w (PathJoin [dir, n]), unit_text units n)"
  using assms
proof (induction names arbitrary: w)
  case Nil
  then show ?case by simp
next
  case (Cons n ns)
  from Cons.prems(1) obtain u where head: "write_unit dir units n w = (Inr (), u)" and rest: "act_iter (write_unit dir units) ns u = (Inr (), v)"
    by (auto simp: act_bind_Inr_iff)
  have apart: "PathJoin [dir, n] \<notin> (\<lambda>n. PathJoin [dir, n]) ` set ns" using Cons.prems(2,3) by auto
  have "file_at (w_files v) (PathJoin [dir, n]) = file_at (w_files u) (PathJoin [dir, n])"
    by (rule file_at_within [OF stays_run [OF write_units_within rest] apart])
  moreover have "written_mode u (PathJoin [dir, k]) = written_mode w (PathJoin [dir, k])" if "k \<in> set ns" for k
  proof (rule written_mode_within [OF stays_run [OF write_unit_within head]])
    from that have "PathJoin [dir, k] \<in> (\<lambda>n. PathJoin [dir, n]) ` set ns" by blast
    with apart show "PathJoin [dir, k] \<notin> {PathJoin [dir, n]}" by (metis singletonD)
  qed
  ultimately show ?case using write_unit_ok [OF head] Cons.IH [OF rest] Cons.prems(2,3) by simp
qed

lemma renderQuadlet_written:
  assumes "renderQuadlet dir env w = (Inr units, v)"
  shows "\<exists>cfg. Config.Load env = Inr cfg \<and>
    units = map_of (expected_units \<lparr>in_Config = cfg, in_Version = imageVersion env\<rparr>) \<and> dom units = set unit_names \<and>
    (\<forall>name \<in> set unit_names. \<exists>text. units name = Some text \<and>
       file_at (w_files v) (PathJoin [dir, name]) = Some (written_mode w (PathJoin [dir, name]), text)) \<and>
    (\<forall>p. p \<notin> (\<lambda>name. PathJoin [dir, name]) ` set unit_names \<longrightarrow> file_at (w_files v) p = file_at (w_files w) p)"
proof -
  from assms obtain cfg us u where cfg: "Config.Load env = Inr cfg"
    and r: "Render \<lparr>in_Config = cfg, in_Version = imageVersion env\<rparr> = Inr units"
    and mk: "MkdirAll dir w = (Inr (), u)"
    and loop: "act_iter (write_unit dir units) (sorted_list_of_set (dom units)) u = (Inr (), v)"
    by (auto simp: renderQuadlet_def act_bind_Inr_iff act_wrap_Inr_iff wrap_err_Inr_iff)
  have units: "units = map_of (expected_units \<lparr>in_Config = cfg, in_Version = imageVersion env\<rparr>)"
    using r Render_loaded [OF cfg] by simp
  then have dom: "dom units = set unit_names" by (simp add: expected_dom)
  have mkw: "within {} w u" by (rule stays_run [OF MkdirAll_within mk])
  have names: "set (sorted_list_of_set (dom units)) = set unit_names" by (simp add: dom)
  have written: "file_at (w_files v) (PathJoin [dir, n]) = Some (written_mode w (PathJoin [dir, n]), unit_text units n)"
    if "n \<in> set unit_names" for n
    using write_units_ok [OF loop] that unit_paths_inj written_mode_within [OF mkw] by (simp add: dom)
  have "\<exists>text. units n = Some text \<and> unit_text units n = text" if "n \<in> set unit_names" for n
    using that dom by (auto simp: unit_text_def split: option.split)
  with written have "\<forall>n \<in> set unit_names. \<exists>text. units n = Some text \<and>
      file_at (w_files v) (PathJoin [dir, n]) = Some (written_mode w (PathJoin [dir, n]), text)" by metis
  moreover have "file_at (w_files v) p = file_at (w_files w) p" if "p \<notin> (\<lambda>n. PathJoin [dir, n]) ` set unit_names" for p
    using file_at_within [OF stays_run [OF write_units_within loop], of p] file_at_within [OF mkw, of p] that by (simp add: dom)
  ultimately show ?thesis using cfg units dom by blast
qed

text \<open>
  C20. What a successful \<open>render-quadlet\<close> leaves in the directory: the nine units with the text that the
  rendering specifies for the loaded configuration and the trimmed image version, and no other file
  changed. A unit file that was there keeps its mode; a new one has 0644 less the umask.
\<close>

theorem renderQuadlet_writes:
  assumes "renderQuadlet dir env w = (Inr units, v)"
  shows "\<exists>cfg. Config.Load env = Inr cfg \<and>
    units = map_of (expected_units \<lparr>in_Config = cfg, in_Version = imageVersion env\<rparr>) \<and> dom units = set unit_names \<and>
    (\<forall>name \<in> set unit_names. \<exists>text. units name = Some text \<and>
       file_at (w_files v) (PathJoin [dir, name]) = Some (written_mode w (PathJoin [dir, name]), text)) \<and>
    (\<forall>p. p \<notin> (\<lambda>name. PathJoin [dir, name]) ` set unit_names \<longrightarrow> file_at (w_files v) p = file_at (w_files w) p)"
  using assms by (rule renderQuadlet_written)

section \<open>When render-quadlet succeeds\<close>

lemma Clean_shorter: "1 < length n \<Longrightarrow> length (Clean d) < length (dir_prefix d @ n)"
  by (cases "path_elems d = []") (auto simp: dir_prefix_Clean, auto simp: Clean_def dir_prefix_def)

lemma write_units_calm:
  assumes "calm w" and "is_dir (w_files w) (Clean dir)" and "set names \<subseteq> set unit_names"
    and "\<forall>n \<in> set unit_names. \<not> is_dir (w_files w) (PathJoin [dir, n])"
  shows "\<exists>v. act_iter (write_unit dir units) names w = (Inr (), v)"
  using assms
proof (induction names arbitrary: w)
  case Nil
  then show ?case by simp
next
  case (Cons n ns)
  then have n: "n \<in> set unit_names" by simp
  let ?p = "PathJoin [dir, n]"
  have free: "\<not> is_dir (w_files w) ?p" using Cons.prems(4) n by blast
  obtain u where u: "WriteFile ?p (unit_text units n) unitFileMode w = (Inr (), u)"
    using WriteFile_calm [OF Cons.prems(1) free] Cons.prems(2) unit_path [OF n, of dir] by metis
  then have head: "write_unit dir units n w = (Inr (), u)" by (simp add: write_unit_def act_wrap_run)
  have same: "is_dir (w_files u) q = is_dir (w_files w) q" for q
    using WriteFile_ok [OF u] by (auto simp: put_file_def is_dir_def split: option.split node.split)
  have "calm u" using within_calm [OF stays_run [OF write_unit_within head] Cons.prems(1)] .
  with Cons.IH [of u] Cons.prems same obtain v where "act_iter (write_unit dir units) ns u = (Inr (), v)" by auto
  with head show ?case by (auto simp: act_bind_run)
qed

text \<open>No call fails; the directory may have to be made, if no file is in its way and no unit's name is a directory.\<close>

lemma renderQuadlet_run:
  assumes cfg: "Config.Load env = Inr cfg" and calm: "calm w" and dir: "Clean dir = dir" "dir \<noteq> []"
    and way: "\<forall>q \<in> set (path_chain dir). file_data (w_files w) q = None"
    and free: "\<forall>n \<in> set unit_names. \<not> is_dir (w_files w) (PathJoin [dir, n])"
  shows "\<exists>units v. renderQuadlet dir env w = (Inr units, v)"
proof -
  let ?units = "map_of (expected_units \<lparr>in_Config = cfg, in_Version = imageVersion env\<rparr>)"
  have "w_files w q \<noteq> Some (FileNode m d)" if "q \<in> set (path_chain dir)" for q m d
    using way that by (auto simp: file_data_def)
  then obtain u where mk: "MkdirAll dir w = (Inr (), u)" using MkdirAll_calm [OF calm] by blast
  have "\<not> is_dir (w_files u) (PathJoin [dir, n])" if n: "n \<in> set unit_names" for n
  proof -
    have "1 < length n" using n by (auto simp: unit_names_values)
    then have "length dir < length (PathJoin [dir, n])" using Clean_shorter [of n dir] unit_path [OF n, of dir] dir by simp
    then have "PathJoin [dir, n] \<notin> set (path_chain dir)" by (auto dest!: path_chain_prefix prefix_length_le)
    with MkdirAll_value [OF mk, of "PathJoin [dir, n]"] free n show ?thesis by (auto simp: is_dir_def)
  qed
  moreover have "calm u" using within_calm [OF stays_run [OF MkdirAll_within mk] calm] .
  moreover have "is_dir (w_files u) (Clean dir)" using MkdirAll_made [OF mk] dir by simp
  ultimately obtain v where "act_iter (write_unit dir ?units) (sorted_list_of_set (dom ?units)) u = (Inr (), v)"
    using write_units_calm [of u dir "sorted_list_of_set (dom ?units)" ?units] by (auto simp: expected_dom)
  with mk have "renderQuadlet dir env w = (Inr ?units, v)"
    by (simp add: renderQuadlet_def cfg Render_loaded [OF cfg] act_bind_run act_wrap_run act_bind_def act_wrap_def)
  then show ?thesis by blast
qed

section \<open>Flags are read in every form\<close>

text \<open>The four ways to write a string flag: one dash or two, the value after \<open>=\<close> or as the next argument.\<close>

record flag_use =
  fu_two :: bool
  fu_attached :: bool
  fu_name :: string
  fu_value :: string

definition show_flag :: "flag_use \<Rightarrow> string list" where
  "show_flag u =
     (let s = (if fu_two u then ''--'' else ''-'') @ fu_name u
      in if fu_attached u then [s @ ''='' @ fu_value u] else [s, fu_value u])"

definition flag_name :: "string \<Rightarrow> bool" where
  "flag_name n \<longleftrightarrow> n \<noteq> [] \<and> hd n \<noteq> CHR ''-'' \<and> CHR ''='' \<notin> set n"

lemma flag_parts_shown:
  assumes "flag_name n"
  shows "flag_parts (n @ ''='' @ v) = (n, Some v)" and "flag_parts n = (n, None)"
proof -
  from assms have tl: "CHR ''='' \<notin> set (tl n)" "n \<noteq> []" by (auto simp: flag_name_def dest: list.set_sel(2))
  have "cut_at ''='' (tl n @ ''='' @ v) = Some (tl n, v)" by (rule cut_at_first) (simp_all add: tl)
  then show "flag_parts (n @ ''='' @ v) = (n, Some v)" using tl(2) by (simp add: flag_parts_def)
  have "cut_at ''='' (tl n) = None" by (rule cut_at_never) (simp_all add: tl)
  then show "flag_parts n = (n, None)" by (simp add: flag_parts_def)
qed

lemma parseOne_dashes:
  assumes "hd body \<noteq> CHR ''-''" and "hd body \<noteq> CHR ''=''" and "body \<noteq> []"
  shows "parseOne fs (((if two then ''--'' else ''-'') @ body) # rest) =
    (case flag_parts body of (n, v) \<Rightarrow> map_sum id (\<lambda>(fs', args'). Step fs' args') (set_flag fs n v rest))"
  using assms by (cases body) (auto simp: parseOne_def Let_def)

lemma parse_flags_shown:
  assumes n: "flag_name (fu_name u)" and d: "fs (fu_name u) = Some (StringFlag x)"
  shows "parse_flags fs (show_flag u @ args) = parse_flags (fs(fu_name u \<mapsto> StringFlag (fu_value u))) args"
proof -
  let ?n = "fu_name u"
  have hd: "hd ?n \<noteq> CHR ''-''" "hd ?n \<noteq> CHR ''=''" "?n \<noteq> []" using n by (cases ?n; auto simp: flag_name_def)+
  have "parseOne fs (show_flag u @ args) = Inr (Step (fs(?n \<mapsto> StringFlag (fu_value u))) args)"
  proof (cases "fu_attached u")
    case True
    have "hd (?n @ ''='' @ fu_value u) = hd ?n" using hd(3) by simp
    with True hd show ?thesis
      using parseOne_dashes [of "?n @ ''='' @ fu_value u" fs "fu_two u" args] flag_parts_shown [OF n] d
      by (simp add: show_flag_def Let_def set_flag_def)
  next
    case False
    with hd show ?thesis
      using parseOne_dashes [of ?n fs "fu_two u" "fu_value u # args"] flag_parts_shown [OF n] d
      by (simp add: show_flag_def Let_def set_flag_def)
  qed
  then show ?thesis by (subst parse_flags.simps) simp
qed

text \<open>
  Reading back what was written. Whatever string flags are set, in whichever form and order and with
  whatever values, dashes, equal signs and empty strings included, parsing gives the last value of each
  and leaves the arguments after \<open>--\<close> as they are.
\<close>

theorem parse_flags_reads_back:
  assumes "\<forall>u \<in> set us. flag_name (fu_name u) \<and> (\<exists>x. fs (fu_name u) = Some (StringFlag x))"
  shows "parse_flags fs (concat (map show_flag us) @ ''--'' # rest) =
    Inr (foldl (\<lambda>fs u. fs(fu_name u \<mapsto> StringFlag (fu_value u))) fs us, rest)"
  using assms
proof (induction us arbitrary: fs)
  case Nil
  then show ?case by (subst parse_flags.simps) (simp add: parseOne_def)
next
  case (Cons u us)
  then obtain x where u: "flag_name (fu_name u)" "fs (fu_name u) = Some (StringFlag x)" by auto
  note step = parse_flags_shown [where u = u and fs = fs and x = x, OF u, of "concat (map show_flag us) @ ''--'' # rest"]
  from step Cons show ?case by simp
qed

section \<open>Exit codes\<close>

lemma flag_failure_code: "exit_code (flag_failure e) = (if e = ErrHelp then exitOK else exitUsage)"
  by (simp add: flag_failure_def fail_with_def)

text \<open>An outcome that keeps the conventions: a code of the three, and a failure reports why and prints nothing.\<close>

definition conventional :: "outcome \<Rightarrow> bool" where
  "conventional x \<longleftrightarrow> exit_code x \<in> {exitOK, exitError, exitUsage} \<and>
     (if exit_code x = exitOK then stderr x \<in> {[], [FlagReport ErrHelp]} else stdout x = [] \<and> stderr x \<noteq> [])"

lemma conventional_rules [simp]:
  "conventional (succeed s)" "conventional (fail_with exitError e)" "conventional (fail_with exitUsage e)"
  "conventional (flag_failure f)" "conventional (runVersion info)" "conventional (run_flags info args)"
  by (auto simp: conventional_def succeed_def fail_with_def flag_failure_def runVersion_def run_flags_def
      exitOK_def exitError_def exitUsage_def split: sum.split)

lemma codes [simp]:
  "exit_code (succeed s) = exitOK" "exit_code (fail_with c e) = c" "exitError \<noteq> exitOK" "exitUsage \<noteq> exitOK"
  "exitOK \<noteq> exitUsage" "exitError \<noteq> exitUsage"
  by (simp_all add: succeed_def fail_with_def exitOK_def exitError_def exitUsage_def)

lemma runPKI_outcome:
  assumes "runPKI lib env w = (x, v)"
  shows "conventional x \<and> exit_code x \<noteq> exitUsage \<and>
    (exit_code x = exitOK \<longleftrightarrow> (\<exists>cfg inven. Config.Load env = Inr cfg \<and> Generate lib None (pki_of cfg) w = (Inr inven, v)))"
  using assms
  by (auto simp: runPKI_def pki_of_def split: sum.splits prod.splits)

lemma runSetup_outcome:
  assumes "runSetup P env s = Some (x, t)"
  shows "conventional x \<and> exit_code x \<noteq> exitUsage \<and> (exit_code x = exitOK \<longleftrightarrow> setup_cmd P None env s = Some (Inr (), t))"
  using assms by (auto simp: runSetup_def split: option.splits sum.splits)

lemma runRenderQuadlet_outcome:
  assumes "runRenderQuadlet env args w = (x, v)"
  shows "conventional x \<and> (exit_code x = exitUsage \<longrightarrow> v = w)"
  using assms by (auto simp: runRenderQuadlet_def Let_def flag_failure_code split: sum.splits prod.splits if_splits)


text \<open>
  A misspelled subcommand is not an error: a first argument that is no subcommand and no flag makes the
  program exit with 0, silently, having done nothing.
\<close>

theorem unknown_subcommand_succeeds:
  assumes "a \<notin> {''pki'', ''setup'', ''render-quadlet'', ''version''}" and "a = [] \<or> hd a \<noteq> CHR ''-''"
  shows "run P info env (a # rest) s = Some (\<lparr>exit_code = 0, stdout = [], stderr = []\<rparr>, s)"
proof -
  have "parse_flags fs (a # rest) = Inr (fs, a # rest)" for fs
    using assms(2) by (subst parse_flags.simps) (auto simp: parseOne_def)
  then show ?thesis using assms(1) by (simp add: run_def run_flags_def succeed_def exitOK_def)
qed

section \<open>The render-quadlet command\<close>

lemma unit_count: "card (set unit_names) = 9"
  by (simp add: distinct_card [OF unit_names_distinct]) (simp add: unit_names_values)

text \<open>
  The command from its arguments to the disk: with a usable output directory, given in any form, it
  exits with 0, reports nine units, and each of them is in the directory with its specified text.
\<close>

theorem render_quadlet_command:
  assumes cfg: "Config.Load env = Inr cfg" and calm: "calm (fst s)" and dir: "Clean dir = dir" "dir \<noteq> []"
    and way: "\<forall>q \<in> set (path_chain dir). file_data (w_files (fst s)) q = None"
    and free: "\<forall>n \<in> set unit_names. \<not> is_dir (w_files (fst s)) (PathJoin [dir, n])"
  shows "\<exists>t. run P info env (''render-quadlet'' # show_flag \<lparr>fu_two = two, fu_attached = attached, fu_name = ''dir'', fu_value = dir\<rparr>) s =
      Some (succeed (line (''rendered 9 quadlet units into '' @ dir)), t) \<and> snd t = snd s \<and>
    (\<forall>(name, text) \<in> set (expected_units \<lparr>in_Config = cfg, in_Version = imageVersion env\<rparr>).
       file_at (w_files (fst t)) (PathJoin [dir, name]) = Some (written_mode (fst s) (PathJoin [dir, name]), text))"
proof -
  let ?units = "map_of (expected_units \<lparr>in_Config = cfg, in_Version = imageVersion env\<rparr>)"
  let ?args = "show_flag \<lparr>fu_two = two, fu_attached = attached, fu_name = ''dir'', fu_value = dir\<rparr>"
  obtain units v where run: "renderQuadlet dir env (fst s) = (Inr units, v)"
    using renderQuadlet_run [OF cfg calm dir way free] by blast
  note written = renderQuadlet_written [OF run] 
  from written cfg have units: "units = ?units" and card: "card (dom units) = 9"
    by (auto simp: unit_count)
  have nine: "Itoa 9 = ''9''" by (simp add: Itoa_eval digit_char_def)
  have "parse_flags [''dir'' \<mapsto> StringFlag []] ?args = Inr ([''dir'' \<mapsto> StringFlag dir], [])"
    using parse_flags_shown [where u = "\<lparr>fu_two = two, fu_attached = attached, fu_name = ''dir'', fu_value = dir\<rparr>"
        and fs = "[''dir'' \<mapsto> StringFlag []]" and x = "[]" and args = "[]"]
    by (simp add: flag_name_def parse_flags.simps [of _ "[]"] parseOne_def)
  then have "runRenderQuadlet env ?args (fst s) = (succeed (line (''rendered 9 quadlet units into '' @ dir)), v)"
    using run card dir(2) nine by (simp add: runRenderQuadlet_def string_flag_def)
  then have out: "run P info env (''render-quadlet'' # ?args) s =
      Some (succeed (line (''rendered 9 quadlet units into '' @ dir)), (v, snd s))"
    by (simp add: run_def only_machine_def)
  have "file_at (w_files v) (PathJoin [dir, name]) = Some (written_mode (fst s) (PathJoin [dir, name]), content)"
    if mem: "(name, content) \<in> set (expected_units \<lparr>in_Config = cfg, in_Version = imageVersion env\<rparr>)" for name content
  proof -
    have "distinct (map fst (expected_units \<lparr>in_Config = cfg, in_Version = imageVersion env\<rparr>))"
      by (simp add: expected_names unit_names_distinct)
    from map_of_list_unique [OF this mem] have "units name = Some content" by (simp add: units)
    moreover from this have "name \<in> set unit_names" using written by (metis domI)
    ultimately show ?thesis using written by (metis option.inject)
  qed
  with out show ?thesis by (intro exI [of _ "(v, snd s)"]) auto
qed

end
