(* ===== verification/SetupServer.thy ===== *)
theory SetupServer
  imports SetupFiles
begin

text \<open>
  What setup leaves on the API server, and the defensive branches that are never taken.
\<close>

section \<open>The cluster after a successful run\<close>

text \<open>What \<open>os.ReadFile\<close> answers on a machine where no call fails.\<close>

definition read_file :: "files \<Rightarrow> string \<Rightarrow> io_error + string" where
  "read_file fs p = (case file_at fs p of Some (_, d) \<Rightarrow> Inr d | None \<Rightarrow> Inl ErrNotExist)"

lemma ReadFile_read: "ReadFile p w = (Inr d, v) \<Longrightarrow> read_file (w_files w) p = Inr d"
  using ReadFile_ok by (force simp: read_file_def file_at_def)

lemma dedupe_read_files:
  "dedupe_read L D paths st w = (Inr st', v) \<Longrightarrow> dedupe_files L (read_file (w_files w)) D paths st = Inr st'"
proof (induction paths arbitrary: st w)
  case Nil
  then show ?case by simp
next
  case (Cons path paths)
  then obtain data u parsed st1 where rd: "ReadFile path w = (Inr data, u)" and ps: "Parse D data = Inr parsed"
    and dd: "dedupe_docs L path parsed st = Inr st1" and rest: "dedupe_read L D paths st1 u = (Inr st', v)"
    by (auto simp: act_simps wrap_err_Inr_iff)
  have "w_files u = w_files w" using stays_run [OF ReadFile_reads rd] by (simp add: same_disk_def)
  with Cons.IH [OF rest] ReadFile_read [OF rd] ps dd show ?case by simp
qed

lemma load_deduped_files:
  "load_deduped L D paths w = (Inr objs, v) \<Longrightarrow> LoadDedupedObjects L (read_file (w_files w)) D paths = Inr objs"
  by (auto simp: load_deduped_def LoadDedupedObjects_def act_simps dest!: dedupe_read_files)

lemma begin_inventory:
  assumes "setup_begin P ctx env w = (Inr (cfg, root, timeout, inven), v)"
  shows "CertPath (CA inven) = ca_cert_path (pki_of cfg)"
proof -
  have gen: "Generate (pf_pem P) ctx (pki_of cfg) w = (Inr inven, v)" by (rule setup_begin_run [OF assms])
  then have "ctx = None" by (cases ctx) (auto simp: Generate_def)
  with gen have "inven = generated_inventory (pki_of cfg)" by (auto elim: Generate_run)
  then show ?thesis
    by (simp add: generated_inventory_def newInventory_def inventory_artifact_def ca_path_eqs)
qed

text \<open>
  C2. What setup leaves on the server when it succeeds. The loaded set is that of the seven manifest
  files, restricted to v1beta2 and to the applied kinds. Every webhook configuration and every CRD
  of it is stored as rewritten with the pod CA, and every other object of it, and the admin's binding,
  as rewritten for the manager identities: with the content that was sent, in the slot its kind,
  namespace and name select.
\<close>

theorem setup_applied:
  assumes lib: "k8s_lib_ok (pf_lib P)" and mono: "clock_mono (fst s)"
    and run: "setup_cmd P ctx env s = Some (Inr (), t)"
    and client: "\<And>rc dyn. NewDynamic P rc = Inr dyn \<Longrightarrow> client_ok (pf_lib P) dyn view same"
  shows "\<exists>cfg root fs loaded kept rewritten ca webhooks.
    Config.Load env = Inr cfg \<and> ManifestsDir env = Inr root \<and>
    only_writes (ca_paths_of (pki_of cfg) \<union> issued_paths (pki_of cfg)) (w_files (fst s)) fs \<and>
    LoadDedupedObjects (pf_lib P) (read_file fs) (pf_decoder P) (ProviderManifestFiles root) = Inr loaded \<and>
    kept = keepObjects (pf_lib P) (RestrictCAPIVersionsToV1Beta2 (pf_lib P) loaded) \<and>
    RewriteRBACSubjects (pf_lib P) ManagerCNByNamespace kept = Inr rewritten \<and>
    read_file fs (ca_cert_path (pki_of cfg)) = Inr ca \<and> webhook_batch P cfg ca kept = Inr webhooks \<and>
    (\<forall>x \<in> set webhooks. \<exists>y. same x y \<and> view (snd t) (slot (pf_lib P) x) = Some y) \<and>
    (\<forall>x \<in> set (rewritten @ [AdminClusterRoleBinding adminCN]).
       slot (pf_lib P) x \<notin> slot (pf_lib P) ` set webhooks \<longrightarrow>
       (\<exists>y. same x y \<and> view (snd t) (slot (pf_lib P) x) = Some y))"
proof (rule setup_run [OF run mono])
  fix cfg root timeout inven w1 dyn apiext kept s2 s3 c4 s5
  assume a: "setup_begin P ctx env (fst s) = (Inr (cfg, root, timeout, inven), w1)"
    and b: "setup_clients P (APIServerURL (BindAddress cfg)) timeout inven (w1, snd s) = Some (Inr (dyn, apiext), s2)"
    and c: "setup_crds P dyn apiext root s2 = Some (Inr kept, s3)"
    and d: "setup_rbac P dyn kept (snd s3) = (Inr (), c4)"
    and e: "setup_webhooks P dyn cfg inven kept (fst s3, c4) = (Inr (), s5)"
    and fin: "snd t = snd s5" and l: "later w1 (fst s2)" "later (fst s2) (fst s3)"
  note ok = setup_begin_run [OF a]
  have frame: "only_writes (ca_paths_of (pki_of cfg) \<union> issued_paths (pki_of cfg)) (w_files (fst s)) (w_files w1)"
    using stays_run [OF setup_begin_within [OF ok(1)] a] by (simp add: within_def)
  have disk: "w_files (fst s2) = w_files w1" "w_files (fst s3) = w_files w1" using l by (simp_all add: later_def)
  from b have "\<exists>rc. NewDynamic P rc = Inr dyn"
    by (auto simp: setup_clients_def st_bind_Inr st_wrap_Inr st_act_Some Let_def result_simps)
  then have cl: "client_ok (pf_lib P) dyn view same" using client by blast
  from c obtain loaded w2 where ld: "load_deduped (pf_lib P) (pf_decoder P) (ProviderManifestFiles root) (fst s2) = (Inr loaded, w2)"
    and kept: "kept = keepObjects (pf_lib P) (RestrictCAPIVersionsToV1Beta2 (pf_lib P) loaded)"
    by (auto simp: setup_crds_def st_bind_Inr st_wrap_Inr st_act_Some Let_def act_wrap_Inr_iff on_machine_iff)
  have loaded: "LoadDedupedObjects (pf_lib P) (read_file (w_files w1)) (pf_decoder P) (ProviderManifestFiles root) = Inr loaded"
    using load_deduped_files [OF ld] disk by simp
  from d obtain rewritten where rb: "RewriteRBACSubjects (pf_lib P) ManagerCNByNamespace kept = Inr rewritten"
    and ap2: "Apply (pf_lib P) dyn (rewritten @ [AdminClusterRoleBinding adminCN]) (snd s3) = (Inr (), c4)"
    by (auto simp: setup_rbac_def act_simps wrap_err_Inr_iff)
  from e obtain ca u webhooks where rd: "ReadFile (CertPath (CA inven)) (fst s3) = (Inr ca, u)"
    and wb: "webhook_batch P cfg ca kept = Inr webhooks" and ap3: "Apply (pf_lib P) dyn webhooks c4 = (Inr (), snd s5)"
    by (auto simp: setup_webhooks_def act_simps on_machine_iff on_cluster_iff)
  note st2 = Apply_stores [OF lib cl ap2] and st3 = Apply_stores [OF lib cl ap3]
  have "\<forall>x \<in> set webhooks. \<exists>y. same x y \<and> view (snd t) (slot (pf_lib P) x) = Some y" using st3 fin by simp
  moreover have "\<forall>x \<in> set (rewritten @ [AdminClusterRoleBinding adminCN]).
      slot (pf_lib P) x \<notin> slot (pf_lib P) ` set webhooks \<longrightarrow>
       (\<exists>y. same x y \<and> view (snd t) (slot (pf_lib P) x) = Some y)" using st2 st3 fin by metis
  moreover have "read_file (w_files w1) (ca_cert_path (pki_of cfg)) = Inr ca"
    using ReadFile_read [OF rd] disk begin_inventory [OF a] by simp
  ultimately show ?thesis
    using ok(1,2) frame loaded kept rb wb
    by (intro exI [of _ cfg] exI [of _ root] exI [of _ "w_files w1"] exI [of _ loaded] exI [of _ kept]
        exI [of _ rewritten] exI [of _ ca] exI [of _ webhooks] conjI)
qed

text \<open>
  The defensive branches of the last phase are never taken: every manager has a certificate in
  the inventory and a kubeconfig path, and setup never fails for want of one.
\<close>

theorem setup_no_missing_manager:
  assumes mono: "clock_mono (fst s)" and cfg: "Config.Load env = Inr cfg"
    and run: "setup_cmd P ctx env s = Some (Inl e, t)"
  shows "e \<noteq> NoManagerCertificate i \<and> e \<noteq> NoKubeconfigPath i"
proof (rule setup_cases [OF run mono cfg])
  fix f q w1 assume "(Inl e :: setup_error + unit) = Inl f" "\<not> last_phase f"
  then show ?thesis by auto
next
  fix root timeout inven w1 w5
  assume kc: "setup_kubeconfigs (SerializeKC P) cfg (APIServerURL (BindAddress cfg)) inven w5 = (Inl e, fst t)"
  have path: "KubeconfigPath cfg (ID spec) \<noteq> None" if "spec \<in> set Components" "ManagerCN spec \<noteq> []" for spec
    using that KubeconfigPath_eq [of cfg "ID spec"] by (auto simp: is_manager_def)
  have cert: "ManagerArtifact (ID spec) inven \<noteq> None" if "spec \<in> set Components" "ManagerCN spec \<noteq> []" for spec
  proof -
    from that have "spec \<in> set (filter is_manager Components)" by (simp add: is_manager_def)
    then show ?thesis by (simp add: Components_def plain_component_def is_manager_def) (auto simp: component_ids)
  qed
  have "errors (\<lambda>e. \<forall>i. e \<noteq> NoManagerCertificate i \<and> e \<noteq> NoKubeconfigPath i)
      (setup_kubeconfigs (SerializeKC P) cfg (APIServerURL (BindAddress cfg)) inven)"
    unfolding setup_kubeconfigs_def manager_kubeconfig_def
    by (auto simp del: ManagerArtifact.simps split: option.split intro!: error_rules dest: path cert)
  from errorsD [OF this kc] show ?thesis by blast
qed

end
