(* ===== verification/SetupLive.thy ===== *)
theory SetupLive
  imports SetupServer
begin

text \<open>
  When setup succeeds: on a machine where no call fails and nothing is in the way, with an API server
  that answers and accepts. The last phase needs the certificate phase to have left its names free,
  which the first section shows.
\<close>

section \<open>Where no directory is made\<close>

definition no_new_dir :: "string \<Rightarrow> world \<Rightarrow> world \<Rightarrow> bool" where
  "no_new_dir q w v \<longleftrightarrow> (w_files v q = Some DirNode \<longrightarrow> w_files w q = Some DirNode)"

lemma no_new_dir_disk: "same_disk w v \<Longrightarrow> no_new_dir q w v"
  by (simp add: no_new_dir_def same_disk_def)

lemma no_new_dir_reads: "stays same_disk m \<Longrightarrow> stays (no_new_dir q) m"
  unfolding stays_def by (blast intro: no_new_dir_disk)

lemma no_new_dir_return [io_frame]:
  "stays (no_new_dir q) (act_return x)" "stays (no_new_dir q) (act_throw e)" "stays (no_new_dir q) (act_lift r)"
  by (simp_all add: stays_def no_new_dir_def)

lemma no_new_dir_bind [io_frame]:
  "stays (no_new_dir q) m \<Longrightarrow> (\<And>x. stays (no_new_dir q) (f x)) \<Longrightarrow> stays (no_new_dir q) (act_bind m f)"
  by (rule stays_bind) (auto simp: no_new_dir_def)

lemma no_new_dir_iter [io_frame]:
  "(\<And>x. x \<in> set xs \<Longrightarrow> stays (no_new_dir q) (f x)) \<Longrightarrow> stays (no_new_dir q) (act_iter f xs)"
  by (induction xs) (auto intro: io_frame)

lemma no_new_dir_calls [io_frame]:
  "stays (no_new_dir q) (WriteFile p d m)" "stays (no_new_dir q) (Chmod p m)"
  "q \<notin> set (path_chain p) \<Longrightarrow> stays (no_new_dir q) (MkdirAll p)"
proof -
  show "stays (no_new_dir q) (WriteFile p d m)"
    by (auto simp: stays_def no_new_dir_def WriteFile_def next_fault_def Let_def put_file_def
        split: fault.split option.splits node.splits if_splits)
  show "stays (no_new_dir q) (Chmod p m)"
    by (auto simp: stays_def no_new_dir_def Chmod_def next_fault_def
        split: fault.split option.split node.split)
  assume "q \<notin> set (path_chain p)"
  from MkdirAll_steady [OF this] show "stays (no_new_dir q) (MkdirAll p)"
    by (simp add: stays_def steady_def no_new_dir_def)
qed

lemma no_new_dir_write [io_frame]:
  assumes "q \<notin> set (path_chain (Dir p))"
  shows "stays (no_new_dir q) (writeCertFile lib p c)" "stays (no_new_dir q) (writeKeyFile lib p k)"
  using assms unfolding writeCertFile_def writeKeyFile_def writeFile_def
  by (auto split: option.split intro!: io_frame)

lemma no_new_dir_leaf:
  assumes "q \<notin> set (path_chain (Dir (CertPath (leaf_artifact spec))))"
    and "q \<notin> set (path_chain (Dir (KeyPath (leaf_artifact spec))))"
  shows "stays (no_new_dir q) (ensureLeaf lib caCert caKey now spec)"
  unfolding ensureLeaf_def Let_def
  by (intro io_frame no_new_dir_reads [OF validPair_reads])
    (simp, intro conjI impI io_frame no_new_dir_reads [OF Generate_key_reads(2)]
      no_new_dir_reads [OF new_cert_reads(2)], simp_all add: assms)

lemma no_new_dir_sa:
  assumes "q \<notin> set (path_chain (Dir c))" and "q \<notin> set (path_chain (Dir k))"
  shows "stays (no_new_dir q) (ensureServiceAccountPair lib c k)"
  unfolding ensureServiceAccountPair_def
  by (intro io_frame no_new_dir_reads [OF validSAPair_reads])
    (simp, intro conjI impI io_frame no_new_dir_reads [OF Generate_key_reads(1)]
      no_new_dir_reads [OF new_cert_reads(3)], simp_all add: assms)

lemma no_new_dir_ca:
  assumes "q \<notin> set (path_chain (Dir (PathJoin [dir, caCertName])))"
    and "q \<notin> set (path_chain (Dir (PathJoin [dir, caKeyName])))"
  shows "stays (no_new_dir q) (ensureCA lib dir now)"
  unfolding ensureCA_def Let_def
  by (intro io_frame no_new_dir_reads [OF fileExists_reads])
    (simp, intro conjI impI io_frame no_new_dir_reads [OF loadCAPair_reads] no_new_dir_reads [OF Generate_key_reads(1)]
      no_new_dir_reads [OF new_cert_reads(1)], simp_all add: assms)

lemma Generate_no_new_dir:
  assumes q: "\<forall>d \<in> set dir_names. q \<notin> set (path_chain (artifact_path cfg d))"
  shows "stays (no_new_dir q) (Generate lib None cfg)"
proof -
  have away: "q \<notin> set (path_chain (Dir (artifact_path cfg n)))" if "n \<in> set all_names" for n
    using artifact_dir [OF that, of cfg] q by auto
  have pki: "q \<notin> set (path_chain (pki_dir cfg))"
    using q by (simp add: pki_dir_eq dir_names_def)
  have ca: "stays (no_new_dir q) (ensureCA lib (pki_dir cfg) now)" for now
    by (rule no_new_dir_ca; unfold ca_path_eqs; rule away) (simp_all add: all_names_def ca_names_def)
  have sa: "stays (no_new_dir q) (ensureServiceAccountPair lib (artifact_path cfg ''pki/sa.pub'') (artifact_path cfg ''pki/sa.key''))"
    by (rule no_new_dir_sa; rule away) (simp_all add: all_names_def sa_names_def)
  have leaf: "stays (no_new_dir q) (ensureLeaf lib caCert caKey now spec)"
    if spec: "spec \<in> set (generated_leaves cfg host)" for caCert caKey now spec host
  proof -
    obtain n where n: "n \<in> set leaf_names" "CertPath (leaf_artifact spec) = artifact_path cfg (fst n)"
      "KeyPath (leaf_artifact spec) = artifact_path cfg (snd n)" using leaf_spec_in_names [OF spec] by blast
    with leaf_names_all [OF n(1)] away show ?thesis by (intro no_new_dir_leaf) simp_all
  qed
  show ?thesis
    unfolding Generate_eq
    by (intro io_frame stays_wrap no_new_dir_reads [OF Now_reads] ca pki)
      (auto split: prod.splits intro!: io_frame stays_wrap sa leaf)
qed

section \<open>A kubeconfig is written\<close>

lemma atomic_body_calm:
  assumes calm: "calm w" and t: "w_files w t = Some (FileNode m0 [])" and ne: "t \<noteq> path"
    and free: "\<not> is_dir (w_files w) path" "\<not> is_dir (w_files w) t"
  shows "\<exists>v. atomic_body t path data mode w = (Inr (), v) \<and>
    w_files v = (w_files w)(t := None, path \<mapsto> FileNode mode data) \<and> same_env w v"
proof -
  obtain w1 where wr: "WriteFile t data mode w = (Inr (), w1)" using WriteFile_calm [OF calm free(2)] t by auto
  have f1: "w_files w1 = (w_files w)(t \<mapsto> FileNode m0 data)" using WriteFile_ok [OF wr] t by (simp add: put_file_def)
  have "within {t} w w1" by (rule stays_run [OF WriteFile_within wr]) simp
  then have e1: "same_env w w1" by (simp add: within_def)
  then have c1: "calm w1" using calm by (simp add: same_env_calm)
  have t1: "w_files w1 t = Some (FileNode m0 data)" by (simp add: f1)
  obtain w2 where ch: "Chmod t mode w1 = (Inr (), w2)" using Chmod_calm [OF c1 t1] by blast
  have f2: "w_files w2 = (w_files w)(t \<mapsto> FileNode mode data)" using Chmod_ok [OF ch t1] f1 by simp
  have "within {t} w1 w2" by (rule stays_run [OF Chmod_within ch]) simp
  with e1 have e2: "same_env w w2" by (simp add: within_def same_env_def)
  then have c2: "calm w2" using calm by (simp add: same_env_calm)
  have "\<not> is_dir (w_files w2) path" using free ne by (simp add: f2 is_dir_def)
  then obtain v where rn: "Rename t path w2 = (Inr (), v)"
    and fv: "w_files v = (w_files w)(t := None, path \<mapsto> FileNode mode data)"
    using c2 by (simp add: Rename_def next_fault_def calm_def f2)
  have "within {t, path} w2 v" by (rule stays_run [OF Rename_within rn]) simp_all
  with e2 have "same_env w v" by (simp add: within_def same_env_def)
  with wr ch rn fv show ?thesis by (simp add: atomic_body_def act_bind_run act_wrap_run)
qed

text \<open>The target's directory chain has no file on it, its temporary names are free, the target is no directory.\<close>

definition room :: "files \<Rightarrow> string \<Rightarrow> bool" where
  "room fs path \<longleftrightarrow> \<not> is_dir fs path \<and> (\<forall>n. fs (temp_name (Dir path) n) = None) \<and>
     (\<forall>q \<in> set (path_chain (Dir path)). file_data fs q = None)"

lemma create_temp_first:
  assumes "calm w" and "w_files w (temp_name dir (fst (draw w))) = None" and "is_dir (w_files w) dir"
  shows "\<exists>v m. create_temp (Suc k) dir w = (Inr (temp_name dir (fst (draw w))), v) \<and>
    w_files v = (w_files w)(temp_name dir (fst (draw w)) \<mapsto> FileNode m [])"
  using assms by (auto simp: draw_def next_fault_def calm_def Let_def)

lemma WriteFileAtomic_calm:
  assumes calm: "calm w" and room: "room (w_files w) path" and dir: "Dir path \<noteq> []"
    and temp: "\<And>n. temp_name (Dir path) n \<noteq> path" "\<And>n. temp_name (Dir path) n \<notin> set (path_chain (Dir path))"
    and root: "\<And>n. temp_name (Dir path) n \<noteq> ''/'' \<and> temp_name (Dir path) n \<noteq> ''.''"
    and chain: "path \<notin> set (path_chain (Dir path))"
  shows "\<exists>v. WriteFileAtomic path data mode w = (Inr (), v) \<and> same_env w v \<and>
    w_files v path = Some (FileNode mode data) \<and>
    (\<forall>q. q \<noteq> path \<longrightarrow> w_files v q = w_files w q \<or> q \<in> set (path_chain (Dir path)) \<and> w_files v q = Some DirNode)"
proof -
  have "w_files w q \<noteq> Some (FileNode m d)" if "q \<in> set (path_chain (Dir path))" for q m d
  proof -
    have "file_data (w_files w) q = None" using room that by (simp add: room_def)
    then show ?thesis by (auto simp: file_data_def)
  qed
  from MkdirAll_calm [OF calm this] obtain u where mk: "MkdirAll (Dir path) w = (Inr (), u)" by blast
  note val = MkdirAll_value [OF mk]
  have "within {} w u" by (rule stays_run [OF MkdirAll_within mk])
  then have eu: "same_env w u" by (simp add: within_def)
  have cu: "calm u" using eu calm by (simp add: same_env_calm)
  have du: "is_dir (w_files u) (Dir path)" by (rule MkdirAll_made [OF mk dir])
  define n where "n = fst (draw u)"
  define t where "t = temp_name (Dir path) n"
  have tw: "w_files w t = None" using room by (simp add: room_def t_def)
  then have "w_files u t = None" using val [of t] temp(2) by (auto simp: t_def)
  then obtain x m0 where ct: "CreateTemp (Dir path) u = (Inr t, x)" and fx: "w_files x = (w_files u)(t \<mapsto> FileNode m0 [])"
    using create_temp_first [OF cu _ du, of 9999] by (auto simp: CreateTemp_def t_def n_def)
  have "within {t} u x" using create_temp_outcome [OF ct [unfolded CreateTemp_def]] by simp
  with eu have ex: "same_env w x" by (simp add: within_def same_env_def)
  then have cx: "calm x" using calm by (simp add: same_env_calm)
  have pt: "t \<noteq> path" using temp(1) by (simp add: t_def)
  have np: "\<not> is_dir (w_files x) path"
    using room val [of path] chain pt by (auto simp: room_def is_dir_def fx)
  have nt: "\<not> is_dir (w_files x) t" using root [of n] by (simp add: is_dir_def fx t_def)
  from atomic_body_calm [OF cx _ pt np nt, of m0] fx obtain y
    where body: "atomic_body t path data mode x = (Inr (), y)" and ey: "same_env x y"
      and fy: "w_files y = (w_files u)(t := None, path \<mapsto> FileNode mode data)" by auto
  have cy: "calm y" using ey cx by (simp add: same_env_calm)
  obtain r v where rm: "Remove t y = (r, v)" by fastforce
  have fv: "w_files v = w_files y" using rm cy fy pt by (auto simp: Remove_def next_fault_def calm_def)
  have "within {t} y v" by (rule stays_run [OF Remove_within rm]) simp
  with ex ey have ev: "same_env w v" by (simp add: within_def same_env_def)
  have run: "WriteFileAtomic path data mode w = (Inr (), v)"
    using mk ct body rm by (simp add: WriteFileAtomic_def act_bind_run act_wrap_run Let_def)
  have "w_files v q = w_files w q \<or> q \<in> set (path_chain (Dir path)) \<and> w_files v q = Some DirNode" if "q \<noteq> path" for q
    using that val [of q] tw by (cases "q = t") (simp_all add: fv fy)
  with run ev show ?thesis by (intro exI [of _ v]) (simp add: fv fy)
qed

section \<open>The last phase succeeds\<close>

definition kubeconfig_room :: "config \<Rightarrow> files \<Rightarrow> bool" where
  "kubeconfig_room cfg fs \<longleftrightarrow> (\<forall>x \<in> set owners. \<forall>p. owner_path cfg x = Some p \<longrightarrow> room fs p)"

lemma owner_path_shape:
  assumes "owner_path cfg x = Some p"
  obtains e where "p = dir_prefix (StateDir cfg) @ ''kubeconfigs'' @ slash # e" "plain_elem e" "\<not> prefix ''.capishim-'' e"
    "Dir p = dir_prefix (StateDir cfg) @ ''kubeconfigs''"
    "\<And>n. temp_name (Dir p) n = dir_prefix (StateDir cfg) @ ''kubeconfigs'' @ slash # ''.capishim-'' @ Itoa (int n) @ ''.tmp''"
proof -
  obtain e where p: "p = dir_prefix (StateDir cfg) @ ''kubeconfigs'' @ slash # e" and e: "plain_elem e" "\<not> prefix ''.capishim-'' e"
    using owner_path_kubeconfig [OF assms] kubeconfig_path_shape by blast
  have pr: "plain_rel ''kubeconfigs''" by (simp add: plain_rel_def plain_elem_def)
  have dir: "Dir p = dir_prefix (StateDir cfg) @ ''kubeconfigs''" unfolding p by (rule Dir_plain2 [OF pr e(1)])
  have "slash \<notin> set (Itoa (int n))" for n
    using Itoa_digits [of "int n"] by (auto simp: list_all_iff is_digit_def byte_val_def)
  then have "plain_elem (''.capishim-'' @ Itoa (int n) @ ''.tmp'')" for n by (auto simp: plain_elem_def)
  then have "temp_name (Dir p) n = dir_prefix (StateDir cfg) @ ''kubeconfigs'' @ slash # ''.capishim-'' @ Itoa (int n) @ ''.tmp''" for n
    unfolding dir by (simp add: temp_name_def PathJoin_plain plain_elem_rel dir_prefix_plain pr)
  with p e dir show thesis by (rule that)
qed

lemma owner_dirs: "owner_path cfg x = Some p \<Longrightarrow> owner_path cfg y = Some q \<Longrightarrow> Dir p = Dir q"
  by (erule owner_path_shape, erule owner_path_shape) simp

lemma owner_apart:
  assumes "owner_path cfg x = Some p"
  shows "temp_name (Dir p) n \<noteq> p" "temp_name (Dir p) n \<notin> set (path_chain (Dir p))" "p \<notin> set (path_chain (Dir p))"
    "temp_name (Dir p) n \<noteq> ''/'' \<and> temp_name (Dir p) n \<noteq> ''.''" "Dir p \<noteq> []"
  using assms
  by (rule owner_path_shape, auto dest!: path_chain_prefix prefix_length_le; auto simp: dir_prefix_def split: if_splits)+

lemma WriteKubeconfigFile_calm:
  assumes x: "owner_path cfg x = Some p" and calm: "calm w" and room: "kubeconfig_room cfg (w_files w)"
    and x': "x \<in> set owners" and ser: "ser kc = Inr data"
  shows "\<exists>v. WriteKubeconfigFile ser kc p w = (Inr (), v) \<and> calm v \<and> kubeconfig_room cfg (w_files v)"
proof -
  note apart = owner_apart [OF x]
  have "room (w_files w) p" using room x x' by (simp add: kubeconfig_room_def)
  from WriteFileAtomic_calm [OF calm this apart(5,1,2,4,3), of data kubeconfigFileMode] obtain v
    where run: "WriteFileAtomic p data kubeconfigFileMode w = (Inr (), v)" and env: "same_env w v"
      and at: "w_files v p = Some (FileNode kubeconfigFileMode data)"
      and others: "\<And>q. q \<noteq> p \<Longrightarrow> w_files v q = w_files w q \<or> q \<in> set (path_chain (Dir p)) \<and> w_files v q = Some DirNode"
    by blast
  have "room (w_files v) q" if y: "y \<in> set owners" "owner_path cfg y = Some q" for y q
  proof -
    note q = owner_apart [OF y(2)] and dir = owner_dirs [OF x y(2)]
    have old: "room (w_files w) q" using room y by (simp add: kubeconfig_room_def)
    have "\<not> is_dir (w_files v) q"
    proof (cases "q = p")
      case True
      with old at show ?thesis by (auto simp: room_def is_dir_def)
    next
      case False
      with others q(3) dir have "w_files v q = w_files w q" by metis
      with old show ?thesis by (simp add: room_def is_dir_def)
    qed
    moreover have "w_files v (temp_name (Dir q) n) = None" for n
    proof -
      have "w_files v (temp_name (Dir q) n) = w_files w (temp_name (Dir q) n)"
        using others [of "temp_name (Dir q) n"] apart(1) q(2) dir by metis
      with old show ?thesis by (simp add: room_def)
    qed
    moreover have "file_data (w_files v) r = None" if r: "r \<in> set (path_chain (Dir q))" for r
    proof -
      from r apart(3) dir have "r \<noteq> p" by auto
      moreover from old r have "file_data (w_files w) r = None" by (simp add: room_def)
      ultimately show ?thesis using others [of r] by (auto simp: file_data_def)
    qed
    ultimately show ?thesis by (simp add: room_def)
  qed
  then have "kubeconfig_room cfg (w_files v)" by (simp add: kubeconfig_room_def)
  moreover have "calm v" using env calm by (simp add: same_env_calm)
  ultimately show ?thesis
    using run ser by (intro exI [of _ v]) (simp add: WriteKubeconfigFile_def act_bind_lift act_wrap_run)
qed

lemma setup_kubeconfigs_calm:
  assumes calm: "calm w" and room: "kubeconfig_room cfg (w_files w)" and ser: "\<And>kc. is_ok (ser kc)"
  shows "\<exists>v. setup_kubeconfigs ser cfg server (generated_inventory (pki_of cfg)) w = (Inr (), v) \<and> kubeconfig_room cfg (w_files v)"
proof -
  let ?step = "owner_step ser cfg server (generated_inventory (pki_of cfg))"
  have step: "\<exists>v. ?step x w = (Inr (), v) \<and> calm v \<and> kubeconfig_room cfg (w_files v)"
    if it: "x \<in> set owners" "calm w" "kubeconfig_room cfg (w_files w)" for x w
  proof (cases "owner_path cfg x")
    case None
    have named: "ManagerCN spec = []" if "spec \<in> set Components" "KubeconfigPath cfg (ID spec) = None" for spec
      using that KubeconfigPath_eq [of cfg "ID spec"] by (auto simp: is_manager_def)
    from that(1) None have "\<exists>spec. x = Some spec \<and> ManagerCN spec = []"
      by (auto simp: owner_path_def owners_def split: option.splits if_splits intro: named)
    with that show ?thesis by (auto simp: owner_step_def manager_kubeconfig_def)
  next
    case (Some p)
    obtain a where a: "owner_artifact (generated_inventory (pki_of cfg)) x = Some a"
      using owner_artifacts [OF it(1)] Some by blast
    let ?kc = "BuildKubeconfig server (CertPath (CA (generated_inventory (pki_of cfg)))) (CertPath a) (KeyPath a)"
    obtain data where data: "ser ?kc = Inr data" using ser [of ?kc] by (auto simp: is_ok_iff)
    from WriteKubeconfigFile_calm [where ser = ser, OF Some it(2,3,1) data] obtain v
      where "WriteKubeconfigFile ser ?kc p w = (Inr (), v)" "calm v" "kubeconfig_room cfg (w_files v)" by blast
    with a Some show ?thesis
      by (cases x) (auto simp: owner_step_def owner_path_def owner_artifact_def manager_kubeconfig_def act_wrap_run
          simp del: ManagerArtifact.simps split: if_splits)
  qed
  have "\<exists>v. act_iter ?step xs w = (Inr (), v) \<and> kubeconfig_room cfg (w_files v)" if "set xs \<subseteq> set owners" for xs
    using that calm room
  proof (induction xs arbitrary: w)
    case Nil
    then show ?case by simp
  next
    case (Cons x xs)
    then obtain v where "?step x w = (Inr (), v)" "calm v" "kubeconfig_room cfg (w_files v)"
      using step [of x w] by auto
    with Cons show ?case by (simp add: act_bind_run)
  qed
  then show ?thesis by (simp add: setup_kubeconfigs_owners)
qed

section \<open>The API server answers and accepts\<close>

text \<open>
  A server that answers every request, accepts every object, and shows every CRD as established; and
  a standard library that takes the certificates and the pairs that client-go can parse.
\<close>

definition healthy ::
  "('c, 's, 'r, 'm) platform \<Rightarrow> ('c \<Rightarrow> store) \<Rightarrow> (obj \<Rightarrow> obj \<Rightarrow> bool) \<Rightarrow> bool" where
  "healthy P view same \<longleftrightarrow>
     (\<forall>rc. \<exists>dyn. NewDynamic P rc = Inr dyn \<and> client_ok (pf_lib P) dyn view same \<and> accepting (pf_lib P) dyn view) \<and>
     (\<forall>rc. \<exists>get. NewApiext P rc = Inr get \<and> (\<forall>n c. \<exists>conds d. get n c = (Inr conds, d) \<and> crdEstablished conds)) \<and>
     (\<forall>url c. \<exists>d. Do (pf_prober P) url c = (Inr None, d)) \<and>
     (\<forall>data. ParseCertsPEM (pf_pem P) data \<noteq> None \<longrightarrow> AppendCertsFromPEM (pf_prober P) data) \<and>
     (\<forall>certPEM keyPEM certs key. ParseCertsPEM (pf_pem P) certPEM = Some certs \<longrightarrow>
        ParsePrivateKeyPEM (pf_pem P) keyPEM = Some key \<longrightarrow> is_signer key \<longrightarrow>
        publicKeysEqual (Public key) (PublicKey (certs ! 0)) \<longrightarrow> X509KeyPair (pf_prober P) certPEM keyPEM = Inr ())"

lemma read_data:
  assumes "calm w" and "file_data (w_files w) p = Some d"
  shows "\<exists>v. ReadFile p w = (Inr d, v) \<and> same_disk w v"
  using ReadFile_calm assms unfolding file_data_Some by blast

lemma probe_setup_calm:
  assumes h: "healthy P view same" and calm: "calm w"
    and ca: "cert_on_disk (pf_pem P) (w_files w) ca \<noteq> None" and pair: "pair_on_disk (pf_pem P) (w_files w) cert key"
  shows "\<exists>v. probe_setup (pf_prober P) ca cert key w = (Inr (), v) \<and> same_disk w v"
proof -
  obtain d where d: "file_data (w_files w) ca = Some d" "ParseCertsPEM (pf_pem P) d \<noteq> None"
    using ca by (auto simp: cert_on_disk_def split: option.splits)
  obtain cd cs where c: "file_data (w_files w) cert = Some cd" "ParseCertsPEM (pf_pem P) cd = Some cs"
    using pair by (auto simp: pair_on_disk_def cert_on_disk_def split: option.splits)
  obtain kd k where k: "file_data (w_files w) key = Some kd" "ParsePrivateKeyPEM (pf_pem P) kd = Some k" "is_signer k"
    using pair by (auto simp: pair_on_disk_def key_on_disk_def split: option.splits if_splits)
  have "publicKeysEqual (Public k) (PublicKey (cs ! 0))"
    using pair c k by (simp add: pair_on_disk_def cert_on_disk_def key_on_disk_def)
  with h c k have x: "X509KeyPair (pf_prober P) cd kd = Inr ()" unfolding healthy_def by blast
  have app: "AppendCertsFromPEM (pf_prober P) d" using h d(2) unfolding healthy_def by blast
  obtain w1 where r1: "ReadFile ca w = (Inr d, w1)" "same_disk w w1" using read_data [OF calm d(1)] by blast
  then have "calm w1" "file_data (w_files w1) cert = Some cd"
    using calm c(1) by (simp_all add: same_disk_calm, simp add: same_disk_def)
  from read_data [OF this] obtain w2 where r2: "ReadFile cert w1 = (Inr cd, w2)" "same_disk w1 w2" by blast
  with r1 have s2: "same_disk w w2" by (blast intro: same_disk_trans)
  then have "calm w2" "file_data (w_files w2) key = Some kd"
    using calm k(1) by (simp_all add: same_disk_calm, simp add: same_disk_def)
  from read_data [OF this] obtain w3 where r3: "ReadFile key w2 = (Inr kd, w3)" "same_disk w2 w3" by blast
  have "probe_setup (pf_prober P) ca cert key w = (Inr (), w3)"
    using r1(1) r2(1) r3(1) app x
    by (simp add: probe_setup_def LoadX509KeyPair_def act_bind_run act_wrap_run act_bind_def)
  with s2 r3(2) show ?thesis by (blast intro: same_disk_trans)
qed

lemma read_clock_same: "read_clock s = (now, t) \<Longrightarrow> same_disk (fst s) (fst t)"
  by (auto simp: read_clock_def Now_def same_disk_def same_env_def split: prod.splits)

lemma wait_apiserver_calm:
  assumes h: "healthy P view same" and calm: "calm (fst s)" and url: "url_Parse url \<noteq> None"
    and ca: "cert_on_disk (pf_pem P) (w_files (fst s)) ca \<noteq> None"
    and pair: "pair_on_disk (pf_pem P) (w_files (fst s)) cert key"
  shows "\<exists>t. WaitForAPIServer (pf_prober P) url ca cert key timeout s = Some (Inr (), t) \<and> same_disk (fst s) (fst t)"
proof -
  obtain v where v: "probe_setup (pf_prober P) ca cert key (fst s) = (Inr (), v)" and sv: "same_disk (fst s) v"
    using probe_setup_calm [OF h calm ca pair] by blast
  obtain now u where now: "read_clock (v, snd s) = (now, u)" by (cases "read_clock (v, snd s)") blast
  have "same_disk v (fst u)" using read_clock_same [OF now] by simp
  with sv have su: "same_disk (fst s) (fst u)" by (rule same_disk_trans)
  obtain d where "Do (pf_prober P) url (snd u) = (Inr None, d)" using h unfolding healthy_def by blast
  with url have "probe_healthz (pf_prober P) url u = (Inr None, (fst u, d))"
    by (auto simp: probe_healthz_def)
  then have "poll (probe_healthz (pf_prober P) url) (NotReady timeout) WaitCancelled apiserverPollInterval (now + timeout) u
      = Some (Inr (), (fst u, d))"
    by (subst poll.simps) simp
  with v now su show ?thesis by (simp add: WaitForAPIServer_def on_machine_def)
qed

lemma wait_crds_calm:
  assumes get: "\<And>n c. \<exists>conds d. get n c = (Inr conds, d) \<and> crdEstablished conds"
  shows "\<exists>t. WaitForCRDEstablished get names timeout s = Some (Inr (), t) \<and> same_disk (fst s) (fst t)"
proof (cases "names = []")
  case True
  then show ?thesis by (simp add: WaitForCRDEstablished_def)
next
  case False
  have all: "\<exists>d. firstUnestablishedCRD get ns c = (Inr [], d)" for ns c
  proof (induction ns arbitrary: c)
    case Nil
    then show ?case by simp
  next
    case (Cons n ns)
    obtain conds d where "get n c = (Inr conds, d)" "crdEstablished conds" using get by blast
    with Cons [of d] show ?case by (simp add: act_bind_run act_wrap_run)
  qed
  obtain now u where now: "read_clock s = (now, u)" by (cases "read_clock s") blast
  obtain d where "firstUnestablishedCRD get names (snd u) = (Inr [], d)" using all by blast
  then have "check_crds get names u = (Inr None, (fst u, d))"
    by (simp add: check_crds_def act_bind_def on_cluster_def)
  then have "poll (check_crds get names) (\<lambda>name. NotEstablished name timeout) CRDWaitCancelled crdPollInterval (now + timeout) u
      = Some (Inr (), (fst u, d))"
    by (subst poll.simps) simp
  with False now read_clock_same [OF now] show ?thesis by (simp add: WaitForCRDEstablished_def)
qed

section \<open>The manifests can be applied\<close>

definition has_metadata :: "obj \<Rightarrow> bool" where
  "has_metadata x \<longleftrightarrow> (\<exists>m. x ''metadata'' = Some (JObj m))"

definition applicable :: "('c, 's, 'r, 'm) platform \<Rightarrow> config \<Rightarrow> files \<Rightarrow> string \<Rightarrow> bool" where
  "applicable P cfg fs root \<longleftrightarrow>
     (\<exists>loaded kept objs.
        LoadDedupedObjects (pf_lib P) (read_file fs) (pf_decoder P) (ProviderManifestFiles root) = Inr loaded \<and>
        clean_manifests (pf_lib P) loaded \<and>
        kept = keepObjects (pf_lib P) (RestrictCAPIVersionsToV1Beta2 (pf_lib P) loaded) \<and>
        RewriteRBACSubjects (pf_lib P) ManagerCNByNamespace kept = Inr objs \<and>
        (\<forall>x \<in> set kept. GetKind (pf_lib P) x = kindClusterRoleBinding \<longrightarrow> GetName (pf_lib P) x \<noteq> ''capishim-admin'') \<and>
        (\<forall>x \<in> set kept \<union> set objs. has_metadata x) \<and>
        (\<forall>ca. \<exists>ws. webhook_batch P cfg ca kept = Inr ws \<and> list_all has_metadata ws))"

lemma dedupe_read_calm:
  assumes "calm w" and "dedupe_files L (read_file (w_files w)) D paths st = Inr st'"
  shows "\<exists>v. dedupe_read L D paths st w = (Inr st', v) \<and> same_disk w v"
  using assms
proof (induction paths arbitrary: st w)
  case Nil
  then show ?case by simp
next
  case (Cons path paths)
  then obtain data parsed st1 where rd: "read_file (w_files w) path = Inr data" and ps: "Parse D data = Inr parsed"
    and dd: "dedupe_docs L path parsed st = Inr st1"
    and rest: "dedupe_files L (read_file (w_files w)) D paths st1 = Inr st'"
    by (auto simp: result_simps)
  from rd have "file_data (w_files w) path = Some data"
    by (auto simp: read_file_def file_at_def file_data_def split: option.splits node.splits)
  with Cons.prems(1) obtain u where u: "ReadFile path w = (Inr data, u)" "same_disk w u" using read_data by blast
  then have "calm u" "w_files u = w_files w" using Cons.prems(1) by (simp_all add: same_disk_calm, simp add: same_disk_def)
  with Cons.IH [of u st1] rest obtain v where "dedupe_read L D paths st1 u = (Inr st', v)" "same_disk u v" by auto
  with u ps dd show ?case by (auto simp: act_bind_run act_wrap_run act_bind_lift intro: same_disk_trans)
qed

lemma load_deduped_calm:
  assumes "calm w" and "LoadDedupedObjects L (read_file (w_files w)) D paths = Inr objs"
  shows "\<exists>v. load_deduped L D paths w = (Inr objs, v)"
proof -
  obtain st where st: "dedupe_files L (read_file (w_files w)) D paths \<lparr>dd_objs = [], dd_sources = [], dd_first = (\<lambda>_. None)\<rparr> = Inr st"
    "objs = dd_objs st" using assms(2) by (auto simp: LoadDedupedObjects_def result_simps)
  from dedupe_read_calm [OF assms(1) st(1)] st(2) show ?thesis by (auto simp: load_deduped_def act_bind_run)
qed

lemma apply_calm:
  assumes "k8s_lib_ok L" and "client_ok L dyn view same" and "accepting L dyn view" and "valid_batch L xs"
    and "\<forall>x \<in> set xs. has_metadata x"
  shows "\<exists>c'. Apply L dyn xs c = (Inr (), c')"
  using apply_all_accepted [OF assms(1-3)] assms(5) by (simp add: Apply_valid [OF assms(4)] has_metadata_def)

lemma webhook_batch_sound:
  assumes "converter_ok (pf_lib P) (pf_converter P)" and "valid_batch (pf_lib P) kept" and "webhook_batch P cfg ca kept = Inr ws"
  shows "valid_batch (pf_lib P) ws"
proof -
  let ?opts = "[Some (WithExternalWebhookHost (HypervisorWebhookHost cfg) [hypervisorWebhookPort])]"
  obtain ts where ts: "WebhookObjects (pf_lib P) (pf_converter P) kept = Inr ts"
    using assms(3) by (auto simp: webhook_batch_def bind_result_Inr_iff wrap_err_Inr_iff)
  obtain e ts' where rw: "RewriteAll ts RewriteWebhookPortsByNamespace ca ?opts = (e, ts')"
    by (cases "RewriteAll ts RewriteWebhookPortsByNamespace ca ?opts") blast
  with assms(3) ts have "e = None" "UnstructuredObjects (pf_converter P) ts' = Inr ws"
    by (cases e; simp add: webhook_batch_def bind_result_Inr_iff wrap_err_Inr_iff)+
  with webhook_batch_valid [OF assms(1) ts assms(2)] rw show ?thesis by blast
qed

section \<open>Setup succeeds\<close>

lemma names_not_in_dir:
  "list_all (\<lambda>n. \<not> prefix n ''kubeconfigs'') all_names" "list_all (\<lambda>d. \<not> prefix ''kubeconfigs'' d) dir_names"
  by (simp_all add: all_names_def ca_names_def leaf_names_def sa_names_def dir_names_def)

text \<open>The certificate phase leaves the kubeconfigs' names as they are.\<close>

lemma Generate_leaves_room:
  assumes room: "kubeconfig_room cfg (w_files w)" and run: "Generate lib None (pki_of cfg) w = (r, v)"
  shows "kubeconfig_room cfg (w_files v)"
proof -
  let ?A = "ca_paths_of (pki_of cfg) \<union> issued_paths (pki_of cfg)"
  have fr: "only_writes ?A (w_files w) (w_files v)"
    using stays_run [OF Generate_within run] by (simp add: within_def)
  have name: "w_files v q = w_files w q" if q: "q = dir_prefix (StateDir cfg) @ ''kubeconfigs'' @ e" for q e
  proof -
    have "q \<notin> ?A"
      using names_outside q unfolding all_paths by (auto simp: artifact_path_def pki_of_def list_all_iff)
    moreover have "q \<notin> set (path_chain (artifact_path (pki_of cfg) d))" if d: "d \<in> set dir_names" for d
    proof
      assume "q \<in> set (path_chain (artifact_path (pki_of cfg) d))"
      then have "prefix (''kubeconfigs'' @ e) d" by (auto simp: q artifact_path_def pki_of_def dest!: path_chain_prefix)
      then have "prefix ''kubeconfigs'' d" by (rule append_prefixD)
      with names_not_in_dir(2) d show False by (simp add: list_all_iff)
    qed
    then have "no_new_dir q w v" by (intro stays_run [OF Generate_no_new_dir run]) blast
    ultimately show ?thesis using fr by (auto simp: only_writes_def no_new_dir_def)
  qed
  have "room (w_files v) p" if x: "x \<in> set owners" "owner_path cfg x = Some p" for x p
  proof -
    have old: "room (w_files w) p" using room x by (simp add: kubeconfig_room_def)
    from x(2) obtain e where p: "p = dir_prefix (StateDir cfg) @ ''kubeconfigs'' @ slash # e" by (rule owner_path_shape)
    have dir: "Dir p = dir_prefix (StateDir cfg) @ ''kubeconfigs''" by (rule owner_path_shape [OF x(2)])
    have temp: "temp_name (Dir p) n = dir_prefix (StateDir cfg) @ ''kubeconfigs'' @ slash # ''.capishim-'' @ Itoa (int n) @ ''.tmp''" for n
      by (rule owner_path_shape [OF x(2)])
    have "file_data (w_files v) q = None" if q: "q \<in> set (path_chain (Dir p))" for q
    proof -
      have "q \<notin> ?A"
        using names_not_in_dir(1) q unfolding all_paths dir
        by (auto simp: artifact_path_def pki_of_def list_all_iff dest!: path_chain_prefix)
      then show ?thesis using only_writes_data [OF fr] old q by (simp add: room_def)
    qed
    with old name [OF p] name [OF temp] show ?thesis by (simp add: room_def is_dir_def)
  qed
  then show ?thesis by (simp add: kubeconfig_room_def)
qed

lemma admin_has_metadata: "has_metadata (AdminClusterRoleBinding cn)"
  by (simp add: has_metadata_def AdminClusterRoleBinding_def)

text \<open>The four phases against the server.\<close>

lemma clients_calm:
  assumes h: "healthy P view same" and url: "url_Parse (server @ ''/healthz'') \<noteq> None" and calm: "calm (fst s)"
    and full: "complete (pf_pem P) cfg (w_files (fst s))"
  shows "\<exists>dyn apiext t. setup_clients P server timeout (generated_inventory cfg) s = Some (Inr (dyn, apiext), t) \<and>
    client_ok (pf_lib P) dyn view same \<and> accepting (pf_lib P) dyn view \<and>
    (\<forall>n c. \<exists>conds d. apiext n c = (Inr conds, d) \<and> crdEstablished conds) \<and> same_disk (fst s) (fst t)"
proof -
  let ?i = "generated_inventory cfg"
  have paths: "CertPath (CA ?i) = ca_cert_path cfg" "CertPath (Admin ?i) = artifact_path cfg ''pki/admin.crt''"
    "KeyPath (Admin ?i) = artifact_path cfg ''pki/admin.key''"
    by (simp_all add: generated_inventory_def newInventory_def inventory_artifact_def pki_dir_def artifact_path_def
        ca_path_eqs pki_path plain_elem_def plain_elem_rel caCertName_def)
  have ca: "cert_on_disk (pf_pem P) (w_files (fst s)) (CertPath (CA ?i)) \<noteq> None"
    using full by (auto simp: complete_def authority_on_disk_def paths split: option.splits)
  have "(''pki/admin.crt'', ''pki/admin.key'') \<in> set leaf_names" by (simp add: leaf_names_def)
  then have pair: "pair_on_disk (pf_pem P) (w_files (fst s)) (CertPath (Admin ?i)) (KeyPath (Admin ?i))"
    using full by (force simp: complete_def list_all_iff paths)
  obtain t where t: "WaitForAPIServer (pf_prober P) (server @ ''/healthz'') (CertPath (CA ?i)) (CertPath (Admin ?i))
      (KeyPath (Admin ?i)) timeout s = Some (Inr (), t)" and same: "same_disk (fst s) (fst t)"
    using wait_apiserver_calm [OF h calm url ca pair] by blast
  let ?rc = "\<lparr>rc_Host = server, rc_CAFile = CertPath (CA ?i), rc_CertFile = CertPath (Admin ?i), rc_KeyFile = KeyPath (Admin ?i)\<rparr>"
  obtain dyn where dyn: "NewDynamic P ?rc = Inr dyn" "client_ok (pf_lib P) dyn view same" "accepting (pf_lib P) dyn view"
    using h unfolding healthy_def by blast
  obtain get where get: "NewApiext P ?rc = Inr get" "\<forall>n c. \<exists>conds d. get n c = (Inr conds, d) \<and> crdEstablished conds"
    using h unfolding healthy_def by blast
  show ?thesis
    using t dyn get same
    by (intro exI [of _ dyn] exI [of _ get] exI [of _ t]) (simp add: setup_clients_def st_bind_def st_wrap_def st_act_def Let_def)
qed

lemma crds_calm:
  assumes lib: "k8s_lib_ok (pf_lib P)" and client: "client_ok (pf_lib P) dyn view same" "accepting (pf_lib P) dyn view"
    and get: "\<forall>n c. \<exists>conds d. get n c = (Inr conds, d) \<and> crdEstablished conds" and calm: "calm (fst s)"
    and load: "LoadDedupedObjects (pf_lib P) (read_file (w_files (fst s))) (pf_decoder P) (ProviderManifestFiles root) = Inr loaded"
    and kept: "kept = keepObjects (pf_lib P) (RestrictCAPIVersionsToV1Beta2 (pf_lib P) loaded)"
    and valid: "valid_batch (pf_lib P) (WithoutRBACBindings (pf_lib P) kept)" and meta: "\<forall>x \<in> set kept. has_metadata x"
  shows "\<exists>t. setup_crds P dyn get root s = Some (Inr kept, t) \<and> same_disk (fst s) (fst t)"
proof -
  obtain w where w: "load_deduped (pf_lib P) (pf_decoder P) (ProviderManifestFiles root) (fst s) = (Inr loaded, w)"
    using load_deduped_calm [OF calm load] by blast
  have sw: "same_disk (fst s) w" by (rule stays_run [OF load_deduped_reads w])
  have "\<forall>x \<in> set (WithoutRBACBindings (pf_lib P) kept). has_metadata x"
    using meta by (simp add: WithoutRBACBindings_def)
  from apply_calm [OF lib client valid this] obtain c
    where c: "Apply (pf_lib P) dyn (WithoutRBACBindings (pf_lib P) kept) (snd s) = (Inr (), c)" by blast
  obtain t where t: "WaitForCRDEstablished get (CrdNamesFrom (pf_lib P) kept) crdWaitTimeout (w, c) = Some (Inr (), t)"
    and "same_disk w (fst t)"
    using wait_crds_calm [where get = get and s = "(w, c)"] get by (metis fst_conv)
  with sw have "same_disk (fst s) (fst t)" by (blast intro: same_disk_trans)
  then show ?thesis
    using w c t kept
    by (intro exI [of _ t])
      (simp add: setup_crds_def st_bind_def st_wrap_def st_act_def Let_def act_wrap_def on_machine_def on_cluster_def)
qed

lemma dedupe_files_cong:
  "(\<And>p. p \<in> set paths \<Longrightarrow> read1 p = read2 p) \<Longrightarrow> dedupe_files L read1 D paths st = dedupe_files L read2 D paths st"
proof (induction paths arbitrary: st)
  case Nil
  then show ?case by simp
next
  case (Cons p ps)
  then have "dedupe_files L read1 D ps = dedupe_files L read2 D ps" by (intro ext) simp
  with Cons.prems show ?case by simp
qed

lemma begin_calm:
  assumes lib: "pem_ok (pf_pem P)"
    and env: "Config.Load env = Inr cfg" "ManifestsDir env = Inr root" "APIServerTimeout (pf_fraction P) env = Inr timeout"
    and bind: "SplitHostPort (BindAddress cfg) = Inr (host, port)"
    and names: "names_ok (pf_pem P) (fst (apiserverSANs host) @ fst (hypervisorWebhookSANs (HypervisorWebhookHost cfg)))"
    and machine: "clock_mono w" "ready (pki_of cfg) w" "kubeconfig_room cfg (w_files w)"
    and authority: "file_data (w_files w) (ca_cert_path (pki_of cfg)) = None \<and> file_data (w_files w) (ca_key_path (pki_of cfg)) = None \<or>
      authority_on_disk (pf_pem P) (w_files w) (ca_cert_path (pki_of cfg)) (ca_key_path (pki_of cfg)) \<noteq> None"
  obtains v where "setup_begin P None env w = (Inr (cfg, root, timeout, generated_inventory (pki_of cfg)), v)"
    and "complete (pf_pem P) (pki_of cfg) (w_files v)" and "kubeconfig_room cfg (w_files v)"
    and "within (ca_paths_of (pki_of cfg) \<union> issued_paths (pki_of cfg)) w v" and "calm v" and "clock_mono v"
proof -
  let ?i = "generated_inventory (pki_of cfg)"
  have "bindHost (PkiBindAddress (pki_of cfg)) = Inr host" using loaded_bind_url [OF env(1) bind] by (simp add: pki_of_def)
  from Generate_ready [OF lib this _ machine(2) authority] names obtain v
    where gen: "Generate (pf_pem P) None (pki_of cfg) w = (Inr ?i, v)" by (auto simp: pki_of_def)
  have begin_run: "setup_begin P None env w = (Inr (cfg, root, timeout, ?i), v)"
    by (simp add: setup_begin_def env act_bind_lift act_bind_def act_wrap_def gen)
  have fr: "within (ca_paths_of (pki_of cfg) \<union> issued_paths (pki_of cfg)) w v" by (rule stays_run [OF Generate_within gen])
  then have "calm v" "clock_mono v"
    using machine(1,2) by (auto simp: ready_def dest: within_calm) (simp add: clock_mono_def within_def same_env_def)
  from that [OF begin_run Generate_complete [OF lib gen] Generate_leaves_room [OF machine(3) gen] fr this] show thesis .
qed

lemma rbac_calm:
  assumes "k8s_lib_ok (pf_lib P)" and "client_ok (pf_lib P) dyn view same" and "accepting (pf_lib P) dyn view"
    and rb: "RewriteRBACSubjects (pf_lib P) ManagerCNByNamespace kept = Inr objs"
    and valid: "valid_batch (pf_lib P) (objs @ [AdminClusterRoleBinding adminCN])" and meta: "\<forall>x \<in> set objs. has_metadata x"
  shows "\<exists>d. setup_rbac P dyn kept c = (Inr (), d)"
proof -
  have "\<forall>x \<in> set (objs @ [AdminClusterRoleBinding adminCN]). has_metadata x" using meta admin_has_metadata by auto
  from apply_calm [OF assms(1-3) valid this, of c] obtain d
    where "Apply (pf_lib P) dyn (objs @ [AdminClusterRoleBinding adminCN]) c = (Inr (), d)" by blast
  then show ?thesis by (simp add: setup_rbac_def rb act_bind_lift act_wrap_def)
qed

lemma webhooks_calm:
  assumes lib: "k8s_lib_ok (pf_lib P)" "converter_ok (pf_lib P) (pf_converter P)"
    and dyn: "client_ok (pf_lib P) dyn view same" "accepting (pf_lib P) dyn view"
    and valid: "valid_batch (pf_lib P) kept" and calm: "calm w" and ca: "file_data (w_files w) (CertPath (CA inven)) = Some ca"
    and hooks: "\<And>ca. \<exists>ws. webhook_batch P cfg ca kept = Inr ws \<and> list_all has_metadata ws"
  shows "\<exists>v d. setup_webhooks P dyn cfg inven kept (w, c) = (Inr (), (v, d)) \<and> same_disk w v"
proof -
  obtain v where rd: "ReadFile (CertPath (CA inven)) w = (Inr ca, v)" "same_disk w v"
    using read_data [OF calm ca] by blast
  obtain ws where ws: "webhook_batch P cfg ca kept = Inr ws" "list_all has_metadata ws" using hooks by blast
  from apply_calm [OF lib(1) dyn webhook_batch_sound [OF lib(2) valid ws(1)], of c] ws(2) obtain d
    where "Apply (pf_lib P) dyn ws c = (Inr (), d)" by (auto simp: list_all_iff)
  then have "setup_webhooks P dyn cfg inven kept (w, c) = (Inr (), (v, d))"
    using rd(1) ws(1) by (simp add: setup_webhooks_def act_bind_def act_wrap_def on_machine_def on_cluster_def)
  with rd(2) show ?thesis by blast
qed

text \<open>
  When setup succeeds. The environment is valid and the port is written in digits; no call fails, no
  directory is at a path that setup writes and no file where a directory must be, the clock shows a
  year that ten-year certificates can carry, and the authority is missing or valid; the manifests load,
  and can be rewritten and converted; the API server answers, accepts and establishes the CRDs. What such a
  run changes: first certificates, until the inventory is complete, then kubeconfigs.
\<close>

lemma setup_succeeds_run:
  assumes lib: "pem_ok (pf_pem P)" "k8s_lib_ok (pf_lib P)" "converter_ok (pf_lib P) (pf_converter P)"
    and env: "Config.Load env = Inr cfg" "ManifestsDir env = Inr root" "APIServerTimeout (pf_fraction P) env = Inr timeout"
    and bind: "SplitHostPort (BindAddress cfg) = Inr (host, port)" "list_all is_digit port"
    and names: "names_ok (pf_pem P) (fst (apiserverSANs host) @ fst (hypervisorWebhookSANs (HypervisorWebhookHost cfg)))"
    and machine: "clock_mono (fst s)" "ready (pki_of cfg) (fst s)" "kubeconfig_room cfg (w_files (fst s))"
    and authority: "file_data (w_files (fst s)) (ca_cert_path (pki_of cfg)) = None \<and>
        file_data (w_files (fst s)) (ca_key_path (pki_of cfg)) = None \<or>
      authority_on_disk (pf_pem P) (w_files (fst s)) (ca_cert_path (pki_of cfg)) (ca_key_path (pki_of cfg)) \<noteq> None"
    and manifests: "applicable P cfg (w_files (fst s)) root"
      "set (ProviderManifestFiles root) \<inter> (ca_paths_of (pki_of cfg) \<union> issued_paths (pki_of cfg)) = {}"
    and server: "healthy P view same" and ser: "\<forall>kc. is_ok (SerializeKC P kc)"
  shows "\<exists>t w1. setup_cmd P None env s = Some (Inr (), t) \<and> kubeconfig_room cfg (w_files (fst t)) \<and>
    within (ca_paths_of (pki_of cfg) \<union> issued_paths (pki_of cfg)) (fst s) w1 \<and> complete (pf_pem P) (pki_of cfg) (w_files w1) \<and>
    within (\<Union> (owner_names cfg ` set owners)) w1 (fst t)"
proof -
  let ?i = "generated_inventory (pki_of cfg)" and ?server = "APIServerURL (BindAddress cfg)"
  let ?A = "ca_paths_of (pki_of cfg) \<union> issued_paths (pki_of cfg)"
  from begin_calm [OF lib(1) env bind(1) names machine authority] obtain w1
    where begin_run: "setup_begin P None env (fst s) = (Inr (cfg, root, timeout, ?i), w1)"
      and full: "complete (pf_pem P) (pki_of cfg) (w_files w1)" and room: "kubeconfig_room cfg (w_files w1)"
      and fr: "within ?A (fst s) w1" and w1: "calm w1" "clock_mono w1" .
  have "url_Parse (?server @ ''/healthz'') \<noteq> None"
    using loaded_bind_url [OF env(1) bind(1)] loopback_authority [OF bind(2)] by (simp add: apiserverSchemeHost_def)
  from clients_calm [OF server this, of "(w1, snd s)" "pki_of cfg" timeout] full w1(1) obtain dyn get s2
    where cl: "setup_clients P ?server timeout ?i (w1, snd s) = Some (Inr (dyn, get), s2)"
      and dyn: "client_ok (pf_lib P) dyn view same" "accepting (pf_lib P) dyn view"
      and get: "\<forall>n c. \<exists>conds d. get n c = (Inr conds, d) \<and> crdEstablished conds" and sd2: "same_disk w1 (fst s2)" by auto
  then have m2: "calm (fst s2)" "w_files (fst s2) = w_files w1"
    using w1 by (simp_all add: same_disk_calm) (simp add: same_disk_def)
  obtain loaded kept objs where
    load: "LoadDedupedObjects (pf_lib P) (read_file (w_files (fst s))) (pf_decoder P) (ProviderManifestFiles root) = Inr loaded"
    and clean: "clean_manifests (pf_lib P) loaded"
    and kept: "kept = keepObjects (pf_lib P) (RestrictCAPIVersionsToV1Beta2 (pf_lib P) loaded)"
    and rb: "RewriteRBACSubjects (pf_lib P) ManagerCNByNamespace kept = Inr objs"
    and fresh: "\<forall>x \<in> set kept. GetKind (pf_lib P) x = kindClusterRoleBinding \<longrightarrow> GetName (pf_lib P) x \<noteq> ''capishim-admin''"
    and meta: "\<forall>x \<in> set kept \<union> set objs. has_metadata x"
    and hooks: "\<And>ca. \<exists>ws. webhook_batch P cfg ca kept = Inr ws \<and> list_all has_metadata ws"
    using manifests(1) unfolding applicable_def by blast
  have "read_file (w_files (fst s2)) p = read_file (w_files (fst s)) p" if "p \<in> set (ProviderManifestFiles root)" for p
  proof -
    have "p \<notin> ?A" using manifests(2) that by blast
    from file_at_within [OF fr this] m2(2) show ?thesis by (simp add: read_file_def)
  qed
  then have load2: "LoadDedupedObjects (pf_lib P) (read_file (w_files (fst s2))) (pf_decoder P) (ProviderManifestFiles root) = Inr loaded"
    using load dedupe_files_cong unfolding LoadDedupedObjects_def by metis
  note batches = pipeline_batches [OF lib(2) load clean kept rb fresh]
  have keptv: "valid_batch (pf_lib P) kept" using pipeline_kept_valid [OF lib(2) load clean] kept by simp
  obtain s3 where cr: "setup_crds P dyn get root s2 = Some (Inr kept, s3)" and "same_disk (fst s2) (fst s3)"
    using crds_calm [OF lib(2) dyn get m2(1) load2 kept] batches meta by auto
  with sd2 have sd3: "same_disk w1 (fst s3)" by (blast intro: same_disk_trans)
  obtain c4 where c4: "setup_rbac P dyn kept (snd s3) = (Inr (), c4)"
    using rbac_calm [OF lib(2) dyn rb] batches meta by blast
  have m3: "calm (fst s3)" "w_files (fst s3) = w_files w1"
    using sd3 w1 by (simp_all add: same_disk_calm) (simp add: same_disk_def)
  obtain ca where ca: "file_data (w_files (fst s3)) (CertPath (CA ?i)) = Some ca"
    using full begin_inventory [OF begin_run] m3(2)
    by (auto simp: complete_def authority_on_disk_def cert_on_disk_def split: option.splits)
  from webhooks_calm [OF lib(2,3) dyn keptv m3(1) ca hooks, of c4] obtain w5 c5
    where wh: "setup_webhooks P dyn cfg ?i kept (fst s3, c4) = (Inr (), (w5, c5))" and rd: "same_disk (fst s3) w5" by blast
  have "calm w5" "kubeconfig_room cfg (w_files w5)"
    using rd m3 room by (simp_all add: same_disk_calm) (simp add: same_disk_def)
  from setup_kubeconfigs_calm [where ser = "SerializeKC P", OF this] ser obtain w6
    where kc: "setup_kubeconfigs (SerializeKC P) cfg ?server ?i w5 = (Inr (), w6)" and room6: "kubeconfig_room cfg (w_files w6)"
    by blast
  have "within (\<Union> (owner_names cfg ` set owners)) w5 w6"
    by (rule stays_run [OF kubeconfigs.loop_within kc [unfolded setup_kubeconfigs_owners]])
  moreover have "within {} w1 w5" using same_disk_trans [OF sd3 rd] by (rule same_disk_within)
  ultimately have "within (\<Union> (owner_names cfg ` set owners)) w1 w6" by (blast intro: within_trans within_mono)
  moreover have "setup_cmd P None env s = Some (Inr (), (w6, c5))"
    using begin_run cl cr c4 wh kc
    by (simp add: setup_cmd_def st_bind_def st_act_def on_machine_def on_cluster_def Let_def)
  ultimately show ?thesis using room6 fr full by (intro exI [of _ "(w6, c5)"] exI [of _ w1]) simp
qed

end
