(* ===== verification/Boot.thy ===== *)
theory Boot
  imports Cli SetupLive
begin

text \<open>
  The two oneshot containers of the pod one after the other: the pki container, whose unit sets the state
  directory only, then the setup container, whose unit sets the bind address too. Between the two, etcd and the
  API server start, so setup meets an API server in any state.
\<close>

lemma unobstructed_after:
  assumes un: "unobstructed cfg (w_files w)" and run: "Generate lib None cfg w = (r, v)"
  shows "unobstructed cfg (w_files v)"
  unfolding unobstructed_def
proof (intro conjI ballI)
  fix n assume n: "n \<in> set all_names"
  have "no_new_dir (artifact_path cfg n) w v"
    by (rule stays_run [OF Generate_no_new_dir run]) (use artifact_not_in_chain [OF n] in blast)
  with un n show "\<not> is_dir (w_files v) (artifact_path cfg n)"
    by (auto simp: unobstructed_def no_new_dir_def is_dir_def)
next
  fix d q assume d: "d \<in> set dir_names" "q \<in> set (path_chain (artifact_path cfg d))"
  then have "q \<notin> ca_paths_of cfg \<union> issued_paths cfg" unfolding all_paths using artifact_not_in_chain by blast
  then have "file_data (w_files v) q = file_data (w_files w) q"
    using stays_run [OF Generate_within run] by (intro only_writes_data) (auto simp: within_def)
  with un d show "file_data (w_files v) q = None" by (simp add: unobstructed_def)
qed

lemma ready_after:
  assumes "ready cfg w" and run: "Generate lib None cfg w = (r, v)"
  shows "ready cfg v"
proof -
  have "same_env w v" using stays_run [OF Generate_within run] by (simp add: within_def)
  with assms unobstructed_after [OF _ run] show ?thesis
    by (auto simp: ready_def clock_ok_def calm_def same_env_def)
qed

text \<open>Certificates depend on the state directory of the configuration only.\<close>

lemma same_state_dir:
  assumes "PkiStateDir c = PkiStateDir d"
  shows "artifact_path c = artifact_path d" and "ready c = ready d"
    and "ca_paths_of c \<union> issued_paths c = ca_paths_of d \<union> issued_paths d"
proof -
  show art: "artifact_path c = artifact_path d" by (simp add: artifact_path_def assms fun_eq_iff)
  then show "ready c = ready d" by (simp add: ready_def unobstructed_def fun_eq_iff)
  show "ca_paths_of c \<union> issued_paths c = ca_paths_of d \<union> issued_paths d" unfolding all_paths art ..
qed

lemma applicable_cong:
  assumes "applicable P cfg fs root" and "\<And>p. p \<in> set (ProviderManifestFiles root) \<Longrightarrow> file_at gs p = file_at fs p"
  shows "applicable P cfg gs root"
proof -
  have "dedupe_files (pf_lib P) (read_file gs) (pf_decoder P) (ProviderManifestFiles root) st =
      dedupe_files (pf_lib P) (read_file fs) (pf_decoder P) (ProviderManifestFiles root) st" for st
    by (rule dedupe_files_cong) (simp add: read_file_def assms(2))
  then have "LoadDedupedObjects (pf_lib P) (read_file gs) (pf_decoder P) (ProviderManifestFiles root) =
      LoadDedupedObjects (pf_lib P) (read_file fs) (pf_decoder P) (ProviderManifestFiles root)"
    by (simp add: LoadDedupedObjects_def)
  with assms(1) show ?thesis by (simp add: applicable_def)
qed

text \<open>In a complete inventory every artifact is a file; no directory of the inventory has a kubeconfig's name.\<close>

lemma complete_files:
  assumes "complete lib cfg fs" and "n \<in> set all_names"
  shows "file_data fs (artifact_path cfg n) \<noteq> None"
proof -
  have pair: "pair_on_disk lib fs c k \<Longrightarrow> file_data fs c \<noteq> None \<and> file_data fs k \<noteq> None" for c k
    by (auto simp: pair_on_disk_def cert_on_disk_def key_on_disk_def split: option.splits)
  from assms(2) consider "n \<in> set ca_names" | "n \<in> set sa_names" | m where "m \<in> set leaf_names" "n = fst m \<or> n = snd m"
    by (auto simp: all_names_def)
  then show ?thesis
  proof cases
    case 1
    with assms(1) show ?thesis
      by (auto simp: complete_def ca_names_def authority_on_disk_def cert_on_disk_def key_on_disk_def split: option.splits)
  next
    case 2
    with assms(1) show ?thesis using pair by (auto simp: complete_def sa_names_def sa_on_disk_def)
  next
    case 3
    with assms(1) pair show ?thesis by (auto simp: complete_def list_all_iff)
  qed
qed

lemma chain_not_kubeconfig:
  assumes d: "d \<in> set dir_names" and q: "q \<in> set (path_chain (artifact_path (pki_of cfg) d))" and x: "q \<in> owner_names cfg x"
  shows False
proof -
  obtain e where "q = dir_prefix (StateDir cfg) @ ''kubeconfigs'' @ slash # e" using owner_names_below [OF x] by blast
  with q have "prefix (''kubeconfigs'' @ slash # e) d" by (auto simp: artifact_path_def pki_of_def dest!: path_chain_prefix)
  then have "prefix ''kubeconfigs'' d" by (rule append_prefixD)
  with names_not_in_dir(2) d show False by (simp add: list_all_iff)
qed

text \<open>What the pki and the setup container need to find, and that the pki container leaves it so.\<close>

definition bootable :: "('c, 's, 'r, 'm) platform \<Rightarrow> config \<Rightarrow> string \<Rightarrow> world \<Rightarrow> bool" where
  "bootable P cfg root w \<longleftrightarrow> clock_mono w \<and> ready (pki_of cfg) w \<and> kubeconfig_room cfg (w_files w) \<and>
     (file_data (w_files w) (ca_cert_path (pki_of cfg)) = None \<and> file_data (w_files w) (ca_key_path (pki_of cfg)) = None \<or>
      authority_on_disk (pf_pem P) (w_files w) (ca_cert_path (pki_of cfg)) (ca_key_path (pki_of cfg)) \<noteq> None) \<and>
     applicable P cfg (w_files w) root \<and>
     set (ProviderManifestFiles root) \<inter>
       (ca_paths_of (pki_of cfg) \<union> issued_paths (pki_of cfg) \<union> \<Union> (owner_names cfg ` set owners)) = {}"

lemma pki_runs:
  assumes lib: "pem_ok (pf_pem P)"
    and pki_env: "Config.Load penv = Inr pcfg" "SplitHostPort (BindAddress pcfg) = Inr (phost, pport)"
      "names_ok (pf_pem P) (fst (apiserverSANs phost) @ fst (hypervisorWebhookSANs (HypervisorWebhookHost pcfg)))"
    and state: "StateDir pcfg = StateDir cfg" and boot: "bootable P cfg root w"
  shows "\<exists>v. (\<forall>c. run P info penv [''pki''] (w, c) = Some (succeed (pki_listing (generated_inventory (pki_of pcfg))), (v, c))) \<and>
    bootable P cfg root v"
proof -
  have dir: "PkiStateDir (pki_of pcfg) = PkiStateDir (pki_of cfg)" by (simp add: pki_of_def state)
  note same = same_state_dir [OF dir]
  have machine: "clock_mono w" "ready (pki_of cfg) w" "kubeconfig_room cfg (w_files w)" "applicable P cfg (w_files w) root"
    "set (ProviderManifestFiles root) \<inter>
       (ca_paths_of (pki_of cfg) \<union> issued_paths (pki_of cfg) \<union> \<Union> (owner_names cfg ` set owners)) = {}"
    and authority: "file_data (w_files w) (ca_cert_path (pki_of cfg)) = None \<and> file_data (w_files w) (ca_key_path (pki_of cfg)) = None \<or>
      authority_on_disk (pf_pem P) (w_files w) (ca_cert_path (pki_of cfg)) (ca_key_path (pki_of cfg)) \<noteq> None"
    using boot by (simp_all add: bootable_def)
  have "bindHost (PkiBindAddress (pki_of pcfg)) = Inr phost"
    using loaded_bind_url [OF pki_env(1,2)] by (simp add: pki_of_def)
  from Generate_ready [OF lib this] pki_env(3) machine(2) authority obtain v
    where gen: "Generate (pf_pem P) None (pki_of pcfg) w = (Inr (generated_inventory (pki_of pcfg)), v)"
    unfolding same by (auto simp: pki_of_def)
  have runs: "run P info penv [''pki''] (w, c) = Some (succeed (pki_listing (generated_inventory (pki_of pcfg))), (v, c))" for c
    using gen pki_env(1) by (simp add: run_def only_machine_def runPKI_def pki_of_def)
  have fr: "within (ca_paths_of (pki_of cfg) \<union> issued_paths (pki_of cfg)) w v"
    using stays_run [OF Generate_within gen] unfolding same .
  have "KubeconfigPath pcfg i = KubeconfigPath cfg i" for i by (simp only: KubeconfigPath_def state)
  then have "owner_path pcfg = owner_path cfg" unfolding owner_path_def AdminKubeconfigPath_def state by presburger
  then have "kubeconfig_room pcfg = kubeconfig_room cfg" by (simp add: kubeconfig_room_def fun_eq_iff)
  then have "kubeconfig_room cfg (w_files v)" using Generate_leaves_room [OF _ gen] machine(3) by simp
  moreover have "clock_mono v" using machine(1) fr by (simp add: clock_mono_def within_def same_env_def)
  moreover have "ready (pki_of cfg) v" using ready_after [OF _ gen] machine(2) unfolding same .
  moreover have "complete (pf_pem P) (pki_of cfg) (w_files v)"
    using Generate_complete [OF lib gen] complete_state_dir [OF dir] by simp
  moreover have "applicable P cfg (w_files v) root"
    using applicable_cong [OF machine(4)] file_at_within [OF fr] machine(5) by blast
  ultimately have "bootable P cfg root v" using machine(5) by (simp add: bootable_def complete_def)
  with runs show ?thesis by blast
qed

text \<open>Setup too leaves what a later run of the two needs.\<close>

lemma setup_leaves_bootable:
  assumes lib: "pem_ok (pf_pem P)" and boot: "bootable P cfg root w" and room: "kubeconfig_room cfg (w_files v)"
    and certs: "within (ca_paths_of (pki_of cfg) \<union> issued_paths (pki_of cfg)) w u" and full: "complete (pf_pem P) (pki_of cfg) (w_files u)"
    and kcs: "within (\<Union> (owner_names cfg ` set owners)) u v"
  shows "bootable P cfg root v"
proof -
  let ?A = "ca_paths_of (pki_of cfg) \<union> issued_paths (pki_of cfg)" and ?K = "\<Union> (owner_names cfg ` set owners)"
  have full': "complete (pf_pem P) (pki_of cfg) (w_files v)" by (rule complete_after [OF full kcs])
  have wv: "within (?A \<union> ?K) w v" using certs kcs by (blast intro: within_trans within_mono)
  then have env: "same_env w v" by (simp add: within_def)
  have "unobstructed (pki_of cfg) (w_files v)"
    unfolding unobstructed_def
  proof (intro conjI ballI)
    fix n assume n: "n \<in> set all_names"
    then have "\<not> is_dir (w_files w) (artifact_path (pki_of cfg) n)"
      using boot by (simp add: bootable_def ready_def unobstructed_def)
    with complete_files [OF full' n] show "\<not> is_dir (w_files v) (artifact_path (pki_of cfg) n)"
      by (auto simp: file_data_def is_dir_def)
  next
    fix d q assume d: "d \<in> set dir_names" and q: "q \<in> set (path_chain (artifact_path (pki_of cfg) d))"
    have "q \<notin> ?A" unfolding all_paths using artifact_not_in_chain q d by blast
    moreover have "q \<notin> ?K" using chain_not_kubeconfig d q by blast
    ultimately have "file_data (w_files v) q = file_data (w_files w) q" by (intro within_data [OF wv]) blast
    then show "file_data (w_files v) q = None" using boot d q by (simp add: bootable_def ready_def unobstructed_def)
  qed
  then have "ready (pki_of cfg) v" using boot env by (auto simp: bootable_def ready_def clock_ok_def calm_def same_env_def)
  moreover have "clock_mono v" using boot env by (simp add: bootable_def clock_mono_def same_env_def)
  moreover have "applicable P cfg (w_files v) root"
    by (rule applicable_cong [of P cfg "w_files w"]) (use boot file_at_within [OF wv] in \<open>auto simp: bootable_def\<close>)
  ultimately show ?thesis using boot room full' by (simp add: bootable_def complete_def)
qed

lemma setup_runs:
  assumes lib: "pem_ok (pf_pem P)" "k8s_lib_ok (pf_lib P)" "converter_ok (pf_lib P) (pf_converter P)"
    and env: "Config.Load env = Inr cfg" "ManifestsDir env = Inr root" "APIServerTimeout (pf_fraction P) env = Inr timeout"
    and bind: "SplitHostPort (BindAddress cfg) = Inr (host, port)" "list_all is_digit port"
    and names: "names_ok (pf_pem P) (fst (apiserverSANs host) @ fst (hypervisorWebhookSANs (HypervisorWebhookHost cfg)))"
    and server: "healthy P view same" and ser: "\<forall>kc. is_ok (SerializeKC P kc)" and boot: "bootable P cfg root w"
  shows "\<exists>v d. run P info env [''setup''] (w, c) = Some (succeed (line ''capishim setup: ready''), (v, d)) \<and> bootable P cfg root v"
proof -
  obtain v d u where t: "setup_cmd P None env (w, c) = Some (Inr (), (v, d))" and room: "kubeconfig_room cfg (w_files v)"
    and certs: "within (ca_paths_of (pki_of cfg) \<union> issued_paths (pki_of cfg)) w u" and full: "complete (pf_pem P) (pki_of cfg) (w_files u)"
    and kcs: "within (\<Union> (owner_names cfg ` set owners)) u v"
    using setup_succeeds_run [where s = "(w, c)", OF lib env bind names _ _ _ _ _ _ server ser] boot
    by (auto simp: bootable_def Int_Un_distrib)
  from t have "run P info env [''setup''] (w, c) = Some (succeed (line ''capishim setup: ready''), (v, d))"
    by (simp add: run_def runSetup_def)
  with setup_leaves_bootable [OF lib(1) boot room certs full kcs] show ?thesis by blast
qed

end
