(* ===== verification/PodBoot.thy ===== *)
theory PodBoot
  imports Boot
begin

text \<open>
  The pod as a state machine. The containers are started in the order that their units allow: a unit starts
  once the unit it requires is up, a oneshot is up when its command has exited with 0, a server or a
  manager as soon as it runs. A oneshot is the program itself with the command line and the environment of its
  unit; what a server or a manager does is open, except that it changes files only in the volumes that its unit
  mounts writable. At any time units can be stopped, with everything that requires them, and started again, as in a
  restart of the machine; and a oneshot can be killed in any of its calls (\<open>crash\<close>). Shown are what holds in every
  state the pod can reach, and which names the certificates carry that its pki container makes.
\<close>

section \<open>The environment of a container\<close>

definition unit_environment :: "config \<Rightarrow> ComponentID \<Rightarrow> environment" where
  "unit_environment cfg i =
     environMap (map (\<lambda>(k, v). k @ ''='' @ v) (unit_env i EnvStateDir (StateDir cfg) EnvBindAddress (BindAddress cfg)))"

lemma environMap_pairs:
  assumes "\<forall>(k, v) \<in> set kvs. CHR ''='' \<notin> set k"
  shows "environMap (map (\<lambda>(k, v). k @ ''='' @ v) kvs) = (\<lambda>k. map_of (rev kvs) k)"
proof -
  have "foldl (\<lambda>env kv. case cut_at ''='' kv of None \<Rightarrow> env | Some (k, v) \<Rightarrow> env(k \<mapsto> v)) m (map (\<lambda>(k, v). k @ ''='' @ v) kvs) =
      m ++ map_of (rev kvs)" for m
    using assms
  proof (induction kvs arbitrary: m)
    case Nil
    then show ?case by simp
  next
    case (Cons kv kvs)
    obtain k v where kv: "kv = (k, v)" by (cases kv)
    with Cons.prems have "cut_at ''='' (k @ ''='' @ v) = Some (k, v)" by (intro cut_at_first) auto
    with Cons kv show ?case by simp
  qed
  then show ?thesis by (simp add: environMap_def)
qed

lemma unit_environment_values:
  "unit_environment cfg ComponentPKI = [EnvStateDir \<mapsto> StateDir cfg]"
  "unit_environment cfg ComponentSetup = [EnvStateDir \<mapsto> StateDir cfg, EnvBindAddress \<mapsto> BindAddress cfg]"
  unfolding unit_environment_def
  by (subst environMap_pairs; simp add: unit_env_def component_ids EnvStateDir_def EnvBindAddress_def)+

text \<open>
  What the configuration becomes on its way through the units and back. The pki container loads the state
  directory and the defaults, the setup container the state directory and the bind address: the bind address
  never reaches the container that makes the certificates, and the webhook host reaches neither.
\<close>

lemma unit_environment_loads:
  assumes "Config.Load env = Inr cfg" and "trimmed (StateDir cfg)"
  shows "Config.Load (unit_environment cfg ComponentPKI) =
      Inr (cfg\<lparr>BindAddress := defaultBindAddress, HypervisorWebhookHost := defaultHypervisorWebhookHost\<rparr>) \<and>
    Config.Load (unit_environment cfg ComponentSetup) = Inr (cfg\<lparr>HypervisorWebhookHost := defaultHypervisorWebhookHost\<rparr>)"
proof -
  have wf: "stateDirFromEnv env = Inr (StateDir cfg)" "bindAddressFromEnv env = Inr (BindAddress cfg)"
    using assms(1) by (simp_all add: Load_Inr_iff)
  have bind: "validateBindAddress (BindAddress cfg) = Inr ()" "TrimSpace (BindAddress cfg) = BindAddress cfg"
    using bindAddress_valid [OF wf(2)] by (simp_all add: valid_bind_def TrimSpace_id)
  have ne: "BindAddress cfg \<noteq> []" using wf(2)
    by (auto simp: bindAddressFromEnv_def Let_def defaultBindAddress_def split: option.splits if_splits sum.splits)
  have sd: "TrimSpace (StateDir cfg) = StateDir cfg" "StateDir cfg \<noteq> []"
    using assms(2) stateDir_not_blank [OF wf(1)] by (simp_all add: TrimSpace_id)
  have names: "EnvStateDir \<noteq> EnvBindAddress" "EnvStateDir \<noteq> EnvHypervisorWebhookHost" "EnvBindAddress \<noteq> EnvHypervisorWebhookHost"
    by (simp_all add: EnvStateDir_def EnvBindAddress_def EnvHypervisorWebhookHost_def)
  show ?thesis
    unfolding unit_environment_values
    using bind ne sd names names [symmetric]
    by (simp add: Load_Inr_iff stateDirFromEnv_def bindAddressFromEnv_def hypervisorWebhookHostFromEnv_def Let_def)
qed

section \<open>States and steps\<close>

record 'c pod =
  up :: "ComponentID set"
  disk :: world
  api :: 'c

definition may_start :: "ComponentID set \<Rightarrow> component_spec \<Rightarrow> bool" where
  "may_start started spec \<longleftrightarrow> spec \<in> set pod_components \<and> ID spec \<notin> started \<and>
     (case us_after (unit_spec_of (ID spec)) of None \<Rightarrow> True | Some j \<Rightarrow> j \<in> started)"

text \<open>What another program may do to the machine: only the writable volumes of its unit change.\<close>

definition confined :: "config \<Rightarrow> ComponentID \<Rightarrow> world \<Rightarrow> world \<Rightarrow> bool" where
  "confined cfg i w v \<longleftrightarrow> (\<forall>p. \<not> mounted cfg i ''rw'' p \<longrightarrow> w_files v p = w_files w p) \<and>
     w_faults v = w_faults w \<and> w_clock v = w_clock w \<and> w_slept v = w_slept w"

definition oneshot :: "component_spec \<Rightarrow> bool" where
  "oneshot spec \<longleftrightarrow> us_kind (unit_spec_of (ID spec)) = Oneshot"

text \<open>The words of the command line, which the image passes to the program.\<close>

definition unit_args :: "quadlet_input \<Rightarrow> component_spec \<Rightarrow> string list" where
  "unit_args input spec = Split (Exec (unitDataFor spec input)) CHR '' ''"

text \<open>
  A failed oneshot changes the machine all the same and can be started again. \<open>stop\<close>: any set of units that is
  closed under what the units require may stay up; systemd stops a unit with the units that require it.
\<close>

inductive boot ::
  "('c, 's, 'r, 'm) platform \<Rightarrow> build_info \<Rightarrow> quadlet_input \<Rightarrow> 'c pod \<Rightarrow> 'c pod \<Rightarrow> bool"
  for P :: "('c, 's, 'r, 'm) platform" and info :: build_info and input :: quadlet_input
where
  run_oneshot: "may_start (up s) spec \<Longrightarrow> oneshot spec \<Longrightarrow>
    run P info (unit_environment (in_Config input) (ID spec)) (unit_args input spec) (disk s, api s) = Some (x, (w, c)) \<Longrightarrow>
    boot P info input s \<lparr>up = (if exit_code x = exitOK then insert (ID spec) (up s) else up s), disk = w, api = c\<rparr>"
| start_server: "may_start (up s) spec \<Longrightarrow> \<not> oneshot spec \<Longrightarrow>
    boot P info input s (s\<lparr>up := insert (ID spec) (up s)\<rparr>)"
| server_acts: "spec \<in> set pod_components \<Longrightarrow> ID spec \<in> up s \<Longrightarrow> \<not> oneshot spec \<Longrightarrow>
    confined (in_Config input) (ID spec) (disk s) w \<Longrightarrow> boot P info input s (s\<lparr>disk := w, api := c\<rparr>)"
| stop: "started \<subseteq> up s \<Longrightarrow> (\<forall>i \<in> started. \<forall>j. us_after (unit_spec_of i) = Some j \<longrightarrow> j \<in> started) \<Longrightarrow>
    boot P info input s (s\<lparr>up := started\<rparr>)"

inductive_cases bootE: "boot P info input s t"

abbreviation reaches where
  "reaches P info input \<equiv> (boot P info input)\<^sup>*\<^sup>*"

text \<open>
  A oneshot container that is killed in its \<open>n\<close>-th call: the disk is left as it then is, the unit is not up, and
  of the API server nothing is known.
\<close>

inductive crash ::
  "('c, 's, 'r, 'm) platform \<Rightarrow> build_info \<Rightarrow> quadlet_input \<Rightarrow> 'c pod \<Rightarrow> 'c pod \<Rightarrow> bool"
  for P :: "('c, 's, 'r, 'm) platform" and info :: build_info and input :: quadlet_input
where
  killed: "may_start (up s) spec \<Longrightarrow> oneshot spec \<Longrightarrow>
    run P info (unit_environment (in_Config input) (ID spec)) (unit_args input spec)
      ((disk s)\<lparr>w_faults := cut n e (w_faults (disk s))\<rparr>, api s) = Some (x, (w, c)) \<Longrightarrow>
    crash P info input s (s\<lparr>disk := w\<lparr>w_faults := w_faults (disk s)\<rparr>, api := d\<rparr>)"

definition pod_step where
  "pod_step P info input s t \<longleftrightarrow> boot P info input s t \<or> crash P info input s t"

abbreviation survives where
  "survives P info input \<equiv> (pod_step P info input)\<^sup>*\<^sup>*"

lemma reaches_survives: "reaches P info input s t \<Longrightarrow> survives P info input s t"
  by (rule rtranclp_mono [THEN predicate2D, rotated]) (auto simp: pod_step_def)

lemma oneshot_specs:
  assumes "spec \<in> set pod_components" and "oneshot spec"
  shows "ID spec = ComponentPKI \<and> unit_args input spec = [''pki''] \<or> ID spec = ComponentSetup \<and> unit_args input spec = [''setup'']"
proof -
  have "ID spec = ComponentPKI \<or> ID spec = ComponentSetup"
    using assms(2) by (auto simp: oneshot_def unit_spec_of_def split: if_splits)
  then show ?thesis
    by (auto simp: unit_args_def unitDataFor_def exec_for_def component_ids)
qed

text \<open>No server and no manager can write below \<open>pki\<close> or \<open>kubeconfigs\<close>, or replace these directories.\<close>

lemma server_volumes:
  assumes "spec \<in> set pod_components" and "\<not> oneshot spec" and "\<not> HasPrefix p (dir_prefix (StateDir cfg) @ ''etcd/'')"
  shows "\<not> mounted cfg (ID spec) ''rw'' p"
proof -
  have "ID spec \<noteq> ComponentPKI" "ID spec \<noteq> ComponentSetup" using assms(2) by (auto simp: oneshot_def unit_spec_of_def component_ids)
  then have "list_all (\<lambda>(m, mode). mode = ''rw'' \<longrightarrow> m = ''etcd'') (us_mounts (unit_spec_of (ID spec)))"
    by (simp add: unit_spec_of_def)
  moreover have "PathJoin [StateDir cfg, ''etcd''] = dir_prefix (StateDir cfg) @ ''etcd''"
    by (simp add: PathJoin_plain plain_rel_def plain_elem_def)
  ultimately show ?thesis
    using assms(3) by (fastforce simp: mounted_def list_all_iff list_ex_iff)
qed

lemma confined_same:
  assumes "spec \<in> set pod_components" and "\<not> oneshot spec" and "confined cfg (ID spec) w v" and "\<not> HasPrefix n ''etcd/''"
  shows "w_files v (dir_prefix (StateDir cfg) @ n) = w_files w (dir_prefix (StateDir cfg) @ n)"
proof -
  have "\<not> HasPrefix (dir_prefix (StateDir cfg) @ n) (dir_prefix (StateDir cfg) @ ''etcd/'')"
    using assms(4) by (simp add: HasPrefix_def)
  with server_volumes [OF assms(1,2)] assms(3) show ?thesis by (auto simp: confined_def)
qed

section \<open>The invariant\<close>

definition kubeconfigs_ready :: "('c, 's, 'r, 'm) platform \<Rightarrow> config \<Rightarrow> files \<Rightarrow> bool" where
  "kubeconfigs_ready P cfg fs \<longleftrightarrow>
     (\<forall>spec \<in> set (filter is_manager Components). \<exists>a p.
        ManagerArtifact (ID spec) (generated_inventory (pki_of cfg)) = Some a \<and> KubeconfigPath cfg (ID spec) = Some p \<and>
        kubeconfig_ready (pf_pem P) (SerializeKC P) cfg fs a p)"

definition pod_inv :: "('c, 's, 'r, 'm) platform \<Rightarrow> config \<Rightarrow> 'c pod \<Rightarrow> bool" where
  "pod_inv P cfg s \<longleftrightarrow> calm (disk s) \<and> clock_mono (disk s) \<and>
     (\<forall>i \<in> up s. \<forall>j. us_after (unit_spec_of i) = Some j \<longrightarrow> j \<in> up s) \<and>
     (ComponentPKI \<in> up s \<longrightarrow> complete (pf_pem P) (pki_of cfg) (w_files (disk s))) \<and>
     (ComponentSetup \<in> up s \<longrightarrow> kubeconfigs_ready P cfg (w_files (disk s)))"

lemma after_chain:
  assumes "\<forall>i \<in> started. \<forall>j. us_after (unit_spec_of i) = Some j \<longrightarrow> j \<in> started"
  shows "i \<in> started \<Longrightarrow> i \<noteq> ComponentPKI \<Longrightarrow> ComponentPKI \<in> started"
    and "ComponentAPIServer \<in> started \<Longrightarrow> ComponentEtcd \<in> started"
    and "i \<in> started \<Longrightarrow> i \<notin> {ComponentPKI, ComponentEtcd, ComponentAPIServer, ComponentSetup} \<Longrightarrow> ComponentSetup \<in> started"
proof -
  have next_up: "j \<in> started" if "i \<in> started" "us_after (unit_spec_of i) = Some j" for i j
    using assms that by blast
  have after: "us_after (unit_spec_of ComponentEtcd) = Some ComponentPKI" "us_after (unit_spec_of ComponentAPIServer) = Some ComponentEtcd"
    "us_after (unit_spec_of ComponentSetup) = Some ComponentAPIServer"
    "i \<notin> {ComponentPKI, ComponentEtcd, ComponentAPIServer, ComponentSetup} \<Longrightarrow> us_after (unit_spec_of i) = Some ComponentSetup" for i
    by (simp_all add: unit_spec_of_def component_ids)
  show etcd: "ComponentAPIServer \<in> started \<Longrightarrow> ComponentEtcd \<in> started" using next_up after by blast
  show late: "i \<in> started \<Longrightarrow> i \<notin> {ComponentPKI, ComponentEtcd, ComponentAPIServer, ComponentSetup} \<Longrightarrow> ComponentSetup \<in> started" for i
    using next_up after(4) by blast
  show "i \<in> started \<Longrightarrow> i \<noteq> ComponentPKI \<Longrightarrow> ComponentPKI \<in> started"
    using next_up after(1,3) etcd late by blast
qed

lemma names_not_etcd: "list_all (\<lambda>n. \<not> HasPrefix n ''etcd/'') all_names"
  by (simp add: all_names_def ca_names_def sa_names_def leaf_names_def HasPrefix_def)

lemma complete_confined:
  assumes "complete lib (pki_of cfg) (w_files w)" and "spec \<in> set pod_components" and "\<not> oneshot spec" and "confined cfg (ID spec) w v"
  shows "complete lib (pki_of cfg) (w_files v)"
proof (rule complete_cong [OF assms(1)])
  have same: "w_files v (artifact_path (pki_of cfg) n) = w_files w (artifact_path (pki_of cfg) n)" if "\<not> HasPrefix n ''etcd/''" for n
    using confined_same [OF assms(2-4) that] by (simp add: artifact_path_def pki_of_def)
  have names: "\<not> HasPrefix n ''etcd/''" if "n \<in> set all_names" for n
    using names_not_etcd that by (simp add: list_all_iff)
  show "file_data (w_files v) (artifact_path (pki_of cfg) n) = file_data (w_files w) (artifact_path (pki_of cfg) n)"
    if "n \<in> set all_names" for n
    using same [OF names [OF that]] by (simp add: file_data_def)
  have "w_files v (pki_dir (pki_of cfg)) = w_files w (pki_dir (pki_of cfg))"
    unfolding pki_dir_eq by (rule same) (simp add: HasPrefix_def)
  then show "is_dir (w_files v) (pki_dir (pki_of cfg))" using assms(1) by (simp add: complete_def is_dir_def)
qed

lemma kubeconfigs_confined:
  assumes ready: "kubeconfigs_ready P cfg (w_files w)" and spec: "spec \<in> set pod_components" "\<not> oneshot spec"
    and conf: "confined cfg (ID spec) w v"
  shows "kubeconfigs_ready P cfg (w_files v)"
  unfolding kubeconfigs_ready_def
proof
  have same: "w_files v (dir_prefix (StateDir cfg) @ n) = w_files w (dir_prefix (StateDir cfg) @ n)" if "\<not> HasPrefix n ''etcd/''" for n
    using confined_same [OF spec conf that] .
  fix m assume m: "m \<in> set (filter is_manager Components)"
  with ready obtain a p where a: "ManagerArtifact (ID m) (generated_inventory (pki_of cfg)) = Some a"
    and p: "KubeconfigPath cfg (ID m) = Some p" and k: "kubeconfig_ready (pf_pem P) (SerializeKC P) cfg (w_files w) a p"
    unfolding kubeconfigs_ready_def by blast
  have path: "owner_path cfg (Some m) = Some p" using p m by (simp add: owner_path_def is_manager_def)
  then obtain e where "p = dir_prefix (StateDir cfg) @ ''kubeconfigs'' @ slash # e" by (rule owner_path_shape)
  then have kp: "w_files v p = w_files w p" using same [of "''kubeconfigs'' @ slash # e"] by (simp add: HasPrefix_def)
  have "Some m \<in> set owners" using m by (simp add: owners_def)
  then obtain a' n where "owner_artifact (generated_inventory (pki_of cfg)) (Some m) = Some a'"
    and n: "n \<in> set leaf_names" "CertPath a' = artifact_path (pki_of cfg) (fst n)" "KeyPath a' = artifact_path (pki_of cfg) (snd n)"
    using owner_artifacts [of "Some m" cfg] path by blast
  with a have "a' = a" by (simp add: owner_artifact_def del: ManagerArtifact.simps)
  have "\<not> HasPrefix q ''etcd/''" if "q \<in> {fst n, snd n}" for q
    using names_not_etcd leaf_names_all [OF n(1)] that by (auto simp: list_all_iff)
  then have "w_files v (CertPath a) = w_files w (CertPath a)" "w_files v (KeyPath a) = w_files w (KeyPath a)"
    using same n(2,3) \<open>a' = a\<close> by (simp_all add: artifact_path_def pki_of_def)
  then have "pair_on_disk (pf_pem P) (w_files v) (CertPath a) (KeyPath a) = pair_on_disk (pf_pem P) (w_files w) (CertPath a) (KeyPath a)"
    by (rule pair_cong)
  with k kp have "kubeconfig_ready (pf_pem P) (SerializeKC P) cfg (w_files v) a p" by (simp add: kubeconfig_ready_def)
  with a p show "\<exists>a p. ManagerArtifact (ID m) (generated_inventory (pki_of cfg)) = Some a \<and> KubeconfigPath cfg (ID m) = Some p \<and>
      kubeconfig_ready (pf_pem P) (SerializeKC P) cfg (w_files v) a p" by blast
qed

text \<open>The webhook host is no part of what a kubeconfig holds.\<close>

lemma kubeconfigs_ready_host:
  "kubeconfigs_ready P (cfg\<lparr>HypervisorWebhookHost := h\<rparr>) fs = kubeconfigs_ready P cfg fs"
proof -
  let ?c = "cfg\<lparr>HypervisorWebhookHost := h\<rparr>"
  have "generated_inventory (pki_of ?c) = generated_inventory (pki_of cfg)"
    by (simp add: generated_inventory_def pki_dir_def artifact_path_def pki_of_def)
  moreover have "KubeconfigPath ?c i = KubeconfigPath cfg i" for i by (simp add: KubeconfigPath_def split: option.split)
  ultimately show ?thesis by (simp add: kubeconfigs_ready_def kubeconfig_ready_def del: ManagerArtifact.simps)
qed

lemma setup_keeps_env:
  assumes run: "setup_cmd P ctx env s = Some (r, t)" and mono: "clock_mono (fst s)" and cfg: "Config.Load env = Inr cfg"
  shows "w_faults (fst t) = w_faults (fst s) \<and> w_clock (fst t) = w_clock (fst s)"
proof (rule setup_cases [OF run mono cfg])
  fix e q w1 assume "within (ca_paths_of (pki_of cfg) \<union> issued_paths (pki_of cfg)) (fst s) w1" and "later w1 (fst t)"
  then show ?thesis by (simp add: within_def same_env_def later_def)
next
  fix root timeout inven w1 w5
  assume "within (ca_paths_of (pki_of cfg) \<union> issued_paths (pki_of cfg)) (fst s) w1" and "later w1 w5"
    and kc: "setup_kubeconfigs (SerializeKC P) cfg (APIServerURL (BindAddress cfg)) inven w5 = (r, fst t)"
  moreover have "within (\<Union> (owner_names cfg ` set owners)) w5 (fst t)"
    by (rule stays_run [OF kubeconfigs.loop_within kc [unfolded setup_kubeconfigs_owners]])
  ultimately show ?thesis by (simp add: within_def same_env_def later_def)
qed

lemma pki_step:
  assumes lib: "pem_ok (pf_pem P)" and loads: "Config.Load env = Inr pcfg" "StateDir pcfg = StateDir cfg"
    and run: "run P info env [''pki''] (w, c) = Some (x, (v, d))"
  shows "w_faults v = w_faults w \<and> w_clock v = w_clock w \<and>
    (exit_code x = exitOK \<longrightarrow> complete (pf_pem P) (pki_of cfg) (w_files v))"
proof -
  obtain r u where g: "Generate (pf_pem P) None (pki_of pcfg) w = (r, u)" by fastforce
  have "within (ca_paths_of (pki_of pcfg) \<union> issued_paths (pki_of pcfg)) w u" by (rule stays_run [OF Generate_within g])
  moreover have "v = u" using run g loads by (auto simp: run_def only_machine_def runPKI_def pki_of_def split: sum.splits)
  moreover have "complete (pf_pem P) (pki_of cfg) (w_files v)" if ok: "exit_code x = exitOK"
  proof -
    obtain inven where "r = Inr inven"
      using run g loads ok by (cases r) (auto simp: run_def only_machine_def runPKI_def pki_of_def)
    with g \<open>v = u\<close> have "complete (pf_pem P) (pki_of pcfg) (w_files v)" using Generate_complete [OF lib] by blast
    with complete_state_dir [of "pki_of pcfg" "pki_of cfg"] loads(2) show ?thesis by (simp add: pki_of_def)
  qed
  ultimately show ?thesis by (simp add: within_def same_env_def)
qed

lemma setup_step:
  assumes lib: "pem_ok (pf_pem P)" and load: "Config.Load env = Inr (cfg\<lparr>HypervisorWebhookHost := h\<rparr>)"
    and machine: "halting w" "clock_mono w" and full: "complete (pf_pem P) (pki_of cfg) (w_files w)"
    and run: "run P info env [''setup''] (w, c) = Some (x, (v, d))"
  shows "w_faults v = w_faults w \<and> w_clock v = w_clock w \<and> complete (pf_pem P) (pki_of cfg) (w_files v) \<and>
    (exit_code x = exitOK \<longrightarrow> kubeconfigs_ready P cfg (w_files v))"
proof -
  let ?c = "cfg\<lparr>HypervisorWebhookHost := h\<rparr>"
  have sx: "runSetup P env (w, c) = Some (x, (v, d))" using run by (simp add: run_def)
  then obtain r where st: "setup_cmd P None env (w, c) = Some (r, (v, d))"
    by (auto simp: runSetup_def split: option.splits prod.splits sum.splits)
  have dir: "complete lib (pki_of ?c) fs = complete lib (pki_of cfg) fs" for lib fs
    by (rule complete_state_dir) (simp add: pki_of_def)
  have "complete (pf_pem P) (pki_of ?c) (w_files v)"
    using setup_keeps_complete [OF lib _ _ load _ st] machine full dir by simp
  moreover have "kubeconfigs_ready P cfg (w_files v)" if "exit_code x = exitOK"
  proof -
    have "setup_cmd P None env (w, c) = Some (Inr (), (v, d))" using runSetup_outcome [OF sx] that by simp
    from setup_leaves_ready [OF lib _ this] machine load have "kubeconfigs_ready P ?c (w_files v)"
      by (auto simp: kubeconfigs_ready_def simp del: ManagerArtifact.simps)
    then show ?thesis by (simp add: kubeconfigs_ready_host)
  qed
  ultimately show ?thesis using setup_keeps_env [OF st _ load] machine dir by simp
qed

lemma boot_inv:
  assumes lib: "pem_ok (pf_pem P)" and cfg: "Config.Load env = Inr (in_Config input)" and tr: "trimmed (StateDir (in_Config input))"
    and inv: "pod_inv P (in_Config input) s" and step: "boot P info input s t"
  shows "pod_inv P (in_Config input) t"
  using step
proof (cases rule: boot.cases)
  case (run_oneshot spec x w c)
  let ?cfg = "in_Config input"
  note loads = unit_environment_loads [OF cfg tr]
  from inv have m: "calm (disk s)" "clock_mono (disk s)" by (simp_all add: pod_inv_def)
  have closed: "\<forall>i \<in> up s. \<forall>j. us_after (unit_spec_of i) = Some j \<longrightarrow> j \<in> up s" using inv by (simp add: pod_inv_def)
  have fresh: "ID spec \<notin> up s" and mem: "spec \<in> set pod_components"
    and dep: "us_after (unit_spec_of (ID spec)) = Some j \<Longrightarrow> j \<in> up s" for j
    using run_oneshot(2) by (auto simp: may_start_def)
  have closed': "\<forall>i \<in> up t. \<forall>j. us_after (unit_spec_of i) = Some j \<longrightarrow> j \<in> up t"
    using closed dep run_oneshot(1) by auto
  from oneshot_specs [OF mem run_oneshot(3)] show ?thesis
  proof
    assume pki: "ID spec = ComponentPKI \<and> unit_args input spec = [''pki'']"
    then have "ComponentSetup \<notin> up s" using fresh after_chain(1) [OF closed, of ComponentSetup] by (auto simp: component_ids)
    then have no: "ComponentSetup \<notin> up t" using run_oneshot(1) pki by (auto simp: component_ids)
    have "run P info (unit_environment ?cfg ComponentPKI) [''pki''] (disk s, api s) = Some (x, (w, c))"
      using run_oneshot(4) pki by simp
    from pki_step [OF lib conjunct1 [OF loads] _ this, of ?cfg] no closed' m fresh pki show ?thesis
      unfolding run_oneshot(1) pod_inv_def by (auto simp: calm_def clock_mono_def)
  next
    assume st: "ID spec = ComponentSetup \<and> unit_args input spec = [''setup'']"
    have "ComponentAPIServer \<in> up s" by (rule dep) (simp add: st unit_spec_of_def component_ids)
    then have "ComponentPKI \<in> up s" using after_chain(1) [OF closed] by (simp add: component_ids)
    then have full: "complete (pf_pem P) (pki_of ?cfg) (w_files (disk s))" using inv by (simp add: pod_inv_def)
    have "run P info (unit_environment ?cfg ComponentSetup) [''setup''] (disk s, api s) = Some (x, (w, c))"
      using run_oneshot(4) st by simp
    from setup_step [OF lib conjunct2 [OF loads] calm_halting [OF m(1)] m(2) full this] closed' m fresh st show ?thesis
      unfolding run_oneshot(1) pod_inv_def by (auto simp: calm_def clock_mono_def)
  qed
next
  case (start_server spec)
  then have "ID spec \<noteq> ComponentPKI" "ID spec \<noteq> ComponentSetup" by (auto simp: oneshot_def unit_spec_of_def component_ids)
  with start_server inv show ?thesis by (auto simp: pod_inv_def may_start_def)
next
  case (server_acts spec w c)
  note spec = server_acts(2,4,5)
  have "ComponentPKI \<in> up s \<longrightarrow> complete (pf_pem P) (pki_of (in_Config input)) (w_files w)"
    "ComponentSetup \<in> up s \<longrightarrow> kubeconfigs_ready P (in_Config input) (w_files w)"
    using inv complete_confined [OF _ spec] kubeconfigs_confined [OF _ spec] by (auto simp: pod_inv_def)
  moreover have "calm w" "clock_mono w"
    using inv spec(3) by (simp_all add: pod_inv_def confined_def calm_def clock_mono_def)
  ultimately show ?thesis using inv server_acts(1) by (simp add: pod_inv_def)
next
  case (stop started)
  with inv show ?thesis by (auto simp: pod_inv_def)
qed

lemma crash_inv:
  assumes lib: "pem_ok (pf_pem P)" and cfg: "Config.Load env = Inr (in_Config input)" and tr: "trimmed (StateDir (in_Config input))"
    and inv: "pod_inv P (in_Config input) s" and step: "crash P info input s t"
  shows "pod_inv P (in_Config input) t"
  using step
proof (cases rule: crash.cases)
  case (killed spec n e x w c d)
  let ?cfg = "in_Config input" and ?w = "(disk s)\<lparr>w_faults := cut n e (w_faults (disk s))\<rparr>"
  note loads = unit_environment_loads [OF cfg tr]
  from inv have m: "calm (disk s)" "clock_mono (disk s)" by (simp_all add: pod_inv_def)
  have m': "halting ?w" "clock_mono ?w" using cut_halting [OF m(1)] m(2) by (simp_all add: clock_mono_def)
  have closed: "\<forall>i \<in> up s. \<forall>j. us_after (unit_spec_of i) = Some j \<longrightarrow> j \<in> up s" using inv by (simp add: pod_inv_def)
  have fresh: "ID spec \<notin> up s" and mem: "spec \<in> set pod_components"
    and dep: "us_after (unit_spec_of (ID spec)) = Some j \<Longrightarrow> j \<in> up s" for j
    using killed(2) by (auto simp: may_start_def)
  from oneshot_specs [OF mem killed(3), of input] show ?thesis
  proof
    assume pki: "ID spec = ComponentPKI \<and> unit_args input spec = [''pki'']"
    then have no: "ComponentPKI \<notin> up s" "ComponentSetup \<notin> up s"
      using fresh after_chain(1) [OF closed, of ComponentSetup] by (auto simp: component_ids)
    have "run P info (unit_environment ?cfg ComponentPKI) [''pki''] (?w, api s) = Some (x, (w, c))" using killed(4) pki by simp
    from pki_step [OF lib conjunct1 [OF loads] _ this, of ?cfg] no closed m show ?thesis
      unfolding killed(1) pod_inv_def by (simp add: calm_def clock_mono_def)
  next
    assume st: "ID spec = ComponentSetup \<and> unit_args input spec = [''setup'']"
    have "ComponentAPIServer \<in> up s" by (rule dep) (simp add: st unit_spec_of_def component_ids)
    then have "ComponentPKI \<in> up s" using after_chain(1) [OF closed] by (simp add: component_ids)
    then have full: "complete (pf_pem P) (pki_of ?cfg) (w_files ?w)" using inv by (simp add: pod_inv_def)
    have no: "ComponentSetup \<notin> up s" using fresh st by simp
    have "run P info (unit_environment ?cfg ComponentSetup) [''setup''] (?w, api s) = Some (x, (w, c))" using killed(4) st by simp
    from setup_step [OF lib conjunct2 [OF loads] m' full this] closed m no show ?thesis
      unfolding killed(1) pod_inv_def by (simp add: calm_def clock_mono_def)
  qed
qed

section \<open>What holds whenever a container runs\<close>

lemma webhook_pair:
  assumes full: "complete lib c fs" and spec: "spec \<in> set pod_components" "is_manager spec"
    and a: "webhook_artifact (generated_inventory c) (ID spec) = Some a"
  shows "pair_on_disk lib fs (CertPath a) (KeyPath a)"
proof -
  have "list_all (\<lambda>i. (''pki/'' @ i @ ''-webhook/tls.crt'', ''pki/'' @ i @ ''-webhook/tls.key'') \<in> set leaf_names)
      [ComponentCore, ComponentCABPK, ComponentKCP, ComponentCAPD]"
    by (simp add: leaf_names_def component_ids)
  with manager_ids [OF spec] have n: "(''pki/'' @ ID spec @ ''-webhook/tls.crt'', ''pki/'' @ ID spec @ ''-webhook/tls.key'') \<in> set leaf_names"
    by auto
  have "CertPath a = artifact_path c (''pki/'' @ ID spec @ ''-webhook/tls.crt'')" "KeyPath a = artifact_path c (''pki/'' @ ID spec @ ''-webhook/tls.key'')"
    using webhook_artifacts [OF spec, of c] a by (auto simp: artifact_path_def)
  with full n show ?thesis by (fastforce simp: complete_def list_all_iff)
qed

lemma step_inv:
  assumes lib: "pem_ok (pf_pem P)" and cfg: "Config.Load env = Inr (in_Config input)" and tr: "trimmed (StateDir (in_Config input))"
    and inv: "pod_inv P (in_Config input) s" and step: "pod_step P info input s t"
  shows "pod_inv P (in_Config input) t"
  using step boot_inv [OF lib cfg tr inv] crash_inv [OF lib cfg tr inv] unfolding pod_step_def by blast

lemma pod_inv_reached:
  assumes lib: "pem_ok (pf_pem P)" and cfg: "Config.Load env = Inr (in_Config input)" and tr: "trimmed (StateDir (in_Config input))"
    and reach: "survives P info input s t"
  shows "pod_inv P (in_Config input) s \<Longrightarrow> pod_inv P (in_Config input) t"
  using reach by (induction rule: rtranclp_induct) (auto intro: step_inv [OF lib cfg tr])


section \<open>The certificates that the pki container makes\<close>

lemma default_SANs:
  "apiserverSANs ''127.0.0.1'' = ([''localhost''], [loopback_ip])"
  "hypervisorWebhookSANs defaultHypervisorWebhookHost = ([''localhost'', ''host.containers.internal''], [loopback_ip])"
proof -
  have "\<not> IsUnspecified loopback_ip" by code_simp
  then show "apiserverSANs ''127.0.0.1'' = ([''localhost''], [loopback_ip])"
    by (simp add: apiserverSANs_def ParseIP_loopback appendUniqueIP_def)
  have "ParseIP ''host.containers.internal'' = None" by (simp add: go_eval)
  then show "hypervisorWebhookSANs defaultHypervisorWebhookHost = ([''localhost'', ''host.containers.internal''], [loopback_ip])"
    by (simp add: hypervisorWebhookSANs_def defaultHypervisorWebhookHost_def pkiDefaultHypervisorWebhookHost_def appendUniqueDNS_def Let_def)
qed

lemma leaf_issued_names:
  assumes "leaf_issued lib fs caCert caKey now spec"
  shows "\<exists>crt. cert_on_disk lib fs (CertPath (leaf_artifact spec)) = Some crt \<and>
    (DNSNames crt, IPAddresses crt) = (dnsNames spec, ipAddresses spec)"
  using assms by (auto simp: leaf_issued_def cert_on_disk_def file_data_def issued_certificate_def)

lemma configured_leaves:
  "leaf_spec (inventory_artifact (pki_dir c) ''apiserver'' ''apiserver.crt'' ''apiserver.key'') ''capishim-apiserver''
     [ExtKeyUsageServerAuth] (fst (apiserverSANs host)) (snd (apiserverSANs host)) \<in> set (generated_leaves c host)"
  "leaf_spec \<lparr>Name = ''hypervisor-webhook'', CertPath = fst (hypervisorWebhookPaths (PkiStateDir c)),
       KeyPath = snd (hypervisorWebhookPaths (PkiStateDir c))\<rparr> ''capishim:hypervisor-webhook''
     [ExtKeyUsageServerAuth] (fst (hypervisorWebhookSANs (PkiHypervisorWebhookHost c)))
       (snd (hypervisorWebhookSANs (PkiHypervisorWebhookHost c))) \<in> set (generated_leaves c host)"
  by (simp_all add: generated_leaves_def leaf_specs_def newInventory_def Let_def split_beta)

text \<open>
  C39. The addresses of the configuration do not get into the certificates. The pki unit passes the state directory only:
  for every configuration, a certificate that the pki container issues for the API server names localhost and 127.0.0.1,
  and the one for the hypervisor webhook the default host, whatever bind address and webhook host are configured.
\<close>

theorem pki_unit_certificates:
  assumes lib: "pem_ok (pf_pem P)" and load: "Config.Load env = Inr cfg" and tr: "trimmed (StateDir cfg)"
    and run: "run P info (unit_environment cfg ComponentPKI) [''pki''] (w, c) = Some (x, (v, d))" and ok: "exit_code x = exitOK"
    and web: "hypervisorWebhookPaths (StateDir cfg) = (webCert, webKey)"
    and invalid: "\<not> pair_on_disk (pf_pem P) (w_files w) (CertPath (APIServer (generated_inventory (pki_of cfg))))
        (KeyPath (APIServer (generated_inventory (pki_of cfg))))" "\<not> pair_on_disk (pf_pem P) (w_files w) webCert webKey"
  shows "\<exists>server hook. cert_on_disk (pf_pem P) (w_files v) (CertPath (APIServer (generated_inventory (pki_of cfg)))) = Some server \<and>
      DNSNames server = [''localhost''] \<and> IPAddresses server = [loopback_ip] \<and>
    cert_on_disk (pf_pem P) (w_files v) webCert = Some hook \<and>
      DNSNames hook = [''localhost'', ''host.containers.internal''] \<and> IPAddresses hook = [loopback_ip]"
proof -
  let ?pcfg = "cfg\<lparr>BindAddress := defaultBindAddress, HypervisorWebhookHost := defaultHypervisorWebhookHost\<rparr>"
  note loads = conjunct1 [OF unit_environment_loads [OF load tr]]
  obtain r u where g: "Generate (pf_pem P) None (pki_of ?pcfg) w = (r, u)" by fastforce
  moreover obtain inven where "r = Inr inven"
    using run g loads ok by (cases r) (auto simp: run_def only_machine_def runPKI_def pki_of_def)
  ultimately have gen: "Generate (pf_pem P) None (pki_of ?pcfg) w = (Inr inven, v)"
    using run loads by (auto simp: run_def only_machine_def runPKI_def pki_of_def)
  have "SplitHostPort defaultBindAddress = Inr (''127.0.0.1'', ''6443'')"
    using SplitHostPort_plain [of "''127.0.0.1''" "''6443''"] by (simp add: defaultBindAddress_def)
  then have host: "bindHost (PkiBindAddress (pki_of ?pcfg)) = Inr ''127.0.0.1''"
    by (simp add: pki_of_def bindHost_def defaultBindAddress_def)
  from Generate_outcome [OF lib gen] host obtain now caCert caKey where leaves:
    "list_all (\<lambda>spec. leaf_kept (pf_pem P) (w_files w) (w_files v) spec \<or>
        leaf_issued (pf_pem P) (w_files v) caCert caKey now spec) (generated_leaves (pki_of ?pcfg) ''127.0.0.1'')" by auto
  have dir: "pki_dir (pki_of ?pcfg) = pki_dir (pki_of cfg)" by (simp add: pki_dir_def pki_of_def)
  have api: "APIServer (generated_inventory (pki_of cfg)) =
      inventory_artifact (pki_dir (pki_of ?pcfg)) ''apiserver'' ''apiserver.crt'' ''apiserver.key''"
    by (simp add: dir generated_inventory_def newInventory_def Let_def)
  have hook: "hypervisorWebhookPaths (PkiStateDir (pki_of ?pcfg)) = (webCert, webKey)" using web by (simp add: pki_of_def)
  have def: "PkiHypervisorWebhookHost (pki_of ?pcfg) = defaultHypervisorWebhookHost" by (simp add: pki_of_def)
  have cert: "\<exists>crt. cert_on_disk (pf_pem P) (w_files v) (CertPath a) = Some crt \<and> DNSNames crt = dns \<and> IPAddresses crt = ips"
    if mem: "leaf_spec a cn us dns ips \<in> set (generated_leaves (pki_of ?pcfg) ''127.0.0.1'')"
      and no: "\<not> pair_on_disk (pf_pem P) (w_files w) (CertPath a) (KeyPath a)" for a cn us dns ips
  proof -
    have "leaf_issued (pf_pem P) (w_files v) caCert caKey now (leaf_spec a cn us dns ips)"
      using leaves mem no by (auto simp: list_all_iff leaf_kept_def leaf_spec_def)
    from leaf_issued_names [OF this] show ?thesis by (simp add: leaf_spec_def)
  qed
  from cert [OF configured_leaves(1)] invalid(1) have "\<exists>server. cert_on_disk (pf_pem P) (w_files v)
      (CertPath (APIServer (generated_inventory (pki_of cfg)))) = Some server \<and>
      DNSNames server = [''localhost''] \<and> IPAddresses server = [loopback_ip]"
    unfolding api default_SANs fst_conv snd_conv .
  moreover from cert [OF configured_leaves(2)] invalid(2) have "\<exists>crt. cert_on_disk (pf_pem P) (w_files v) webCert = Some crt \<and>
      DNSNames crt = [''localhost'', ''host.containers.internal''] \<and> IPAddresses crt = [loopback_ip]"
    unfolding hook def default_SANs fst_conv snd_conv artifact.simps by simp
  ultimately show ?thesis by blast
qed

end
