(* ===== verification/PodLive.thy ===== *)
theory PodLive
  imports PodBoot
begin

text \<open>
  Liveness of the pod of \<open>PodBoot\<close>: no run of the two oneshot containers and no server destroys what these
  containers need when they run again, so from every state that the pod can reach, also after restarts, there is a
  way to the state in which every unit is up.
\<close>

section \<open>What the oneshot containers need is never lost\<close>

text \<open>The machine stays as the pki and the setup container need it, also after they have run.\<close>

definition pod_live :: "('c, 's, 'r, 'm) platform \<Rightarrow> config \<Rightarrow> 'c pod \<Rightarrow> bool" where
  "pod_live P cfg s \<longleftrightarrow> up s \<subseteq> ID ` set pod_components \<and>
     (\<forall>i \<in> up s. \<forall>j. us_after (unit_spec_of i) = Some j \<longrightarrow> j \<in> up s) \<and>
     bootable P (cfg\<lparr>HypervisorWebhookHost := defaultHypervisorWebhookHost\<rparr>) defaultManifestsDir (disk s)"

lemma kubeconfig_room_host: "kubeconfig_room (cfg\<lparr>HypervisorWebhookHost := h\<rparr>) = kubeconfig_room cfg"
proof -
  have "KubeconfigPath (cfg\<lparr>HypervisorWebhookHost := h\<rparr>) i = KubeconfigPath cfg i" for i
    by (simp add: KubeconfigPath_def split: option.split)
  then have "owner_path (cfg\<lparr>HypervisorWebhookHost := h\<rparr>) x = owner_path cfg x" for x
    by (simp add: owner_path_def AdminKubeconfigPath_def split: option.split)
  then show ?thesis by (simp add: kubeconfig_room_def fun_eq_iff)
qed

lemma confined_keeps_free:
  assumes "spec \<in> set pod_components" and "\<not> oneshot spec" and "confined cfg (ID spec) w v"
    and "q \<in> set (path_chain (dir_prefix (StateDir cfg) @ d))" and "\<not> prefix ''etcd/'' d"
  shows "w_files v q = w_files w q"
proof -
  have "prefix q (dir_prefix (StateDir cfg) @ d)" using path_chain_prefix assms(4) by blast
  then have "\<not> HasPrefix q (dir_prefix (StateDir cfg) @ ''etcd/'')"
    using assms(5) unfolding HasPrefix_def by (metis prefix_order.trans same_prefix_prefix)
  with server_volumes [OF assms(1,2)] assms(3) show ?thesis by (auto simp: confined_def)
qed

lemma confined_bootable:
  assumes boot: "bootable P (cfg\<lparr>HypervisorWebhookHost := h\<rparr>) root w"
    and spec: "spec \<in> set pod_components" "\<not> oneshot spec" and conf: "confined cfg (ID spec) w v"
    and apart: "\<And>p. p \<in> set (ProviderManifestFiles root) \<Longrightarrow> \<not> HasPrefix p (dir_prefix (StateDir cfg) @ ''etcd/'')"
  shows "bootable P (cfg\<lparr>HypervisorWebhookHost := h\<rparr>) root v"
proof -
  let ?c = "cfg\<lparr>HypervisorWebhookHost := h\<rparr>"
  have path: "artifact_path (pki_of ?c) n = dir_prefix (StateDir cfg) @ n" for n by (simp add: artifact_path_def pki_of_def)
  have same: "w_files v (artifact_path (pki_of ?c) n) = w_files w (artifact_path (pki_of ?c) n)" if "n \<in> set all_names" for n
    unfolding path using names_not_etcd that by (intro confined_same [OF spec conf]) (simp add: list_all_iff)
  have dirs: "list_all (\<lambda>d. \<not> prefix ''etcd/'' d) dir_names" by (simp add: dir_names_def)
  have chain: "w_files v q = w_files w q" if "d \<in> set dir_names" "q \<in> set (path_chain (artifact_path (pki_of ?c) d))" for d q
    using confined_keeps_free [OF spec conf that(2) [unfolded path]] dirs that(1) by (simp add: list_all_iff)
  have "unobstructed (pki_of ?c) (w_files v)"
    using boot same chain by (auto simp: bootable_def ready_def unobstructed_def is_dir_def file_data_def)
  then have ready: "ready (pki_of ?c) v"
    using boot conf by (simp add: bootable_def ready_def confined_def calm_def clock_ok_def)
  have mono: "clock_mono v" using boot conf by (simp add: bootable_def confined_def clock_mono_def)
  have room: "kubeconfig_room ?c (w_files v)"
    unfolding kubeconfig_room_def
  proof (intro ballI allI impI)
    fix x p assume x: "x \<in> set owners" and p: "owner_path ?c x = Some p"
    with boot have r: "room (w_files w) p" unfolding bootable_def kubeconfig_room_def by blast
    from p obtain e where e: "p = dir_prefix (StateDir ?c) @ ''kubeconfigs'' @ slash # e" "Dir p = dir_prefix (StateDir ?c) @ ''kubeconfigs''"
      "\<And>n. temp_name (Dir p) n = dir_prefix (StateDir ?c) @ ''kubeconfigs'' @ slash # ''.capishim-'' @ Itoa (int n) @ ''.tmp''"
      by (rule owner_path_shape) blast
    have kc: "w_files v (dir_prefix (StateDir cfg) @ ''kubeconfigs'' @ slash # f) = w_files w (dir_prefix (StateDir cfg) @ ''kubeconfigs'' @ slash # f)" for f
      by (rule confined_same [OF spec conf]) (simp add: HasPrefix_def)
    have "w_files v q = w_files w q" if "q \<in> set (path_chain (Dir p))" for q
      using confined_keeps_free [OF spec conf, of q "''kubeconfigs''"] that e(2) by simp
    moreover have "w_files v p = w_files w p" using kc [of e] e(1) by simp
    moreover have "w_files v (temp_name (Dir p) n) = w_files w (temp_name (Dir p) n)" for n
      unfolding e(3) using kc by simp
    ultimately show "room (w_files v) p" using r by (simp add: room_def is_dir_def file_data_def)
  qed
  have ca: "file_data (w_files v) p = file_data (w_files w) p" if "p \<in> {ca_cert_path (pki_of ?c), ca_key_path (pki_of ?c)}" for p
  proof -
    have "w_files v p = w_files w p"
      using that same [of "''pki/ca.crt''"] same [of "''pki/ca.key''"] by (auto simp: all_names_def ca_names_def)
    then show ?thesis by (simp add: file_data_def)
  qed
  then have auth: "authority_on_disk (pf_pem P) (w_files v) (ca_cert_path (pki_of ?c)) (ca_key_path (pki_of ?c)) =
      authority_on_disk (pf_pem P) (w_files w) (ca_cert_path (pki_of ?c)) (ca_key_path (pki_of ?c))"
    by (intro authority_cong) simp_all
  have "w_files v p = w_files w p" if "p \<in> set (ProviderManifestFiles root)" for p
    using server_volumes [OF spec apart [OF that]] conf by (simp add: confined_def)
  then have files: "file_at (w_files v) p = file_at (w_files w) p" if "p \<in> set (ProviderManifestFiles root)" for p
    using that by (simp add: file_at_def)
  have "applicable P ?c (w_files w) root" using boot by (simp only: bootable_def)
  then have "applicable P ?c (w_files v) root" using files by (rule applicable_cong)
  then show ?thesis using boot ready mono room auth ca by (simp add: bootable_def)
qed

text \<open>Some unit can start as long as not all are up.\<close>

lemma unit_order:
  "ID ` set pod_components = {ComponentPKI, ComponentEtcd, ComponentAPIServer, ComponentSetup, ComponentCore, ComponentCABPK,
     ComponentKCP, ComponentCAPD}"
proof -
  have "map ID pod_components = [ComponentPKI, ComponentEtcd, ComponentAPIServer, ComponentSetup, ComponentCore, ComponentCABPK,
       ComponentKCP, ComponentCAPD]"
    by (simp add: pod_components_def Components_def plain_component_def)
  then have "set (map ID pod_components) = set [ComponentPKI, ComponentEtcd, ComponentAPIServer, ComponentSetup, ComponentCore,
      ComponentCABPK, ComponentKCP, ComponentCAPD]" by (rule arg_cong)
  then show ?thesis unfolding set_map by simp
qed

lemma next_unit:
  assumes "started \<subset> ID ` set pod_components"
  shows "\<exists>spec. may_start started spec"
proof -
  have after: "us_after (unit_spec_of ComponentPKI) = None" "us_after (unit_spec_of ComponentEtcd) = Some ComponentPKI"
    "us_after (unit_spec_of ComponentAPIServer) = Some ComponentEtcd" "us_after (unit_spec_of ComponentSetup) = Some ComponentAPIServer"
    "i \<notin> {ComponentPKI, ComponentEtcd, ComponentAPIServer, ComponentSetup} \<Longrightarrow> us_after (unit_spec_of i) = Some ComponentSetup" for i
    by (simp_all add: unit_spec_of_def component_ids)
  have start: "\<exists>spec. may_start started spec"
    if "i \<in> ID ` set pod_components" "i \<notin> started" "\<And>j. us_after (unit_spec_of i) = Some j \<Longrightarrow> j \<in> started" for i
    using that by (auto simp: may_start_def split: option.split)
  obtain i where i: "i \<in> ID ` set pod_components" "i \<notin> started" using assms by blast
  have order: "ComponentPKI \<in> ID ` set pod_components" "ComponentEtcd \<in> ID ` set pod_components"
    "ComponentAPIServer \<in> ID ` set pod_components" "ComponentSetup \<in> ID ` set pod_components"
    unfolding unit_order by simp_all
  consider "ComponentPKI \<notin> started" | "ComponentPKI \<in> started" "ComponentEtcd \<notin> started"
    | "ComponentEtcd \<in> started" "ComponentAPIServer \<notin> started" | "ComponentAPIServer \<in> started" "ComponentSetup \<notin> started"
    | "ComponentPKI \<in> started" "ComponentEtcd \<in> started" "ComponentAPIServer \<in> started" "ComponentSetup \<in> started" by blast
  then show ?thesis
  proof cases
    case 1
    show ?thesis by (rule start [OF order(1) 1]) (simp add: after)
  next
    case 2
    show ?thesis by (rule start [OF order(2) 2(2)]) (simp add: after 2(1))
  next
    case 3
    show ?thesis by (rule start [OF order(3) 3(2)]) (simp add: after 3(1))
  next
    case 4
    show ?thesis by (rule start [OF order(4) 4(2)]) (simp add: after 4(1))
  next
    case 5
    with i have "i \<notin> {ComponentPKI, ComponentEtcd, ComponentAPIServer, ComponentSetup}" by blast
    from after(5) [OF this] show ?thesis by (intro start [OF i]) (simp add: 5(4))
  qed
qed

lemma unit_settings:
  "ManifestsDir (unit_environment cfg ComponentSetup) = Inr defaultManifestsDir"
  "APIServerTimeout fr (unit_environment cfg ComponentSetup) = Inr defaultAPIServerTimeout"
  by (simp_all add: unit_environment_values ManifestsDir_def APIServerTimeout_def EnvManifestsDir_def EnvAPIServerTimeout_def
      EnvStateDir_def EnvBindAddress_def)

text \<open>What the live pod rests on: the library, names that certificates can carry, and an API server that answers and accepts.\<close>

definition pod_served ::
  "('c, 's, 'r, 'm) platform \<Rightarrow> ('c \<Rightarrow> store) \<Rightarrow> (obj \<Rightarrow> obj \<Rightarrow> bool) \<Rightarrow> config \<Rightarrow> bool" where
  "pod_served P view same cfg \<longleftrightarrow> healthy P view same \<and> (\<forall>kc. is_ok (SerializeKC P kc)) \<and>
     (\<exists>host port. SplitHostPort (BindAddress cfg) = Inr (host, port) \<and> list_all is_digit port \<and>
        (\<forall>h \<in> {host, ''127.0.0.1''}.
           names_ok (pf_pem P) (fst (apiserverSANs h) @ fst (hypervisorWebhookSANs defaultHypervisorWebhookHost))))"

lemma oneshots_succeed:
  assumes lib: "pem_ok (pf_pem P)" "k8s_lib_ok (pf_lib P)" "converter_ok (pf_lib P) (pf_converter P)"
    and load: "Config.Load env = Inr cfg" and tr: "trimmed (StateDir cfg)" and srv: "pod_served P view same cfg"
    and boot: "bootable P (cfg\<lparr>HypervisorWebhookHost := defaultHypervisorWebhookHost\<rparr>) defaultManifestsDir w"
  shows "\<exists>x v d. run P info (unit_environment cfg ComponentPKI) [''pki''] (w, c) = Some (x, (v, d)) \<and> exit_code x = exitOK \<and>
      bootable P (cfg\<lparr>HypervisorWebhookHost := defaultHypervisorWebhookHost\<rparr>) defaultManifestsDir v"
    and "\<exists>x v d. run P info (unit_environment cfg ComponentSetup) [''setup''] (w, c) = Some (x, (v, d)) \<and> exit_code x = exitOK \<and>
      bootable P (cfg\<lparr>HypervisorWebhookHost := defaultHypervisorWebhookHost\<rparr>) defaultManifestsDir v"
proof -
  let ?pcfg = "cfg\<lparr>BindAddress := defaultBindAddress, HypervisorWebhookHost := defaultHypervisorWebhookHost\<rparr>"
  let ?scfg = "cfg\<lparr>HypervisorWebhookHost := defaultHypervisorWebhookHost\<rparr>"
  note loads = unit_environment_loads [OF load tr]
  from srv obtain host port where bind: "SplitHostPort (BindAddress cfg) = Inr (host, port)" "list_all is_digit port"
    and names: "\<forall>h \<in> {host, ''127.0.0.1''}.
      names_ok (pf_pem P) (fst (apiserverSANs h) @ fst (hypervisorWebhookSANs defaultHypervisorWebhookHost))"
    and server: "healthy P view same" and ser: "\<forall>kc. is_ok (SerializeKC P kc)"
    unfolding pod_served_def by blast
  have "SplitHostPort (BindAddress ?pcfg) = Inr (''127.0.0.1'', ''6443'')"
    using SplitHostPort_plain [of "''127.0.0.1''" "''6443''"] by (simp add: defaultBindAddress_def)
  from pki_runs [OF lib(1) conjunct1 [OF loads] this _ _ boot, of info] names
  show "\<exists>x v d. run P info (unit_environment cfg ComponentPKI) [''pki''] (w, c) = Some (x, (v, d)) \<and> exit_code x = exitOK \<and>
      bootable P ?scfg defaultManifestsDir v"
    by fastforce
  show "\<exists>x v d. run P info (unit_environment cfg ComponentSetup) [''setup''] (w, c) = Some (x, (v, d)) \<and> exit_code x = exitOK \<and>
      bootable P ?scfg defaultManifestsDir v"
    using setup_runs [OF lib conjunct2 [OF loads] unit_settings _ bind(2) _ server ser boot, of host info c] bind(1) names
    by fastforce
qed

definition manifests_apart :: "config \<Rightarrow> bool" where
  "manifests_apart cfg \<longleftrightarrow>
     list_all (\<lambda>p. \<not> HasPrefix p (dir_prefix (StateDir cfg) @ ''etcd/'')) (ProviderManifestFiles defaultManifestsDir)"

lemma live_oneshot:
  assumes lib: "pem_ok (pf_pem P)" "k8s_lib_ok (pf_lib P)" "converter_ok (pf_lib P) (pf_converter P)"
    and load: "Config.Load env = Inr (in_Config input)" and tr: "trimmed (StateDir (in_Config input))"
    and srv: "pod_served P view same (in_Config input)" and live: "pod_live P (in_Config input) s"
    and start: "may_start (up s) spec" "oneshot spec"
  shows "\<exists>x w c. run P info (unit_environment (in_Config input) (ID spec)) (unit_args input spec) (disk s, api s) = Some (x, (w, c)) \<and>
    exit_code x = exitOK \<and> pod_live P (in_Config input) \<lparr>up = insert (ID spec) (up s), disk = w, api = c\<rparr>"
proof -
  let ?cfg = "in_Config input"
  have fresh: "ID spec \<notin> up s" and mem: "spec \<in> set pod_components"
    and dep: "us_after (unit_spec_of (ID spec)) = Some j \<Longrightarrow> j \<in> up s" for j
    using start(1) by (auto simp: may_start_def)
  have closed: "\<forall>i \<in> up s. \<forall>j. us_after (unit_spec_of i) = Some j \<longrightarrow> j \<in> up s" using live by (simp add: pod_live_def)
  then have closed': "\<forall>i \<in> insert (ID spec) (up s). \<forall>j. us_after (unit_spec_of i) = Some j \<longrightarrow> j \<in> insert (ID spec) (up s)"
    using dep by auto
  have known: "insert (ID spec) (up s) \<subseteq> ID ` set pod_components" using live mem by (auto simp: pod_live_def)
  have boot: "bootable P (?cfg\<lparr>HypervisorWebhookHost := defaultHypervisorWebhookHost\<rparr>) defaultManifestsDir (disk s)"
    using live by (simp add: pod_live_def)
  note ok = oneshots_succeed [OF lib load tr srv boot, of info "api s"]
  from oneshot_specs [OF mem start(2), of input] show ?thesis
  proof
    assume pki: "ID spec = ComponentPKI \<and> unit_args input spec = [''pki'']"
    with ok(1) closed' known show ?thesis by (fastforce simp: pod_live_def)
  next
    assume st: "ID spec = ComponentSetup \<and> unit_args input spec = [''setup'']"
    with ok(2) closed' known show ?thesis by (fastforce simp: pod_live_def)
  qed
qed

lemma live_step:
  assumes lib: "pem_ok (pf_pem P)" "k8s_lib_ok (pf_lib P)" "converter_ok (pf_lib P) (pf_converter P)"
    and load: "Config.Load env = Inr (in_Config input)" and tr: "trimmed (StateDir (in_Config input))"
    and srv: "pod_served P view same (in_Config input)" and apart: "manifests_apart (in_Config input)"
    and live: "pod_live P (in_Config input) s" and step: "boot P info input s t"
  shows "pod_live P (in_Config input) t"
  using step
proof (cases rule: boot.cases)
  case (run_oneshot spec x w c)
  from live_oneshot [OF lib load tr srv live run_oneshot(2,3), of info] run_oneshot(1,4) show ?thesis by auto
next
  case (start_server spec)
  with live show ?thesis by (auto simp: pod_live_def may_start_def)
next
  case (server_acts spec w c)
  have "\<not> HasPrefix p (dir_prefix (StateDir (in_Config input)) @ ''etcd/'')" if "p \<in> set (ProviderManifestFiles defaultManifestsDir)" for p
    using apart that by (simp add: manifests_apart_def list_all_iff)
  then have "bootable P (in_Config input\<lparr>HypervisorWebhookHost := defaultHypervisorWebhookHost\<rparr>) defaultManifestsDir w"
    using live by (intro confined_bootable [OF _ server_acts(2,4,5)]) (simp_all add: pod_live_def)
  with live show ?thesis unfolding server_acts(1) by (simp add: pod_live_def)
next
  case (stop started)
  with live show ?thesis by (auto simp: pod_live_def)
qed

lemma live_reached:
  assumes lib: "pem_ok (pf_pem P)" "k8s_lib_ok (pf_lib P)" "converter_ok (pf_lib P) (pf_converter P)"
    and load: "Config.Load env = Inr (in_Config input)" and tr: "trimmed (StateDir (in_Config input))"
    and srv: "pod_served P view same (in_Config input)" and apart: "manifests_apart (in_Config input)"
    and reach: "reaches P info input s t"
  shows "pod_live P (in_Config input) s \<Longrightarrow> pod_live P (in_Config input) t"
  using reach by (induction rule: rtranclp_induct) (auto intro: live_step [OF lib load tr srv apart])

lemma live_progress:
  assumes lib: "pem_ok (pf_pem P)" "k8s_lib_ok (pf_lib P)" "converter_ok (pf_lib P) (pf_converter P)"
    and load: "Config.Load env = Inr (in_Config input)" and tr: "trimmed (StateDir (in_Config input))"
    and srv: "pod_served P view same (in_Config input)" and live: "pod_live P (in_Config input) s"
    and down: "up s \<noteq> ID ` set pod_components"
  shows "\<exists>t. boot P info input s t \<and> up s \<subset> up t"
proof -
  have "up s \<subset> ID ` set pod_components" using live down by (auto simp: pod_live_def)
  then obtain spec where start: "may_start (up s) spec" using next_unit by blast
  then have new: "up s \<subset> insert (ID spec) (up s)" by (auto simp: may_start_def)
  show ?thesis
  proof (cases "oneshot spec")
    case True
    from live_oneshot [OF lib load tr srv live start True, of info] obtain x w c
      where run: "run P info (unit_environment (in_Config input) (ID spec)) (unit_args input spec) (disk s, api s) = Some (x, (w, c))"
        and ok: "exit_code x = exitOK" by blast
    from run_oneshot [OF start True run] ok new show ?thesis by (intro exI conjI) auto
  next
    case False
    from start_server [OF start False] new show ?thesis by (intro exI conjI) auto
  qed
qed

lemma comes_up:
  assumes lib: "pem_ok (pf_pem P)" "k8s_lib_ok (pf_lib P)" "converter_ok (pf_lib P) (pf_converter P)"
    and load: "Config.Load env = Inr (in_Config input)" and tr: "trimmed (StateDir (in_Config input))"
    and srv: "pod_served P view same (in_Config input)" and apart: "manifests_apart (in_Config input)"
  shows "pod_live P (in_Config input) s \<Longrightarrow> \<exists>t. reaches P info input s t \<and> up t = ID ` set pod_components"
proof (induction "card (ID ` set pod_components - up s)" arbitrary: s rule: less_induct)
  case less
  show ?case
  proof (cases "up s = ID ` set pod_components")
    case True
    then show ?thesis by blast
  next
    case False
    from live_progress [OF lib load tr srv less.prems False, of info] obtain t
      where step: "boot P info input s t" and more: "up s \<subset> up t" by blast
    have live: "pod_live P (in_Config input) t" by (rule live_step [OF lib load tr srv apart less.prems step])
    then have "ID ` set pod_components - up t \<subset> ID ` set pod_components - up s" using more by (auto simp: pod_live_def)
    then have "card (ID ` set pod_components - up t) < card (ID ` set pod_components - up s)" by (intro psubset_card_mono) auto
    from less.hyps [OF this live] step show ?thesis by (meson converse_rtranclp_into_rtranclp)
  qed
qed


end
