(* ===== verification/PodKeeps.thy ===== *)
theory PodKeeps
  imports PodBoot
begin

text \<open>
  What the pod of \<open>PodBoot\<close> never loses. From the first success of the pki container on, every certificate and
  key stays what it is, and from the first success of the setup container on every kubeconfig: through stops
  and restarts, further runs of the two containers, which may fail or be killed, and whatever the servers do in their
  volumes.
\<close>

section \<open>One more run of a oneshot container\<close>

abbreviation setup_config :: "config \<Rightarrow> config" where
  "setup_config cfg \<equiv> cfg\<lparr>HypervisorWebhookHost := defaultHypervisorWebhookHost\<rparr>"

definition certificate_paths :: "config \<Rightarrow> string set" where
  "certificate_paths cfg = artifact_path (pki_of cfg) ` set all_names"

definition kubeconfig_paths :: "config \<Rightarrow> string set" where
  "kubeconfig_paths cfg = {q. \<exists>i. KubeconfigPath cfg i = Some q} \<union> {AdminKubeconfigPath cfg}"

definition same_files :: "string set \<Rightarrow> world \<Rightarrow> world \<Rightarrow> bool" where
  "same_files S w v \<longleftrightarrow> (\<forall>p \<in> S. file_at (w_files v) p = file_at (w_files w) p)"

definition kubeconfigs_placed :: "('c, 's, 'r, 'm) platform \<Rightarrow> config \<Rightarrow> files \<Rightarrow> bool" where
  "kubeconfigs_placed P cfg fs \<longleftrightarrow> (\<forall>x \<in> set owners.
     kubeconfigs.in_place cfg (SerializeKC P) (APIServerURL (BindAddress cfg)) (generated_inventory (pki_of cfg)) fs x)"

lemma same_files_simps [simp]: "same_files S w w" "w_files v = w_files w \<Longrightarrow> same_files S w v"
  by (simp_all add: same_files_def file_at_def)

lemma same_files_trans: "same_files S u v \<Longrightarrow> same_files S v w \<Longrightarrow> same_files S u w"
  by (simp add: same_files_def)

lemma setup_config_paths:
  "certificate_paths (setup_config cfg) = certificate_paths cfg" "kubeconfig_paths (setup_config cfg) = kubeconfig_paths cfg"
  "ca_paths_of (pki_of cfg) \<union> issued_paths (pki_of cfg) = certificate_paths cfg"
proof -
  show "ca_paths_of (pki_of cfg) \<union> issued_paths (pki_of cfg) = certificate_paths cfg"
    unfolding all_paths certificate_paths_def ..
  show "certificate_paths (setup_config cfg) = certificate_paths cfg"
    by (simp add: certificate_paths_def artifact_path_def pki_of_def)
  have "KubeconfigPath (setup_config cfg) i = KubeconfigPath cfg i" for i by (simp add: KubeconfigPath_def split: option.split)
  then show "kubeconfig_paths (setup_config cfg) = kubeconfig_paths cfg"
    by (simp add: kubeconfig_paths_def AdminKubeconfigPath_def)
qed

lemma kubeconfigs_placed_keep:
  assumes placed: "kubeconfigs_placed P cfg (w_files w)" and same: "same_files (kubeconfig_paths cfg) w v"
  shows "kubeconfigs_placed P cfg (w_files v)"
  unfolding kubeconfigs_placed_def kubeconfigs.in_place_def
proof (intro ballI allI impI)
  fix x p assume x: "x \<in> set owners" and p: "owner_path cfg x = Some p"
  then have "file_at (w_files v) p = file_at (w_files w) p"
    using same owner_path_kubeconfig [OF p] by (auto simp: same_files_def kubeconfig_paths_def)
  with placed x p show "\<exists>d. owner_content (SerializeKC P) (APIServerURL (BindAddress cfg)) (generated_inventory (pki_of cfg)) x = Some d \<and>
      file_at (w_files v) p = Some (kubeconfigFileMode, d)"
    by (simp add: kubeconfigs_placed_def kubeconfigs.in_place_def)
qed

lemma pki_keeps_disk:
  assumes load: "Config.Load env = Inr pcfg" and state: "StateDir pcfg = StateDir cfg"
    and machine: "halting w" "complete lib (pki_of cfg) (w_files w)" and lib: "pf_pem P = lib"
    and run: "run P info env [''pki''] (w, c) = Some (x, (v, d))"
  shows "w_files v = w_files w"
proof -
  obtain h p where b: "SplitHostPort (BindAddress pcfg) = Inr (h, p)" by (rule loaded_bind [OF load]) blast
  have host: "bindHost (PkiBindAddress (pki_of pcfg)) = Inr h" using loaded_bind_url [OF load b] by (simp add: pki_of_def)
  have full: "complete lib (pki_of pcfg) (w_files w)"
    using machine(2) complete_state_dir [of "pki_of pcfg" "pki_of cfg"] state by (simp add: pki_of_def)
  obtain r u where gen: "Generate (pf_pem P) None (pki_of pcfg) w = (r, u)" by fastforce
  from until_deadD [OF Generate_until_dead [OF full host] gen [unfolded lib] machine(1)] have "w_files u = w_files w" by simp
  moreover have "v = u" using run gen load by (auto simp: run_def only_machine_def runPKI_def pki_of_def split: sum.splits)
  ultimately show ?thesis by simp
qed

lemma setup_run_keeps:
  assumes lib: "pem_ok (pf_pem P)" and load: "Config.Load env = Inr (setup_config cfg)"
    and machine: "halting w" "clock_mono w" and full: "complete (pf_pem P) (pki_of cfg) (w_files w)"
    and run: "run P info env [''setup''] (w, c) = Some (x, (v, d))"
  shows "same_files (certificate_paths cfg) w v"
    and "kubeconfigs_placed P (setup_config cfg) (w_files w) \<Longrightarrow> same_files (kubeconfig_paths cfg) w v"
    and "exit_code x = exitOK \<Longrightarrow> kubeconfigs_placed P (setup_config cfg) (w_files v)"
proof -
  have sx: "runSetup P env (w, c) = Some (x, (v, d))" using run by (simp add: run_def)
  then obtain r where st: "setup_cmd P None env (w, c) = Some (r, (v, d))"
    by (auto simp: runSetup_def split: option.splits prod.splits sum.splits)
  have "complete (pf_pem P) (pki_of (setup_config cfg)) (w_files w)"
    using full complete_state_dir [of "pki_of (setup_config cfg)" "pki_of cfg"] by (simp add: pki_of_def)
  with machine have keeps: "p \<in> certificate_paths cfg \<Longrightarrow> file_at (w_files v) p = file_at (w_files w) p"
    "kubeconfigs_placed P (setup_config cfg) (w_files w) \<Longrightarrow> p \<in> kubeconfig_paths (setup_config cfg) \<Longrightarrow>
      file_at (w_files v) p = file_at (w_files w) p" for p
    using setup_keeps_files [OF lib _ _ load _ st, of p] unfolding setup_config_paths(1,3)
    by (simp_all add: kubeconfigs_placed_def kubeconfig_paths_def disj_commute)
  show "same_files (certificate_paths cfg) w v"
    using keeps(1) by (simp add: same_files_def)
  show "same_files (kubeconfig_paths cfg) w v" if "kubeconfigs_placed P (setup_config cfg) (w_files w)"
    using keeps(2) [OF that] by (simp add: same_files_def setup_config_paths)
  show "kubeconfigs_placed P (setup_config cfg) (w_files v)" if "exit_code x = exitOK"
  proof -
    have ok: "setup_cmd P None env (w, c) = Some (Inr (), (v, d))" using runSetup_outcome [OF sx] that by simp
    obtain cfg' u where "Config.Load env = Inr cfg'"
      and kc: "setup_kubeconfigs (SerializeKC P) cfg' (APIServerURL (BindAddress cfg')) (generated_inventory (pki_of cfg')) u =
        (Inr (), v)"
      by (rule setup_certificates [OF lib ok]) (auto simp: machine)
    with load have "cfg' = setup_config cfg" by simp
    from kubeconfigs.loop_placed [OF owners_separate kc [unfolded setup_kubeconfigs_owners, unfolded this]] show ?thesis
      by (auto simp: kubeconfigs_placed_def)
  qed
qed

section \<open>One step of the pod\<close>

lemma confined_keeps:
  assumes spec: "spec \<in> set pod_components" "\<not> oneshot spec" and conf: "confined cfg (ID spec) w v"
  shows "same_files (certificate_paths cfg) w v" and "same_files (kubeconfig_paths cfg) w v"
proof -
  have same: "file_at (w_files v) (dir_prefix (StateDir cfg) @ n) = file_at (w_files w) (dir_prefix (StateDir cfg) @ n)"
    if "\<not> HasPrefix n ''etcd/''" for n
    using confined_same [OF spec conf that] by (rule file_at_same)
  show "same_files (certificate_paths cfg) w v"
    unfolding same_files_def
  proof
    fix p assume "p \<in> certificate_paths cfg"
    then obtain n where "n \<in> set all_names" "p = dir_prefix (StateDir cfg) @ n"
      by (auto simp: certificate_paths_def artifact_path_def pki_of_def)
    with same [of n] names_not_etcd show "file_at (w_files v) p = file_at (w_files w) p" by (simp add: list_all_iff)
  qed
  show "same_files (kubeconfig_paths cfg) w v"
    unfolding same_files_def
  proof
    fix p assume "p \<in> kubeconfig_paths cfg"
    then obtain i where "KubeconfigPath cfg i = Some p \<or> p = AdminKubeconfigPath cfg" by (auto simp: kubeconfig_paths_def)
    from kubeconfig_owner [OF this] obtain x where "owner_path cfg x = Some p" by blast
    then obtain e where "p = dir_prefix (StateDir cfg) @ ''kubeconfigs'' @ slash # e" by (rule owner_path_shape)
    with same [of "''kubeconfigs'' @ slash # e"] show "file_at (w_files v) p = file_at (w_files w) p"
      by (simp add: HasPrefix_def)
  qed
qed

text \<open>A run of either container, to its end or until it is killed.\<close>

lemma oneshot_keeps:
  assumes lib: "pem_ok (pf_pem P)" and cfg: "Config.Load env = Inr (in_Config input)" and tr: "trimmed (StateDir (in_Config input))"
    and machine: "halting w" "clock_mono w" and full: "complete (pf_pem P) (pki_of (in_Config input)) (w_files w)"
    and start: "may_start started spec" "oneshot spec"
    and run: "run P info (unit_environment (in_Config input) (ID spec)) (unit_args input spec) (w, c) = Some (x, (v, d))"
  shows "same_files (certificate_paths (in_Config input)) w v \<and>
    (kubeconfigs_placed P (setup_config (in_Config input)) (w_files w) \<longrightarrow> same_files (kubeconfig_paths (in_Config input)) w v) \<and>
    complete (pf_pem P) (pki_of (in_Config input)) (w_files v)"
proof -
  let ?cfg = "in_Config input"
  note loads = unit_environment_loads [OF cfg tr]
  have "spec \<in> set pod_components" using start(1) by (simp add: may_start_def)
  from oneshot_specs [OF this start(2), of input] show ?thesis
  proof
    assume pki: "ID spec = ComponentPKI \<and> unit_args input spec = [''pki'']"
    with run have "run P info (unit_environment ?cfg ComponentPKI) [''pki''] (w, c) = Some (x, (v, d))" by simp
    from pki_keeps_disk [OF conjunct1 [OF loads] _ machine(1) full refl this] full show ?thesis by simp
  next
    assume st: "ID spec = ComponentSetup \<and> unit_args input spec = [''setup'']"
    with run have s: "run P info (unit_environment ?cfg ComponentSetup) [''setup''] (w, c) = Some (x, (v, d))" by simp
    from setup_run_keeps(1,2) [OF lib conjunct2 [OF loads] machine full s] setup_step [OF lib conjunct2 [OF loads] machine full s]
    show ?thesis by simp
  qed
qed

lemma step_keeps:
  assumes lib: "pem_ok (pf_pem P)" and cfg: "Config.Load env = Inr (in_Config input)" and tr: "trimmed (StateDir (in_Config input))"
    and inv: "pod_inv P (in_Config input) s" and full: "complete (pf_pem P) (pki_of (in_Config input)) (w_files (disk s))"
    and step: "pod_step P info input s t"
  shows "same_files (certificate_paths (in_Config input)) (disk s) (disk t) \<and>
    (kubeconfigs_placed P (setup_config (in_Config input)) (w_files (disk s)) \<longrightarrow>
       same_files (kubeconfig_paths (in_Config input)) (disk s) (disk t)) \<and>
    complete (pf_pem P) (pki_of (in_Config input)) (w_files (disk t))"
proof -
  note keeps = oneshot_keeps [OF lib cfg tr]
  have m: "calm (disk s)" "clock_mono (disk s)" using inv by (simp_all add: pod_inv_def)
  from step consider "boot P info input s t" | "crash P info input s t" by (auto simp: pod_step_def)
  then show ?thesis
  proof cases
    case 1
    then show ?thesis
    proof (cases rule: boot.cases)
      case (run_oneshot spec x w c)
      from keeps [OF calm_halting [OF m(1)] m(2) full run_oneshot(2-4)] show ?thesis by (simp add: run_oneshot(1))
    next
      case (start_server spec)
      with full show ?thesis by simp
    next
      case (server_acts spec w c)
      with confined_keeps [OF server_acts(2,4,5)] complete_confined [OF full server_acts(2,4,5)] show ?thesis by simp
    next
      case (stop started)
      with full show ?thesis by simp
    qed
  next
    case 2
    then show ?thesis
    proof (cases rule: crash.cases)
      case (killed spec n e x w c d)
      have "clock_mono ((disk s)\<lparr>w_faults := cut n e (w_faults (disk s))\<rparr>)" using m(2) by (simp add: clock_mono_def)
      from keeps [OF cut_halting [OF m(1)] this _ killed(2-4)] full show ?thesis
        by (simp add: killed(1) same_files_def)
    qed
  qed
qed

text \<open>While setup is up, its kubeconfigs are in place.\<close>

lemma placed_step:
  assumes lib: "pem_ok (pf_pem P)" and cfg: "Config.Load env = Inr (in_Config input)" and tr: "trimmed (StateDir (in_Config input))"
    and inv: "pod_inv P (in_Config input) s" and step: "pod_step P info input s t"
    and placed: "ComponentSetup \<in> up s \<Longrightarrow> kubeconfigs_placed P (setup_config (in_Config input)) (w_files (disk s))"
    and setup_up: "ComponentSetup \<in> up t"
  shows "kubeconfigs_placed P (setup_config (in_Config input)) (w_files (disk t))"
proof -
  let ?cfg = "in_Config input"
  have closed: "\<forall>i \<in> up s. \<forall>j. us_after (unit_spec_of i) = Some j \<longrightarrow> j \<in> up s" using inv by (simp add: pod_inv_def)
  show ?thesis
  proof (cases "ComponentSetup \<in> up s")
    case True
    then have "ComponentPKI \<in> up s" using after_chain(1) [OF closed, of ComponentSetup] by (auto simp: component_ids)
    then have "complete (pf_pem P) (pki_of ?cfg) (w_files (disk s))" using inv by (simp add: pod_inv_def)
    from step_keeps [OF lib cfg tr inv this step] placed [OF True]
    have "same_files (kubeconfig_paths (setup_config ?cfg)) (disk s) (disk t)" by (simp add: setup_config_paths)
    with placed [OF True] show ?thesis by (rule kubeconfigs_placed_keep)
  next
    case False
    then have "boot P info input s t" using step setup_up by (auto simp: pod_step_def elim: crash.cases)
    then show ?thesis
    proof (cases rule: boot.cases)
      case (run_oneshot spec x w c)
      have ok: "exit_code x = exitOK" and id: "ID spec = ComponentSetup"
        using setup_up False by (auto simp: run_oneshot(1) split: if_splits)
      have mem: "spec \<in> set pod_components" and dep: "us_after (unit_spec_of ComponentSetup) = Some j \<Longrightarrow> j \<in> up s" for j
        using run_oneshot(2) id by (auto simp: may_start_def)
      have "ComponentAPIServer \<in> up s" by (rule dep) (simp add: unit_spec_of_def component_ids)
      then have "ComponentPKI \<in> up s" using after_chain(1) [OF closed] by (simp add: component_ids)
      then have full: "complete (pf_pem P) (pki_of ?cfg) (w_files (disk s))" using inv by (simp add: pod_inv_def)
      have "unit_args input spec = [''setup'']"
        using oneshot_specs [OF mem run_oneshot(3), of input] id by (auto simp: component_ids)
      with run_oneshot(4) id have run: "run P info (unit_environment ?cfg ComponentSetup) [''setup''] (disk s, api s) = Some (x, (w, c))"
        by simp
      have "halting (disk s)" "clock_mono (disk s)" using inv calm_halting by (auto simp: pod_inv_def)
      from setup_run_keeps(3) [OF lib conjunct2 [OF unit_environment_loads [OF cfg tr]] this full run ok] show ?thesis
        by (simp add: run_oneshot(1))
    next
      case (start_server spec)
      with setup_up False have "ID spec = ComponentSetup" by auto
      with start_server(3) show ?thesis by (simp add: oneshot_def unit_spec_of_def component_ids)
    next
      case (server_acts spec w c)
      with setup_up False show ?thesis by simp
    next
      case (stop started)
      with setup_up False show ?thesis by auto
    qed
  qed
qed

section \<open>All steps\<close>

lemma placed_reached:
  assumes lib: "pem_ok (pf_pem P)" and cfg: "Config.Load env = Inr (in_Config input)" and tr: "trimmed (StateDir (in_Config input))"
    and machine: "calm w" "clock_mono w" and reach: "survives P info input \<lparr>up = {}, disk = w, api = c\<rparr> s"
  shows "pod_inv P (in_Config input) s \<and>
    (ComponentSetup \<in> up s \<longrightarrow> kubeconfigs_placed P (setup_config (in_Config input)) (w_files (disk s)))"
  using reach
proof (induction rule: rtranclp_induct)
  case base
  with machine show ?case by (simp add: pod_inv_def)
next
  case (step s t)
  with placed_step [OF lib cfg tr _ step(2)] step_inv [OF lib cfg tr _ step(2)] show ?case by blast
qed

lemma survives_keeps:
  assumes lib: "pem_ok (pf_pem P)" and cfg: "Config.Load env = Inr (in_Config input)" and tr: "trimmed (StateDir (in_Config input))"
    and inv: "pod_inv P (in_Config input) s" and full: "complete (pf_pem P) (pki_of (in_Config input)) (w_files (disk s))"
    and reach: "survives P info input s t"
  shows "pod_inv P (in_Config input) t \<and> complete (pf_pem P) (pki_of (in_Config input)) (w_files (disk t)) \<and>
    same_files (certificate_paths (in_Config input)) (disk s) (disk t) \<and>
    (kubeconfigs_placed P (setup_config (in_Config input)) (w_files (disk s)) \<longrightarrow>
       same_files (kubeconfig_paths (in_Config input)) (disk s) (disk t))"
  using reach
proof (induction rule: rtranclp_induct)
  case base
  with inv full show ?case by simp
next
  case (step t u)
  let ?cfg = "in_Config input"
  have t: "pod_inv P ?cfg t" "complete (pf_pem P) (pki_of ?cfg) (w_files (disk t))" using step by simp_all
  note keeps = step_keeps [OF lib cfg tr t step(2)]
  have "same_files (kubeconfig_paths ?cfg) (disk s) (disk u)" if "kubeconfigs_placed P (setup_config ?cfg) (w_files (disk s))"
  proof -
    have st: "same_files (kubeconfig_paths ?cfg) (disk s) (disk t)" using step(3) that by blast
    with kubeconfigs_placed_keep [OF that] have "kubeconfigs_placed P (setup_config ?cfg) (w_files (disk t))"
      by (simp add: setup_config_paths)
    with keeps st show ?thesis by (blast intro: same_files_trans)
  qed
  with step(3) keeps step_inv [OF lib cfg tr t(1) step(2)] show ?case by (blast intro: same_files_trans)
qed

text \<open>
  C7. Credentials outlive restarts. Take any state the pod can reach from an empty one and anything that
  happens afterwards: units that are stopped and started again, runs of pki and setup that succeed, fail or are killed in
  any of their calls, servers that write in their volumes. If pki was up, every file of the inventory is still the same, byte for byte and with
  its mode, and if setup was up, every manager's kubeconfig and the admin's.
\<close>

theorem pod_keeps_its_files:
  assumes lib: "pem_ok (pf_pem P)" and cfg: "Config.Load env = Inr (in_Config input)" and tr: "trimmed (StateDir (in_Config input))"
    and machine: "calm w" "clock_mono w" and reach: "survives P info input \<lparr>up = {}, disk = w, api = c\<rparr> s"
    and later: "survives P info input s t"
  shows "(ComponentPKI \<in> up s \<longrightarrow> (\<forall>n \<in> set all_names.
       file_at (w_files (disk t)) (artifact_path (pki_of (in_Config input)) n) =
       file_at (w_files (disk s)) (artifact_path (pki_of (in_Config input)) n))) \<and>
    (ComponentSetup \<in> up s \<longrightarrow> (\<forall>p. (\<exists>i. KubeconfigPath (in_Config input) i = Some p) \<or> p = AdminKubeconfigPath (in_Config input) \<longrightarrow>
       file_at (w_files (disk t)) p = file_at (w_files (disk s)) p))"
proof -
  let ?cfg = "in_Config input"
  note start = placed_reached [OF lib cfg tr machine reach]
  then have inv: "pod_inv P ?cfg s" by blast
  have pki: "ComponentPKI \<in> up s" if "ComponentSetup \<in> up s"
    using after_chain(1) [OF _ that] inv by (simp add: pod_inv_def component_ids)
  have "same_files (certificate_paths ?cfg) (disk s) (disk t) \<and>
      (ComponentSetup \<in> up s \<longrightarrow> same_files (kubeconfig_paths ?cfg) (disk s) (disk t))" if "ComponentPKI \<in> up s"
  proof -
    have "complete (pf_pem P) (pki_of ?cfg) (w_files (disk s))" using inv that by (simp add: pod_inv_def)
    from survives_keeps [OF lib cfg tr inv this later] start show ?thesis by blast
  qed
  with pki show ?thesis by (auto simp: same_files_def certificate_paths_def kubeconfig_paths_def)
qed

end
