(* ===== verification/PodTrust.thy ===== *)
theory PodTrust
  imports PodKeeps
begin

text \<open>
  The trust relations of the running pod: which file each program is told to verify its peer with, which
  certificate the peer is told to show, and what the pki container put into these files. A certificate is accepted
  as \<open>crypto/tls\<close> accepts it, the validity period aside: signed by the authority, with the right extended
  usage, and for a server with the dialled host among its names.
\<close>

section \<open>What pki issues\<close>

definition chains_to :: "certificate \<Rightarrow> certificate \<Rightarrow> bool" where
  "chains_to root crt \<longleftrightarrow> IsCA root \<and> Issuer crt = Subject root \<and> publicKeysEqual (SignedBy crt) (PublicKey root)"

definition leaf_trusted :: "pem \<Rightarrow> files \<Rightarrow> string \<Rightarrow> leafSpec \<Rightarrow> bool" where
  "leaf_trusted lib fs caPath spec \<longleftrightarrow>
     (\<exists>root crt. cert_on_disk lib fs caPath = Some root \<and> cert_on_disk lib fs (CertPath (leaf_artifact spec)) = Some crt \<and>
        chains_to root crt \<and> Subject crt = (commonName spec, []) \<and> ExtKeyUsage crt = usages spec \<and>
        DNSNames crt = dnsNames spec \<and> IPAddresses crt = ipAddresses spec)"

text \<open>The leaf certificates of the pki container, whose unit passes neither address.\<close>

definition pki_config_of :: "config \<Rightarrow> config" where
  "pki_config_of cfg = cfg\<lparr>BindAddress := defaultBindAddress, HypervisorWebhookHost := defaultHypervisorWebhookHost\<rparr>"

definition pod_leaves :: "config \<Rightarrow> leafSpec list" where
  "pod_leaves cfg = generated_leaves (pki_of (pki_config_of cfg)) ''127.0.0.1''"

definition no_leaf_yet :: "pem \<Rightarrow> config \<Rightarrow> files \<Rightarrow> bool" where
  "no_leaf_yet lib cfg fs \<longleftrightarrow>
     list_all (\<lambda>n. \<not> pair_on_disk lib fs (artifact_path (pki_of cfg) (fst n)) (artifact_path (pki_of cfg) (snd n))) leaf_names"

lemma pki_config_paths:
  "artifact_path (pki_of (pki_config_of cfg)) = artifact_path (pki_of cfg)"
  "generated_inventory (pki_of (pki_config_of cfg)) = generated_inventory (pki_of cfg)"
  by (simp_all add: artifact_path_def generated_inventory_def pki_dir_def pki_of_def pki_config_of_def fun_eq_iff)

lemma pod_leaves_inventory:
  "pod_leaves cfg = leaf_specs (generated_inventory (pki_of cfg)) ''127.0.0.1'' (pki_of (pki_config_of cfg))"
proof -
  have "pod_leaves cfg = leaf_specs (generated_inventory (pki_of (pki_config_of cfg))) ''127.0.0.1'' (pki_of (pki_config_of cfg))"
    by (simp add: pod_leaves_def generated_leaves_def generated_inventory_def leaf_specs_def Let_def split_beta)
  then show ?thesis unfolding pki_config_paths .
qed

lemma pod_leaf_paths:
  assumes "spec \<in> set (pod_leaves cfg)"
  shows "\<exists>n \<in> set leaf_names. CertPath (leaf_artifact spec) = artifact_path (pki_of cfg) (fst n) \<and>
    KeyPath (leaf_artifact spec) = artifact_path (pki_of cfg) (snd n)"
  using leaf_spec_in_names [of spec "pki_of (pki_config_of cfg)"] assms by (simp add: pod_leaves_def pki_config_paths)

lemma pod_leaves_members:
  "leaf_spec (EtcdServer (generated_inventory (pki_of cfg))) ''etcd-server'' [ExtKeyUsageServerAuth] [''localhost''] [loopback_ip]
     \<in> set (pod_leaves cfg)"
  "leaf_spec (APIServer (generated_inventory (pki_of cfg))) ''capishim-apiserver'' [ExtKeyUsageServerAuth] [''localhost''] [loopback_ip]
     \<in> set (pod_leaves cfg)"
  "leaf_spec (APIServerClient (generated_inventory (pki_of cfg))) ''capishim:apiserver-client'' [ExtKeyUsageClientAuth] [] []
     \<in> set (pod_leaves cfg)"
  "leaf_spec (Admin (generated_inventory (pki_of cfg))) ''capishim:admin'' [ExtKeyUsageClientAuth] [] [] \<in> set (pod_leaves cfg)"
  by (simp_all add: pod_leaves_inventory leaf_specs_def Let_def split_beta default_SANs)

lemma manager_leaf:
  assumes "spec \<in> set Components" and "is_manager spec"
  shows "\<exists>a. ManagerArtifact (ID spec) (generated_inventory (pki_of cfg)) = Some a \<and>
    leaf_spec a (ManagerCN spec) [ExtKeyUsageClientAuth] [] [] \<in> set (pod_leaves cfg)"
proof -
  let ?i = "generated_inventory (pki_of cfg)"
  have "\<forall>spec \<in> set (filter is_manager Components). \<exists>a. ManagerArtifact (ID spec) ?i = Some a \<and>
      leaf_spec a (ManagerCN spec) [ExtKeyUsageClientAuth] [] [] \<in> set (leaf_specs ?i ''127.0.0.1'' (pki_of (pki_config_of cfg)))"
    by (simp add: Components_def plain_component_def is_manager_def leaf_specs_def Let_def split_beta component_ids)
  then show ?thesis using assms
    by (simp add: pod_leaves_inventory del: ManagerArtifact.simps)
qed

lemma webhook_leaf:
  assumes "spec \<in> set pod_components" and "is_manager spec"
  shows "\<exists>a. webhook_artifact (generated_inventory (pki_of cfg)) (ID spec) = Some a \<and>
    leaf_spec a (''capishim:'' @ ID spec @ ''-webhook'') [ExtKeyUsageServerAuth] [''localhost''] [loopback_ip] \<in> set (pod_leaves cfg)"
proof -
  let ?i = "generated_inventory (pki_of cfg)"
  have "list_all (\<lambda>i. \<exists>a. webhook_artifact ?i i = Some a \<and>
      leaf_spec a (''capishim:'' @ i @ ''-webhook'') [ExtKeyUsageServerAuth] [''localhost''] [loopback_ip]
        \<in> set (leaf_specs ?i ''127.0.0.1'' (pki_of (pki_config_of cfg))))
      [ComponentCore, ComponentCABPK, ComponentKCP, ComponentCAPD]"
    by (simp add: leaf_specs_def Let_def split_beta webhook_artifact_def component_ids)
  then show ?thesis using manager_ids [OF assms]
    unfolding list_all_iff pod_leaves_inventory by auto
qed

lemma leaf_issued_trusted:
  assumes "authority_on_disk lib fs caPath keyPath = Some (root, key)" and "leaf_issued lib fs root key now spec"
  shows "leaf_trusted lib fs caPath spec"
proof -
  have root: "cert_on_disk lib fs caPath = Some root" "publicKeysEqual (Public key) (PublicKey root)" "IsCA root"
    using assms(1) by (auto simp: authority_on_disk_def is_authority_def split: option.splits if_splits)
  obtain serial n d where "fs (CertPath (leaf_artifact spec)) = Some (FileNode certFileMode d)"
    and "ParseCertsPEM lib d = Some [issued_certificate root key now spec serial n]"
    using assms(2) by (auto simp: leaf_issued_def)
  then have "cert_on_disk lib fs (CertPath (leaf_artifact spec)) = Some (issued_certificate root key now spec serial n)"
    by (simp add: cert_on_disk_def file_data_def)
  with root show ?thesis by (simp add: leaf_trusted_def chains_to_def issued_certificate_def)
qed

lemma pki_trusted:
  assumes lib: "pem_ok (pf_pem P)" and load: "Config.Load env = Inr cfg" and tr: "trimmed (StateDir cfg)"
    and run: "run P info (unit_environment cfg ComponentPKI) [''pki''] (w, c) = Some (x, (v, d))" and ok: "exit_code x = exitOK"
    and fresh: "no_leaf_yet (pf_pem P) cfg (w_files w)"
  shows "list_all (leaf_trusted (pf_pem P) (w_files v) (artifact_path (pki_of cfg) ''pki/ca.crt'')) (pod_leaves cfg)"
proof -
  let ?pcfg = "pki_config_of cfg"
  have loads: "Config.Load (unit_environment cfg ComponentPKI) = Inr ?pcfg"
    using unit_environment_loads [OF load tr] by (simp add: pki_config_of_def)
  obtain r u where g: "Generate (pf_pem P) None (pki_of ?pcfg) w = (r, u)" by fastforce
  moreover obtain inven where "r = Inr inven"
    using run g loads ok by (cases r) (auto simp: run_def only_machine_def runPKI_def pki_of_def)
  ultimately have gen: "Generate (pf_pem P) None (pki_of ?pcfg) w = (Inr inven, v)"
    using run loads by (auto simp: run_def only_machine_def runPKI_def pki_of_def)
  have "SplitHostPort defaultBindAddress = Inr (''127.0.0.1'', ''6443'')"
    using SplitHostPort_plain [of "''127.0.0.1''" "''6443''"] by (simp add: defaultBindAddress_def)
  then have "bindHost (PkiBindAddress (pki_of ?pcfg)) = Inr ''127.0.0.1''"
    by (simp add: pki_of_def pki_config_of_def bindHost_def defaultBindAddress_def)
  with Generate_outcome [OF lib gen] obtain now root key where
    auth: "authority_on_disk (pf_pem P) (w_files v) (artifact_path (pki_of cfg) ''pki/ca.crt'') (artifact_path (pki_of cfg) ''pki/ca.key'') =
      Some (root, key)"
    and leaves: "list_all (\<lambda>spec. leaf_kept (pf_pem P) (w_files w) (w_files v) spec \<or>
        leaf_issued (pf_pem P) (w_files v) root key now spec) (pod_leaves cfg)"
    by (auto simp: pod_leaves_def pki_config_paths)
  have "leaf_trusted (pf_pem P) (w_files v) (artifact_path (pki_of cfg) ''pki/ca.crt'') spec" if spec: "spec \<in> set (pod_leaves cfg)" for spec
  proof -
    have "\<not> leaf_kept (pf_pem P) (w_files w) (w_files v) spec"
      using pod_leaf_paths [OF spec] fresh by (auto simp: leaf_kept_def no_leaf_yet_def list_all_iff)
    with leaves spec have "leaf_issued (pf_pem P) (w_files v) root key now spec" by (auto simp: list_all_iff)
    with auth show ?thesis by (rule leaf_issued_trusted)
  qed
  then show ?thesis by (simp add: list_all_iff)
qed

text \<open>It stays so: the certificates are not written again.\<close>

lemma trusted_keep:
  assumes trusted: "list_all (leaf_trusted lib (w_files w) (artifact_path (pki_of cfg) ''pki/ca.crt'')) (pod_leaves cfg)"
    and same: "same_files (certificate_paths cfg) w v"
  shows "list_all (leaf_trusted lib (w_files v) (artifact_path (pki_of cfg) ''pki/ca.crt'')) (pod_leaves cfg)"
proof -
  have cert: "cert_on_disk lib (w_files v) (artifact_path (pki_of cfg) n) = cert_on_disk lib (w_files w) (artifact_path (pki_of cfg) n)"
    if "n \<in> set all_names" for n
  proof -
    have "file_at (w_files v) (artifact_path (pki_of cfg) n) = file_at (w_files w) (artifact_path (pki_of cfg) n)"
      using same that by (auto simp: same_files_def certificate_paths_def)
    then have "file_data (w_files v) (artifact_path (pki_of cfg) n) = file_data (w_files w) (artifact_path (pki_of cfg) n)"
      by (auto simp: file_at_def file_data_def split: option.splits node.splits)
    then show ?thesis by (simp add: cert_on_disk_def)
  qed
  have ca: "''pki/ca.crt'' \<in> set all_names" by (simp add: all_names_def ca_names_def)
  have "leaf_trusted lib (w_files v) (artifact_path (pki_of cfg) ''pki/ca.crt'') spec" if spec: "spec \<in> set (pod_leaves cfg)" for spec
  proof -
    obtain n where "n \<in> set leaf_names" and path: "CertPath (leaf_artifact spec) = artifact_path (pki_of cfg) (fst n)"
      using pod_leaf_paths [OF spec] by blast
    then have "fst n \<in> set all_names" using leaf_names_all by blast
    moreover have "leaf_trusted lib (w_files w) (artifact_path (pki_of cfg) ''pki/ca.crt'') spec"
      using trusted spec by (simp add: list_all_iff)
    ultimately show ?thesis by (simp add: leaf_trusted_def path cert cert [OF ca])
  qed
  then show ?thesis by (simp add: list_all_iff)
qed

lemma pki_start:
  assumes step: "boot P info input s t" and new: "ComponentPKI \<notin> up s" "ComponentPKI \<in> up t"
  shows "\<exists>x c. run P info (unit_environment (in_Config input) ComponentPKI) [''pki''] (disk s, api s) = Some (x, (disk t, c)) \<and>
    exit_code x = exitOK"
  using step
proof (cases rule: boot.cases)
  case (run_oneshot spec x w c)
  then have ok: "exit_code x = exitOK" and id: "ID spec = ComponentPKI" using new by (auto split: if_splits)
  have "spec \<in> set pod_components" using run_oneshot(2) by (simp add: may_start_def)
  from oneshot_specs [OF this run_oneshot(3), of input] id have "unit_args input spec = [''pki'']" by (auto simp: component_ids)
  with run_oneshot(1,4) ok id show ?thesis by auto
next
  case (start_server spec)
  with new have "ID spec = ComponentPKI" by auto
  with start_server(3) show ?thesis by (simp add: oneshot_def unit_spec_of_def component_ids)
next
  case (server_acts spec w c)
  with new show ?thesis by simp
next
  case (stop started)
  with new show ?thesis by auto
qed

lemma pod_trusted:
  assumes lib: "pem_ok (pf_pem P)" and cfg: "Config.Load env = Inr (in_Config input)" and tr: "trimmed (StateDir (in_Config input))"
    and machine: "calm w" "clock_mono w" and reach: "survives P info input \<lparr>up = {}, disk = w, api = c\<rparr> s"
    and step: "boot P info input s s'" "ComponentPKI \<notin> up s" "ComponentPKI \<in> up s'"
    and fresh: "no_leaf_yet (pf_pem P) (in_Config input) (w_files (disk s))" and later: "survives P info input s' t"
  shows "list_all (leaf_trusted (pf_pem P) (w_files (disk t)) (artifact_path (pki_of (in_Config input)) ''pki/ca.crt''))
    (pod_leaves (in_Config input))"
proof -
  let ?cfg = "in_Config input"
  obtain x d where "run P info (unit_environment ?cfg ComponentPKI) [''pki''] (disk s, api s) = Some (x, (disk s', d))" "exit_code x = exitOK"
    using pki_start [OF step] by blast
  note trusted = pki_trusted [OF lib cfg tr this fresh]
  have "survives P info input \<lparr>up = {}, disk = w, api = c\<rparr> s'"
    using reach step(1) by (simp add: pod_step_def rtranclp.rtrancl_into_rtrancl)
  from placed_reached [OF lib cfg tr machine this] have inv: "pod_inv P ?cfg s'" by blast
  then have "complete (pf_pem P) (pki_of ?cfg) (w_files (disk s'))" using step(3) by (simp add: pod_inv_def)
  from survives_keeps [OF lib cfg tr inv this later] trusted show ?thesis by (blast intro: trusted_keep)
qed

section \<open>Who is told to trust whom\<close>

text \<open>What a client reads from a kubeconfig: the cluster and the user of the current context.\<close>

definition kc_current :: "kubeconfig \<Rightarrow> (kc_cluster \<times> kc_auth) option" where
  "kc_current kc =
     (case kc_Contexts kc (kc_CurrentContext kc) of
        None \<Rightarrow> None
      | Some ctx \<Rightarrow> (case (kc_Clusters kc (kc_Cluster ctx), kc_AuthInfos kc (kc_AuthInfo ctx)) of
           (Some cluster, Some auth) \<Rightarrow> Some (cluster, auth) | _ \<Rightarrow> None))"

definition owner_credentials :: "config \<Rightarrow> owner \<Rightarrow> (kc_cluster \<times> kc_auth) option" where
  "owner_credentials cfg x =
     (case owner_artifact (generated_inventory (pki_of cfg)) x of
        None \<Rightarrow> None
      | Some a \<Rightarrow> kc_current (BuildKubeconfig (APIServerURL (BindAddress cfg)) (CertPath (CA (generated_inventory (pki_of cfg))))
          (CertPath a) (KeyPath a)))"

definition kubeconfig_owners :: "owner list" where
  "kubeconfig_owners = map Some (filter is_manager Components) @ [None]"

text \<open>Host and port of an https URL without a path.\<close>

definition url_peer :: "string \<Rightarrow> (string \<times> string) option" where
  "url_peer u =
     (if HasPrefix u ''https://'' then (case SplitHostPort (TrimPrefix u ''https://'') of Inr hp \<Rightarrow> Some hp | Inl _ \<Rightarrow> None) else None)"

text \<open>A connection: the URL and the authority of the client, the port and the certificate of the server.\<close>

record tls_dial =
  td_url :: "string option"
  td_root :: "string option"
  td_port :: "string option"
  td_cert :: "string option"

definition etcd_dial :: "quadlet_input \<Rightarrow> tls_dial" where
  "etcd_dial input =
     \<lparr>td_url = unit_flag input ComponentAPIServer ''etcd-servers'', td_root = unit_flag input ComponentAPIServer ''etcd-cafile'',
      td_port = map_option snd (Option.bind (unit_flag input ComponentEtcd ''listen-client-urls'') url_peer),
      td_cert = unit_flag input ComponentEtcd ''cert-file''\<rparr>"

definition apiserver_dial :: "quadlet_input \<Rightarrow> owner \<Rightarrow> tls_dial" where
  "apiserver_dial input x =
     \<lparr>td_url = map_option (kc_Server \<circ> fst) (owner_credentials (in_Config input) x),
      td_root = map_option (kc_CertificateAuthority \<circ> fst) (owner_credentials (in_Config input) x),
      td_port = unit_flag input ComponentAPIServer ''secure-port'', td_cert = unit_flag input ComponentAPIServer ''tls-cert-file''\<rparr>"

text \<open>The API server dials what setup writes into the webhook configurations, with the CA file as bundle.\<close>

definition webhook_dial :: "quadlet_input \<Rightarrow> component_spec \<Rightarrow> tls_dial" where
  "webhook_dial input spec =
     \<lparr>td_url = map_option (\<lambda>p. webhookURLPrefix @ Itoa p) (RewriteWebhookPortsByNamespace (ProviderNamespace spec)),
      td_root = Some (CertPath (CA (generated_inventory (pki_of (in_Config input))))),
      td_port = unit_flag input (ID spec) ''webhook-port'',
      td_cert = map_option (\<lambda>d. d @ ''/tls.crt'') (unit_flag input (ID spec) ''webhook-cert-dir'')\<rparr>"

definition pod_dials :: "quadlet_input \<Rightarrow> tls_dial list" where
  "pod_dials input = etcd_dial input # map (apiserver_dial input) kubeconfig_owners @
     map (webhook_dial input) (filter is_manager pod_components)"

text \<open>A certificate for a host, as \<open>VerifyHostname\<close> compares it: an address with the addresses, a name with the names.\<close>

definition names_host :: "certificate \<Rightarrow> string \<Rightarrow> bool" where
  "names_host crt h = (case ParseIP h of Some ip \<Rightarrow> ip \<in> set (IPAddresses crt) | None \<Rightarrow> h \<in> set (DNSNames crt))"

definition dial_accepted :: "pem \<Rightarrow> files \<Rightarrow> tls_dial \<Rightarrow> bool" where
  "dial_accepted lib fs d =
     (case (Option.bind (td_url d) url_peer, td_port d) of
        (Some (h, p), Some port) \<Rightarrow> p = port \<and>
          (case (Option.bind (td_root d) (cert_on_disk lib fs), Option.bind (td_cert d) (cert_on_disk lib fs)) of
             (Some root, Some crt) \<Rightarrow> chains_to root crt \<and> ExtKeyUsageServerAuth \<in> set (ExtKeyUsage crt) \<and> names_host crt h
           | _ \<Rightarrow> False)
      | _ \<Rightarrow> False)"

text \<open>The client certificates: the authority that the server checks them with, and the certificate.\<close>

definition pod_clients :: "quadlet_input \<Rightarrow> (string option \<times> string option) list" where
  "pod_clients input =
     (unit_flag input ComponentEtcd ''trusted-ca-file'', unit_flag input ComponentAPIServer ''etcd-certfile'') #
     map (\<lambda>x. (unit_flag input ComponentAPIServer ''client-ca-file'',
        map_option (kc_ClientCertificate \<circ> snd) (owner_credentials (in_Config input) x))) kubeconfig_owners"

definition client_accepted :: "pem \<Rightarrow> files \<Rightarrow> string option \<times> string option \<Rightarrow> bool" where
  "client_accepted lib fs rc =
     (case (Option.bind (fst rc) (cert_on_disk lib fs), Option.bind (snd rc) (cert_on_disk lib fs)) of
        (Some root, Some crt) \<Rightarrow> chains_to root crt \<and> ExtKeyUsageClientAuth \<in> set (ExtKeyUsage crt)
      | _ \<Rightarrow> False)"

lemma owner_credentials_built:
  "owner_artifact (generated_inventory (pki_of cfg)) x = Some a \<Longrightarrow>
     owner_credentials cfg x = Some (\<lparr>kc_Server = APIServerURL (BindAddress cfg),
       kc_CertificateAuthority = artifact_path (pki_of cfg) ''pki/ca.crt'', kc_CertificateAuthorityData = []\<rparr>,
       \<lparr>kc_ClientCertificate = CertPath a, kc_ClientKey = KeyPath a\<rparr>)"
  by (simp add: owner_credentials_def kc_current_def BuildKubeconfig_def inventory_paths)

lemma owner_leaf:
  assumes "x \<in> set kubeconfig_owners"
  shows "\<exists>a cn. owner_artifact (generated_inventory (pki_of cfg)) x = Some a \<and>
    leaf_spec a cn [ExtKeyUsageClientAuth] [] [] \<in> set (pod_leaves cfg)"
proof (cases x)
  case None
  then show ?thesis using pod_leaves_members(4) [of cfg] by (auto simp: owner_artifact_def)
next
  case (Some spec)
  with assms have "spec \<in> set Components" "is_manager spec" by (auto simp: kubeconfig_owners_def)
  from manager_leaf [OF this, of cfg] Some show ?thesis by (auto simp: owner_artifact_def simp del: ManagerArtifact.simps)
qed

text \<open>The flags of the two servers that the connections use.\<close>

lemma server_flags:
  assumes "CHR '' '' \<notin> set (StateDir (in_Config input))"
  shows "unit_flag input ComponentEtcd ''listen-client-urls'' = Some ''https://127.0.0.1:2379''"
    "unit_flag input ComponentEtcd ''cert-file'' = Some (CertPath (EtcdServer (generated_inventory (pki_of (in_Config input)))))"
    "unit_flag input ComponentEtcd ''trusted-ca-file'' = Some (artifact_path (pki_of (in_Config input)) ''pki/ca.crt'')"
    "unit_flag input ComponentAPIServer ''etcd-servers'' = Some ''https://127.0.0.1:2379''"
    "unit_flag input ComponentAPIServer ''etcd-cafile'' = Some (artifact_path (pki_of (in_Config input)) ''pki/ca.crt'')"
    "unit_flag input ComponentAPIServer ''etcd-certfile'' = Some (CertPath (APIServerClient (generated_inventory (pki_of (in_Config input)))))"
    "unit_flag input ComponentAPIServer ''secure-port'' = Some ''6443''"
    "unit_flag input ComponentAPIServer ''tls-cert-file'' = Some (CertPath (APIServer (generated_inventory (pki_of (in_Config input)))))"
    "unit_flag input ComponentAPIServer ''client-ca-file'' = Some (artifact_path (pki_of (in_Config input)) ''pki/ca.crt'')"
  using etcd_flag_list [OF assms order_refl] apiserver_flag_list [OF assms order_refl]
  unfolding unit_flag_servers etcd_files_def apiserver_files_def inventory_paths(1) by simp_all

lemma url_peer_plain:
  assumes "colon \<notin> set h" and "colon \<notin> set p" and "CHR ''['' \<notin> set (h @ p)" and "CHR '']'' \<notin> set (h @ p)"
  shows "url_peer (''https://'' @ h @ colon # p) = Some (h, p)"
  using SplitHostPort_plain [OF assms] by (simp add: url_peer_def HasPrefix_def TrimPrefix_def)

lemma digits_plain:
  assumes "list_all is_digit p"
  shows "colon \<notin> set p" and "CHR ''['' \<notin> set p" and "CHR '']'' \<notin> set p"
  using assms by (auto simp: list_all_iff is_digit_def byte_val_def)

lemma leaf_trusted_spec:
  assumes "list_all (leaf_trusted lib fs ca) (pod_leaves cfg)" and "leaf_spec a cn us dns ips \<in> set (pod_leaves cfg)"
  shows "\<exists>root crt. cert_on_disk lib fs ca = Some root \<and> cert_on_disk lib fs (CertPath a) = Some crt \<and> chains_to root crt \<and>
    Subject crt = (cn, []) \<and> ExtKeyUsage crt = us \<and> DNSNames crt = dns \<and> IPAddresses crt = ips"
  using assms unfolding list_all_iff leaf_trusted_def by (fastforce simp: leaf_spec_def)

lemma dial_accepted_intro:
  assumes trusted: "list_all (leaf_trusted lib fs ca) (pod_leaves cfg)"
    and leaf: "leaf_spec a cn [ExtKeyUsageServerAuth] [''localhost''] [loopback_ip] \<in> set (pod_leaves cfg)"
    and d: "Option.bind (td_url d) url_peer = Some (h, p)" "td_port d = Some p" "td_root d = Some ca" "td_cert d = Some (CertPath a)"
    and h: "h \<in> {''localhost'', ''127.0.0.1''}"
  shows "dial_accepted lib fs d"
proof -
  have "names_host crt h" if "DNSNames crt = [''localhost'']" "IPAddresses crt = [loopback_ip]" for crt
    using h that by (auto simp: names_host_def ParseIP_loopback ParseIP_localhost)
  with leaf_trusted_spec [OF trusted leaf] d show ?thesis by (auto simp: dial_accepted_def)
qed

lemma client_accepted_intro:
  assumes "list_all (leaf_trusted lib fs ca) (pod_leaves cfg)"
    and "leaf_spec a cn [ExtKeyUsageClientAuth] [] [] \<in> set (pod_leaves cfg)"
  shows "client_accepted lib fs (Some ca, Some (CertPath a))"
  using leaf_trusted_spec [OF assms] by (auto simp: client_accepted_def)

lemma dials_trusted:
  assumes sd: "CHR '' '' \<notin> set (StateDir (in_Config input))" and cfg: "Config.Load env = Inr (in_Config input)"
    and bind: "SplitHostPort (BindAddress (in_Config input)) = Inr (host, ''6443'')"
    and trusted: "list_all (leaf_trusted lib fs (artifact_path (pki_of (in_Config input)) ''pki/ca.crt'')) (pod_leaves (in_Config input))"
  shows "list_all (dial_accepted lib fs) (pod_dials input)"
proof -
  let ?cfg = "in_Config input"
  have peer: "url_peer ''https://127.0.0.1:2379'' = Some (''127.0.0.1'', ''2379'')"
    "url_peer ''https://127.0.0.1:6443'' = Some (''127.0.0.1'', ''6443'')"
    using url_peer_plain [of "''127.0.0.1''" "''2379''"] url_peer_plain [of "''127.0.0.1''" "''6443''"] by simp_all
  have "dial_accepted lib fs (etcd_dial input)"
    by (rule dial_accepted_intro [OF trusted pod_leaves_members(1), of _ "''127.0.0.1''" "''2379''"])
      (simp_all add: etcd_dial_def server_flags [OF sd] peer)
  moreover have "dial_accepted lib fs (apiserver_dial input x)" if x: "x \<in> set kubeconfig_owners" for x
  proof -
    obtain a where "owner_artifact (generated_inventory (pki_of ?cfg)) x = Some a" using owner_leaf [OF x] by blast
    note cred = owner_credentials_built [OF this]
    have "APIServerURL (BindAddress ?cfg) = ''https://127.0.0.1:6443''" using loaded_bind_url [OF cfg bind] by simp
    with peer show ?thesis
      by (intro dial_accepted_intro [OF trusted pod_leaves_members(2), of _ "''127.0.0.1''" "''6443''"])
        (simp_all add: apiserver_dial_def server_flags [OF sd] cred)
  qed
  moreover have "dial_accepted lib fs (webhook_dial input spec)" if spec: "spec \<in> set pod_components" "is_manager spec" for spec
  proof -
    have mem: "spec \<in> set Components" using spec(1) by (simp add: pod_components_def)
    obtain a where a: "webhook_artifact (generated_inventory (pki_of ?cfg)) (ID spec) = Some a"
      and leaf: "leaf_spec a (''capishim:'' @ ID spec @ ''-webhook'') [ExtKeyUsageServerAuth] [''localhost''] [loopback_ip]
        \<in> set (pod_leaves ?cfg)"
      using webhook_leaf [OF spec] by blast
    have cert: "CertPath a = artifact_path (pki_of ?cfg) (''pki/'' @ ID spec @ ''-webhook'') @ ''/tls.crt''"
      using webhook_artifacts [OF spec, of "pki_of ?cfg"] a by auto
    have port: "RewriteWebhookPortsByNamespace (ProviderNamespace spec) = Some (WebhookPort spec)"
      using namespace_maps [of "ProviderNamespace spec" undefined "WebhookPort spec"] mem spec(2) by blast
    have "0 \<le> WebhookPort spec" using manager_plain spec by (simp add: list_all_iff)
    then have digits: "list_all is_digit (Itoa (WebhookPort spec))" by (rule Itoa_digits)
    have "url_peer (webhookURLPrefix @ Itoa (WebhookPort spec)) = Some (''localhost'', Itoa (WebhookPort spec))"
      using url_peer_plain [of "''localhost''" "Itoa (WebhookPort spec)"] digits_plain [OF digits]
      by (simp add: webhookURLPrefix_def)
    with port cert manager_flags [OF sd spec] show ?thesis
      by (intro dial_accepted_intro [OF trusted leaf, of _ "''localhost''" "Itoa (WebhookPort spec)"])
        (simp_all add: webhook_dial_def unit_flag_manager [OF spec] inventory_paths)
  qed
  ultimately show ?thesis by (auto simp: pod_dials_def list_all_iff)
qed

lemma clients_trusted:
  assumes sd: "CHR '' '' \<notin> set (StateDir (in_Config input))"
    and trusted: "list_all (leaf_trusted lib fs (artifact_path (pki_of (in_Config input)) ''pki/ca.crt'')) (pod_leaves (in_Config input))"
  shows "list_all (client_accepted lib fs) (pod_clients input)"
proof -
  have "client_accepted lib fs (unit_flag input ComponentAPIServer ''client-ca-file'',
      map_option (kc_ClientCertificate \<circ> snd) (owner_credentials (in_Config input) x))" if x: "x \<in> set kubeconfig_owners" for x
  proof -
    obtain a cn where a: "owner_artifact (generated_inventory (pki_of (in_Config input))) x = Some a"
      and leaf: "leaf_spec a cn [ExtKeyUsageClientAuth] [] [] \<in> set (pod_leaves (in_Config input))"
      using owner_leaf [OF x] by blast
    from client_accepted_intro [OF trusted leaf] owner_credentials_built [OF a] show ?thesis by (simp add: server_flags [OF sd])
  qed
  with client_accepted_intro [OF trusted pod_leaves_members(3)] show ?thesis
    by (auto simp: pod_clients_def list_all_iff server_flags [OF sd])
qed


section \<open>Users\<close>

text \<open>
  C9. Every manager is the user that its roles are bound to. In the same pods: the certificate in a manager's kubeconfig
  names the user that setup writes into the bindings of the manager's namespace, and no group; the admin's names
  the user of the cluster-admin binding; and no two certificates of the pod have the same name, so no manager can
  act for another or for the admin.
\<close>

theorem pod_users:
  assumes lib: "pem_ok (pf_pem P)" and cfg: "Config.Load env = Inr (in_Config input)" and tr: "trimmed (StateDir (in_Config input))"
    and machine: "calm w" "clock_mono w" and reach: "survives P info input \<lparr>up = {}, disk = w, api = c\<rparr> s"
    and step: "boot P info input s s'" "ComponentPKI \<notin> up s" "ComponentPKI \<in> up s'"
    and fresh: "no_leaf_yet (pf_pem P) (in_Config input) (w_files (disk s))" and later: "survives P info input s' t"
  shows "(\<forall>spec \<in> set (filter is_manager Components). \<exists>a crt user.
       ManagerArtifact (ID spec) (generated_inventory (pki_of (in_Config input))) = Some a \<and>
       cert_on_disk (pf_pem P) (w_files (disk t)) (CertPath a) = Some crt \<and> Subject crt = (user, []) \<and>
       ManagerCNByNamespace (ProviderNamespace spec) = Some user) \<and>
    (\<exists>crt user. cert_on_disk (pf_pem P) (w_files (disk t)) (CertPath (Admin (generated_inventory (pki_of (in_Config input))))) = Some crt \<and>
       Subject crt = (user, []) \<and> subjects_of (AdminClusterRoleBinding adminCN) = [user_subject user]) \<and>
    distinct (map commonName (pod_leaves (in_Config input)))"
proof (intro conjI ballI)
  let ?cfg = "in_Config input"
  note trusted = pod_trusted [OF lib cfg tr machine reach step fresh later]
  fix spec assume "spec \<in> set (filter is_manager Components)"
  then have spec: "spec \<in> set Components" "is_manager spec" by simp_all
  obtain a where a: "ManagerArtifact (ID spec) (generated_inventory (pki_of ?cfg)) = Some a"
    and leaf: "leaf_spec a (ManagerCN spec) [ExtKeyUsageClientAuth] [] [] \<in> set (pod_leaves ?cfg)"
    using manager_leaf [OF spec] by blast
  have "ManagerCNByNamespace (ProviderNamespace spec) = Some (ManagerCN spec)"
    using namespace_maps [of "ProviderNamespace spec" "ManagerCN spec" undefined] spec by blast
  with a leaf_trusted_spec [OF trusted leaf] show "\<exists>a crt user.
      ManagerArtifact (ID spec) (generated_inventory (pki_of ?cfg)) = Some a \<and>
      cert_on_disk (pf_pem P) (w_files (disk t)) (CertPath a) = Some crt \<and> Subject crt = (user, []) \<and>
      ManagerCNByNamespace (ProviderNamespace spec) = Some user" by blast
next
  let ?cfg = "in_Config input"
  note trusted = pod_trusted [OF lib cfg tr machine reach step fresh later]
  have "subjects_of (AdminClusterRoleBinding adminCN) = [user_subject ''capishim:admin'']"
    by (simp add: subjects_of_def AdminClusterRoleBinding_def adminCN_def user_subject_def fieldSubjects_def)
  with leaf_trusted_spec [OF trusted pod_leaves_members(4)] show "\<exists>crt user.
      cert_on_disk (pf_pem P) (w_files (disk t)) (CertPath (Admin (generated_inventory (pki_of ?cfg)))) = Some crt \<and>
      Subject crt = (user, []) \<and> subjects_of (AdminClusterRoleBinding adminCN) = [user_subject user]" by blast
  show "distinct (map commonName (pod_leaves ?cfg))"
    by (simp add: pod_leaves_inventory leaf_specs_def Let_def split_beta leaf_spec_def)
qed

end
