(* ===== verification/PkiExamples.thy ===== *)
theory PkiExamples
  imports PkiGenerate "HOL-Library.Countable"
begin

text \<open>
  A concrete pair of PEM functions: a certificate or a key is written as a decimal number that
  codes its fields. They satisfy the laws of \<open>pem_ok\<close>, so the theorems about \<open>Generate\<close> apply
  to them; the examples run \<open>Generate\<close> from concrete states.
\<close>

section \<open>Codes\<close>

definition string_code :: "string \<Rightarrow> nat" where
  "string_code s = list_encode (map of_char s)"

definition string_of_code :: "nat \<Rightarrow> string" where
  "string_of_code n = map char_of (list_decode n)"

lemma string_code_inverse [simp]: "string_of_code (string_code s) = s"
  by (simp add: string_code_def string_of_code_def comp_def)

definition name_code :: "string \<times> string list \<Rightarrow> nat" where
  "name_code p = prod_encode (string_code (fst p), list_encode (map string_code (snd p)))"

definition name_of_code :: "nat \<Rightarrow> string \<times> string list" where
  "name_of_code n = (case prod_decode n of (a, b) \<Rightarrow> (string_of_code a, map string_of_code (list_decode b)))"

lemma name_code_inverse [simp]: "name_of_code (name_code p) = p"
  by (cases p) (simp add: name_code_def name_of_code_def comp_def)

fun usage_code :: "ext_usage \<Rightarrow> nat" where
  "usage_code ExtKeyUsageServerAuth = 0"
| "usage_code ExtKeyUsageClientAuth = 1"
| "usage_code (OtherExtKeyUsage n) = n + 2"

definition usage_of_code :: "nat \<Rightarrow> ext_usage" where
  "usage_of_code n =
     (if n = 0 then ExtKeyUsageServerAuth else if n = 1 then ExtKeyUsageClientAuth else OtherExtKeyUsage (n - 2))"

lemma usage_code_inverse [simp]: "usage_of_code (usage_code u) = u"
  by (cases u) (simp_all add: usage_of_code_def)

fun public_key_code :: "public_key \<Rightarrow> nat" where
  "public_key_code NoKey = 0"
| "public_key_code (RSAPub n) = 4 * n + 1"
| "public_key_code (ECPub n) = 4 * n + 2"
| "public_key_code (Ed25519Pub n) = 4 * n + 3"
| "public_key_code (DSAPub n) = 4 * n + 4"

definition public_key_of_code :: "nat \<Rightarrow> public_key" where
  "public_key_of_code c =
     (if c = 0 then NoKey
      else let n = (c - 1) div 4; r = (c - 1) mod 4
           in if r = 0 then RSAPub n else if r = 1 then ECPub n else if r = 2 then Ed25519Pub n else DSAPub n)"

lemma public_key_code_inverse [simp]: "public_key_of_code (public_key_code k) = k"
proof (cases k)
  case (ECPub n)
  moreover have "(4 * n + 1) div 4 = n" "(4 * n + 1) mod 4 = 1" by presburger+
  ultimately show ?thesis by (simp add: public_key_of_code_def)
next
  case (Ed25519Pub n)
  moreover have "(4 * n + 2) div 4 = n" "(4 * n + 2) mod 4 = 2" by presburger+
  ultimately show ?thesis by (simp add: public_key_of_code_def)
next
  case (DSAPub n)
  moreover have "(4 * n + 3) div 4 = n" "(4 * n + 3) mod 4 = 3" by presburger+
  ultimately show ?thesis by (simp add: public_key_of_code_def)
qed (simp_all add: public_key_of_code_def)

definition certificate_code :: "certificate \<Rightarrow> nat" where
  "certificate_code c =
     list_encode
       [int_encode (SerialNumber c), name_code (Subject c), int_encode (NotBefore c), int_encode (NotAfter c),
        int_encode (KeyUsage c), list_encode (map usage_code (ExtKeyUsage c)),
        (if BasicConstraintsValid c then 1 else 0), (if IsCA c then 1 else 0),
        list_encode (map string_code (DNSNames c)), list_encode (map list_encode (IPAddresses c)),
        name_code (Issuer c), public_key_code (PublicKey c), public_key_code (SignedBy c)]"

definition certificate_of_code :: "nat \<Rightarrow> certificate option" where
  "certificate_of_code n =
     (case list_decode n of
        [a, b, c, d, e, f, g, h, i, j, k, l, m] \<Rightarrow>
          Some \<lparr>SerialNumber = int_decode a, Subject = name_of_code b, NotBefore = int_decode c,
            NotAfter = int_decode d, KeyUsage = int_decode e, ExtKeyUsage = map usage_of_code (list_decode f),
            BasicConstraintsValid = (g = 1), IsCA = (h = 1), DNSNames = map string_of_code (list_decode i),
            IPAddresses = map list_decode (list_decode j), Issuer = name_of_code k,
            PublicKey = public_key_of_code l, SignedBy = public_key_of_code m\<rparr>
      | _ \<Rightarrow> None)"

lemma certificate_code_inverse [simp]: "certificate_of_code (certificate_code c) = Some c"
  by (simp add: certificate_code_def certificate_of_code_def comp_def)

section \<open>The PEM functions\<close>

definition certificate_text :: "certificate \<Rightarrow> string" where
  "certificate_text c = ''CERTIFICATE '' @ decimal (certificate_code c)"

definition certificates_of_text :: "string \<Rightarrow> certificate list option" where
  "certificates_of_text s =
     (if HasPrefix s ''CERTIFICATE ''
      then (case parse_digits (TrimPrefix s ''CERTIFICATE '') of
              None \<Rightarrow> None
            | Some n \<Rightarrow> (case certificate_of_code n of None \<Rightarrow> None | Some c \<Rightarrow> Some [c]))
      else None)"

fun key_text :: "private_key \<Rightarrow> string option" where
  "key_text (RSAKey n) = Some (''RSA KEY '' @ decimal n)"
| "key_text (ECKey n) = Some (''EC KEY '' @ decimal n)"
| "key_text _ = None"

definition key_of_text :: "string \<Rightarrow> private_key option" where
  "key_of_text s =
     (if HasPrefix s ''RSA KEY '' then map_option RSAKey (parse_digits (TrimPrefix s ''RSA KEY ''))
      else if HasPrefix s ''EC KEY '' then map_option ECKey (parse_digits (TrimPrefix s ''EC KEY ''))
      else None)"

definition sample_pem :: pem where
  "sample_pem =
     \<lparr>ParseCertsPEM = certificates_of_text, EncodeCertificates = (\<lambda>c. Some (certificate_text c)),
      ParsePrivateKeyPEM = key_of_text, MarshalPrivateKeyToPEM = key_text, san_ok = (\<lambda>_. True)\<rparr>"

lemma certificate_round_trip: "certificates_of_text (certificate_text c) = Some [c]"
  by (simp only: certificates_of_text_def certificate_text_def HasPrefix_append TrimPrefix_append
      parse_digits_decimal certificate_code_inverse option.case if_True)

lemma key_round_trip:
  "key_of_text (''RSA KEY '' @ decimal n) = Some (RSAKey n)"
  "key_of_text (''EC KEY '' @ decimal n) = Some (ECKey n)"
proof -
  have "\<not> HasPrefix (''EC KEY '' @ decimal n) ''RSA KEY ''" by (simp add: HasPrefix_def)
  then show "key_of_text (''EC KEY '' @ decimal n) = Some (ECKey n)"
    by (simp only: key_of_text_def HasPrefix_append TrimPrefix_append parse_digits_decimal option.map if_True if_False)
  show "key_of_text (''RSA KEY '' @ decimal n) = Some (RSAKey n)"
    by (simp only: key_of_text_def HasPrefix_append TrimPrefix_append parse_digits_decimal option.map if_True)
qed

lemma sample_pem_ok: "pem_ok sample_pem"
  using certificate_round_trip key_round_trip
  by (auto simp: pem_ok_def sample_pem_def certificates_of_text_def split: option.splits)

section \<open>Concrete states\<close>

definition sample_config :: pki_config where
  "sample_config = \<lparr>PkiStateDir = ''/s'', PkiBindAddress = ''127.0.0.1:6443'', PkiHypervisorWebhookHost = []\<rparr>"

text \<open>A machine on which no call fails, with the given files and a umask of 0022 (0x12).\<close>

definition sample_world :: "files \<Rightarrow> world" where
  "sample_world fs =
     \<lparr>w_files = fs, w_umask = 0x12, w_faults = (\<lambda>_. NoFault), w_calls = 0, w_history = [],
      w_entropy = (\<lambda>n. n), w_drawn = 0, w_clock = (\<lambda>_. 1700000000000000000), w_looked = 0,
      w_slept = 0, w_cancel = (\<lambda>_. None), w_selects = 0\<rparr>"

lemma sample_calm [simp]: "calm (sample_world fs)"
  by (simp add: calm_def sample_world_def)

lemma sample_clock [simp]: "clock_ok (sample_world fs)"
  by (simp add: clock_ok_def sample_world_def encodable_time_def seconds_def certValidity_def)

lemma sample_files [simp]: "w_files (sample_world fs) = fs"
  by (simp add: sample_world_def)

lemma sample_host: "bindHost (PkiBindAddress sample_config) = Inr ''127.0.0.1''"
  using SplitHostPort_plain [of "''127.0.0.1''" "''6443''"]
  by (simp add: sample_config_def bindHost_def)

lemma sample_names:
  "names_ok sample_pem (fst (apiserverSANs ''127.0.0.1'') @
     fst (hypervisorWebhookSANs (PkiHypervisorWebhookHost sample_config)))"
  by (simp add: apiserverSANs_def hypervisorWebhookSANs_def ParseIP_loopback sample_config_def names_ok_def
      sample_pem_def is_IA5_def byte_val_def pkiDefaultHypervisorWebhookHost_def Let_def)

lemma sample_prefix: "artifact_path sample_config n = ''/s/'' @ n"
  by (simp add: artifact_path_def sample_config_def dir_prefix_def is_rooted_def path_elems_def)

lemma sample_generate:
  assumes "unobstructed sample_config fs"
    and "file_data fs (ca_cert_path sample_config) = None" and "file_data fs (ca_key_path sample_config) = None"
  shows "\<exists>v. Generate sample_pem None sample_config (sample_world fs) = (Inr (generated_inventory sample_config), v)"
  using Generate_ready [OF sample_pem_ok sample_host sample_names, of "sample_world fs"] assms
  by (simp add: ready_def)

lemma sample_unobstructed: "unobstructed sample_config Map.empty"
  by (auto simp: unobstructed_def sample_prefix is_dir_def file_data_def)

section \<open>Runs\<close>

theorem Generate_succeeds_witness:
  "\<exists>v. Generate sample_pem None sample_config (sample_world Map.empty) = (Inr (generated_inventory sample_config), v)"
proof (rule Generate_succeeds [OF sample_pem_ok sample_host sample_names sample_calm])
  show "unobstructed sample_config (w_files (sample_world Map.empty))" using sample_unobstructed by simp
qed (simp_all add: file_data_def)

theorem Generate_issues_witness:
  "\<exists>v. Generate sample_pem None sample_config (sample_world Map.empty) = (Inr (generated_inventory sample_config), v) \<and>
     sa_on_disk sample_pem (w_files v) ''/s/pki/sa.pub'' ''/s/pki/sa.key''"
proof -
  obtain v where run: "Generate sample_pem None sample_config (sample_world Map.empty) =
      (Inr (generated_inventory sample_config), v)"
    using sample_generate [OF sample_unobstructed] by (auto simp: file_data_def)
  have "sa_on_disk sample_pem (w_files v) ''/s/pki/sa.pub'' ''/s/pki/sa.key''"
    using Generate_issues [OF sample_pem_ok run] by (auto simp: sample_prefix)
  with run show ?thesis by blast
qed

theorem Generate_again_witness:
  "\<exists>v v'. Generate sample_pem None sample_config (sample_world Map.empty) =
       (Inr (generated_inventory sample_config), v) \<and>
     Generate sample_pem None sample_config (sample_world (w_files v)) = (Inr (generated_inventory sample_config), v') \<and>
     w_files v' = w_files v \<and> w_history v' = []"
proof -
  obtain v where run: "Generate sample_pem None sample_config (sample_world Map.empty) =
      (Inr (generated_inventory sample_config), v)"
    using sample_generate [OF sample_unobstructed] by (auto simp: file_data_def)
  from Generate_again [OF sample_pem_ok run sample_calm sample_files] show ?thesis
    using run by (auto simp: sample_world_def)
qed

theorem Generate_keeps_authority_witness:
  "\<exists>e v. Generate sample_pem None sample_config (sample_world [''/s/pki/ca.crt'' \<mapsto> FileNode 0x1A4 ''x'']) = (Inl e, v) \<and>
     file_data (w_files v) ''/s/pki/ca.crt'' = Some ''x'' \<and> file_data (w_files v) ''/s/pki/ca.key'' = None"
proof -
  let ?w = "sample_world [''/s/pki/ca.crt'' \<mapsto> FileNode 0x1A4 ''x'']"
  obtain r v where run: "Generate sample_pem None sample_config ?w = (r, v)" by fastforce
  have there: "file_data (w_files ?w) (ca_cert_path sample_config) \<noteq> None \<or>
      file_data (w_files ?w) (ca_key_path sample_config) \<noteq> None"
    by (simp add: sample_prefix file_data_def)
  have "authority_on_disk sample_pem (w_files ?w) (ca_cert_path sample_config) (ca_key_path sample_config) = None"
    by (simp add: authority_on_disk_def key_on_disk_def file_data_def sample_prefix split: option.split)
  with Generate_keeps_authority [OF there run] run show ?thesis
    by (auto simp: ca_paths_of_def sample_prefix file_data_def)
qed

text \<open>
  The witness is the case in which that matters: the authority's two files are gone, the pair of
  etcd is there, signed by a key that is nobody's authority. The run creates a new authority,
  reports success, and etcd's certificate does not chain to it.
\<close>

definition foreign_certificate :: certificate where
  "foreign_certificate = zero_certificate\<lparr>Subject := (''etcd-server'', []), PublicKey := ECPub 5, SignedBy := Ed25519Pub 7\<rparr>"

definition stale_files :: files where
  "stale_files =
     [''/s/pki/etcd-server.crt'' \<mapsto> FileNode 0x1A4 (certificate_text foreign_certificate),
      ''/s/pki/etcd-server.key'' \<mapsto> FileNode 0x180 (''EC KEY '' @ decimal 5)]"

lemma stale_unobstructed: "unobstructed sample_config stale_files"
proof -
  have "file_data stale_files q = None" if "d \<in> set dir_names" "q \<in> set (path_chain (''/s/'' @ d))" for d q
  proof -
    have "prefix q (''/s/'' @ d)" using that(2) by (auto dest: path_chain_prefix)
    then have "q \<noteq> ''/s/pki/etcd-server.crt'' \<and> q \<noteq> ''/s/pki/etcd-server.key''"
      using that(1) by (auto simp: dir_names_def)
    then show ?thesis by (simp add: stale_files_def file_data_def)
  qed
  then show ?thesis by (auto simp: unobstructed_def sample_prefix is_dir_def stale_files_def)
qed


theorem stored_pair_reads_back_witness:
  "\<exists>v. fst (readSingleCert sample_pem ''/s/pki/ca.crt'' v) = Inr foreign_certificate \<and>
     fst (readSigner sample_pem ''/s/pki/ca.key'' v) = Inr (ECKey 5) \<and>
     fst (validPair sample_pem ''/s/pki/ca.crt'' ''/s/pki/ca.key'' v)"
proof -
  have names: "''pki/ca.crt'' \<in> set all_names" "''pki/ca.key'' \<in> set all_names"
    by (simp_all add: all_names_def ca_names_def)
  have signed: "SignedBy foreign_certificate \<noteq> NoKey" by (simp add: foreign_certificate_def)
  have "ready sample_config (sample_world Map.empty)" using sample_unobstructed by (simp add: ready_def)
  from ready_write_cert [OF this names(1) sample_pem_ok signed] obtain u where
    wc: "writeCertFile sample_pem (ca_cert_path sample_config) foreign_certificate (sample_world Map.empty) = (Inr (), u)"
    and "ready sample_config u" by blast
  from ready_write_key [OF this(2) names(2) sample_pem_ok, of "ECKey 5" 5] obtain v where
    wk: "writeKeyFile sample_pem (ca_key_path sample_config) (ECKey 5) u = (Inr (), v)" and "ready sample_config v" by auto
  then have "calm v" by (simp add: ready_def)
  have "PublicKey foreign_certificate = Public (ECKey 5)" by (simp add: foreign_certificate_def)
  with stored_pair_reads_back [OF sample_pem_ok signed _ _ wc wk \<open>calm v\<close>, of 5] show ?thesis
    by (auto simp: sample_prefix)
qed

end
