(* ===== verification/PkiCrash.thy ===== *)
theory PkiCrash
  imports PkiExamples
begin

text \<open>
  What a crash of \<open>pki.Generate\<close> leaves: the file system goes through states that are not those before or after a run.
  A run only ever adds states to the history, and between the two writes of a new authority there is one with
  the certificate and no key.
\<close>

section \<open>Histories grow\<close>

definition extends :: "world \<Rightarrow> world \<Rightarrow> bool" where
  "extends w v \<longleftrightarrow> set (w_history w) \<subseteq> set (w_history v)"

lemma extends_reads: "stays same_disk m \<Longrightarrow> stays extends m"
  by (auto simp: stays_def extends_def same_disk_def)

lemma extends_return [io_frame]:
  "stays extends (act_return x)" "stays extends (act_throw e)" "stays extends (act_lift r)"
  by (simp_all add: stays_def extends_def)

lemma extends_bind [io_frame]:
  "stays extends m \<Longrightarrow> (\<And>x. stays extends (f x)) \<Longrightarrow> stays extends (act_bind m f)"
  by (rule stays_bind) (auto simp: extends_def)

lemma extends_iter [io_frame]: "(\<And>x. stays extends (f x)) \<Longrightarrow> stays extends (act_iter f xs)"
  by (induction xs) (auto intro: io_frame)

lemma extends_calls [io_frame]:
  "stays extends (WriteFile p d m)" "stays extends (Chmod p m)" "stays extends (MkdirAll p)"
  by (auto simp: stays_def WriteFile_def Chmod_def MkdirAll_def next_fault_def Let_def extends_def set_files_def
      split: fault.split option.split node.split)

lemma extends_write [io_frame]: "stays extends (writeCertFile lib p c)" "stays extends (writeKeyFile lib p k)"
  unfolding writeCertFile_def writeKeyFile_def writeFile_def by (auto split: option.split intro!: io_frame)

lemma extends_leaf: "stays extends (ensureLeaf lib caCert caKey now spec)"
  unfolding ensureLeaf_def Let_def
  by (intro io_frame extends_reads [OF validPair_reads])
    (simp, intro conjI impI io_frame extends_reads [OF Generate_key_reads(2)] extends_reads [OF new_cert_reads(2)])

lemma extends_sa: "stays extends (ensureServiceAccountPair lib c k)"
  unfolding ensureServiceAccountPair_def
  by (intro io_frame extends_reads [OF validSAPair_reads])
    (simp, intro conjI impI io_frame extends_reads [OF Generate_key_reads(1)] extends_reads [OF new_cert_reads(3)])

text \<open>What a completed write leaves is a state of the history.\<close>

lemma writeCertFile_history:
  assumes "writeCertFile lib p c w = (Inr (), v)"
  shows "w_files v \<in> set (w_history v)"
proof -
  from assms obtain d u1 u2 where wr: "WriteFile p d certFileMode u1 = (Inr (), u2)" and ch: "Chmod p certFileMode u2 = (Inr (), v)"
    by (auto simp: writeCertFile_def writeFile_def act_bind_Inr_iff act_wrap_Inr_iff split: option.splits)
  from WriteFile_ok [OF wr] have "\<exists>m. w_files u2 p = Some (FileNode m d)"
    by (auto simp: put_file_def is_dir_def split: option.splits node.splits)
  with ch show ?thesis by (auto simp: Chmod_def next_fault_def set_files_def split: fault.splits)
qed

section \<open>A crash between certificate and key\<close>

text \<open>
  An interrupted first run is final. Take any successful run that makes a new authority: on its way the disk is in a
  state from which no later run succeeds, whatever the clock, the random numbers and the calls do. A process
  that is killed there (or whose write of the key fails) leaves a certificate without a key, which every later run
  refuses, writing nothing, until someone removes the file.
\<close>

theorem interrupted_authority_is_final:
  assumes lib: "pem_ok lib" and run: "Generate lib None cfg w = (Inr inven, v)"
    and none: "file_data (w_files w) (ca_cert_path cfg) = None" "file_data (w_files w) (ca_key_path cfg) = None"
  shows "\<exists>fs \<in> set (w_history v). file_data fs (ca_cert_path cfg) \<noteq> None \<and> file_data fs (ca_key_path cfg) = None \<and>
    (\<forall>u. w_files u = fs \<longrightarrow> (\<exists>e t. Generate lib None cfg u = (Inl e, t) \<and> only_writes {} fs (w_files t)))"
proof -
  let ?c = "ca_cert_path cfg" and ?k = "ca_key_path cfg"
  from run obtain host now caCert caKey w1 w2 w3 w4 where mk: "MkdirAll (pki_dir cfg) w = (Inr (), w1)" and now: "Now w1 = (now, w2)"
    and ca: "ensureCA lib (pki_dir cfg) now w2 = (Inr (caCert, caKey), w3)"
    and loop: "act_iter (ensureLeaf lib caCert caKey now) (generated_leaves cfg host) w3 = (Inr (), w4)"
    and sa: "ensureServiceAccountPair lib (artifact_path cfg ''pki/sa.pub'') (artifact_path cfg ''pki/sa.key'') w4 = (Inr (), v)"
    by (rule Generate_run)
  have "within {} w w1" by (rule stays_run [OF MkdirAll_within mk])
  moreover have "same_disk w1 w2" using now by (auto simp: Now_def same_disk_def same_env_def)
  ultimately have "within {} w w2" by (blast intro: within_trans same_disk_within)
  then have none2: "file_data (w_files w2) p = file_data (w_files w) p" for p by (rule within_data) simp
  from ca none none2 obtain u u' where same: "same_disk w2 u"
    and wc: "writeCertFile lib ?c caCert u = (Inr (), u')" and wk: "writeKeyFile lib ?k caKey u' = (Inr (), w3)"
    by (cases rule: ensureCA_run [OF ca_path_eqs(1) [symmetric] ca_path_eqs(2) [symmetric]]) auto
  let ?fs = "w_files u'"
  have cert: "file_data ?fs ?c \<noteq> None" using writeCertFile_ok [OF wc] by (auto simp: file_data_def)
  have "within {?c} u u'" by (rule stays_run [OF write_pem_within(1) wc]) simp
  moreover have "?k \<notin> {?c}" by (simp add: artifact_path_def)
  ultimately have "file_data ?fs ?k = file_data (w_files u) ?k" by (rule within_data)
  with same none none2 have key: "file_data ?fs ?k = None" by (simp add: same_disk_def)
  have "extends u' w3" by (rule stays_run [OF extends_write(2) wk])
  moreover have "extends w3 w4" by (rule stays_run [OF extends_iter [OF extends_leaf] loop])
  moreover have "extends w4 v" by (rule stays_run [OF extends_sa sa])
  ultimately have mem: "?fs \<in> set (w_history v)" using writeCertFile_history [OF wc] by (auto simp: extends_def)
  have "authority_on_disk lib ?fs ?c ?k = None"
    using key by (simp add: authority_on_disk_def key_on_disk_def split: option.split)
  then have final: "\<exists>e t. Generate lib None cfg x = (Inl e, t) \<and> only_writes {} ?fs (w_files t)" if "w_files x = ?fs" for x
  proof -
    obtain r t where "Generate lib None cfg x = (r, t)" by fastforce
    with Generate_guarded [of x cfg lib r t] cert that \<open>authority_on_disk lib ?fs ?c ?k = None\<close> show ?thesis
      by (auto simp: within_def)
  qed
  from mem cert key final show ?thesis by blast
qed

theorem interrupted_authority_is_final_witness:
  "\<exists>v fs. Generate sample_pem None sample_config (sample_world Map.empty) = (Inr (generated_inventory sample_config), v) \<and>
     fs \<in> set (w_history v) \<and> (\<exists>e t. Generate sample_pem None sample_config (sample_world fs) = (Inl e, t))"
proof -
  obtain v where run: "Generate sample_pem None sample_config (sample_world Map.empty) =
      (Inr (generated_inventory sample_config), v)"
    using sample_generate [OF sample_unobstructed] by (auto simp: file_data_def)
  from interrupted_authority_is_final [OF sample_pem_ok this] obtain fs where "fs \<in> set (w_history v)"
    and "\<forall>u. w_files u = fs \<longrightarrow> (\<exists>e t. Generate sample_pem None sample_config u = (Inl e, t) \<and> only_writes {} fs (w_files t))"
    by (auto simp: file_data_def)
  then have "\<exists>e t. Generate sample_pem None sample_config (sample_world fs) = (Inl e, t)" using sample_files by blast
  with run \<open>fs \<in> set (w_history v)\<close> show ?thesis by blast
qed

end
