(* ===== verification/PodCrash.thy ===== *)
theory PodCrash
  imports PodBoot PkiCrash
begin

text \<open>
  What the crash of \<open>PkiCrash\<close> means for the pod of \<open>PodBoot\<close>: a computation that is killed has done exactly what it does
  without the kill up to that call, so the state between the two writes of a new authority is one that a
  killed pki container leaves; and from there no unit ever starts.
\<close>

section \<open>A killed computation does what it does up to the kill\<close>

definition ages :: "world \<Rightarrow> world \<Rightarrow> bool" where
  "ages w v \<longleftrightarrow> w_calls w \<le> w_calls v \<and> w_faults v = w_faults w"

text \<open>\<open>local m\<close>: of the oracle, \<open>m\<close> sees the answers to its own calls.\<close>

definition local_calls :: "(world, 'e, 'a) action \<Rightarrow> bool" where
  "local_calls m \<longleftrightarrow> stays ages m \<and> (\<forall>w f. (\<forall>k. w_calls w \<le> k \<and> k < w_calls (snd (m w)) \<longrightarrow> f k = w_faults w k) \<longrightarrow>
     m (w\<lparr>w_faults := f\<rparr>) = (fst (m w), (snd (m w))\<lparr>w_faults := f\<rparr>))"

named_theorems local_rules "computations that see the answers to their own calls only"

lemma local_early:
  assumes m: "local_calls m" and run: "m w = (r, v)" and early: "w_calls v \<le> n"
  shows "w_calls w \<le> n \<and> w_faults v = w_faults w"
proof -
  have "ages w v" using m run by (auto simp: local_calls_def intro: stays_run)
  then show ?thesis using early by (simp add: ages_def)
qed

lemma local_cut:
  assumes m: "local_calls m" and run: "m w = (r, v)" and early: "w_calls v \<le> n" and faults: "w_faults w = g"
  shows "m (w\<lparr>w_faults := cut n e g\<rparr>) = (r, v\<lparr>w_faults := cut n e g\<rparr>)"
proof -
  have "\<forall>k. w_calls w \<le> k \<and> k < w_calls (snd (m w)) \<longrightarrow> cut n e g k = w_faults w k"
    using run early faults by (simp add: cut_def)
  then have "m (w\<lparr>w_faults := cut n e g\<rparr>) = (fst (m w), (snd (m w))\<lparr>w_faults := cut n e g\<rparr>)"
    using m unfolding local_calls_def by blast
  then show ?thesis using run by simp
qed

lemma local_pure [local_rules]: "local_calls (act_return x)" "local_calls (act_throw e)" "local_calls (act_lift r)"
  by (simp_all add: local_calls_def stays_def ages_def)

lemma local_bind [local_rules]:
  assumes m: "local_calls m" and f: "\<And>x. local_calls (f x)"
  shows "local_calls (act_bind m f)"
  unfolding local_calls_def
proof (intro conjI allI impI)
  show "stays ages (act_bind m f)"
    by (rule stays_bind) (use m f in \<open>auto simp: local_calls_def ages_def\<close>)
  fix w g assume same: "\<forall>k. w_calls w \<le> k \<and> k < w_calls (snd (act_bind m f w)) \<longrightarrow> g k = w_faults w k"
  obtain r v where run: "m w = (r, v)" by fastforce
  then have wv: "ages w v" using m by (auto simp: local_calls_def intro: stays_run)
  have first: "m (w\<lparr>w_faults := g\<rparr>) = (r, v\<lparr>w_faults := g\<rparr>)" if "\<forall>k. w_calls w \<le> k \<and> k < w_calls v \<longrightarrow> g k = w_faults w k"
    using m run that unfolding local_calls_def by (metis fst_conv snd_conv)
  show "act_bind m f (w\<lparr>w_faults := g\<rparr>) = (fst (act_bind m f w), (snd (act_bind m f w))\<lparr>w_faults := g\<rparr>)"
  proof (cases r)
    case (Inl e)
    with run same first show ?thesis by (simp add: act_bind_def)
  next
    case (Inr x)
    obtain r' u where rest: "f x v = (r', u)" by fastforce
    then have vu: "ages v u" using f by (auto simp: local_calls_def intro: stays_run)
    have whole: "act_bind m f w = (r', u)" using run Inr rest by (simp add: act_bind_def)
    have "m (w\<lparr>w_faults := g\<rparr>) = (r, v\<lparr>w_faults := g\<rparr>)"
      by (rule first) (use same whole vu in \<open>auto simp: ages_def\<close>)
    moreover have "\<forall>k. w_calls v \<le> k \<and> k < w_calls (snd (f x v)) \<longrightarrow> g k = w_faults v k"
      using same whole wv rest by (auto simp: ages_def)
    then have "f x (v\<lparr>w_faults := g\<rparr>) = (r', u\<lparr>w_faults := g\<rparr>)"
      using f [of x] rest unfolding local_calls_def by (metis fst_conv snd_conv)
    ultimately show ?thesis using whole Inr by (simp add: act_bind_def)
  qed
qed

lemma local_wrap [local_rules]:
  assumes "local_calls m"
  shows "local_calls (act_wrap c m)"
proof -
  have "act_wrap c m w = (wrap_err c (fst (m w)), snd (m w))" for w by (simp add: act_wrap_def split: prod.split)
  with assms show ?thesis by (simp add: local_calls_def stays_wrap)
qed

lemma local_prims [local_rules]:
  "local_calls (Stat p)" "local_calls (WriteFile p d m)" "local_calls (Chmod p m)" "local_calls (MkdirAll p)"
  "local_calls (of_state draw)" "local_calls (of_state Now)"
  by (auto simp: local_calls_def stays_def ages_def Stat_def WriteFile_def Chmod_def MkdirAll_def of_state_def draw_def Now_def
      next_fault_def set_files_def Let_def split: fault.split option.split node.split)

lemma local_parts [local_rules]:
  "local_calls GenerateRSA" "local_calls randomSerial" "local_calls (newCACert lib key now)" "local_calls (writeCertFile lib p c)"
  unfolding GenerateRSA_def randomSerial_def newCACert_def writeCertFile_def writeFile_def Let_def
  by (auto split: option.split intro!: local_rules)

lemma local_exists [local_rules]: "local_calls (fileExists p)"
proof -
  define answer where "answer r = (case r of Inr (FileNode _ _) \<Rightarrow> Inr True | Inr DirNode \<Rightarrow> Inr False
      | Inl e \<Rightarrow> if e = ErrNotExist then Inr False else Inl e)" for r :: "io_error + node"
  have "fileExists p w = (answer (fst (Stat p w)), snd (Stat p w))" for w
    by (simp add: fileExists_def answer_def split: prod.split sum.split node.split)
  with local_prims(1) [of p] show ?thesis by (simp add: local_calls_def stays_def)
qed

section \<open>Killed between certificate and key\<close>

lemma bind_dead:
  assumes "m w = (r, v)" and "dead v" and "\<And>x. stays frozen (f x)"
  shows "dead (snd (act_bind m f w)) \<and> w_files (snd (act_bind m f w)) = w_files v"
proof (cases r)
  case (Inl e)
  with assms(1,2) show ?thesis by (simp add: act_bind_def)
next
  case (Inr x)
  obtain r' u where rest: "f x v = (r', u)" by fastforce
  then have "frozen v u" by (rule stays_run [OF assms(3)])
  with assms(1,2) Inr rest show ?thesis by (simp add: act_bind_def frozen_def)
qed

lemma Generate_killed:
  assumes run: "Generate lib None cfg w = (Inr inven, v)"
    and none: "file_data (w_files w) (ca_cert_path cfg) = None" "file_data (w_files w) (ca_key_path cfg) = None"
  shows "\<exists>n r u. Generate lib None cfg (w\<lparr>w_faults := cut n Fail (w_faults w)\<rparr>) = (r, u) \<and>
    file_data (w_files u) (ca_cert_path cfg) \<noteq> None \<and> file_data (w_files u) (ca_key_path cfg) = None"
proof -
  let ?c = "ca_cert_path cfg" and ?k = "ca_key_path cfg"
  from run obtain host now caCert caKey w1 w2 w3 where host: "bindHost (PkiBindAddress cfg) = Inr host"
    and mk: "MkdirAll (pki_dir cfg) w = (Inr (), w1)" and now: "Now w1 = (now, w2)"
    and ca: "ensureCA lib (pki_dir cfg) now w2 = (Inr (caCert, caKey), w3)"
    by (rule Generate_run)
  have "within {} w w1" by (rule stays_run [OF MkdirAll_within mk])
  moreover have "same_disk w1 w2" using now by (auto simp: Now_def same_disk_def same_env_def)
  ultimately have "within {} w w2" by (blast intro: within_trans same_disk_within)
  then have none2: "file_data (w_files w2) p = file_data (w_files w) p" for p by (rule within_data) simp
  from ca obtain ce u1 ke u2 where ce: "fileExists ?c w2 = (Inr ce, u1)" and ke: "fileExists ?k u1 = (Inr ke, u2)"
    and rest: "(if ce \<and> ke then act_wrap InvalidCA (loadCAPair lib ?c ?k)
           else if ce \<or> ke then act_throw IncompleteCA
           else act_bind GenerateRSA (\<lambda>caKey. act_bind (act_wrap GenerateCA (newCACert lib caKey now)) (\<lambda>caCert.
             act_bind (act_wrap WriteCACert (writeCertFile lib ?c caCert)) (\<lambda>_.
             act_bind (act_wrap WriteCAKey (writeKeyFile lib ?k caKey)) (\<lambda>_. act_return (caCert, caKey)))))) u2 = (Inr (caCert, caKey), w3)"
    unfolding ensureCA_def Let_def ca_path_eqs act_bind_Inr_iff act_wrap_Inr_iff by blast
  have s1: "same_disk w2 u1" by (rule stays_run [OF fileExists_reads ce])
  have s2: "same_disk w2 u2" using s1 stays_run [OF fileExists_reads ke] by (rule same_disk_trans)
  have no: "\<not> ce" "\<not> ke"
    using fileExists_ok [OF ce] fileExists_ok [OF ke] none none2 s1 by (simp_all add: same_disk_def)
  with rest obtain u3 u4 u5 where rsa: "(GenerateRSA :: (world, pki_error, private_key) action) u2 = (Inr caKey, u3)" and new: "newCACert lib caKey now u3 = (Inr caCert, u4)"
    and wc: "writeCertFile lib ?c caCert u4 = (Inr (), u5)"
    by (auto simp: act_bind_Inr_iff act_wrap_Inr_iff)
  have s4: "same_disk w2 u4"
    using s2 stays_run [OF Generate_key_reads(1) rsa] stays_run [OF new_cert_reads(1) new] by (blast intro: same_disk_trans)
  define n where "n = w_calls u5"
  define f where "f = cut n Fail (w_faults w)"
  have nw: "(of_state Now :: (world, pki_error, int) action) w1 = (Inr now, w2)" using now by (simp add: of_state_def)
  have "w_calls u5 \<le> n" by (simp add: n_def)
  note k5 = this local_early [OF local_parts(4) wc this]
  note k4 = conjunct1 [OF k5(2)] local_early [OF local_parts(3) new conjunct1 [OF k5(2)]]
  note k3 = conjunct1 [OF k4(2)] local_early [OF local_parts(1) rsa conjunct1 [OF k4(2)]]
  note k2 = conjunct1 [OF k3(2)] local_early [OF local_exists ke conjunct1 [OF k3(2)]]
  note k1 = conjunct1 [OF k2(2)] local_early [OF local_exists ce conjunct1 [OF k2(2)]]
  note k0 = conjunct1 [OF k1(2)] local_early [OF local_prims(6) nw conjunct1 [OF k1(2)]]
  note km = conjunct1 [OF k0(2)] local_early [OF local_prims(4) mk conjunct1 [OF k0(2)]]
  have fs: "w_faults w1 = w_faults w" "w_faults w2 = w_faults w" "w_faults u1 = w_faults w" "w_faults u2 = w_faults w"
    "w_faults u3 = w_faults w" "w_faults u4 = w_faults w"
    using km(2) k0(2) k1(2) k2(2) k3(2) k4(2) by simp_all
  note steps = local_cut [OF local_prims(4) mk km(1) refl, of Fail, folded f_def]
    local_cut [OF local_prims(6) nw k0(1) fs(1), of Fail, folded f_def] local_cut [OF local_exists ce k1(1) fs(2), of Fail, folded f_def]
    local_cut [OF local_exists ke k2(1) fs(3), of Fail, folded f_def] local_cut [OF local_parts(1) rsa k3(1) fs(4), of Fail, folded f_def]
    local_cut [OF local_parts(3) new k4(1) fs(5), of Fail, folded f_def] local_cut [OF local_parts(4) wc k5(1) fs(6), of Fail, folded f_def]
  have dead5: "dead (u5\<lparr>w_faults := f\<rparr>)" by (simp add: dead_def f_def cut_def n_def)
  let ?rest = "\<lambda>_. act_bind (act_wrap WriteCAKey (writeKeyFile lib ?k caKey)) (\<lambda>_. act_return (caCert, caKey))"
  have "act_wrap WriteCACert (writeCertFile lib ?c caCert) (u4\<lparr>w_faults := f\<rparr>) = (Inr (), u5\<lparr>w_faults := f\<rparr>)"
    using steps(7) by (simp add: act_wrap_run)
  from bind_dead [where m = "act_wrap WriteCACert (writeCertFile lib ?c caCert)" and w = "u4\<lparr>w_faults := f\<rparr>" and f = ?rest, OF this dead5]
  have tail: "dead (snd (act_bind (act_wrap WriteCACert (writeCertFile lib ?c caCert)) ?rest (u4\<lparr>w_faults := f\<rparr>))) \<and>
      w_files (snd (act_bind (act_wrap WriteCACert (writeCertFile lib ?c caCert)) ?rest (u4\<lparr>w_faults := f\<rparr>))) = w_files u5"
    by (simp add: io_frame)
  have "ensureCA lib (pki_dir cfg) now (w2\<lparr>w_faults := f\<rparr>) =
      act_bind (act_wrap WriteCACert (writeCertFile lib ?c caCert)) ?rest (u4\<lparr>w_faults := f\<rparr>)"
    using steps no unfolding ensureCA_def Let_def ca_path_eqs
    by (simp add: act_bind_run act_wrap_run)
  with tail obtain r3 x3 where ca': "ensureCA lib (pki_dir cfg) now (w2\<lparr>w_faults := f\<rparr>) = (r3, x3)"
    and dead3: "dead x3" and files3: "w_files x3 = w_files u5" by (metis prod.collapse)
  obtain r u where gen: "Generate lib None cfg (w\<lparr>w_faults := f\<rparr>) = (r, u)" by fastforce
  let ?after = "\<lambda>(caCert, caKey). act_bind (act_iter (ensureLeaf lib caCert caKey now) (generated_leaves cfg host)) (\<lambda>_.
      act_bind (ensureServiceAccountPair lib (artifact_path cfg ''pki/sa.pub'') (artifact_path cfg ''pki/sa.key'')) (\<lambda>_.
        act_return (generated_inventory cfg)))"
  have eq: "Generate lib None cfg (w\<lparr>w_faults := f\<rparr>) = act_bind (ensureCA lib (pki_dir cfg) now) ?after (w2\<lparr>w_faults := f\<rparr>)"
    using steps host unfolding Generate_eq by (simp add: act_bind_run act_wrap_run wrap_err_def)
  have "stays frozen (?after y)" for y by (cases y) (simp add: io_frame)
  note after = bind_dead [where m = "ensureCA lib (pki_dir cfg) now" and w = "w2\<lparr>w_faults := f\<rparr>" and f = ?after, OF ca' dead3 this]
  have "w_files u = w_files x3" using after unfolding trans [OF sym [OF eq] gen] by simp
  with files3 have files: "w_files u = w_files u5" by simp
  have "file_data (w_files u5) ?c \<noteq> None" using writeCertFile_ok [OF wc] by (auto simp: file_data_def)
  moreover have "within {?c} u4 u5" by (rule stays_run [OF write_pem_within(1) wc]) simp
  then have "file_data (w_files u5) ?k = file_data (w_files u4) ?k" by (rule within_data) (simp add: artifact_path_def)
  then have "file_data (w_files u5) ?k = None" using s4 none none2 by (simp add: same_disk_def)
  ultimately show ?thesis using gen files unfolding f_def by (intro exI [of _ n] exI [of _ r] exI [of _ u]) simp
qed

section \<open>The pod after the kill\<close>

definition lost :: "config \<Rightarrow> 'c pod \<Rightarrow> bool" where
  "lost cfg s \<longleftrightarrow> up s = {} \<and> file_data (w_files (disk s)) (artifact_path (pki_of cfg) ''pki/ca.crt'') \<noteq> None \<and>
     file_data (w_files (disk s)) (artifact_path (pki_of cfg) ''pki/ca.key'') = None"

lemma pki_refuses:
  assumes load: "Config.Load env = Inr pcfg" and state: "StateDir pcfg = StateDir cfg"
    and half: "file_data (w_files w) (artifact_path (pki_of cfg) ''pki/ca.crt'') \<noteq> None"
      "file_data (w_files w) (artifact_path (pki_of cfg) ''pki/ca.key'') = None"
    and run: "run P info env [''pki''] (w, c) = Some (x, (v, d))"
  shows "exit_code x \<noteq> exitOK \<and> (\<forall>p. file_data (w_files v) p = file_data (w_files w) p)"
proof -
  obtain r u where gen: "Generate (pf_pem P) None (pki_of pcfg) w = (r, u)" by fastforce
  have art: "artifact_path (pki_of pcfg) = artifact_path (pki_of cfg)" by (simp add: artifact_path_def pki_of_def state fun_eq_iff)
  have "authority_on_disk (pf_pem P) (w_files w) (ca_cert_path (pki_of pcfg)) (ca_key_path (pki_of pcfg)) = None"
    using half unfolding art by (simp add: authority_on_disk_def key_on_disk_def split: option.split)
  with Generate_guarded [OF _ gen] half have "within {} w u" "\<exists>e. r = Inl e" unfolding art by blast+
  moreover from this(1) have "file_data (w_files u) p = file_data (w_files w) p" for p by (rule within_data) simp
  ultimately show ?thesis using run gen load
    by (auto simp: run_def only_machine_def runPKI_def pki_of_def exitOK_def fail_with_def exitError_def)
qed

lemma first_start:
  assumes "may_start {} spec"
  shows "ID spec = ComponentPKI"
  using assms by (auto simp: may_start_def unit_spec_of_def component_ids split: if_splits)

lemma lost_step:
  assumes cfg: "Config.Load env = Inr (in_Config input)" and tr: "trimmed (StateDir (in_Config input))"
    and lost: "lost (in_Config input) s" and step: "pod_step P info input s t"
  shows "lost (in_Config input) t"
proof -
  note load = conjunct1 [OF unit_environment_loads [OF cfg tr]]
  have down: "up s = {}" using lost by (simp add: lost_def)
  have pki: "ID spec = ComponentPKI \<and> unit_args input spec = [''pki'']" if "may_start (up s) spec" "oneshot spec" for spec
  proof -
    have id: "ID spec = ComponentPKI" using first_start that(1) down by simp
    have "spec \<in> set pod_components" using that(1) by (simp add: may_start_def)
    from oneshot_specs [OF this that(2), of input] id show ?thesis by (auto simp: component_ids)
  qed
  from step consider "boot P info input s t" | "crash P info input s t" by (auto simp: pod_step_def)
  then show ?thesis
  proof cases
    case 1
    then show ?thesis
    proof (cases rule: boot.cases)
      case (run_oneshot spec x w c)
      with pki have "run P info (unit_environment (in_Config input) ComponentPKI) [''pki''] (disk s, api s) = Some (x, (w, c))" by simp
      from pki_refuses [OF load _ _ _ this, of "in_Config input"] lost show ?thesis by (simp add: run_oneshot(1) lost_def)
    next
      case (start_server spec)
      with first_start [of spec] down show ?thesis by (simp add: oneshot_def unit_spec_of_def component_ids)
    next
      case (server_acts spec w c)
      with down show ?thesis by simp
    next
      case (stop started)
      with lost show ?thesis by (simp add: lost_def)
    qed
  next
    case 2
    then show ?thesis
    proof (cases rule: crash.cases)
      case (killed spec n e x w c d)
      with pki have "run P info (unit_environment (in_Config input) ComponentPKI) [''pki'']
          ((disk s)\<lparr>w_faults := cut n e (w_faults (disk s))\<rparr>, api s) = Some (x, (w, c))" by simp
      from pki_refuses [OF load _ _ _ this, of "in_Config input"] lost show ?thesis by (simp add: killed(1) lost_def)
    qed
  qed
qed

lemma lost_reached:
  assumes cfg: "Config.Load env = Inr (in_Config input)" and tr: "trimmed (StateDir (in_Config input))"
    and reach: "survives P info input s t"
  shows "lost (in_Config input) s \<Longrightarrow> lost (in_Config input) t"
  using reach by (induction rule: rtranclp_induct) (auto intro: lost_step [OF cfg tr])

text \<open>
  C38. One kill can be the end of the pod. Take any machine on which the pki container would succeed and which has no
  authority yet. There is a call in which the container can be killed such that afterwards, whatever is started, stopped
  or killed, no unit of the pod ever comes up: pki refuses the certificate without a key that the kill left, and nothing
  but a person removes it.
\<close>

theorem killed_pod_is_lost:
  assumes cfg: "Config.Load env = Inr (in_Config input)" and tr: "trimmed (StateDir (in_Config input))"
    and none: "file_data (w_files w) (artifact_path (pki_of (in_Config input)) ''pki/ca.crt'') = None"
      "file_data (w_files w) (artifact_path (pki_of (in_Config input)) ''pki/ca.key'') = None"
    and run: "run P info (unit_environment (in_Config input) ComponentPKI) [''pki''] (w, c) = Some (x, (v, d))"
    and ok: "exit_code x = exitOK"
  shows "\<exists>s. crash P info input \<lparr>up = {}, disk = w, api = c\<rparr> s \<and> (\<forall>t. survives P info input s t \<longrightarrow> up t = {})"
proof -
  let ?cfg = "in_Config input"
  let ?pcfg = "?cfg\<lparr>BindAddress := defaultBindAddress, HypervisorWebhookHost := defaultHypervisorWebhookHost\<rparr>"
  note load = conjunct1 [OF unit_environment_loads [OF cfg tr]]
  have art: "artifact_path (pki_of ?pcfg) = artifact_path (pki_of ?cfg)" by (simp add: artifact_path_def pki_of_def fun_eq_iff)
  obtain r u where g: "Generate (pf_pem P) None (pki_of ?pcfg) w = (r, u)" by fastforce
  moreover obtain inven where "r = Inr inven"
    using run g load ok by (cases r) (auto simp: run_def only_machine_def runPKI_def pki_of_def)
  ultimately have "Generate (pf_pem P) None (pki_of ?pcfg) w = (Inr inven, u)" by simp
  from Generate_killed [OF this] none obtain n r' u' where
    gen: "Generate (pf_pem P) None (pki_of ?pcfg) (w\<lparr>w_faults := cut n Fail (w_faults w)\<rparr>) = (r', u')"
    and half: "file_data (w_files u') (artifact_path (pki_of ?cfg) ''pki/ca.crt'') \<noteq> None"
      "file_data (w_files u') (artifact_path (pki_of ?cfg) ''pki/ca.key'') = None"
    unfolding art by blast
  let ?s = "\<lparr>up = {}, disk = w, api = c\<rparr>"
  have killed_run: "\<exists>y e. run P info (unit_environment ?cfg ComponentPKI) [''pki''] (w\<lparr>w_faults := cut n Fail (w_faults w)\<rparr>, c) = Some (y, (u', e))"
    using gen load by (auto simp: run_def only_machine_def runPKI_def pki_of_def split: sum.split)
  have "ComponentPKI \<in> set (map ID pod_components)" by (simp add: pod_components_def Components_def plain_component_def)
  then obtain spec where spec: "spec \<in> set pod_components" "ID spec = ComponentPKI" by auto
  have start: "may_start (up ?s) spec" "oneshot spec"
    by (simp_all add: may_start_def oneshot_def spec unit_spec_of_def component_ids)
  have args: "unit_args input spec = [''pki'']"
    using oneshot_specs [OF spec(1) start(2), of input] spec(2) by (auto simp: component_ids)
  from killed_run obtain y e where "run P info (unit_environment ?cfg (ID spec)) (unit_args input spec)
      ((disk ?s)\<lparr>w_faults := cut n Fail (w_faults (disk ?s))\<rparr>, api ?s) = Some (y, (u', e))" by (auto simp: spec args)
  from crash.killed [OF start this, of c] have crash: "crash P info input ?s \<lparr>up = {}, disk = u'\<lparr>w_faults := w_faults w\<rparr>, api = c\<rparr>" by simp
  have "lost ?cfg \<lparr>up = {}, disk = u'\<lparr>w_faults := w_faults w\<rparr>, api = c\<rparr>" using half by (simp add: lost_def)
  then have "lost ?cfg t" if "survives P info input \<lparr>up = {}, disk = u'\<lparr>w_faults := w_faults w\<rparr>, api = c\<rparr> t" for t
    by (rule lost_reached [OF cfg tr that])
  with crash show ?thesis by (intro exI conjI) (auto simp: lost_def)
qed

end
