(* ===== verification/SetupExamples.thy ===== *)
theory SetupExamples
  imports SetupLive PkiExamples
begin

text \<open>
  A concrete platform, machine and API server on which setup runs: seven manifest files that each hold
  a namespace and a role, the server in memory, the PEM functions of \<open>PkiExamples\<close>. The theorems
  about runs of setup are applied to it.
\<close>

section \<open>The platform\<close>

definition sample_prober :: "mem_world prober" where
  "sample_prober =
     \<lparr>AppendCertsFromPEM = (\<lambda>_. True), X509KeyPair = (\<lambda>_ _. Inr ()), Do = (\<lambda>_ c. (Inr None, c))\<rparr>"

definition sample_converter :: "(unit, unit) converter" where
  "sample_converter =
     \<lparr>FromMutating = (\<lambda>_. Inl ''none''), FromValidating = (\<lambda>_. Inl ''none''), FromCRD = (\<lambda>_. Inl ''none''),
      ToUnstructured = (\<lambda>_. Inl ''none'')\<rparr>"

definition sample_kubeconfig_text :: "kubeconfig \<Rightarrow> string" where
  "sample_kubeconfig_text kc =
     (case kc_AuthInfos kc kubeconfigContextName of None \<Rightarrow> [] | Some a \<Rightarrow> kc_ClientCertificate a)"

definition sample_status :: "string \<Rightarrow> (mem_world, string, crd_status) action" where
  "sample_status name c = (Inr [(''Established'', ''True'')], c)"

definition sample_platform :: "(mem_world, obj list, unit, unit) platform" where
  "sample_platform =
     \<lparr>pf_lib = path_lib, pf_pem = sample_pem, pf_fraction = (\<lambda>f unit k. f * unit div 10 ^ k),
      pf_prober = sample_prober, pf_decoder = list_decoder [sample_namespace, sample_role],
      pf_converter = sample_converter, NewDynamic = (\<lambda>_. Inr mem_client), NewApiext = (\<lambda>_. Inr sample_status),
      SerializeKC = (\<lambda>kc. Inr (sample_kubeconfig_text kc))\<rparr>"

definition sample_env :: environment where
  "sample_env = [EnvStateDir \<mapsto> ''/s'', EnvManifestsDir \<mapsto> ''/m'']"

definition sample_cfg :: config where
  "sample_cfg = \<lparr>StateDir = ''/s'', BindAddress = ''127.0.0.1:6443'', HypervisorWebhookHost = ''host.containers.internal''\<rparr>"

lemma sample_trim: "TrimSpace ''/s'' = ''/s''" "TrimSpace ''/m'' = ''/m''"
  by (rule TrimSpace_id, simp add: trimmed_def leading_rune_def space_runes_def)+

lemma sample_load: "Config.Load sample_env = Inr sample_cfg"
  by (simp add: Load_Inr_iff stateDirFromEnv_def bindAddressFromEnv_def hypervisorWebhookHostFromEnv_def env_get_def
      sample_env_def sample_cfg_def sample_trim EnvStateDir_def EnvManifestsDir_def EnvBindAddress_def
      EnvHypervisorWebhookHost_def defaultBindAddress_def defaultHypervisorWebhookHost_def)

lemma sample_settings:
  "ManifestsDir sample_env = Inr ''/m''" "APIServerTimeout fr sample_env = Inr defaultAPIServerTimeout"
  by (simp_all add: ManifestsDir_def APIServerTimeout_def sample_env_def sample_trim EnvStateDir_def EnvManifestsDir_def
      EnvAPIServerTimeout_def)

section \<open>The machine\<close>

lemma sample_manifest_files:
  "ProviderManifestFiles ''/m'' =
     [''/m/core/provider.yaml'', ''/m/cabpk/provider.yaml'', ''/m/kcp/provider.yaml'', ''/m/capd/provider.yaml'',
      ''/m/infrastructure-hypervisor/provider.yaml'', ''/m/bootstrap-hypervisor/provider.yaml'',
      ''/m/control-plane-hypervisor/provider.yaml'']"
  by code_simp

text \<open>The manifests lie in \<open>/m\<close> and where setup looks for them by default.\<close>

lemma image_manifest_files:
  "ProviderManifestFiles ''/templates/manifests'' =
     [''/templates/manifests/core/provider.yaml'', ''/templates/manifests/cabpk/provider.yaml'',
      ''/templates/manifests/kcp/provider.yaml'', ''/templates/manifests/capd/provider.yaml'',
      ''/templates/manifests/infrastructure-hypervisor/provider.yaml'',
      ''/templates/manifests/bootstrap-hypervisor/provider.yaml'',
      ''/templates/manifests/control-plane-hypervisor/provider.yaml'']"
  by code_simp

definition sample_disk :: files where
  "sample_disk p =
     (if p \<in> set (ProviderManifestFiles ''/m'') \<union> set (ProviderManifestFiles ''/templates/manifests'')
      then Some (FileNode 0x1A4 ''xx'') else None)"

lemma sample_pki: "artifact_path (pki_of sample_cfg) n = ''/s/'' @ n"
  by (simp add: artifact_path_def pki_of_def sample_cfg_def dir_prefix_def is_rooted_def path_elems_def)

lemma sample_disk_state: "prefix ''/s'' p \<or> prefix p ''/s/'' \<and> p \<noteq> [] \<Longrightarrow> sample_disk p = None"
  by (auto simp: sample_disk_def sample_manifest_files image_manifest_files prefix_Cons)

lemma sample_ready: "ready (pki_of sample_cfg) (sample_world sample_disk)"
proof -
  have "sample_disk (''/s/'' @ n) = None" for n by (rule sample_disk_state) simp
  moreover have "sample_disk q = None" if "q \<in> set (path_chain (''/s/'' @ d))" for d q
  proof -
    have "prefix q (''/s/'' @ d)" "q \<noteq> []" using path_chain_prefix that by blast+
    then show ?thesis by (intro sample_disk_state) (cases q, auto simp: prefix_Cons)
  qed
  ultimately have "unobstructed (pki_of sample_cfg) sample_disk"
    by (simp add: unobstructed_def sample_pki is_dir_def file_data_def)
  then show ?thesis by (simp add: ready_def)
qed

lemma sample_room: "kubeconfig_room sample_cfg sample_disk"
  unfolding kubeconfig_room_def
proof (intro ballI allI impI)
  fix x p assume x: "owner_path sample_cfg x = Some p"
  have dp: "dir_prefix (StateDir sample_cfg) = ''/s/''"
    by (simp add: sample_cfg_def dir_prefix_def is_rooted_def path_elems_def)
  obtain e where p: "p = ''/s/kubeconfigs/'' @ e"
    by (rule owner_path_shape [OF x]) (simp add: dp)
  have dir: "Dir p = ''/s/kubeconfigs''" by (rule owner_path_shape [OF x]) (simp add: dp)
  have temp: "temp_name (Dir p) n = ''/s/kubeconfigs/.capishim-'' @ Itoa (int n) @ ''.tmp''" for n
    by (rule owner_path_shape [OF x]) (simp add: dp)
  have "sample_disk q = None" if "q \<in> set (path_chain ''/s/kubeconfigs'')" for q
    using path_chain_prefix [OF that] by (intro sample_disk_state) (auto simp: prefix_Cons)
  then have "\<forall>q \<in> set (path_chain (Dir p)). file_data sample_disk q = None" by (simp add: dir file_data_def)
  moreover have "sample_disk (temp_name (Dir p) n) = None" for n unfolding temp by (rule sample_disk_state) simp
  moreover have "sample_disk p = None" by (rule sample_disk_state) (simp add: p)
  moreover have "p \<noteq> ''/'' \<and> p \<noteq> ''.''" by (simp add: p)
  ultimately show "room sample_disk p" by (simp add: room_def is_dir_def)
qed

section \<open>Manifests and server\<close>

lemma sample_read:
  "root \<in> {''/m'', ''/templates/manifests''} \<Longrightarrow> p \<in> set (ProviderManifestFiles root) \<Longrightarrow> read_file sample_disk p = Inr ''xx''"
  by (auto simp: read_file_def file_at_def sample_disk_def)

lemma sample_loads:
  "(\<And>p. p \<in> set ps \<Longrightarrow> rd p = Inr ''xx'') \<Longrightarrow>
   load_loop rd (list_decoder [a, b]) ps objs = Inr (objs @ concat (map (\<lambda>_. [a, b]) ps))"
proof (induction ps arbitrary: objs)
  case Nil
  then show ?case by simp
next
  case (Cons p ps)
  have "Parse (list_decoder [a, b]) ''xx'' = Inr [a, b]"
    by (simp add: Parse_def list_decoder_def eval_nat_numeral)
  with Cons show ?case by simp
qed

abbreviation sample_objects :: "obj list" where
  "sample_objects \<equiv> [sample_namespace, sample_role]"

lemma sample_role_accessors [simp]:
  "GetAPIVersion path_lib sample_role = ''rbac.authorization.k8s.io/v1''"
  "GroupVersionKind path_lib sample_role = WithKind rbacv1_gv kindRole"
  by (simp_all add: sample_role_def go_eval WithKind_def rbacv1_gv_def)

lemma sample_deduped:
  assumes "\<And>p. p \<in> set ps \<Longrightarrow> rd p = Inr ''xx''" and "ps \<noteq> []"
  shows "LoadDedupedObjects path_lib rd (list_decoder sample_objects) ps = Inr sample_objects"
proof -
  have ids: "objectIdentity path_lib sample_namespace \<noteq> objectIdentity path_lib sample_role"
    by (simp add: objectIdentity_def nul_def)
  have more: "first_by_aux (objectIdentity path_lib) [objectIdentity path_lib sample_role, objectIdentity path_lib sample_namespace]
      (concat (map (\<lambda>_. sample_objects) qs)) = []" for qs :: "string list"
    by (induction qs) simp_all
  have first: "first_by (objectIdentity path_lib) (concat (map (\<lambda>_. sample_objects) ps)) = sample_objects"
    using assms(2) ids more by (cases ps) (simp_all add: first_by_def)
  have "Manifests.Load rd (list_decoder sample_objects) ps = Inr (concat (map (\<lambda>_. sample_objects) ps))"
    unfolding Manifests.Load_def using sample_loads [where rd = rd and ps = ps and objs = "[]"] assms(1) by simp
  with ids first show ?thesis by (auto simp: LoadDeduped_iff)
qed

lemma sample_clean: "clean_manifests path_lib sample_objects"
  by (simp add: clean_manifests_def nul_def resourceFor_kinds WithKind_def)

lemma sample_applicable_in:
  assumes root: "root \<in> {''/m'', ''/templates/manifests''}"
  shows "applicable sample_platform sample_cfg sample_disk root"
  unfolding applicable_def
proof (intro exI [of _ sample_objects] conjI)
  have "ProviderManifestFiles root \<noteq> []" by (simp add: ProviderManifestFiles_def)
  then show "LoadDedupedObjects (pf_lib sample_platform) (read_file sample_disk) (pf_decoder sample_platform)
      (ProviderManifestFiles root) = Inr sample_objects"
    using sample_deduped [OF sample_read [OF root]] by (simp add: sample_platform_def)
  show "clean_manifests (pf_lib sample_platform) sample_objects" using sample_clean by (simp add: sample_platform_def)
  show "sample_objects = keepObjects (pf_lib sample_platform) (RestrictCAPIVersionsToV1Beta2 (pf_lib sample_platform) sample_objects)"
    using sample_kept by (simp add: sample_platform_def)
  show "RewriteRBACSubjects (pf_lib sample_platform) ManagerCNByNamespace sample_objects = Inr sample_objects"
    by (simp add: sample_platform_def RewriteRBACSubjects_def rewrite_object_def)
  show "\<forall>x \<in> set sample_objects \<union> set sample_objects. has_metadata x"
    by (simp add: has_metadata_def sample_namespace_def sample_role_def)
  have "webhook_batch sample_platform sample_cfg ca sample_objects = Inr []" for ca
    by (simp add: webhook_batch_def sample_platform_def WebhookObjects_def UnstructuredObjects_def RewriteAll_def)
  then show "\<forall>ca. \<exists>ws. webhook_batch sample_platform sample_cfg ca sample_objects = Inr ws \<and> list_all has_metadata ws"
    by simp
qed (simp add: sample_platform_def)

lemma sample_applicable: "applicable sample_platform sample_cfg sample_disk ''/m''"
  by (rule sample_applicable_in) simp

lemma sample_healthy: "healthy sample_platform mem_store same_content"
  using mem_client_ok mem_client_accepting
  by (simp add: healthy_def sample_platform_def sample_prober_def sample_status_def crdEstablished_def)

lemma sample_converter_ok: "converter_ok path_lib sample_converter"
  by (simp add: converter_ok_def sample_converter_def)

section \<open>Runs\<close>

abbreviation sample_site :: "mem_world site" where
  "sample_site \<equiv> (sample_world sample_disk, empty_server)"

lemma sample_mono: "clock_mono (sample_world fs)"
  by (simp add: clock_mono_def sample_world_def mono_def)

lemma sample_bind: "SplitHostPort (BindAddress sample_cfg) = Inr (''127.0.0.1'', ''6443'')" "list_all is_digit ''6443''"
  using SplitHostPort_plain [of "''127.0.0.1''" "''6443''"]
  by (simp_all add: sample_cfg_def is_digit_def byte_val_def)

lemma sample_cfg_names:
  "names_ok sample_pem (fst (apiserverSANs ''127.0.0.1'') @ fst (hypervisorWebhookSANs (HypervisorWebhookHost sample_cfg)))"
  by (cases "ParseIP ''host.containers.internal''")
    (simp_all add: names_ok_def sample_pem_def is_IA5_def byte_val_def apiserverSANs_def hypervisorWebhookSANs_def
      ParseIP_loopback sample_cfg_def pkiDefaultHypervisorWebhookHost_def appendUniqueDNS_def Let_def)

lemma sample_platform_sel [simp]:
  "pf_lib sample_platform = path_lib" "pf_pem sample_platform = sample_pem" "pf_converter sample_platform = sample_converter"
  "pf_prober sample_platform = sample_prober"
  "NewDynamic sample_platform rc = Inr mem_client" "SerializeKC sample_platform kc = Inr (sample_kubeconfig_text kc)"
  by (simp_all add: sample_platform_def)

lemma sample_state_paths:
  assumes "p \<in> ca_paths_of (pki_of sample_cfg) \<union> issued_paths (pki_of sample_cfg) \<union> \<Union> (owner_names sample_cfg ` set owners)"
  shows "prefix ''/s/'' p"
proof -
  consider "p \<in> ca_paths_of (pki_of sample_cfg) \<union> issued_paths (pki_of sample_cfg)" | x where "p \<in> owner_names sample_cfg x"
    using assms by blast
  then show ?thesis
  proof cases
    case 1
    then show ?thesis unfolding all_paths by (auto simp: sample_pki)
  next
    case 2
    then obtain e where "p = dir_prefix (StateDir sample_cfg) @ ''kubeconfigs'' @ e" using owner_names_shape by blast
    then show ?thesis by (simp add: sample_cfg_def dir_prefix_def is_rooted_def path_elems_def)
  qed
qed

lemma sample_paths_apart:
  "set (ProviderManifestFiles ''/m'') \<inter>
     (ca_paths_of (pki_of sample_cfg) \<union> issued_paths (pki_of sample_cfg) \<union> \<Union> (owner_names sample_cfg ` set owners)) = {}"
  using sample_state_paths by (fastforce simp: sample_manifest_files)

lemma image_paths_apart:
  "set (ProviderManifestFiles ''/templates/manifests'') \<inter>
     (ca_paths_of (pki_of sample_cfg) \<union> issued_paths (pki_of sample_cfg) \<union> \<Union> (owner_names sample_cfg ` set owners)) = {}"
  using sample_state_paths by (fastforce simp: image_manifest_files)

lemma sample_certs_apart:
  "set (ProviderManifestFiles ''/m'') \<inter> (ca_paths_of (pki_of sample_cfg) \<union> issued_paths (pki_of sample_cfg)) = {}"
  using sample_paths_apart by blast

lemma sample_no_authority: "file_data sample_disk (ca_cert_path (pki_of sample_cfg)) = None"
    "file_data sample_disk (ca_key_path (pki_of sample_cfg)) = None"
  using sample_disk_state by (simp_all add: file_data_def sample_pki)

lemma sample_serialised: "\<forall>kc. is_ok (Inr (sample_kubeconfig_text kc))"
  by (simp add: is_ok_iff)

lemmas sample_facts =
  sample_platform_sel sample_pem_ok path_lib_ok sample_converter_ok sample_load sample_settings sample_bind
  sample_cfg_names sample_mono sample_ready sample_room sample_no_authority sample_applicable sample_certs_apart
  sample_healthy sample_serialised prod.sel sample_files simp_thms

lemma sample_setup:
  obtains t where "setup_cmd sample_platform None sample_env sample_site = Some (Inr (), t)"
proof -
  have "\<exists>t w1. setup_cmd sample_platform None sample_env sample_site = Some (Inr (), t) \<and>
      kubeconfig_room sample_cfg (w_files (fst t)) \<and>
      within (ca_paths_of (pki_of sample_cfg) \<union> issued_paths (pki_of sample_cfg)) (fst sample_site) w1 \<and>
      complete (pf_pem sample_platform) (pki_of sample_cfg) (w_files w1) \<and>
      within (\<Union> (owner_names sample_cfg ` set owners)) w1 (fst t)"
    by (rule setup_succeeds_run [where cfg = sample_cfg and host = "''127.0.0.1''" and port = "''6443''" and root = "''/m''" and view = mem_store and same = same_content])
      (simp_all only: sample_facts)
  then show thesis using that by blast
qed


theorem setup_ready_witness:
  "\<exists>t. setup_cmd sample_platform None sample_env sample_site = Some (Inr (), t) \<and>
     kubeconfig_ready sample_pem (SerializeKC sample_platform) sample_cfg (w_files (fst t))
       (Admin (generated_inventory (pki_of sample_cfg))) (AdminKubeconfigPath sample_cfg)"
proof -
  obtain t where run: "setup_cmd sample_platform None sample_env sample_site = Some (Inr (), t)" by (rule sample_setup)
  from setup_ready [OF _ _ run] run show ?thesis by (auto simp: sample_pem_ok sample_mono sample_load)
qed

theorem setup_kubeconfigs_old_or_new_witness:
  "\<exists>r t. setup_cmd sample_platform (Some ''context canceled'') sample_env sample_site = Some (r, t) \<and>
     (file_at (w_files (fst t)) (AdminKubeconfigPath sample_cfg) = None \<or>
      (\<exists>data. file_at (w_files (fst t)) (AdminKubeconfigPath sample_cfg) = Some (0x180, data)))"
proof -
  obtain r t where run: "setup_cmd sample_platform (Some ''context canceled'') sample_env sample_site = Some (r, t)"
    using setup_always [of sample_site] sample_mono by fastforce
  have "prefix ''/s'' (AdminKubeconfigPath sample_cfg)"
    by (simp add: AdminKubeconfigPath_eq sample_cfg_def dir_prefix_def is_rooted_def path_elems_def)
  then have "file_at sample_disk (AdminKubeconfigPath sample_cfg) = None"
    using sample_disk_state by (simp add: file_at_def)
  with setup_kubeconfigs_old_or_new [OF _ sample_load _ run, of ComponentCore "AdminKubeconfigPath sample_cfg"] run
  show ?thesis by (auto simp: sample_mono)
qed

theorem setup_again_witness:
  "\<exists>t t' r. setup_cmd sample_platform None sample_env sample_site = Some (Inr (), t) \<and>
     setup_cmd sample_platform (Some ''context canceled'') sample_env (sample_world (w_files (fst t)), empty_server) = Some (r, t') \<and>
     file_at (w_files (fst t')) ''/s/pki/ca.crt'' = file_at (w_files (fst t)) ''/s/pki/ca.crt''"
proof -
  obtain t where run: "setup_cmd sample_platform None sample_env sample_site = Some (Inr (), t)" by (rule sample_setup)
  let ?s = "(sample_world (w_files (fst t)), empty_server)"
  obtain r t' where second: "setup_cmd sample_platform (Some ''context canceled'') sample_env ?s = Some (r, t')"
    using setup_always [of ?s] sample_mono by fastforce
  have "''/s/pki/ca.crt'' \<in> ca_paths_of (pki_of sample_cfg)" by (simp add: ca_paths_of_def sample_pki)
  then have "file_at (w_files (fst t')) ''/s/pki/ca.crt'' = file_at (w_files (fst t)) ''/s/pki/ca.crt''"
    by (intro setup_again [OF _ _ run sample_load _ _ _ second]) (simp_all add: sample_pem_ok sample_mono calm_halting sample_calm)
  with run second show ?thesis by blast
qed

lemma sample_no_webhooks: "webhook_batch sample_platform cfg ca kept = Inr ws \<Longrightarrow> ws = []"
proof -
  have none: "WebhookObjects path_lib sample_converter xs = Inr ts \<Longrightarrow> ts = []" for xs ts
    unfolding WebhookObjects_def
    by (induction xs arbitrary: ts) (auto simp: Let_def result_simps sample_converter_def split: if_splits)
  assume "webhook_batch sample_platform cfg ca kept = Inr ws"
  then obtain ts where ts: "WebhookObjects path_lib sample_converter kept = Inr ts"
    by (auto simp: webhook_batch_def bind_result_Inr_iff wrap_err_Inr_iff)
  then have "webhook_batch sample_platform cfg ca kept = Inr []"
    using none [OF ts] by (simp add: webhook_batch_def RewriteAll_def UnstructuredObjects_def)
  moreover assume "webhook_batch sample_platform cfg ca kept = Inr ws"
  ultimately show ?thesis by simp
qed

theorem setup_applied_witness:
  "\<exists>t y. setup_cmd sample_platform None sample_env sample_site = Some (Inr (), t) \<and>
     same_content (AdminClusterRoleBinding adminCN) y \<and>
     mem_store (snd t) (slot path_lib (AdminClusterRoleBinding adminCN)) = Some y"
proof -
  obtain t where run: "setup_cmd sample_platform None sample_env sample_site = Some (Inr (), t)" by (rule sample_setup)
  have lib: "k8s_lib_ok (pf_lib sample_platform)" by (simp add: path_lib_ok)
  have mono: "clock_mono (fst sample_site)" by (simp add: sample_mono)
  have client: "client_ok (pf_lib sample_platform) dyn mem_store same_content" if "NewDynamic sample_platform rc = Inr dyn" for rc dyn
    using that mem_client_ok by simp
  from setup_applied [OF lib mono run client] run sample_no_webhooks show ?thesis by fastforce
qed

theorem setup_no_missing_manager_witness:
  "\<exists>t. setup_cmd sample_platform (Some ''context canceled'') sample_env sample_site =
       Some (Inl (GenerateCertificates (ContextDone ''context canceled'')), t) \<and>
     GenerateCertificates (ContextDone ''context canceled'') \<noteq> NoManagerCertificate ComponentCore"
proof -
  have "setup_begin sample_platform (Some ''context canceled'') sample_env (fst sample_site) =
      (Inl (GenerateCertificates (ContextDone ''context canceled'')), fst sample_site)"
    by (simp add: setup_begin_def sample_load sample_settings act_bind_lift Generate_def act_bind_def act_wrap_def)
  then have run: "setup_cmd sample_platform (Some ''context canceled'') sample_env sample_site =
      Some (Inl (GenerateCertificates (ContextDone ''context canceled'')), sample_site)"
    by (simp add: setup_cmd_def st_bind_def st_act_def on_machine_def)
  from setup_no_missing_manager [OF _ sample_load run, of ComponentCore] run show ?thesis by (auto simp: sample_mono)
qed

theorem WriteKubeconfigFile_atomic_witness:
  "\<exists>v. WriteKubeconfigFile (\<lambda>_. Inr ''x'') (BuildKubeconfig [] [] [] []) (AdminKubeconfigPath sample_cfg) (sample_world sample_disk) =
       (Inr (), v) \<and> w_files v (AdminKubeconfigPath sample_cfg) = Some (FileNode 0x180 ''x'')"
proof -
  have x: "owner_path sample_cfg None = Some (AdminKubeconfigPath sample_cfg)" by (simp add: owner_path_def)
  have "None \<in> set owners" by (simp add: owners_def)
  from WriteKubeconfigFile_calm [OF x _ _ this, of "sample_world sample_disk" "\<lambda>_. Inr ''x''"] sample_room obtain v
    where run: "WriteKubeconfigFile (\<lambda>_. Inr ''x'') (BuildKubeconfig [] [] [] []) (AdminKubeconfigPath sample_cfg)
      (sample_world sample_disk) = (Inr (), v)" by auto
  from WriteKubeconfigFile_atomic [where serialize = "\<lambda>_. Inr ''x''", OF _ _ run] run show ?thesis by auto
qed

theorem WaitForCRDEstablished_correct_witness:
  "\<exists>r t. WaitForCRDEstablished sample_status [''a''] 1 sample_site = Some (r, t) \<and> w_files (fst t) = sample_disk"
proof -
  from WaitForCRDEstablished_correct [of sample_site "[''a'']" sample_status 1] show ?thesis
    by (auto simp: sample_mono)
qed

theorem WaitForAPIServer_correct_witness:
  "\<exists>r t. WaitForAPIServer sample_prober ''https://127.0.0.1:6443/healthz'' ''/s/pki/ca.crt'' ''/s/pki/admin.crt''
       ''/s/pki/admin.key'' 1 sample_site = Some (r, t) \<and> w_files (fst t) = sample_disk"
proof -
  from WaitForAPIServer_correct [of sample_site sample_prober "''https://127.0.0.1:6443/healthz''" "''/s/pki/ca.crt''"
      "''/s/pki/admin.crt''" "''/s/pki/admin.key''" 1] show ?thesis
    by (auto simp: sample_mono)
qed

end
