(* ===== verification/PodExamples.thy ===== *)
theory PodExamples
  imports SetupExamples Pod
begin

text \<open>The theorems of \<open>Pod\<close> on the machine of \<open>SetupExamples\<close>.\<close>

lemma sample_not_writable: "\<not> mounted sample_cfg ComponentSetup ''rw'' ''/s/pki/ca.crt''"
proof -
  have dp: "dir_prefix ''/s'' = ''/s/''" by (simp add: dir_prefix_def is_rooted_def path_elems_def)
  have "PathJoin [''/s'', m] = ''/s/'' @ m" if "plain_rel m" for m
    using PathJoin_plain [OF that] dp by simp
  then show ?thesis
    by (simp add: mounted_def sample_cfg_def unit_spec_of_def component_ids plain_rel_def plain_elem_def HasPrefix_def)
qed

theorem containers_respect_mounts_witness:
  "\<exists>v r t. Generate sample_pem None sample_config (sample_world Map.empty) = (Inr (generated_inventory sample_config), v) \<and>
     setup_cmd sample_platform None sample_env (sample_world (w_files v), empty_server) = Some (r, t) \<and>
     file_at (w_files (fst t)) ''/s/pki/ca.crt'' = file_at (w_files v) ''/s/pki/ca.crt''"
proof -
  obtain v where pki: "Generate sample_pem None sample_config (sample_world Map.empty) =
      (Inr (generated_inventory sample_config), v)"
    using sample_generate [OF sample_unobstructed] by (auto simp: file_data_def)
  let ?s = "(sample_world (w_files v), empty_server)"
  obtain r t where run: "setup_cmd sample_platform None sample_env ?s = Some (r, t)"
    using setup_always [of ?s] sample_mono by fastforce
  have "PkiStateDir sample_config = StateDir sample_cfg" by (simp add: sample_config_def sample_cfg_def)
  from containers_respect_mounts [where w = "sample_world Map.empty" and v = v and inven = "generated_inventory sample_config" and
      c = None and u = "sample_world Map.empty" and p = "''/s/pki/ca.crt''", OF _ sample_load _ this _ _ _ run]
  have "file_at (w_files (fst t)) ''/s/pki/ca.crt'' = file_at (w_files v) ''/s/pki/ca.crt''"
    using pki sample_not_writable by (auto simp: sample_pem_ok sample_mono calm_halting sample_calm)
  with pki run show ?thesis by blast
qed

end
