(* ===== verification/CliExamples.thy ===== *)
theory CliExamples
  imports Boot PodExamples
begin

text \<open>The theorems about the command line on the machine and the platform of \<open>SetupExamples\<close>.\<close>

theorem parse_flags_reads_back_witness:
  "parse_flags [''dir'' \<mapsto> StringFlag []] [''--dir'', ''-x'', ''-dir=a=b'', ''--'', ''--dir=c''] =
     Inr ([''dir'' \<mapsto> StringFlag ''a=b''], [''--dir=c''])"
  using parse_flags_reads_back [where fs = "[''dir'' \<mapsto> StringFlag []]" and rest = "[''--dir=c'']" and
      us = "[\<lparr>fu_two = True, fu_attached = False, fu_name = ''dir'', fu_value = ''-x''\<rparr>,
             \<lparr>fu_two = False, fu_attached = True, fu_name = ''dir'', fu_value = ''a=b''\<rparr>]"]
  by (simp add: show_flag_def flag_name_def)

lemma sample_out: "prefix ''/out'' p \<Longrightarrow> sample_disk p = None"
  by (auto simp: sample_disk_def sample_manifest_files image_manifest_files prefix_Cons)

lemma sample_out_prefix: "dir_prefix ''/out'' = ''/out/''" "Clean ''/out'' = ''/out''"
  by (simp_all add: dir_prefix_def Clean_def is_rooted_def path_elems_def)

lemma sample_out_free: "n \<in> set unit_names \<Longrightarrow> sample_disk (PathJoin [''/out'', n]) = None \<and> PathJoin [''/out'', n] \<noteq> ''/'' \<and> PathJoin [''/out'', n] \<noteq> ''.''"
  by (simp add: unit_path sample_out_prefix sample_out)

lemma sample_renders:
  "\<forall>q \<in> set (path_chain ''/out''). file_data sample_disk q = None"
  "\<forall>n \<in> set unit_names. \<not> is_dir sample_disk (PathJoin [''/out'', n])"
  using sample_out [of "''/out''"] sample_out_free by (auto simp: path_chain_def file_data_def is_dir_def)

theorem render_quadlet_command_witness:
  "\<exists>t. run sample_platform None sample_env [''render-quadlet'', ''--dir'', ''/out''] sample_site =
       Some (\<lparr>exit_code = 0, stdout = ''rendered 9 quadlet units into /out'' @ [CHR 0x0A], stderr = []\<rparr>, t) \<and>
     file_at (w_files (fst t)) ''/out/capishim.pod'' =
       Some (0x1A4, lines_of [''[Pod]'', ''PublishPort=127.0.0.1:6443:6443'', ''ExitPolicy=continue'', ''''])"
proof -
  have shown: "show_flag \<lparr>fu_two = True, fu_attached = False, fu_name = ''dir'', fu_value = ''/out''\<rparr> = [''--dir'', ''/out'']"
    by (simp add: show_flag_def)
  have pod: "(''capishim.pod'', lines_of [''[Pod]'', ''PublishPort=127.0.0.1:6443:6443'', ''ExitPolicy=continue'', '''']) \<in>
      set (expected_units \<lparr>in_Config = sample_cfg, in_Version = imageVersion sample_env\<rparr>)"
    by (simp add: expected_units_def podUnitName_def sample_cfg_def)
  have path: "PathJoin [''/out'', ''capishim.pod''] = ''/out/capishim.pod''"
    using unit_path [of "''capishim.pod''" "''/out''"] by (simp add: unit_names_values sample_out_prefix)
  have mode: "written_mode (sample_world sample_disk) ''/out/capishim.pod'' = 0x1A4"
    using sample_out [of "''/out/capishim.pod''"] by (simp add: written_mode_def file_at_def unitFileMode_def sample_world_def)
  from render_quadlet_command [where s = sample_site and two = True and attached = False and P = sample_platform and info = None,
      OF sample_load _ sample_out_prefix(2) _ _ _] sample_renders pod path mode
  show ?thesis unfolding shown by (fastforce simp: succeed_def line_def exitOK_def)
qed


theorem unknown_subcommand_succeeds_witness:
  "run sample_platform None sample_env [''stup''] sample_site = Some (\<lparr>exit_code = 0, stdout = [], stderr = []\<rparr>, sample_site)"
  by (rule unknown_subcommand_succeeds) simp_all

theorem renderQuadlet_writes_witness:
  "\<exists>units v. renderQuadlet ''/out'' sample_env (sample_world sample_disk) = (Inr units, v) \<and> card (dom units) = 9 \<and>
     file_at (w_files v) ''/m/core/provider.yaml'' = Some (0x1A4, ''xx'')"
proof -
  obtain units v where run: "renderQuadlet ''/out'' sample_env (sample_world sample_disk) = (Inr units, v)"
    using renderQuadlet_run [OF sample_load _ sample_out_prefix(2), of "sample_world sample_disk"] sample_renders by auto
  have apart: "''/m/core/provider.yaml'' \<notin> (\<lambda>name. PathJoin [''/out'', name]) ` set unit_names"
    by (auto simp: unit_path sample_out_prefix)
  have "sample_disk ''/m/core/provider.yaml'' = Some (FileNode 0x1A4 ''xx'')"
    by (simp add: sample_disk_def sample_manifest_files)
  with renderQuadlet_writes [OF run] apart have "dom units = set unit_names"
    "file_at (w_files v) ''/m/core/provider.yaml'' = Some (0x1A4, ''xx'')" by (auto simp: file_at_def)
  with run unit_count show ?thesis by auto
qed

end
