(* ===== verification/PodBootExamples.thy ===== *)
theory PodBootExamples
  imports PodLive PodTrust PodCrash CliExamples
begin

text \<open>The theorems of \<open>PodBoot\<close>, \<open>PodLive\<close>, \<open>PodKeeps\<close>, \<open>PodTrust\<close> and \<open>PodCrash\<close> on the machine and the platform of \<open>SetupExamples\<close>.\<close>

lemma sample_unit_config: "in_Config sample_unit_input = sample_cfg"
  by (simp add: sample_unit_input_def sample_cfg_def)

lemma sample_host_default: "sample_cfg\<lparr>HypervisorWebhookHost := defaultHypervisorWebhookHost\<rparr> = sample_cfg"
  by (simp add: sample_cfg_def defaultHypervisorWebhookHost_def)

lemma sample_state_trimmed: "trimmed (StateDir sample_cfg)"
  by (simp add: sample_cfg_def trimmed_def leading_rune_def space_runes_def)

lemma sample_default_names:
  "names_ok sample_pem (fst (apiserverSANs ''127.0.0.1'') @ fst (hypervisorWebhookSANs defaultHypervisorWebhookHost))"
  using sample_cfg_names by (simp add: sample_cfg_def defaultHypervisorWebhookHost_def)

lemma image_applicable: "applicable sample_platform sample_cfg sample_disk defaultManifestsDir"
  by (rule sample_applicable_in) (simp add: defaultManifestsDir_def)

lemmas sample_pod_facts = sample_unit_config sample_host_default sample_state_trimmed sample_default_names image_applicable
  image_paths_apart [folded defaultManifestsDir_def]

abbreviation empty_pod :: "mem_world pod" where
  "empty_pod \<equiv> \<lparr>up = {}, disk = sample_world sample_disk, api = empty_server\<rparr>"

lemma sample_served: "pod_served sample_platform mem_store same_content (in_Config sample_unit_input)"
  using sample_bind sample_default_names
  by (auto simp: pod_served_def sample_unit_config sample_healthy sample_serialised)

lemma sample_bootable:
  "bootable sample_platform (in_Config sample_unit_input\<lparr>HypervisorWebhookHost := defaultHypervisorWebhookHost\<rparr>)
     defaultManifestsDir (sample_world sample_disk)"
  unfolding bootable_def by (simp only: sample_facts sample_pod_facts)

lemma sample_manifests_apart: "manifests_apart (in_Config sample_unit_input)"
proof -
  have "dir_prefix ''/s'' = ''/s/''" by code_simp
  then show ?thesis
    by (simp add: manifests_apart_def sample_unit_input_def defaultManifestsDir_def image_manifest_files HasPrefix_def)
qed

lemma sample_input_facts:
  "pem_ok (pf_pem sample_platform)" "k8s_lib_ok (pf_lib sample_platform)"
  "converter_ok (pf_lib sample_platform) (pf_converter sample_platform)"
  "Config.Load sample_env = Inr (in_Config sample_unit_input)" "trimmed (StateDir (in_Config sample_unit_input))"
  by (simp_all only: sample_facts sample_pod_facts)

lemma sample_live: "pod_live sample_platform (in_Config sample_unit_input) empty_pod"
  using sample_bootable by (simp add: pod_live_def)

text \<open>The first step: pki runs.\<close>

lemma sample_pki_up:
  obtains s where "boot sample_platform None sample_unit_input empty_pod s" and "up s = {ComponentPKI}"
proof -
  have "ComponentPKI \<in> ID ` set pod_components" unfolding unit_order by simp
  then obtain spec where spec: "spec \<in> set pod_components" "ID spec = ComponentPKI" by (metis imageE)
  have start: "may_start (up empty_pod) spec" "oneshot spec"
    by (simp_all add: may_start_def oneshot_def spec unit_spec_of_def component_ids)
  obtain x w c where
    pki: "run sample_platform None (unit_environment (in_Config sample_unit_input) (ID spec)) (unit_args sample_unit_input spec)
      (disk empty_pod, api empty_pod) = Some (x, (w, c))" and ok: "exit_code x = exitOK"
    using live_oneshot [OF sample_input_facts sample_served sample_live start, of None] by blast
  have "boot sample_platform None sample_unit_input empty_pod \<lparr>up = {ComponentPKI}, disk = w, api = c\<rparr>"
    using run_oneshot [OF start pki] ok spec(2) by simp
  then show thesis by (rule that) simp
qed


text \<open>From there the whole pod comes up, and trusts itself.\<close>

lemma sample_trust_path:
  obtains s t where "boot sample_platform None sample_unit_input empty_pod s" "ComponentPKI \<notin> up empty_pod" "ComponentPKI \<in> up s"
    "reaches sample_platform None sample_unit_input s t" "up t = ID ` set pod_components"
proof -
  obtain s where s: "boot sample_platform None sample_unit_input empty_pod s" and up: "up s = {ComponentPKI}" by (rule sample_pki_up)
  have "reaches sample_platform None sample_unit_input empty_pod s" using s by blast
  from live_reached [OF sample_input_facts sample_served sample_manifests_apart this sample_live] obtain t
    where "reaches sample_platform None sample_unit_input s t" "up t = ID ` set pod_components"
    using comes_up [OF sample_input_facts sample_served sample_manifests_apart, of _ None] by blast
  with s up show thesis by (intro that) simp_all
qed

lemma sample_fresh: "no_leaf_yet (pf_pem sample_platform) (in_Config sample_unit_input) (w_files (disk empty_pod))"
  by (auto simp: no_leaf_yet_def list_all_iff sample_unit_config sample_pki pair_on_disk_def cert_on_disk_def file_data_def
      sample_disk_state)


theorem pod_users_witness:
  "\<exists>t crt. reaches sample_platform None sample_unit_input empty_pod t \<and>
     cert_on_disk sample_pem (w_files (disk t)) (CertPath (Admin (generated_inventory (pki_of sample_cfg)))) = Some crt \<and>
     Subject crt = (''capishim:admin'', [])"
proof -
  obtain s t where step: "boot sample_platform None sample_unit_input empty_pod s" "ComponentPKI \<notin> up empty_pod" "ComponentPKI \<in> up s"
    and t: "reaches sample_platform None sample_unit_input s t" by (rule sample_trust_path)
  have machine: "calm (sample_world sample_disk)" "clock_mono (sample_world sample_disk)" by (simp_all add: sample_calm sample_mono)
  from pod_users [OF sample_input_facts(1,4,5) machine rtranclp.rtrancl_refl step sample_fresh reaches_survives [OF t]]
  obtain crt user where crt: "cert_on_disk sample_pem (w_files (disk t)) (CertPath (Admin (generated_inventory (pki_of sample_cfg)))) = Some crt"
    and user: "Subject crt = (user, [])" "subjects_of (AdminClusterRoleBinding adminCN) = [user_subject user]"
    unfolding sample_unit_config by auto
  have "subjects_of (AdminClusterRoleBinding adminCN) = [user_subject ''capishim:admin'']"
    by (simp add: subjects_of_def AdminClusterRoleBinding_def adminCN_def user_subject_def fieldSubjects_def)
  with user have "user = ''capishim:admin''" by (simp add: user_subject_def fun_eq_iff fieldName_def fieldKind_def split: if_splits)
  moreover have "reaches sample_platform None sample_unit_input empty_pod t" using step(1) t by (rule converse_rtranclp_into_rtranclp)
  ultimately show ?thesis using crt user(1) by blast
qed

lemma sample_pod_up:
  obtains s where "reaches sample_platform None sample_unit_input empty_pod s" and "up s = ID ` set pod_components"
  using comes_up [OF sample_input_facts sample_served sample_manifests_apart sample_live, of None] by blast


text \<open>The whole pod is stopped and comes up again.\<close>

theorem pod_keeps_its_files_witness:
  "\<exists>s u. reaches sample_platform None sample_unit_input empty_pod s \<and>
     reaches sample_platform None sample_unit_input (s\<lparr>up := {}\<rparr>) u \<and> ComponentSetup \<in> up u \<and>
     file_at (w_files (disk u)) ''/s/pki/ca.key'' = file_at (w_files (disk s)) ''/s/pki/ca.key'' \<and>
     file_at (w_files (disk u)) (AdminKubeconfigPath sample_cfg) = file_at (w_files (disk s)) (AdminKubeconfigPath sample_cfg)"
proof -
  obtain s where s: "reaches sample_platform None sample_unit_input empty_pod s" and up: "up s = ID ` set pod_components"
    by (rule sample_pod_up)
  have stopped: "boot sample_platform None sample_unit_input s (s\<lparr>up := {}\<rparr>)" by (rule boot.stop) simp_all
  with s have "reaches sample_platform None sample_unit_input empty_pod (s\<lparr>up := {}\<rparr>)" by simp
  from live_reached [OF sample_input_facts sample_served sample_manifests_apart this sample_live]
  obtain u where u: "reaches sample_platform None sample_unit_input (s\<lparr>up := {}\<rparr>) u" and again: "up u = ID ` set pod_components"
    using comes_up [OF sample_input_facts sample_served sample_manifests_apart, of _ None] by blast
  have "ComponentSetup \<in> ID ` set pod_components" "ComponentPKI \<in> ID ` set pod_components" unfolding unit_order by simp_all
  then have running: "ComponentSetup \<in> up u" "ComponentSetup \<in> up s" "ComponentPKI \<in> up s" by (simp_all add: up again)
  have su: "reaches sample_platform None sample_unit_input s u" using stopped u by (rule converse_rtranclp_into_rtranclp)
  have machine: "calm (sample_world sample_disk)" "clock_mono (sample_world sample_disk)"
    by (simp_all add: sample_calm sample_mono)
  have key: "''pki/ca.key'' \<in> set all_names" by (simp add: all_names_def ca_names_def)
  from pod_keeps_its_files [OF sample_input_facts(1,4,5) machine reaches_survives [OF s] reaches_survives [OF su]] running key
  have "file_at (w_files (disk u)) (artifact_path (pki_of sample_cfg) ''pki/ca.key'') =
      file_at (w_files (disk s)) (artifact_path (pki_of sample_cfg) ''pki/ca.key'')"
    "file_at (w_files (disk u)) (AdminKubeconfigPath sample_cfg) = file_at (w_files (disk s)) (AdminKubeconfigPath sample_cfg)"
    unfolding sample_unit_config by blast+
  with s u running(1) show ?thesis by (intro exI [of _ s] exI [of _ u]) (simp add: sample_pki)
qed

lemma sample_pki_runs:
  "\<exists>v. \<forall>c. run sample_platform None (unit_environment sample_cfg ComponentPKI) [''pki''] (sample_world sample_disk, c) =
     Some (succeed (pki_listing (generated_inventory (pki_of sample_cfg))), (v, c))"
proof -
  have "sample_cfg\<lparr>BindAddress := defaultBindAddress, HypervisorWebhookHost := defaultHypervisorWebhookHost\<rparr> = sample_cfg"
    by (simp add: sample_cfg_def defaultBindAddress_def defaultHypervisorWebhookHost_def)
  then have load: "Config.Load (unit_environment sample_cfg ComponentPKI) = Inr sample_cfg"
    using conjunct1 [OF unit_environment_loads [OF sample_load sample_state_trimmed]] by simp
  show ?thesis
    using pki_runs [OF _ load sample_bind(1) _ _ sample_bootable, of None] by (fastforce simp: sample_facts sample_pod_facts)
qed

text \<open>The pki container of the sample machine is killed, and the pod never comes up.\<close>

theorem killed_pod_is_lost_witness:
  "\<exists>s. crash sample_platform None sample_unit_input empty_pod s \<and>
     (\<forall>t. survives sample_platform None sample_unit_input s t \<longrightarrow> up t = {})"
proof -
  obtain v where run: "run sample_platform None (unit_environment (in_Config sample_unit_input) ComponentPKI) [''pki'']
      (sample_world sample_disk, empty_server) =
    Some (succeed (pki_listing (generated_inventory (pki_of sample_cfg))), (v, empty_server))"
    using sample_pki_runs unfolding sample_unit_config by blast
  show ?thesis
    by (rule killed_pod_is_lost [OF sample_input_facts(4,5) _ _ run])
      (simp_all add: sample_unit_config sample_no_authority succeed_def exitOK_def)
qed

text \<open>The API server is to be reached at 10.0.0.5: its certificate does not say so.\<close>

definition remote_env :: environment where
  "remote_env = [EnvStateDir \<mapsto> ''/s'', EnvBindAddress \<mapsto> ''10.0.0.5:6443'', EnvHypervisorWebhookHost \<mapsto> ''10.0.0.5'']"

definition remote_cfg :: config where
  "remote_cfg = \<lparr>StateDir = ''/s'', BindAddress = ''10.0.0.5:6443'', HypervisorWebhookHost = ''10.0.0.5''\<rparr>"

lemma remote_load: "Config.Load remote_env = Inr remote_cfg"
proof -
  have "SplitHostPort ''10.0.0.5:6443'' = Inr (''10.0.0.5'', ''6443'')"
    using SplitHostPort_plain [of "''10.0.0.5''" "''6443''"] by simp
  moreover have "TrimSpace ''10.0.0.5:6443'' = ''10.0.0.5:6443''" "TrimSpace ''10.0.0.5'' = ''10.0.0.5''"
    by (rule TrimSpace_id, simp add: trimmed_def leading_rune_def space_runes_def)+
  moreover have "Atoi ''6443'' = Some 6443" "\<not> ContainsAny ''10.0.0.5'' [CHR '' '', CHR 0x09]" by code_simp+
  ultimately show ?thesis
    by (simp add: Load_Inr_iff stateDirFromEnv_def bindAddressFromEnv_def hypervisorWebhookHostFromEnv_def env_get_def
      remote_env_def remote_cfg_def sample_trim EnvStateDir_def EnvBindAddress_def EnvHypervisorWebhookHost_def
      validateBindAddress_def minPort_def maxPort_def)
qed

theorem pki_unit_certificates_witness:
  "\<exists>v server. run sample_platform None (unit_environment remote_cfg ComponentPKI) [''pki''] sample_site =
       Some (succeed (pki_listing (generated_inventory (pki_of sample_cfg))), (v, empty_server)) \<and>
     cert_on_disk sample_pem (w_files v) ''/s/pki/apiserver.crt'' = Some server \<and> IPAddresses server = [loopback_ip]"
proof -
  have env: "unit_environment remote_cfg ComponentPKI = [EnvStateDir \<mapsto> ''/s'']"
    by (simp add: unit_environment_values remote_cfg_def)
  have tr: "trimmed (StateDir remote_cfg)" using sample_state_trimmed by (simp add: sample_cfg_def remote_cfg_def)
  have "unit_environment sample_cfg ComponentPKI = [EnvStateDir \<mapsto> ''/s'']"
    by (simp add: unit_environment_values sample_cfg_def)
  then obtain v where run: "run sample_platform None [EnvStateDir \<mapsto> ''/s''] [''pki''] sample_site =
       Some (succeed (pki_listing (generated_inventory (pki_of sample_cfg))), (v, empty_server))"
    using sample_pki_runs by metis
  have art: "CertPath (APIServer (generated_inventory (pki_of remote_cfg))) = ''/s/pki/apiserver.crt''" by code_simp
  have fresh: "\<not> pair_on_disk sample_pem sample_disk p q" if "prefix ''/s'' p" for p q
    using sample_disk_state [of p] that by (simp add: pair_on_disk_def cert_on_disk_def file_data_def)
  have web: "hypervisorWebhookPaths (StateDir remote_cfg) = (''/s/webhook-certs/hypervisor/tls.crt'', ''/s/webhook-certs/hypervisor/tls.key'')"
    by code_simp
  have "\<exists>server hook. cert_on_disk (pf_pem sample_platform) (w_files v) (CertPath (APIServer (generated_inventory (pki_of remote_cfg)))) = Some server \<and>
      DNSNames server = [''localhost''] \<and> IPAddresses server = [loopback_ip] \<and>
      cert_on_disk (pf_pem sample_platform) (w_files v) ''/s/webhook-certs/hypervisor/tls.crt'' = Some hook \<and>
      DNSNames hook = [''localhost'', ''host.containers.internal''] \<and> IPAddresses hook = [loopback_ip]"
    by (rule pki_unit_certificates [OF _ remote_load tr run [folded env] _ web])
      (simp_all add: sample_facts fresh art)
  then show ?thesis using run env art by auto
qed

end
